(* ===== verification/Prelude.thy ===== *)
theory Prelude
  imports Main "HOL-Library.Word" "HOL-Library.Char_ord" "HOL-Library.List_Lexorder"
begin

text \<open>
  Shared vocabulary of the development: the names of the model's basic types, the
  collections of rewrite rules the component theories extend, and generic lemmas on
  lists, options and 64-bit words that several components use.

  A Go \<^verbatim>\<open>string\<close> and a Go \<^verbatim>\<open>[]byte\<close> are both lists of Isabelle characters, which are
  exactly 8-bit values; \<open>byte_val\<close> reads one as a number. A Go \<^verbatim>\<open>uint64\<close> is a
  \<open>64 word\<close>, so that additions wrap the way the code's do. A Go \<^verbatim>\<open>int\<close> is an \<open>int\<close>
  where the code never comes near the 64-bit bound.
\<close>

type_synonym byte = char
type_synonym bytes = "char list"
type_synonym u64 = "64 word"

abbreviation byte_val :: "byte \<Rightarrow> nat" where
  "byte_val c \<equiv> of_char c"

abbreviation ESC :: byte where
  "ESC \<equiv> CHR 0x1B"

abbreviation BEL :: byte where
  "BEL \<equiv> CHR 0x07"

abbreviation NUL :: byte where
  "NUL \<equiv> CHR 0x00"

abbreviation backslash :: byte where
  "backslash \<equiv> CHR 0x5C"

abbreviation quote :: byte where
  "quote \<equiv> CHR 0x22"

named_theorems wf_intros \<open>every operation keeps the invariant of its component\<close>
named_theorems go_simps \<open>evaluation rules of the modelled Go library functions\<close>

subsection \<open>Lists\<close>

text \<open>The Go slice expression \<^verbatim>\<open>xs[a:b]\<close>.\<close>

definition slice :: "nat \<Rightarrow> nat \<Rightarrow> 'a list \<Rightarrow> 'a list" where
  "slice a b xs = take (b - a) (drop a xs)"

lemma slice_same [simp]: "slice a a xs = []"
  by (simp add: slice_def)

lemma slice_append_slice:
  assumes "a \<le> b" and "b \<le> c"
  shows "slice a b xs @ slice b c xs = slice a c xs"
proof -
  have "take (b - a) (drop a xs) @ take (c - b) (drop b xs)
      = take (b - a) (drop a xs) @ take (c - b) (drop (b - a) (drop a xs))"
    using assms(1) by (simp add: drop_drop)
  also have "\<dots> = take ((b - a) + (c - b)) (drop a xs)"
    by (simp only: take_add)
  also have "(b - a) + (c - b) = c - a"
    using assms by simp
  finally show ?thesis by (simp add: slice_def)
qed

lemma slice_to_end: "length xs \<le> b \<Longrightarrow> slice a b xs = drop a xs"
  by (simp add: slice_def)

lemma slice_from_start [simp]: "slice 0 b xs = take b xs"
  by (simp add: slice_def)

lemma slice_append_left: "b \<le> length xs \<Longrightarrow> slice a b (xs @ ys) = slice a b xs"
  by (cases "a \<le> b") (simp_all add: slice_def)

lemma length_slice [simp]: "length (slice a b xs) = min (b - a) (length xs - a)"
  by (simp add: slice_def)

lemma nth_slice: "a + i < b \<Longrightarrow> b \<le> length xs \<Longrightarrow> slice a b xs ! i = xs ! (a + i)"
  by (simp add: slice_def)

lemma drop_eq_slice_append:
  "a \<le> b \<Longrightarrow> drop a xs = slice a b xs @ drop b xs"
  by (metis append_take_drop_id drop_drop le_add_diff_inverse2 slice_def)

text \<open>A left-to-right scan that stops at the first element with a property.\<close>

fun find_index :: "('a \<Rightarrow> bool) \<Rightarrow> 'a list \<Rightarrow> nat option" where
  "find_index p [] = None"
| "find_index p (x # xs) = (if p x then Some 0 else map_option Suc (find_index p xs))"

lemma find_index_None: "find_index p xs = None \<longleftrightarrow> (\<forall>x \<in> set xs. \<not> p x)"
  by (induction xs) auto

lemma find_index_Some:
  "find_index p xs = Some i \<longleftrightarrow> i < length xs \<and> p (xs ! i) \<and> (\<forall>j < i. \<not> p (xs ! j))"
proof (induction xs arbitrary: i)
  case Nil
  then show ?case by simp
next
  case (Cons x xs)
  show ?case
  proof (cases i)
    case 0
    then show ?thesis by auto
  next
    case (Suc k)
    have split: "(\<forall>j < Suc k. \<not> p ((x # xs) ! j)) \<longleftrightarrow> \<not> p x \<and> (\<forall>j < k. \<not> p (xs ! j))"
      by (simp add: All_less_Suc2)
    show ?thesis
      unfolding Suc split by (auto simp: Cons.IH)
  qed
qed

lemma find_index_append:
  "find_index p (xs @ ys) =
     (case find_index p xs of Some i \<Rightarrow> Some i
      | None \<Rightarrow> map_option (\<lambda>i. length xs + i) (find_index p ys))"
proof (induction xs)
  case Nil
  then show ?case by (cases "find_index p ys") simp_all
next
  case (Cons x xs)
  then show ?case by (cases "find_index p xs"; cases "find_index p ys") simp_all
qed

subsection \<open>64-bit words\<close>

lemma unat_u64_less: "unat (w :: u64) < 2 ^ 64"
  using unsigned_less [of w] by simp

lemma unat_of_nat_u64: "n < 2 ^ 64 \<Longrightarrow> unat (of_nat n :: u64) = n"
  by (simp add: unat_of_nat)

lemma unat_add_u64:
  "unat a + unat b < 2 ^ 64 \<Longrightarrow> unat (a + b :: u64) = unat a + unat b"
  by (simp add: unat_word_ariths)

lemma unat_sub_u64: "b \<le> a \<Longrightarrow> unat (a - b :: u64) = unat a - unat b"
  by (rule unat_sub)

lemma unat_Suc_u64: "(w :: u64) + 1 \<noteq> 0 \<Longrightarrow> unat (w + 1) = Suc (unat w)"
  by (metis add.commute unatSuc)

lemma less_u64_plus_one: "(w :: u64) + 1 \<noteq> 0 \<Longrightarrow> w < w + 1"
  by (simp add: word_less_nat_alt unat_Suc_u64)

lemma less_u64_Suc_nonzero: "(w :: u64) < v \<Longrightarrow> w + 1 \<noteq> 0"
  by (auto simp flip: eq_neg_iff_add_eq_0)

text \<open>A Go \<^verbatim>\<open>int\<close> result where the code can overflow: two's complement in 64 bits.\<close>

definition wrap64 :: "int \<Rightarrow> int" where
  "wrap64 z = (z + 2 ^ 63) mod 2 ^ 64 - 2 ^ 63"

lemma wrap64_id: "- (2 ^ 63) \<le> z \<Longrightarrow> z < 2 ^ 63 \<Longrightarrow> wrap64 z = z"
  by (simp add: wrap64_def)

lemmas u64_arith = word_less_nat_alt word_le_nat_alt unat_of_nat_u64

end
