(* ===== verification/Go_Strings.thy ===== *)
theory Go_Strings
  imports Prelude
begin

text \<open>
  The part of Go's \<^verbatim>\<open>strings\<close>, \<^verbatim>\<open>bytes\<close>, \<^verbatim>\<open>strconv\<close> and \<^verbatim>\<open>path/filepath\<close> packages that the
  program calls, as executable functions on byte lists. An index that Go reports as
  \<^verbatim>\<open>-1\<close> is \<open>None\<close> here; an error of \<^verbatim>\<open>strconv\<close> is \<open>None\<close>, since no caller looks at its
  kind. Unicode matters in three places. \<^verbatim>\<open>TrimSpace\<close> removes the UTF-8 encodings of
  every Unicode white-space rune; \<^verbatim>\<open>ToLower\<close> on a string with a non-ASCII byte is left
  to a parameter; \<^verbatim>\<open>EqualFold\<close> is modelled against an ASCII constant.
\<close>

section \<open>Searching, splitting and trimming\<close>

text \<open>\<^verbatim>\<open>strings.IndexByte\<close>, \<^verbatim>\<open>bytes.IndexByte\<close>.\<close>

definition IndexByte :: "bytes \<Rightarrow> byte \<Rightarrow> nat option" where
  "IndexByte s c = find_index (\<lambda>x. x = c) s"

fun hasPrefix :: "bytes \<Rightarrow> bytes \<Rightarrow> bool" where
  "hasPrefix [] s = True"
| "hasPrefix (p # ps) [] = False"
| "hasPrefix (p # ps) (x # xs) = (p = x \<and> hasPrefix ps xs)"

definition hasSuffix :: "bytes \<Rightarrow> bytes \<Rightarrow> bool" where
  "hasSuffix q s = hasPrefix (rev q) (rev s)"

text \<open>\<^verbatim>\<open>strings.Index\<close>, \<^verbatim>\<open>bytes.Index\<close>: the first occurrence of a non-empty pattern.\<close>

fun Index :: "bytes \<Rightarrow> bytes \<Rightarrow> nat option" where
  "Index [] sub = None"
| "Index (x # xs) sub =
     (if hasPrefix sub (x # xs) then Some 0 else map_option Suc (Index xs sub))"

definition TrimPrefix :: "bytes \<Rightarrow> bytes \<Rightarrow> bytes" where
  "TrimPrefix s q = (if hasPrefix q s then drop (length q) s else s)"

definition TrimSuffix :: "bytes \<Rightarrow> bytes \<Rightarrow> bytes" where
  "TrimSuffix s q = (if hasSuffix q s then take (length s - length q) s else s)"

text \<open>\<^verbatim>\<open>strings.Split\<close> with a one-byte separator: always at least one part.\<close>

fun Split :: "bytes \<Rightarrow> byte \<Rightarrow> bytes list" where
  "Split [] c = [[]]"
| "Split (x # xs) c =
     (if x = c then [] # Split xs c
      else case Split xs c of [] \<Rightarrow> [[x]] | p # ps \<Rightarrow> (x # p) # ps)"

fun Join :: "bytes list \<Rightarrow> bytes \<Rightarrow> bytes" where
  "Join [] sep = []"
| "Join [x] sep = x"
| "Join (x # y # ys) sep = x @ sep @ Join (y # ys) sep"

text \<open>\<^verbatim>\<open>strings.Trim(s, cutset)\<close> with an ASCII cutset, and its left and right halves.\<close>

definition TrimLeft :: "bytes \<Rightarrow> byte list \<Rightarrow> bytes" where
  "TrimLeft s cs = dropWhile (\<lambda>c. c \<in> set cs) s"

definition TrimRight :: "bytes \<Rightarrow> byte list \<Rightarrow> bytes" where
  "TrimRight s cs = rev (dropWhile (\<lambda>c. c \<in> set cs) (rev s))"

definition Trim :: "bytes \<Rightarrow> byte list \<Rightarrow> bytes" where
  "Trim s cs = TrimRight (TrimLeft s cs) cs"

text \<open>
  \<^verbatim>\<open>strings.TrimSpace\<close>. The UTF-8 encodings of the Unicode white-space runes: the six
  ASCII ones, U+0085, U+00A0, U+1680, U+2000 to U+200A, U+2028, U+2029, U+202F,
  U+205F and U+3000.
\<close>

definition space_encodings :: "bytes list" where
  "space_encodings =
     map (\<lambda>c. [c]) [CHR 0x09, CHR 0x0A, CHR 0x0B, CHR 0x0C, CHR 0x0D, CHR 0x20]
     @ [[CHR 0xC2, CHR 0x85], [CHR 0xC2, CHR 0xA0], [CHR 0xE1, CHR 0x9A, CHR 0x80]]
     @ map (\<lambda>c. [CHR 0xE2, CHR 0x80, c])
         [CHR 0x80, CHR 0x81, CHR 0x82, CHR 0x83, CHR 0x84, CHR 0x85, CHR 0x86,
          CHR 0x87, CHR 0x88, CHR 0x89, CHR 0x8A, CHR 0xA8, CHR 0xA9, CHR 0xAF]
     @ [[CHR 0xE2, CHR 0x81, CHR 0x9F], [CHR 0xE3, CHR 0x80, CHR 0x80]]"

definition leading :: "bytes list \<Rightarrow> bytes \<Rightarrow> bytes option" where
  "leading encs s = List.find (\<lambda>e. e \<noteq> [] \<and> hasPrefix e s) encs"

lemma hasPrefix_length: "hasPrefix q s \<Longrightarrow> length q \<le> length s"
  by (induction q s rule: hasPrefix.induct) auto

lemma leading_Some:
  "leading encs s = Some e \<Longrightarrow> e \<in> set encs \<and> e \<noteq> [] \<and> hasPrefix e s"
  by (auto simp: leading_def find_Some_iff)

lemma leading_shorter: "leading encs s = Some e \<Longrightarrow> length s - length e < length s"
  by (metis diff_less hasPrefix_length leading_Some length_greater_0_conv less_le_trans)

function trim_encodings :: "bytes list \<Rightarrow> bytes \<Rightarrow> bytes" where
  "trim_encodings encs s =
     (case leading encs s of None \<Rightarrow> s
      | Some e \<Rightarrow> trim_encodings encs (drop (length e) s))"
  by pat_completeness auto
termination
  by (relation "measure (\<lambda>(encs, s). length s)")
    (auto dest: leading_shorter)

declare trim_encodings.simps [simp del]

definition TrimSpace :: "bytes \<Rightarrow> bytes" where
  "TrimSpace s =
     rev (trim_encodings (map rev space_encodings)
            (rev (trim_encodings space_encodings s)))"

section \<open>Letter case\<close>

definition lower_ascii :: "byte \<Rightarrow> byte" where
  "lower_ascii c =
     (if CHR ''A'' \<le> c \<and> c \<le> CHR ''Z'' then char_of (byte_val c + 32) else c)"

definition is_ascii :: "bytes \<Rightarrow> bool" where
  "is_ascii s = list_all (\<lambda>c. byte_val c < 128) s"

text \<open>\<open>uni\<close> is what \<^verbatim>\<open>strings.ToLower\<close> does to a string with a non-ASCII byte.\<close>

definition ToLower :: "(bytes \<Rightarrow> bytes) \<Rightarrow> bytes \<Rightarrow> bytes" where
  "ToLower uni s = (if is_ascii s then map lower_ascii s else uni s)"

text \<open>
  \<^verbatim>\<open>strings.EqualFold(s, t)\<close> for an ASCII \<open>t\<close> without the letter k. Of the letters of
  such a \<open>t\<close> only \<^verbatim>\<open>s\<close> has a non-ASCII rune in its folding orbit, U+017F (bytes C5 BF).
\<close>

fun fold_long_s :: "bytes \<Rightarrow> bytes" where
  "fold_long_s (a # b # xs) =
     (if a = CHR 0xC5 \<and> b = CHR 0xBF then CHR ''s'' # fold_long_s xs
      else a # fold_long_s (b # xs))"
| "fold_long_s xs = xs"

definition EqualFold :: "bytes \<Rightarrow> bytes \<Rightarrow> bool" where
  "EqualFold s t = (map lower_ascii (fold_long_s s) = map lower_ascii t)"

section \<open>Numbers\<close>

text \<open>The value of one digit as \<^verbatim>\<open>strconv\<close> reads it, in any base up to 36.\<close>

definition digit_val :: "byte \<Rightarrow> nat option" where
  "digit_val c =
     (if CHR ''0'' \<le> c \<and> c \<le> CHR ''9'' then Some (byte_val c - 48)
      else if CHR ''a'' \<le> lower_ascii c \<and> lower_ascii c \<le> CHR ''z''
           then Some (byte_val (lower_ascii c) - 97 + 10)
      else None)"

fun parse_digits :: "nat \<Rightarrow> nat \<Rightarrow> bytes \<Rightarrow> nat option" where
  "parse_digits base acc [] = Some acc"
| "parse_digits base acc (c # cs) =
     (case digit_val c of None \<Rightarrow> None
      | Some d \<Rightarrow> if d < base then parse_digits base (acc * base + d) cs else None)"

text \<open>\<^verbatim>\<open>strconv.ParseUint(s, base, bits)\<close> for a non-zero base.\<close>

definition ParseUint :: "bytes \<Rightarrow> nat \<Rightarrow> nat \<Rightarrow> u64 option" where
  "ParseUint s base bits =
     (if s = [] then None
      else case parse_digits base 0 s of None \<Rightarrow> None
           | Some n \<Rightarrow> if n < 2 ^ bits then Some (of_nat n) else None)"

text \<open>Decimal rendering: \<^verbatim>\<open>strconv.FormatUint(x, 10)\<close>, \<^verbatim>\<open>strconv.Itoa\<close>, \<^verbatim>\<open>%d\<close>, \<^verbatim>\<open>%020d\<close>.\<close>

definition digit_char :: "nat \<Rightarrow> byte" where
  "digit_char d = char_of (d + 48)"

fun dec :: "nat \<Rightarrow> bytes" where
  "dec n = (if n < 10 then [digit_char n] else dec (n div 10) @ [digit_char (n mod 10)])"

declare dec.simps [simp del]

definition FormatUint :: "u64 \<Rightarrow> bytes" where
  "FormatUint x = dec (unat x)"

definition Itoa :: "int \<Rightarrow> bytes" where
  "Itoa i = (if i < 0 then CHR ''-'' # dec (nat (- i)) else dec (nat i))"

definition dec_padded :: "nat \<Rightarrow> nat \<Rightarrow> bytes" where
  "dec_padded width n = replicate (width - length (dec n)) CHR ''0'' @ dec n"

text \<open>\<^verbatim>\<open>%q\<close>, for text that needs no escape: the value between double quotes.\<close>

definition Quote :: "bytes \<Rightarrow> bytes" where
  "Quote s = quote # s @ [quote]"

section \<open>Paths\<close>

text \<open>
  \<^verbatim>\<open>filepath.Clean\<close> on Unix, over the list of components between slashes: empty and dot
  components vanish, a dot-dot removes the component before it unless there is none.
\<close>

fun clean_step :: "bool \<Rightarrow> bytes list \<Rightarrow> bytes \<Rightarrow> bytes list" where
  "clean_step rooted st part =
     (if part = [] \<or> part = ''.'' then st
      else if part = ''..'' then
        (if st = [] then (if rooted then [] else [part])
         else if last st = ''..'' then st @ [part]
         else butlast st)
      else st @ [part])"

definition clean_components :: "bytes \<Rightarrow> bytes list" where
  "clean_components s =
     foldl (clean_step (hasPrefix ''/'' s)) [] (Split s CHR ''/'')"

definition Clean :: "bytes \<Rightarrow> bytes" where
  "Clean s =
     (let body = Join (clean_components s) ''/'' in
      if hasPrefix ''/'' s then CHR ''/'' # body
      else if body = [] then ''.'' else body)"

text \<open>\<^verbatim>\<open>filepath.Join(dir, elem)\<close>: empty elements are ignored, the result is cleaned.\<close>

definition filepath_Join :: "bytes \<Rightarrow> bytes \<Rightarrow> bytes" where
  "filepath_Join dir elem =
     (if dir = [] \<and> elem = [] then []
      else if dir = [] then Clean elem
      else if elem = [] then Clean dir
      else Clean (dir @ ''/'' @ elem))"

section \<open>Lemmas\<close>

lemma hasPrefix_iff: "hasPrefix q s \<longleftrightarrow> (\<exists>t. s = q @ t)"
  by (induction q s rule: hasPrefix.induct) auto

lemma hasPrefix_append [simp]: "hasPrefix q (q @ t)"
  by (auto simp: hasPrefix_iff)

lemma hasPrefix_append2: "hasPrefix q s \<Longrightarrow> hasPrefix q (s @ t)"
  by (auto simp: hasPrefix_iff)

lemma hasPrefix_take: "hasPrefix q s \<Longrightarrow> take (length q) s = q"
  by (auto simp: hasPrefix_iff)

lemma hasPrefix_singleton: "hasPrefix [c] s \<longleftrightarrow> s \<noteq> [] \<and> hd s = c"
  by (cases s) auto

lemma hasSuffix_iff: "hasSuffix q s \<longleftrightarrow> (\<exists>t. s = t @ q)"
  by (metis hasSuffix_def hasPrefix_iff rev_append rev_rev_ident)

lemma TrimSuffix_append [simp]: "TrimSuffix (t @ q) q = t"
  by (auto simp: TrimSuffix_def hasSuffix_iff)

lemma IndexByte_None: "IndexByte s c = None \<longleftrightarrow> c \<notin> set s"
  by (auto simp: IndexByte_def find_index_None)

lemma IndexByte_Some:
  "IndexByte s c = Some i \<longleftrightarrow> i < length s \<and> s ! i = c \<and> c \<notin> set (take i s)"
proof -
  have "i < length s \<Longrightarrow> (\<forall>j < i. s ! j \<noteq> c) \<longleftrightarrow> c \<notin> set (take i s)"
    by (auto simp: in_set_conv_nth)
  then show ?thesis
    by (auto simp: IndexByte_def find_index_Some)
qed

lemma IndexByte_less: "IndexByte s c = Some i \<Longrightarrow> i < length s"
  using IndexByte_Some by fastforce

lemma IndexByte_append_notin:
  "c \<notin> set a \<Longrightarrow> IndexByte (a @ c # b) c = Some (length a)"
  by (auto simp: IndexByte_Some)

lemma Index_Some:
  "Index s sub = Some i \<Longrightarrow> i < length s \<and> hasPrefix sub (drop i s)"
  by (induction s arbitrary: i) (auto split: if_splits)

lemma Index_first:
  "Index s sub = Some i \<Longrightarrow> j < i \<Longrightarrow> \<not> hasPrefix sub (drop j s)"
proof (induction s arbitrary: i j)
  case Nil
  then show ?case by simp
next
  case (Cons x xs)
  then show ?case by (cases j) (auto split: if_splits)
qed

lemma Index_None:
  "Index s sub = None \<Longrightarrow> j < length s \<Longrightarrow> \<not> hasPrefix sub (drop j s)"
proof (induction s arbitrary: j)
  case Nil
  then show ?case by simp
next
  case (Cons x xs)
  then show ?case by (cases j) (auto split: if_splits)
qed

lemma Split_nonempty [simp]: "Split s c \<noteq> []"
  by (induction s) (auto split: list.splits)

lemma Split_notin: "c \<notin> set s \<Longrightarrow> Split s c = [s]"
  by (induction s) auto

lemma Split_append: "c \<notin> set a \<Longrightarrow> Split (a @ c # b) c = a # Split b c"
  by (induction a) auto

lemma Split_append_last:
  "c \<notin> set b \<Longrightarrow> Split (a @ c # b) c = Split a c @ [b]"
  by (induction a) (auto simp: Split_notin split: list.splits)

lemma Split_parts: "p \<in> set (Split s c) \<Longrightarrow> c \<notin> set p"
proof (induction s arbitrary: p)
  case Nil
  then show ?case by simp
next
  case (Cons x xs)
  then show ?case by (cases "Split xs c") (auto split: if_splits)
qed

lemma Join_Split: "Join (Split s c) [c] = s"
proof (induction s)
  case Nil
  then show ?case by simp
next
  case (Cons x xs)
  obtain q qs where q: "Split xs c = q # qs"
    by (cases "Split xs c") auto
  with Cons show ?case by (cases qs) auto
qed

lemma char_of_digit [go_simps]:
  "char_of (48 :: nat) = CHR ''0''" "char_of (49 :: nat) = CHR ''1''" "char_of (50 :: nat) = CHR ''2''"
  "char_of (51 :: nat) = CHR ''3''" "char_of (52 :: nat) = CHR ''4''" "char_of (53 :: nat) = CHR ''5''"
  "char_of (54 :: nat) = CHR ''6''" "char_of (55 :: nat) = CHR ''7''" "char_of (56 :: nat) = CHR ''8''"
  "char_of (57 :: nat) = CHR ''9''"
  by (simp_all add: char_of_def bit_0)

lemma digit_val_digit_char: "d < 10 \<Longrightarrow> digit_val (digit_char d) = Some d"
  by (auto simp: digit_val_def digit_char_def less_eq_char_def)

lemma digit_char_inj: "digit_char a = digit_char b \<Longrightarrow> a < 10 \<Longrightarrow> b < 10 \<Longrightarrow> a = b"
  using digit_val_digit_char by (metis option.inject)

lemma digit_char_range:
  "d < 10 \<Longrightarrow> CHR ''0'' \<le> digit_char d \<and> digit_char d \<le> CHR ''9''"
  by (auto simp: digit_char_def less_eq_char_def)

lemma dec_nonempty [simp]: "dec n \<noteq> []"
  by (subst dec.simps) simp

lemma set_dec: "c \<in> set (dec n) \<Longrightarrow> CHR ''0'' \<le> c \<and> c \<le> CHR ''9''"
proof (induction n rule: dec.induct)
  case (1 n)
  then show ?case
    by (cases "n < 10") (auto simp: dec.simps [of n] digit_char_range)
qed

lemma notin_dec: "c < CHR ''0'' \<or> CHR ''9'' < c \<Longrightarrow> c \<notin> set (dec n)"
  using set_dec [of c n] by auto

lemma length_dec: "n < 10 ^ Suc k \<Longrightarrow> length (dec n) \<le> Suc k"
proof (induction n arbitrary: k rule: dec.induct)
  case (1 n)
  show ?case
  proof (cases "n < 10")
    case False
    with 1 obtain j where "k = Suc j" by (cases k) auto
    with 1 False have "length (dec (n div 10)) \<le> k" by auto
    with False show ?thesis by (simp add: dec.simps [of n])
  qed (simp add: dec.simps)
qed

lemma parse_digits_append:
  "parse_digits base acc (xs @ ys) =
     (case parse_digits base acc xs of None \<Rightarrow> None
      | Some a \<Rightarrow> parse_digits base a ys)"
  by (induction xs arbitrary: acc) (auto split: option.splits)

lemma parse_digits_zeros:
  "0 < base \<Longrightarrow> parse_digits base 0 (replicate k CHR ''0'' @ xs) = parse_digits base 0 xs"
  by (induction k) (auto simp: digit_val_def)

lemma parse_digits_dec: "parse_digits 10 0 (dec n) = Some n"
proof (induction n rule: dec.induct)
  case (1 n)
  show ?case
  proof (cases "n < 10")
    case True
    then show ?thesis by (simp add: dec.simps [of n] digit_val_digit_char)
  next
    case False
    with 1 have "parse_digits 10 0 (dec (n div 10)) = Some (n div 10)" by simp
    with False show ?thesis
      by (simp add: dec.simps [of n] parse_digits_append digit_val_digit_char)
  qed
qed

lemma dec_inj: "dec a = dec b \<Longrightarrow> a = b"
  by (metis option.inject parse_digits_dec)

lemma ParseUint_dec:
  "unat w < 2 ^ bits \<Longrightarrow> ParseUint (dec (unat w)) 10 bits = Some w"
  by (simp add: ParseUint_def parse_digits_dec)

lemma ParseUint_dec_overflow: "2 ^ bits \<le> n \<Longrightarrow> ParseUint (dec n) 10 bits = None"
  by (simp add: ParseUint_def parse_digits_dec)

lemma ParseUint_dec_padded:
  "unat w < 2 ^ bits \<Longrightarrow> ParseUint (dec_padded k (unat w)) 10 bits = Some w"
  by (simp add: ParseUint_def dec_padded_def parse_digits_zeros parse_digits_dec)

lemma ParseUint_bound: "ParseUint s base bits = Some w \<Longrightarrow> bits \<le> 64 \<Longrightarrow> unat w < 2 ^ bits"
proof -
  assume a: "ParseUint s base bits = Some w" and b: "bits \<le> 64"
  from a obtain n where n: "n < 2 ^ bits" "w = of_nat n"
    by (auto simp: ParseUint_def split: if_splits option.splits)
  have "(2::nat) ^ bits \<le> 2 ^ 64" using b by (rule power_increasing) simp
  with n show ?thesis by (simp add: unat_of_nat_u64)
qed

lemma dec_padded_inj: "dec_padded k a = dec_padded k b \<Longrightarrow> a = b"
  by (metis dec_padded_def option.inject parse_digits_dec parse_digits_zeros zero_less_numeral)

lemma set_dec_padded: "c \<in> set (dec_padded k n) \<Longrightarrow> CHR ''0'' \<le> c \<and> c \<le> CHR ''9''"
  using set_dec [of c n] by (auto simp: dec_padded_def)

text \<open>A path component that \<^verbatim>\<open>filepath.Clean\<close> leaves alone.\<close>

definition plain_component :: "bytes \<Rightarrow> bool" where
  "plain_component c \<longleftrightarrow> c \<noteq> [] \<and> c \<noteq> ''.'' \<and> c \<noteq> ''..'' \<and> CHR ''/'' \<notin> set c"

lemma Join_snoc: "Join (st @ [a]) sep = (if st = [] then a else Join st sep @ sep @ a)"
proof (induction st)
  case Nil
  then show ?case by simp
next
  case (Cons x xs)
  then show ?case by (cases xs) auto
qed

lemma clean_components_snoc:
  assumes "plain_component c"
  shows "dir \<noteq> [] \<Longrightarrow> clean_components (dir @ CHR ''/'' # c) = clean_components dir @ [c]"
    and "clean_components c = [c]"
  using assms
  by (auto simp: clean_components_def plain_component_def Split_append_last Split_notin
      neq_Nil_conv)

lemma filepath_Join_plain:
  assumes "plain_component c"
  shows "filepath_Join dir c =
    (if dir = [] then c
     else (if hasPrefix ''/'' dir then ''/'' else []) @
          (if clean_components dir = [] then c
           else Join (clean_components dir) ''/'' @ ''/'' @ c))"
proof (cases "dir = []")
  case True
  with assms show ?thesis
    by (cases c) (auto simp: filepath_Join_def Clean_def clean_components_snoc
        plain_component_def)
next
  case False
  then have rooted: "hasPrefix ''/'' (dir @ CHR ''/'' # c) = hasPrefix ''/'' dir"
    by (cases dir) auto
  have "c \<noteq> []" using assms by (simp add: plain_component_def)
  with False show ?thesis
    by (simp add: filepath_Join_def Clean_def Let_def rooted Join_snoc
        clean_components_snoc(1) [OF assms False])
qed

lemma filepath_Join_inj:
  assumes "plain_component a" and "plain_component b"
    and "filepath_Join dir a = filepath_Join dir b"
  shows "a = b"
  using assms by (auto simp: filepath_Join_plain split: if_splits)

end
