(* ===== verification/Errors.thy ===== *)
theory Errors
  imports Go_Strings
begin

text \<open>
  Go error values and the ways the program classifies them: the sentinel errors of
  \<^verbatim>\<open>errors.go\<close> (and those of the standard library the code compares with), wrapping by
  \<^verbatim>\<open>fmt.Errorf\<close> and \<^verbatim>\<open>errors.Join\<close>, the search of \<^verbatim>\<open>errors.Is\<close> and \<^verbatim>\<open>errors.As\<close>, the
  process exit error, its conversion (\<^verbatim>\<open>process.go\<close>) and its migration record
  (\<^verbatim>\<open>migrate.go\<close>), and the error codes of the RPC protocol (\<^verbatim>\<open>rpc.go\<close>). The lemmas show
  that an error keeps its identity when it crosses the daemon socket and that an exit
  status keeps its content when a session moves to another server.
\<close>

section \<open>Error values\<close>

datatype sentinel =
    ErrUnavailable | ErrClosed | ErrSessionExists | ErrSessionNotFound | ErrSessionClosed
  | ErrInvalidSessionName | ErrInvalidSignal | ErrInvalidCursor | ErrCursorExpired
  | ErrFrameTooLarge | ErrProtocolMismatch
  | ErrProcessDone | ErrInvalid | ErrNotExist | ErrExist | ErrDeadlineExceeded
  | EOF | ErrUnexpectedEOF | ErrClosedPipe | ErrShortWrite | ErrNoProgress
  | Canceled | DeadlineExceeded
  | ECONNRESET | ECONNREFUSED | EPIPE | ENOTTY | EINVAL | ESRCH | EIO
  | ErrMigrationBusy | ErrSessionStopped | ErrMigrationStale

record exitError =
  Code :: int
  Signal :: bytes
  Unknown :: bool

text \<open>
  \<open>Wrap pre e post\<close> is \<^verbatim>\<open>fmt.Errorf\<close> with \<^verbatim>\<open>%w\<close> at \<open>e\<close>; \<open>ExecExit\<close> is the standard
  library's \<^verbatim>\<open>*exec.ExitError\<close>, with its exit code and the name of the terminating
  signal if there was one; \<open>NetOp\<close> is \<^verbatim>\<open>*net.OpError\<close>.
\<close>

datatype go_error =
    Sentinel sentinel
  | Plain bytes
  | Wrap bytes go_error bytes
  | ExitErr exitError
  | ExecExit int "bytes option"
  | NetOp bytes go_error
  | JoinErr "go_error list"

definition sentinel_text :: "sentinel \<Rightarrow> bytes" where
  "sentinel_text s = (case s of
      ErrUnavailable \<Rightarrow> ''ghostline: libghostty-vt unavailable''
    | ErrClosed \<Rightarrow> ''ghostline: hub closed''
    | ErrSessionExists \<Rightarrow> ''ghostline: session already exists''
    | ErrSessionNotFound \<Rightarrow> ''ghostline: session not found''
    | ErrSessionClosed \<Rightarrow> ''ghostline: session closed''
    | ErrInvalidSessionName \<Rightarrow> ''ghostline: invalid session name''
    | ErrInvalidSignal \<Rightarrow> ''ghostline: invalid process signal''
    | ErrInvalidCursor \<Rightarrow> ''ghostline: invalid output cursor''
    | ErrCursorExpired \<Rightarrow> ''ghostline: output cursor expired''
    | ErrFrameTooLarge \<Rightarrow> ''ghostline: RPC frame too large''
    | ErrProtocolMismatch \<Rightarrow> ''ghostline: RPC protocol mismatch''
    | ErrProcessDone \<Rightarrow> ''os: process already finished''
    | ErrInvalid \<Rightarrow> ''invalid argument''
    | ErrNotExist \<Rightarrow> ''file does not exist''
    | ErrExist \<Rightarrow> ''file already exists''
    | ErrDeadlineExceeded \<Rightarrow> ''i/o timeout''
    | EOF \<Rightarrow> ''EOF''
    | ErrUnexpectedEOF \<Rightarrow> ''unexpected EOF''
    | ErrClosedPipe \<Rightarrow> ''io: read/write on closed pipe''
    | ErrShortWrite \<Rightarrow> ''short write''
    | ErrNoProgress \<Rightarrow> ''multiple Read calls return no data or error''
    | Canceled \<Rightarrow> ''context canceled''
    | DeadlineExceeded \<Rightarrow> ''context deadline exceeded''
    | ECONNRESET \<Rightarrow> ''connection reset by peer''
    | ECONNREFUSED \<Rightarrow> ''connection refused''
    | EPIPE \<Rightarrow> ''broken pipe''
    | ENOTTY \<Rightarrow> ''inappropriate ioctl for device''
    | EINVAL \<Rightarrow> ''invalid argument''
    | ESRCH \<Rightarrow> ''no such process''
    | EIO \<Rightarrow> ''input/output error''
    | ErrMigrationBusy \<Rightarrow> ''session migration already in progress''
    | ErrSessionStopped \<Rightarrow> ''session has already stopped''
    | ErrMigrationStale \<Rightarrow> ''session migration is no longer active'')"

text \<open>\<^verbatim>\<open>(*ExitError).Error\<close>.\<close>

definition ExitError_Error :: "exitError \<Rightarrow> bytes" where
  "ExitError_Error e =
     (if Unknown e then ''exit status unknown''
      else if Signal e \<noteq> [] then ''signal: '' @ Signal e
      else ''exit status '' @ Itoa (Code e))"

fun Error :: "go_error \<Rightarrow> bytes" where
  "Error (Sentinel s) = sentinel_text s"
| "Error (Plain m) = m"
| "Error (Wrap pre e post) = pre @ Error e @ post"
| "Error (ExitErr e) = ExitError_Error e"
| "Error (ExecExit code sig) =
     (case sig of None \<Rightarrow> ''exit status '' @ Itoa code | Some name \<Rightarrow> ''signal: '' @ name)"
| "Error (NetOp op e) = op @ '': '' @ Error e"
| "Error (JoinErr es) = Join (map Error es) [CHR 0x0A]"

text \<open>\<^verbatim>\<open>errors.Is(err, target)\<close> for a sentinel target.\<close>

fun errors_Is :: "go_error \<Rightarrow> sentinel \<Rightarrow> bool" where
  "errors_Is (Sentinel s) t = (s = t)"
| "errors_Is (Wrap pre e post) t = errors_Is e t"
| "errors_Is (NetOp op e) t = errors_Is e t"
| "errors_Is (JoinErr es) t = list_ex (\<lambda>e. errors_Is e t) es"
| "errors_Is _ t = False"

text \<open>\<^verbatim>\<open>errors.As\<close> for the three concrete types the code looks for.\<close>

fun as_ExitError :: "go_error \<Rightarrow> exitError option" where
  "as_ExitError (ExitErr e) = Some e"
| "as_ExitError (Wrap pre e post) = as_ExitError e"
| "as_ExitError (NetOp op e) = as_ExitError e"
| "as_ExitError (JoinErr es) =
     foldr (\<lambda>e acc. case as_ExitError e of Some x \<Rightarrow> Some x | None \<Rightarrow> acc) es None"
| "as_ExitError _ = None"

fun as_ExecExit :: "go_error \<Rightarrow> (int \<times> bytes option) option" where
  "as_ExecExit (ExecExit code sig) = Some (code, sig)"
| "as_ExecExit (Wrap pre e post) = as_ExecExit e"
| "as_ExecExit (NetOp op e) = as_ExecExit e"
| "as_ExecExit (JoinErr es) =
     foldr (\<lambda>e acc. case as_ExecExit e of Some x \<Rightarrow> Some x | None \<Rightarrow> acc) es None"
| "as_ExecExit _ = None"

fun as_OpError :: "go_error \<Rightarrow> bool" where
  "as_OpError (NetOp op e) = True"
| "as_OpError (Wrap pre e post) = as_OpError e"
| "as_OpError (JoinErr es) = list_ex as_OpError es"
| "as_OpError _ = False"

text \<open>\<^verbatim>\<open>errors.Join\<close>: nil errors are dropped, no error at all is nil.\<close>

definition errors_Join :: "go_error option list \<Rightarrow> go_error option" where
  "errors_Join es =
     (let present = List.map_filter id es in
      if present = [] then None else Some (JoinErr present))"

section \<open>Classification in the client, exit status conversion\<close>

text \<open>\<^verbatim>\<open>isTransportError\<close>: a nil error is \<open>None\<close>.\<close>

definition isTransportError :: "go_error option \<Rightarrow> bool" where
  "isTransportError err = (case err of None \<Rightarrow> False
     | Some e \<Rightarrow>
         as_OpError e \<or> errors_Is e EOF \<or> errors_Is e ErrUnexpectedEOF \<or>
         errors_Is e ErrDeadlineExceeded \<or> errors_Is e ECONNRESET \<or>
         errors_Is e ECONNREFUSED \<or> errors_Is e EPIPE)"

text \<open>\<^verbatim>\<open>contextErr\<close>: \<open>ctx\<close> is the value of \<^verbatim>\<open>ctx.Err()\<close>.\<close>

definition contextErr :: "go_error option \<Rightarrow> go_error option \<Rightarrow> go_error option" where
  "contextErr ctx err = (case ctx of Some c \<Rightarrow> Some c | None \<Rightarrow> err)"

text \<open>\<^verbatim>\<open>convertExit\<close>.\<close>

definition convertExit :: "go_error option \<Rightarrow> go_error option" where
  "convertExit err = (case err of None \<Rightarrow> None
     | Some e \<Rightarrow> (case as_ExitError e of
         Some known \<Rightarrow> Some (ExitErr known)
       | None \<Rightarrow> (case as_ExecExit e of
           None \<Rightarrow> Some e
         | Some (code, sig) \<Rightarrow>
             Some (ExitErr \<lparr>Code = code, Signal = (case sig of Some n \<Rightarrow> n | None \<Rightarrow> []),
                            Unknown = False\<rparr>))))"

record exitMeta =
  mCode :: int
  mSignal :: bytes
  mUnknown :: bool

text \<open>\<^verbatim>\<open>exitMetaOf\<close> and \<^verbatim>\<open>(*exitMeta).error\<close>: a nil pointer is \<open>None\<close>.\<close>

definition exitMetaOf :: "go_error option \<Rightarrow> exitMeta option" where
  "exitMetaOf err = (case err of None \<Rightarrow> None
     | Some e \<Rightarrow> (case convertExit (Some e) of
         Some (ExitErr x) \<Rightarrow> Some \<lparr>mCode = Code x, mSignal = Signal x, mUnknown = Unknown x\<rparr>
       | _ \<Rightarrow> Some \<lparr>mCode = -1, mSignal = [], mUnknown = True\<rparr>))"

definition exitMeta_error :: "exitMeta option \<Rightarrow> exitError option" where
  "exitMeta_error m = (case m of None \<Rightarrow> None
     | Some x \<Rightarrow> Some \<lparr>Code = mCode x, Signal = mSignal x, Unknown = mUnknown x\<rparr>)"

section \<open>RPC error codes\<close>

record rpcError =
  rCode :: bytes
  rMessage :: bytes

definition maxRPCErrorMessage :: nat where
  "maxRPCErrorMessage = 4 * 1024"

definition rpcCode :: "go_error \<Rightarrow> bytes" where
  "rpcCode err =
     (if errors_Is err ErrUnavailable then ''unavailable''
      else if errors_Is err ErrClosed then ''closed''
      else if errors_Is err ErrSessionExists then ''session_exists''
      else if errors_Is err ErrSessionNotFound then ''session_not_found''
      else if errors_Is err ErrSessionClosed then ''session_closed''
      else if errors_Is err ErrInvalidSessionName then ''invalid_name''
      else if errors_Is err ErrInvalidSignal then ''invalid_signal''
      else if errors_Is err ErrProcessDone then ''process_done''
      else if errors_Is err ErrInvalidCursor then ''invalid_cursor''
      else if errors_Is err ErrCursorExpired then ''cursor_expired''
      else if errors_Is err ErrFrameTooLarge then ''frame_too_large''
      else if errors_Is err ErrProtocolMismatch then ''protocol_mismatch''
      else ''internal'')"

definition decode_sentinel :: "bytes \<Rightarrow> sentinel option" where
  "decode_sentinel code =
     (if code = ''unavailable'' then Some ErrUnavailable
      else if code = ''closed'' then Some ErrClosed
      else if code = ''session_exists'' then Some ErrSessionExists
      else if code = ''session_not_found'' then Some ErrSessionNotFound
      else if code = ''session_closed'' then Some ErrSessionClosed
      else if code = ''invalid_name'' then Some ErrInvalidSessionName
      else if code = ''invalid_signal'' then Some ErrInvalidSignal
      else if code = ''process_done'' then Some ErrProcessDone
      else if code = ''invalid_cursor'' then Some ErrInvalidCursor
      else if code = ''cursor_expired'' then Some ErrCursorExpired
      else if code = ''frame_too_large'' then Some ErrFrameTooLarge
      else if code = ''protocol_mismatch'' then Some ErrProtocolMismatch
      else None)"

definition decodeRPCError :: "rpcError option \<Rightarrow> go_error option" where
  "decodeRPCError r = (case r of None \<Rightarrow> None
     | Some x \<Rightarrow> (case decode_sentinel (rCode x) of
         Some s \<Rightarrow> Some (Wrap [] (Sentinel s) ('': '' @ rMessage x))
       | None \<Rightarrow> Some (Plain (rMessage x))))"

definition newRPCError :: "go_error \<Rightarrow> rpcError" where
  "newRPCError err = \<lparr>rCode = rpcCode err, rMessage = take maxRPCErrorMessage (Error err)\<rparr>"

section \<open>What survives the wire and a migration\<close>

text \<open>The sentinels that have an RPC code of their own.\<close>

definition wire_sentinels :: "sentinel list" where
  "wire_sentinels =
     [ErrUnavailable, ErrClosed, ErrSessionExists, ErrSessionNotFound, ErrSessionClosed,
      ErrInvalidSessionName, ErrInvalidSignal, ErrProcessDone, ErrInvalidCursor,
      ErrCursorExpired, ErrFrameTooLarge, ErrProtocolMismatch]"

lemma rpcCode_Plain [simp]: "rpcCode (Plain m) = ''internal''"
  by (simp add: rpcCode_def)

lemma rpcCode_Wrap [simp]: "rpcCode (Wrap pre e post) = rpcCode e"
  by (simp add: rpcCode_def)

lemma decode_rpcCode_sentinel:
  "decode_sentinel (rpcCode (Sentinel s)) =
     (if s \<in> set wire_sentinels then Some s else None)"
  by (cases s) (simp_all add: rpcCode_def decode_sentinel_def wire_sentinels_def)

lemma rpcCode_decoded_sentinel:
  "decode_sentinel code = Some s \<Longrightarrow> rpcCode (Sentinel s) = code"
  by (auto simp: decode_sentinel_def rpcCode_def split: if_splits)

lemma decode_sentinel_rpcCode_None:
  "decode_sentinel (rpcCode e) = None \<Longrightarrow> rpcCode e = ''internal''"
  by (auto simp: decode_sentinel_def rpcCode_def split: if_splits)

lemma rpcCode_first_sentinel:
  "decode_sentinel (rpcCode e) = Some s \<Longrightarrow> errors_Is e s"
  by (auto simp: rpcCode_def decode_sentinel_def split: if_splits)

text \<open>
  An error keeps its identity across the daemon socket. The client decodes what
  the server encoded to an error with the same RPC code; \<^verbatim>\<open>errors.Is\<close> on the decoded
  error answers true for exactly the sentinel the code stands for, which the original
  error really wraps; a wrapped sentinel with a code of its own comes back as itself;
  and the message on the wire is never longer than 4 KiB.
\<close>

lemma rpc_error_identity:
  "\<exists>d. decodeRPCError (Some (newRPCError e)) = Some d \<and>
       rpcCode d = rpcCode e \<and>
       (\<forall>s. errors_Is d s = (decode_sentinel (rpcCode e) = Some s)) \<and>
       {s. errors_Is d s} \<subseteq> {s. errors_Is e s} \<and>
       decode_sentinel (rpcCode (Wrap pre (Sentinel t) post)) =
         (if t \<in> set wire_sentinels then Some t else None) \<and>
       length (rMessage (newRPCError e)) \<le> maxRPCErrorMessage"
proof (cases "decode_sentinel (rpcCode e)")
  case None
  then have "decodeRPCError (Some (newRPCError e)) = Some (Plain (rMessage (newRPCError e)))"
    by (simp add: decodeRPCError_def newRPCError_def)
  moreover have "rpcCode e = ''internal''"
    using None by (rule decode_sentinel_rpcCode_None)
  ultimately show ?thesis
    using None by (auto simp: newRPCError_def decode_rpcCode_sentinel)
next
  case (Some s)
  then show ?thesis
    by (auto simp: decodeRPCError_def newRPCError_def decode_rpcCode_sentinel
        rpcCode_decoded_sentinel rpcCode_first_sentinel)
qed

lemma convertExit_idem: "convertExit (convertExit err) = convertExit err"
  by (auto simp: convertExit_def split: option.splits)

text \<open>
  The exit status of a stopped session survives a migration. Whatever error the
  session recorded, the record the source server sends and the error the target
  rebuilds from it agree with what \<^verbatim>\<open>Status\<close> would have reported on the source: the
  same code, signal and unknown flag when the error is an exit status, the unknown
  exit status otherwise, and no error when there was none.
\<close>

lemma exit_status_migrates:
  "exitMeta_error (exitMetaOf err) =
     (case convertExit err of None \<Rightarrow> None
      | Some (ExitErr x) \<Rightarrow> Some x
      | Some _ \<Rightarrow> Some \<lparr>Code = -1, Signal = [], Unknown = True\<rparr>)"
proof (cases err)
  case None
  then show ?thesis by (simp add: exitMetaOf_def exitMeta_error_def convertExit_def)
next
  case (Some e)
  have "convertExit (Some e) \<noteq> None"
    by (auto simp: convertExit_def split: option.splits)
  then obtain c where "convertExit (Some e) = Some c" by blast
  with Some show ?thesis
    by (cases c) (simp_all add: exitMetaOf_def exitMeta_error_def)
qed

end
