(* ===== verification/Cursor.thy ===== *)
theory Cursor
  imports Errors
begin

text \<open>
  Output positions (\<^verbatim>\<open>output.go\<close>, type \<^verbatim>\<open>Cursor\<close>): a generation and a byte offset inside
  it, both \<^verbatim>\<open>uint64\<close>, with their stable text form, the text marshalling that JSON uses,
  and the distance between two positions. Cursors are ordered by generation, then by
  offset, which is the order the size marks of an output log are kept in.
\<close>

datatype cursor = Cursor (generation: u64) (offset: u64)

abbreviation zero_cursor :: cursor where
  "zero_cursor \<equiv> Cursor 0 0"

instantiation cursor :: linorder
begin

definition less_eq_cursor :: "cursor \<Rightarrow> cursor \<Rightarrow> bool" where
  "less_eq_cursor a b \<longleftrightarrow>
     generation a < generation b \<or> generation a = generation b \<and> offset a \<le> offset b"

definition less_cursor :: "cursor \<Rightarrow> cursor \<Rightarrow> bool" where
  "less_cursor a b \<longleftrightarrow>
     generation a < generation b \<or> generation a = generation b \<and> offset a < offset b"

instance
  by standard (auto simp: less_eq_cursor_def less_cursor_def cursor.expand)

end

definition ParseCursor :: "bytes \<Rightarrow> go_error + cursor" where
  "ParseCursor value =
     (let invalid = Inl (Wrap [] (Sentinel ErrInvalidCursor) ('': '' @ Quote value)) in
      if value = [] then Inr zero_cursor
      else
        (let parts = Split value CHR '':'' in
         if length parts \<noteq> 3 \<or> parts ! 0 \<noteq> ''v1'' then invalid
         else case ParseUint (parts ! 1) 10 64 of None \<Rightarrow> invalid
           | Some g \<Rightarrow>
               if g = 0 then invalid
               else case ParseUint (parts ! 2) 10 63 of None \<Rightarrow> invalid
                 | Some off \<Rightarrow> Inr (Cursor g off)))"

definition Cursor_String :: "cursor \<Rightarrow> bytes" where
  "Cursor_String c =
     (if c = zero_cursor then []
      else ''v1:'' @ FormatUint (generation c) @ '':'' @ FormatUint (offset c))"

definition MarshalText :: "cursor \<Rightarrow> go_error + bytes" where
  "MarshalText c =
     (if generation c = 0 \<and> offset c \<noteq> 0 then Inl (Sentinel ErrInvalidCursor)
      else Inr (Cursor_String c))"

text \<open>The receiver is a pointer: \<open>None\<close> is nil, the result is what it points to afterwards.\<close>

definition UnmarshalText :: "cursor option \<Rightarrow> bytes \<Rightarrow> go_error + cursor" where
  "UnmarshalText c txt = (case c of
      None \<Rightarrow> Inl (Plain ''ghostline: unmarshal cursor into nil receiver'')
    | Some _ \<Rightarrow> (case ParseCursor txt of Inl e \<Rightarrow> Inl e | Inr parsed \<Rightarrow> Inr parsed))"

definition Distance :: "cursor \<Rightarrow> cursor \<Rightarrow> u64 option" where
  "Distance c to =
     (if generation c = 0 \<or> generation to = 0 \<or> generation c \<noteq> generation to then None
      else if offset to < offset c then None
      else Some (offset to - offset c))"

section \<open>Lemmas\<close>

text \<open>The cursors that have a text form: the zero cursor and those inside a generation.\<close>

definition valid_cursor :: "cursor \<Rightarrow> bool" where
  "valid_cursor c \<longleftrightarrow> c = zero_cursor \<or> generation c \<noteq> 0 \<and> unat (offset c) < 2 ^ 63"

lemma colon_notin_FormatUint [simp]: "CHR '':'' \<notin> set (FormatUint w)"
  unfolding FormatUint_def by (rule notin_dec) (simp add: less_char_def)

lemma Split_Cursor_String:
  "c \<noteq> zero_cursor \<Longrightarrow>
   Split (Cursor_String c) CHR '':'' = [''v1'', FormatUint (generation c), FormatUint (offset c)]"
  by (simp add: Cursor_String_def Split_append Split_notin)

lemma Cursor_String_Nil [simp]: "Cursor_String c = [] \<longleftrightarrow> c = zero_cursor"
  by (simp add: Cursor_String_def)

lemma ParseCursor_String_nonzero:
  assumes "c \<noteq> zero_cursor"
  shows "ParseCursor (Cursor_String c) =
    (if generation c \<noteq> 0 \<and> unat (offset c) < 2 ^ 63 then Inr c
     else Inl (Wrap [] (Sentinel ErrInvalidCursor) ('': '' @ Quote (Cursor_String c))))"
proof -
  have g: "ParseUint (FormatUint (generation c)) 10 64 = Some (generation c)"
    using ParseUint_dec [of "generation c" 64] unat_u64_less by (simp add: FormatUint_def)
  have off: "ParseUint (FormatUint (offset c)) 10 63 =
      (if unat (offset c) < 2 ^ 63 then Some (offset c) else None)"
    by (simp add: FormatUint_def ParseUint_dec ParseUint_dec_overflow)
  show ?thesis
    using assms by (simp add: ParseCursor_def Split_Cursor_String g off cursor.expand Let_def nth_Cons')
qed

lemma ParseCursor_Inl: "ParseCursor s = Inl e \<Longrightarrow> errors_Is e ErrInvalidCursor"
  by (auto simp: ParseCursor_def Let_def split: if_splits option.splits)

text \<open>
  The text form of a cursor is a faithful encoding of exactly the cursors the
  program can hand out. Parsing the text of a cursor gives that cursor back if and only
  if the cursor is the zero cursor or has a non-zero generation and an offset below
  \<open>2 ^ 63\<close>; whatever text parses, the result is such a cursor; and text that does not
  parse is reported as an invalid cursor. The same holds for the marshalling pair that
  JSON uses.
\<close>

lemma cursor_text_roundtrip:
  "(ParseCursor (Cursor_String c) = Inr c) = valid_cursor c \<and>
   (case ParseCursor s of Inl e \<Rightarrow> errors_Is e ErrInvalidCursor | Inr d \<Rightarrow> valid_cursor d) \<and>
   (case MarshalText c of
      Inl e \<Rightarrow> e = Sentinel ErrInvalidCursor \<and> \<not> valid_cursor c
    | Inr t \<Rightarrow> (UnmarshalText (Some old) t = Inr c) = valid_cursor c)"
proof (intro conjI)
  have zero: "ParseCursor (Cursor_String zero_cursor) = Inr zero_cursor"
    by (simp add: ParseCursor_def Cursor_String_def)
  show parse: "(ParseCursor (Cursor_String c) = Inr c) = valid_cursor c"
    using zero by (cases "c = zero_cursor") (auto simp: ParseCursor_String_nonzero valid_cursor_def)
  have "ParseCursor s = Inr d \<Longrightarrow> valid_cursor d" for d
    using ParseUint_bound [of _ 10 63]
    by (auto simp: ParseCursor_def Let_def valid_cursor_def split: if_splits option.splits)
  then show "case ParseCursor s of Inl e \<Rightarrow> errors_Is e ErrInvalidCursor | Inr d \<Rightarrow> valid_cursor d"
    by (auto split: sum.splits dest: ParseCursor_Inl)
  show "case MarshalText c of
      Inl e \<Rightarrow> e = Sentinel ErrInvalidCursor \<and> \<not> valid_cursor c
    | Inr t \<Rightarrow> (UnmarshalText (Some old) t = Inr c) = valid_cursor c"
    using parse by (auto simp: MarshalText_def UnmarshalText_def valid_cursor_def
        split: sum.splits if_splits)
qed

lemma Distance_Some:
  "Distance c to = Some d \<longleftrightarrow>
     generation c \<noteq> 0 \<and> generation to = generation c \<and>
     unat (offset to) = unat (offset c) + unat d"
proof -
  have "offset c \<le> offset to \<Longrightarrow> unat (offset to) = unat (offset c) + unat (offset to - offset c)"
    by (simp add: unat_sub_u64 word_le_nat_alt)
  moreover have "d = offset to - offset c" if "unat (offset to) = unat (offset c) + unat d"
    using that by (metis add_diff_cancel_left' le_add1 unat_sub_u64 word_le_nat_alt word_unat_eq_iff)
  ultimately show ?thesis
    by (auto simp: Distance_def not_less word_le_nat_alt word_less_nat_alt)
qed

end
