(* ===== verification/Validation.thy ===== *)
theory Validation
  imports Cursor
begin

text \<open>
  The checks that guard the public entry points: terminal sizes (\<^verbatim>\<open>size.go\<close>), session
  names and environment entries (\<^verbatim>\<open>util.go\<close>), process specifications (\<^verbatim>\<open>hub.go\<close>), signals
  (\<^verbatim>\<open>session.go\<close>) and the scrollback defaults (\<^verbatim>\<open>terminal_options.go\<close>, \<^verbatim>\<open>hub.go\<close>). An
  error result is \<open>Some e\<close>, success is \<open>None\<close>, as a nil Go error is. The lemmas show what
  an accepted value is good for: a resolved size fits the 16-bit fields of the PTY, and
  an accepted name can only create a directory directly below the output root.
\<close>

section \<open>Terminal sizes\<close>

datatype size = Size (Columns: int) (Rows: int)

abbreviation zero_size :: size where
  "zero_size \<equiv> Size 0 0"

definition defaultColumns :: int where
  "defaultColumns = 120"

definition defaultRows :: int where
  "defaultRows = 36"

definition maxTerminalDimension :: int where
  "maxTerminalDimension = 2 ^ 16 - 1"

definition Size_validate :: "size \<Rightarrow> go_error option" where
  "Size_validate s =
     (if Columns s \<le> 0 \<or> Rows s \<le> 0 \<or>
         Columns s > maxTerminalDimension \<or> Rows s > maxTerminalDimension
      then Some (Plain (''invalid terminal size '' @ Itoa (Columns s) @ ''x'' @ Itoa (Rows s)))
      else None)"

definition Size_resolve :: "size \<Rightarrow> size \<Rightarrow> go_error + size" where
  "Size_resolve s fallback =
     (let s' = (if Columns s = 0 \<and> Rows s = 0 then fallback else s) in
      case Size_validate s' of Some e \<Rightarrow> Inl e | None \<Rightarrow> Inr s')"

text \<open>The two \<^verbatim>\<open>uint16\<close> fields of \<^verbatim>\<open>pty.Winsize\<close>.\<close>

definition winsize :: "size \<Rightarrow> 16 word \<times> 16 word" where
  "winsize s = (word_of_int (Columns s), word_of_int (Rows s))"

section \<open>Names, environment entries, process specifications\<close>

fun validateEnvironment :: "bytes list \<Rightarrow> go_error option" where
  "validateEnvironment [] = None"
| "validateEnvironment (entry # rest) =
     (if (case IndexByte entry CHR ''='' of None \<Rightarrow> True | Some i \<Rightarrow> i = 0) \<or>
         IndexByte entry NUL \<noteq> None
      then Some (Plain (''invalid environment entry '' @ Quote entry))
      else validateEnvironment rest)"

definition validateName :: "bytes \<Rightarrow> go_error option" where
  "validateName name =
     (if name = [] \<or> name = ''.'' \<or> name = ''..'' \<or>
         list_ex (\<lambda>c. c = CHR ''/'' \<or> c = backslash) name \<or> IndexByte name NUL \<noteq> None
      then Some (Wrap [] (Sentinel ErrInvalidSessionName) ('': '' @ Quote name))
      else None)"

record processSpec =
  Path :: bytes
  Args :: "bytes list"
  Directory :: bytes
  Environment :: "bytes list"
  ShellCommand :: bytes

definition Shell :: "bytes \<Rightarrow> processSpec" where
  "Shell command =
     \<lparr>Path = [], Args = [], Directory = [], Environment = [], ShellCommand = command\<rparr>"

definition ProcessSpec_validate :: "processSpec \<Rightarrow> go_error option" where
  "ProcessSpec_validate p =
     (if ShellCommand p \<noteq> [] \<and> (Path p \<noteq> [] \<or> length (Args p) \<noteq> 0) then
        Some (Plain ''ghostline: shell command cannot be combined with path or args'')
      else if Path p = [] \<and> length (Args p) \<noteq> 0 then
        Some (Plain ''ghostline: process args require a path'')
      else validateEnvironment (Environment p))"

text \<open>
  \<^verbatim>\<open>os.MkdirTemp(root, pattern)\<close>: the random string \<open>r\<close> replaces the last star of the
  pattern, or follows the pattern when it has none.
\<close>

definition temp_name :: "bytes \<Rightarrow> bytes \<Rightarrow> bytes" where
  "temp_name pattern r =
     (if CHR ''*'' \<in> set pattern
      then rev (tl (dropWhile (\<lambda>c. c \<noteq> CHR ''*'') (rev pattern))) @ r
           @ rev (takeWhile (\<lambda>c. c \<noteq> CHR ''*'') (rev pattern))
      else pattern @ r)"

section \<open>Signals and scrollback\<close>

text \<open>
  \<^verbatim>\<open>normalizeSignal\<close>: a nil \<^verbatim>\<open>os.Signal\<close>, a \<^verbatim>\<open>syscall.Signal\<close> with its number, or
  another implementation of the interface with its type name.
\<close>

datatype os_signal = NilSignal | SyscallSignal int | OtherSignal bytes

definition normalizeSignal :: "os_signal \<Rightarrow> go_error + int" where
  "normalizeSignal s = (case s of
      NilSignal \<Rightarrow> Inl (Sentinel ErrInvalidSignal)
    | SyscallSignal n \<Rightarrow>
        if n \<le> 0 then Inl (Wrap [] (Sentinel ErrInvalidSignal) '': syscall.Signal'') else Inr n
    | OtherSignal t \<Rightarrow> Inl (Wrap [] (Sentinel ErrInvalidSignal) ('': '' @ t)))"

definition DefaultVTScrollbackMaxBytes :: u64 where
  "DefaultVTScrollbackMaxBytes = 2 * 2 ^ 20"

definition resolvedScrollbackMaxBytes :: "u64 \<Rightarrow> u64" where
  "resolvedScrollbackMaxBytes n = (if n = 0 then DefaultVTScrollbackMaxBytes else n)"

definition resolveVTScrollbackMaxBytes :: "u64 \<Rightarrow> u64 \<Rightarrow> u64" where
  "resolveVTScrollbackMaxBytes v fallback = (if v \<noteq> 0 then v else fallback)"

section \<open>Lemmas\<close>

definition valid_size :: "size \<Rightarrow> bool" where
  "valid_size s \<longleftrightarrow> 1 \<le> Columns s \<and> Columns s \<le> 65535 \<and> 1 \<le> Rows s \<and> Rows s \<le> 65535"

lemma Size_validate_None [simp]: "Size_validate s = None \<longleftrightarrow> valid_size s"
  by (auto simp: Size_validate_def valid_size_def maxTerminalDimension_def)

lemma Size_validate_Some [dest]: "Size_validate s = Some e \<Longrightarrow> \<not> valid_size s"
  using Size_validate_None [of s] by simp

lemma Size_resolve_Inr:
  "Size_resolve s f = Inr r \<longleftrightarrow> r = (if s = zero_size then f else s) \<and> valid_size r"
  by (cases s) (auto simp: Size_resolve_def Let_def split: option.splits)

lemma winsize_exact:
  assumes "valid_size s"
  shows "uint (fst (winsize s)) = Columns s" and "uint (snd (winsize s)) = Rows s"
  using assms by (auto simp: winsize_def valid_size_def uint_word_of_int)

lemma validateEnvironment_None:
  "validateEnvironment es = None \<longleftrightarrow>
     (\<forall>e \<in> set es. NUL \<notin> set e \<and> (\<exists>k v. k \<noteq> [] \<and> CHR ''='' \<notin> set k \<and> e = k @ CHR ''='' # v))"
proof -
  have entry: "(case IndexByte e CHR ''='' of None \<Rightarrow> True | Some i \<Rightarrow> i = 0) \<longleftrightarrow>
      \<not> (\<exists>k v. k \<noteq> [] \<and> CHR ''='' \<notin> set k \<and> e = k @ CHR ''='' # v)" for e
  proof (cases "IndexByte e CHR ''=''")
    case None
    then have "CHR ''='' \<notin> set e" by (simp add: IndexByte_None)
    with None show ?thesis by auto
  next
    case (Some i)
    then have i: "i < length e" "e ! i = CHR ''=''" "CHR ''='' \<notin> set (take i e)"
      by (auto simp: IndexByte_Some)
    have "i \<noteq> 0 \<Longrightarrow> e = take i e @ CHR ''='' # drop (Suc i) e \<and> take i e \<noteq> []"
      using i by (metis Cons_nth_drop_Suc append_take_drop_id gr_implies_not0 length_0_conv take_eq_Nil)
    moreover have "\<And>k v. k \<noteq> [] \<Longrightarrow> CHR ''='' \<notin> set k \<Longrightarrow> e = k @ CHR ''='' # v \<Longrightarrow> i \<noteq> 0"
      using Some by (auto simp: IndexByte_append_notin)
    ultimately have "i \<noteq> 0 \<longleftrightarrow>
        (\<exists>k v. k \<noteq> [] \<and> CHR ''='' \<notin> set k \<and> e = k @ CHR ''='' # v)"
      using i(3) by blast
    then show ?thesis unfolding Some option.case by blast
  qed
  show ?thesis
    by (induction es) (auto simp: entry IndexByte_None)
qed

lemma validateName_None:
  "validateName n = None \<longleftrightarrow>
     n \<noteq> [] \<and> n \<noteq> ''.'' \<and> n \<noteq> ''..'' \<and> CHR ''/'' \<notin> set n \<and> backslash \<notin> set n \<and> NUL \<notin> set n"
  by (auto simp: validateName_def list_ex_iff IndexByte_None)

lemma set_temp_name: "set (temp_name q r) \<subseteq> set q \<union> set r"
proof -
  have tw: "set (takeWhile P (rev q)) \<subseteq> set q" for P
    using set_takeWhileD by fastforce
  have dw: "set (tl (dropWhile P (rev q))) \<subseteq> set q" for P
    by (metis dropWhile_eq_drop list.set_sel(2) set_drop_subset set_rev subset_code(1) subset_trans
        tl_Nil)
  show ?thesis
    using subsetD [OF tw] subsetD [OF dw] by (auto simp: temp_name_def)
qed

lemma dash_in_temp_name: "CHR ''-'' \<in> set (temp_name (n @ ''-'') r)"
  by (auto simp: temp_name_def)

text \<open>
  A session name that passes the check can only create storage directly below the
  output root. For an accepted name and any random digits that \<^verbatim>\<open>os.MkdirTemp\<close> adds,
  the directory name it creates is one ordinary path component, so the joined path is
  the cleaned root with exactly one component added: it cannot climb out of the root
  or name the root itself.
\<close>

lemma validateName_confines:
  assumes "validateName name = None" and "CHR ''/'' \<notin> set r" and "root \<noteq> []"
  shows "plain_component (temp_name (name @ ''-'') r) \<and>
    clean_components (root @ ''/'' @ temp_name (name @ ''-'') r) =
      clean_components root @ [temp_name (name @ ''-'') r]"
proof -
  let ?t = "temp_name (name @ ''-'') r"
  have "CHR ''/'' \<notin> set ?t"
    using set_temp_name [of "name @ ''-''" r] assms(1,2) by (auto simp: validateName_None)
  moreover have "?t \<noteq> []" "?t \<noteq> ''.''" "?t \<noteq> ''..''"
    using dash_in_temp_name [of name r] by auto
  ultimately have "plain_component ?t" by (simp add: plain_component_def)
  then show ?thesis using assms(3) by (simp add: clean_components_snoc(1))
qed

end
