(* ===== verification/Disk.thy ===== *)
theory Disk
  imports Validation
begin

text \<open>
  The file system as the output log sees it: directory entries that name inodes, and
  inodes that hold bytes. An open descriptor is an inode number, so a file that was
  removed can still be read through a descriptor opened before (as a pinned reader
  does), and an append through one descriptor is seen through every other. What the
  operating system may do wrong is an argument of each call: a fault that makes the
  call fail, or the number of bytes a failing write still put down. A regular file
  never grows beyond \<open>2 ^ 63 - 1\<close> bytes; a write that would exceed that fails.

  \<^verbatim>\<open>writeFull\<close> (\<^verbatim>\<open>session.go\<close>) is here too, over any writer.
\<close>

record disk =
  dirent :: "bytes \<rightharpoonup> nat"
  inode :: "nat \<Rightarrow> bytes"
  next_inode :: nat

definition os_Create :: "go_error option \<Rightarrow> bytes \<Rightarrow> disk \<Rightarrow> go_error + nat \<times> disk" where
  \<comment> \<open>\<^verbatim>\<open>os.OpenFile\<close> with \<^verbatim>\<open>O_CREATE | O_EXCL | O_APPEND | O_WRONLY\<close>\<close>
  "os_Create fault path d = (case fault of Some e \<Rightarrow> Inl e
     | None \<Rightarrow>
         if dirent d path \<noteq> None then Inl (Sentinel ErrExist)
         else Inr (next_inode d,
           d\<lparr>dirent := (dirent d)(path \<mapsto> next_inode d),
             inode := (inode d)(next_inode d := []),
             next_inode := Suc (next_inode d)\<rparr>))"

definition os_Open :: "go_error option \<Rightarrow> bytes \<Rightarrow> disk \<Rightarrow> go_error + nat" where
  \<comment> \<open>\<^verbatim>\<open>os.Open\<close>, and \<^verbatim>\<open>os.OpenFile\<close> without \<^verbatim>\<open>O_CREATE\<close>\<close>
  "os_Open fault path d = (case fault of Some e \<Rightarrow> Inl e
     | None \<Rightarrow> (case dirent d path of None \<Rightarrow> Inl (Sentinel ErrNotExist) | Some i \<Rightarrow> Inr i))"

definition os_Remove :: "go_error option \<Rightarrow> bytes \<Rightarrow> disk \<Rightarrow> go_error option \<times> disk" where
  "os_Remove fault path d = (case fault of Some e \<Rightarrow> (Some e, d)
     | None \<Rightarrow>
         if dirent d path = None then (Some (Sentinel ErrNotExist), d)
         else (None, d\<lparr>dirent := (dirent d)(path := None)\<rparr>))"

definition os_RemoveAll :: "bytes \<Rightarrow> disk \<Rightarrow> disk" where
  "os_RemoveAll dir d =
     d\<lparr>dirent := (\<lambda>p. if p = Clean dir \<or> hasPrefix (Clean dir @ ''/'') p then None
                     else dirent d p)\<rparr>"

text \<open>\<^verbatim>\<open>(*os.File).Write\<close> writes everything or reports an error after a part of it.\<close>

datatype write_outcome = WriteOK | WriteErr nat go_error

definition max_file_size :: nat where
  "max_file_size = 2 ^ 63 - 1"

definition file_Write ::
  "write_outcome \<Rightarrow> nat \<Rightarrow> disk \<Rightarrow> bytes \<Rightarrow> (nat \<times> go_error option) \<times> disk" where
  "file_Write oc i d data =
     (let room = max_file_size - length (inode d i);
          put = (\<lambda>n. d\<lparr>inode := (inode d)(i := inode d i @ take n data)\<rparr>) in
      case oc of
        WriteOK \<Rightarrow>
          if length data \<le> room then ((length data, None), put (length data))
          else ((room, Some (Plain ''file too large'')), put room)
      | WriteErr n e \<Rightarrow> ((min n (min room (length data)), Some e), put (min n room)))"

text \<open>\<^verbatim>\<open>(*os.File).ReadAt\<close>: as many bytes as the file has, \<^verbatim>\<open>io.EOF\<close> when that is too few.\<close>

definition file_ReadAt ::
  "(nat \<times> go_error) option \<Rightarrow> nat \<Rightarrow> disk \<Rightarrow> nat \<Rightarrow> nat \<Rightarrow> bytes \<times> go_error option" where
  "file_ReadAt fault i d off n =
     (let avail = take n (drop off (inode d i)) in
      case fault of
        Some (k, e) \<Rightarrow> (take k avail, Some e)
      | None \<Rightarrow> (avail, if length avail < n then Some (Sentinel EOF) else None))"

section \<open>writeFull\<close>

text \<open>
  The writer is a function of its own state and the data; it answers how many bytes it
  took and with which error. A count beyond the data would make Go's reslice panic.
\<close>

function writeFull ::
  "('w \<Rightarrow> bytes \<Rightarrow> (nat \<times> go_error option) \<times> 'w) \<Rightarrow> 'w \<Rightarrow> bytes \<Rightarrow> go_error option \<times> 'w" where
  "writeFull w st data =
     (if data = [] then (None, st)
      else case w st data of ((n, err), st') \<Rightarrow>
        (case err of Some e \<Rightarrow> (Some e, st')
         | None \<Rightarrow>
             if n = 0 then (Some (Sentinel ErrShortWrite), st')
             else if length data < n then (Some (Plain ''slice bounds out of range''), st')
             else writeFull w st' (drop n data)))"
  by pat_completeness auto
termination
  by (relation "measure (\<lambda>(w, st, data). length data)") auto

declare writeFull.simps [simp del]

section \<open>Lemmas\<close>

definition disk_inv :: "disk \<Rightarrow> bool" where
  "disk_inv d \<longleftrightarrow>
     (\<forall>p q i. dirent d p = Some i \<longrightarrow> dirent d q = Some i \<longrightarrow> p = q) \<and>
     (\<forall>p i. dirent d p = Some i \<longrightarrow> i < next_inode d) \<and>
     (\<forall>i. length (inode d i) \<le> max_file_size)"

lemma disk_inv_empty: "disk_inv \<lparr>dirent = Map.empty, inode = (\<lambda>_. []), next_inode = 0\<rparr>"
  by (simp add: disk_inv_def)

lemma os_Create_Inr:
  assumes "os_Create fault path d = Inr (i, d')"
  shows "fault = None \<and> dirent d path = None \<and> i = next_inode d \<and>
    dirent d' = (dirent d)(path \<mapsto> i) \<and> inode d' = (inode d)(i := []) \<and>
    next_inode d' = Suc i"
  using assms by (auto simp: os_Create_def split: option.splits if_splits)

lemma os_Create_inv [wf_intros]:
  assumes "os_Create fault path d = Inr (i, d')" and "disk_inv d"
  shows "disk_inv d'"
  using os_Create_Inr [OF assms(1)] assms(2)
  by (auto simp: disk_inv_def intro: less_SucI)

lemma os_Remove_inv [wf_intros]: "disk_inv d \<Longrightarrow> disk_inv (snd (os_Remove fault path d))"
  by (auto simp: os_Remove_def disk_inv_def split: option.splits)

lemma os_RemoveAll_inv [wf_intros]: "disk_inv d \<Longrightarrow> disk_inv (os_RemoveAll dir d)"
  by (auto simp: os_RemoveAll_def disk_inv_def split: if_splits)

lemma os_Remove_same [simp]:
  "inode (snd (os_Remove fault path d)) = inode d"
  "next_inode (snd (os_Remove fault path d)) = next_inode d"
  "q \<noteq> path \<Longrightarrow> dirent (snd (os_Remove fault path d)) q = dirent d q"
  by (auto simp: os_Remove_def split: option.splits)

text \<open>What a write through a descriptor leaves behind: a prefix of the data, all of it on success.\<close>

lemma file_Write_effect:
  assumes "file_Write oc i d data = ((n, err), d')" and "length (inode d i) \<le> max_file_size"
  shows "n \<le> length data \<and> d' = d\<lparr>inode := (inode d)(i := inode d i @ take n data)\<rparr> \<and>
    length (inode d i) + n \<le> max_file_size \<and> (err = None \<longrightarrow> n = length data)"
  using assms
  by (auto simp: file_Write_def Let_def min_def split: write_outcome.splits if_splits)

lemma writeFull_Nil [simp]: "writeFull w st [] = (None, st)"
  by (simp add: writeFull.simps)

text \<open>On a file one call of \<^verbatim>\<open>Write\<close> decides: all the data is appended, or a prefix and an error.\<close>

lemma writeFull_file:
  assumes "writeFull (file_Write oc i) d data = (err, d')" and "length (inode d i) \<le> max_file_size"
  shows "\<exists>n. n \<le> length data \<and> d' = d\<lparr>inode := (inode d)(i := inode d i @ take n data)\<rparr> \<and>
    length (inode d i) + n \<le> max_file_size \<and> (err = None \<longrightarrow> n = length data)"
proof (cases "data = []")
  case True
  with assms show ?thesis by (intro exI [of _ 0]) auto
next
  case False
  obtain n e d1 where w: "file_Write oc i d data = ((n, e), d1)"
    by (metis surj_pair)
  note eff = file_Write_effect [OF w assms(2)]
  show ?thesis
  proof (cases e)
    case None
    with eff False w assms(1) show ?thesis
      by (intro exI [of _ n]) (auto simp: writeFull.simps [of _ d])
  next
    case (Some x)
    with eff False w assms(1) show ?thesis
      by (intro exI [of _ n]) (auto simp: writeFull.simps [of _ d])
  qed
qed

lemma disk_inv_append:
  assumes "disk_inv d" and "length (inode d i) + length data \<le> max_file_size"
  shows "disk_inv (d\<lparr>inode := (inode d)(i := inode d i @ data)\<rparr>)"
  using assms by (auto simp: disk_inv_def)

lemma disk_length_less:
  assumes "disk_inv d"
  shows "length (inode d i) < 2 ^ 64"
proof -
  have "length (inode d i) \<le> max_file_size" using assms by (simp add: disk_inv_def)
  then show ?thesis by (simp add: max_file_size_def)
qed

end
