(* ===== verification/Output_Log.thy ===== *)
theory Output_Log
  imports Disk
begin

text \<open>
  The segmented output log (\<^verbatim>\<open>output.go\<close>, type \<^verbatim>\<open>outputLog\<close>): one active generation and any
  number of completed ones, each a file of its own, with the size marks that say for
  which terminal grid each byte was produced. Every operation of the source is one
  function from the log and the disk to the new log, the new disk and the result, on
  every branch. The mutex is not modelled inside an operation: each of them holds it
  from start to end, so an operation is one atomic step. The broadcast channel
  \<^verbatim>\<open>changed\<close> is a counter that every signal increments: a waiter that saw the value \<open>k\<close>
  is awake as soon as the counter differs from \<open>k\<close>.

  Go ranges over a map in an arbitrary order, which is an argument (\<open>order\<close>) of the
  operations that do; the lemmas hold for every order that visits each key.
\<close>

section \<open>State\<close>

datatype outputSegment = Segment (seg_path: bytes) (seg_size: u64)

datatype sizeMark = SizeMark (mark_cursor: cursor) (mark_size: size)

record outputLog =
  directory :: bytes
  log_generation :: u64
  segments :: "u64 \<rightharpoonup> outputSegment"
  active :: "nat option"
  changed :: nat
  closed :: bool
  log_err :: "go_error option"
  sizes :: "sizeMark list"

section \<open>Opening\<close>

definition outputSegmentPath :: "bytes \<Rightarrow> u64 \<Rightarrow> bytes" where
  "outputSegmentPath dir g = filepath_Join dir (dec_padded 20 (unat g) @ ''.out'')"

text \<open>One entry of \<^verbatim>\<open>os.ReadDir\<close>, with the answer of its \<^verbatim>\<open>Info\<close> call.\<close>

record dirEntry =
  entry_name :: bytes
  entry_isdir :: bool
  entry_info :: "go_error + nat"

record open_env =
  open_fault :: "go_error option"
  stat_fault :: "go_error option"
  readdir :: "go_error + dirEntry list"

fun scan_entries ::
  "bytes \<Rightarrow> u64 \<Rightarrow> dirEntry list \<Rightarrow> (u64 \<rightharpoonup> outputSegment) \<Rightarrow>
   go_error + (u64 \<rightharpoonup> outputSegment)" where
  "scan_entries dir g [] segs = Inr segs"
| "scan_entries dir g (entry # rest) segs =
     (if entry_isdir entry \<or> \<not> hasSuffix ''.out'' (entry_name entry)
      then scan_entries dir g rest segs
      else case ParseUint (TrimSuffix (entry_name entry) ''.out'') 10 64 of
        None \<Rightarrow> scan_entries dir g rest segs
      | Some current \<Rightarrow>
          if current = 0 \<or> g < current then scan_entries dir g rest segs
          else case entry_info entry of
            Inl e \<Rightarrow>
              Inl (Wrap (''stat output segment '' @ FormatUint current @ '': '') e [])
          | Inr n \<Rightarrow>
              scan_entries dir g rest
                (segs(current \<mapsto> Segment (filepath_Join dir (entry_name entry)) (of_nat n))))"

definition openOutputLog ::
  "open_env \<Rightarrow> bytes \<Rightarrow> u64 \<Rightarrow> bool \<Rightarrow> disk \<Rightarrow> (go_error + outputLog) \<times> disk" where
  "openOutputLog env dir g create d =
     (let path = outputSegmentPath dir g;
          opened = (if create then os_Create (open_fault env) path d
                    else case os_Open (open_fault env) path d of
                           Inl e \<Rightarrow> Inl e | Inr i \<Rightarrow> Inr (i, d)) in
      case opened of
        Inl e \<Rightarrow> (Inl (Wrap ''open output segment: '' e []), d)
      | Inr (i, d1) \<Rightarrow>
          (case stat_fault env of
             Some e \<Rightarrow> (Inl (Wrap ''stat output segment: '' e []), d1)
           | None \<Rightarrow>
               (case readdir env of
                  Inl e \<Rightarrow> (Inl (Wrap ''read output log: '' e []), d1)
                | Inr entries \<Rightarrow>
                    (case scan_entries dir g entries Map.empty of
                       Inl e \<Rightarrow> (Inl e, d1)
                     | Inr segs \<Rightarrow>
                         if segs g = None then
                           (Inl (Plain (''active output generation '' @ FormatUint g @ '' is missing'')), d1)
                         else
                           (Inr \<lparr>directory = dir, log_generation = g,
                                 segments = segs(g \<mapsto> Segment path (of_nat (length (inode d1 i)))),
                                 active = Some i, changed = 0, closed = False, log_err = None,
                                 sizes = []\<rparr>, d1)))))"

text \<open>\<open>mk\<close> is the answer of \<^verbatim>\<open>os.MkdirTemp\<close>: an error or the directory it made.\<close>

definition createOutputLog ::
  "go_error + bytes \<Rightarrow> open_env \<Rightarrow> disk \<Rightarrow> (go_error + outputLog) \<times> disk" where
  "createOutputLog mk env d = (case mk of
      Inl e \<Rightarrow> (Inl (Wrap ''create output log: '' e []), d)
    | Inr dir \<Rightarrow> (case openOutputLog env dir 1 True d of
        (Inl e, d1) \<Rightarrow> (Inl e, os_RemoveAll dir d1)
      | (Inr l, d1) \<Rightarrow> (Inr l, d1)))"

definition adoptOutputLog ::
  "open_env \<Rightarrow> bytes \<Rightarrow> u64 \<Rightarrow> disk \<Rightarrow> (go_error + outputLog) \<times> disk" where
  "adoptOutputLog env dir g d =
     (if g = 0 then (Inl (Sentinel ErrInvalidCursor), d) else openOutputLog env dir g False d)"

section \<open>Operations\<close>

definition log_metadata :: "outputLog \<Rightarrow> bytes \<times> u64" where
  "log_metadata l = (directory l, log_generation l)"

definition terminalError :: "outputLog \<Rightarrow> go_error option" where
  "terminalError l = log_err l"

definition signalLocked :: "outputLog \<Rightarrow> outputLog" where
  "signalLocked l = l\<lparr>changed := Suc (changed l)\<rparr>"

definition failLocked :: "go_error \<Rightarrow> outputLog \<Rightarrow> outputLog" where
  "failLocked e l =
     signalLocked (l\<lparr>log_err := (case log_err l of None \<Rightarrow> Some e | Some x \<Rightarrow> Some x),
                     closed := True, active := None\<rparr>)"

text \<open>The zero value of a missing map entry: what Go reads for \<^verbatim>\<open>l.segments[k]\<close>.\<close>

definition segment_at :: "outputLog \<Rightarrow> u64 \<Rightarrow> outputSegment" where
  "segment_at l g = (case segments l g of Some s \<Rightarrow> s | None \<Rightarrow> Segment [] 0)"

definition log_append ::
  "write_outcome \<Rightarrow> outputLog \<Rightarrow> disk \<Rightarrow> bytes \<Rightarrow> go_error option \<times> outputLog \<times> disk" where
  "log_append oc l d data =
     (if data = [] then (None, l, d)
      else if closed l then
        (Some (case log_err l of Some e \<Rightarrow> e | None \<Rightarrow> Sentinel ErrSessionClosed), l, d)
      else case active l of
        None \<Rightarrow> (let l' = failLocked (Wrap ''append output: '' (Sentinel ErrInvalid) []) l in
                 (log_err l', l', d))
      | Some i \<Rightarrow>
          (case writeFull (file_Write oc i) d data of
             (Some e, d1) \<Rightarrow>
               (let l' = failLocked (Wrap ''append output: '' e []) l in (log_err l', l', d1))
           | (None, d1) \<Rightarrow>
               (let s = segment_at l (log_generation l);
                    s' = Segment (seg_path s) (seg_size s + of_nat (length data)) in
                (None, signalLocked (l\<lparr>segments := (segments l)(log_generation l \<mapsto> s')\<rparr>), d1))))"

definition log_cursor :: "outputLog \<Rightarrow> go_error + cursor" where
  "log_cursor l = (case log_err l of Some e \<Rightarrow> Inl e
     | None \<Rightarrow> Inr (Cursor (log_generation l) (seg_size (segment_at l (log_generation l)))))"

definition resolveCursorLocked :: "u64 list \<Rightarrow> outputLog \<Rightarrow> cursor \<Rightarrow> go_error + cursor" where
  "resolveCursorLocked order l c =
     (if c = zero_cursor then
        Inr (Cursor (foldl (\<lambda>g cand. if cand < g then cand else g) (log_generation l) order) 0)
      else if generation c = 0 \<or> unat (offset c) > 2 ^ 63 - 1 then Inl (Sentinel ErrInvalidCursor)
      else case segments l (generation c) of
        None \<Rightarrow> if generation c < log_generation l then Inl (Sentinel ErrCursorExpired)
                else Inl (Sentinel ErrInvalidCursor)
      | Some s \<Rightarrow> if offset c > seg_size s then Inl (Sentinel ErrInvalidCursor) else Inr c)"

definition log_rotate ::
  "go_error option \<Rightarrow> outputLog \<Rightarrow> disk \<Rightarrow> (go_error + cursor) \<times> outputLog \<times> disk" where
  "log_rotate fault l d =
     (if closed l then
        (Inl (case log_err l of Some e \<Rightarrow> e | None \<Rightarrow> Sentinel ErrSessionClosed), l, d)
      else
        (let nxt = log_generation l + 1 in
         if nxt = 0 then (Inl (Plain ''ghostline: output generation exhausted''), l, d)
         else
           (let path = outputSegmentPath (directory l) nxt in
            case os_Create fault path d of
              Inl e \<Rightarrow> (Inl (Wrap ''create output segment: '' e []), l, d)
            | Inr (i, d1) \<Rightarrow>
                (Inr (Cursor nxt 0),
                 signalLocked (l\<lparr>log_generation := nxt,
                   segments := (segments l)(nxt \<mapsto> Segment path 0),
                   active := Some i,
                   sizes := (if sizes l = [] then []
                             else sizes l @ [SizeMark (Cursor nxt 0) (mark_size (last (sizes l)))])\<rparr>),
                 d1))))"

fun prune_segments ::
  "(bytes \<Rightarrow> go_error option) \<Rightarrow> u64 \<Rightarrow> u64 \<Rightarrow> u64 list \<Rightarrow>
   (u64 \<rightharpoonup> outputSegment) \<Rightarrow> disk \<Rightarrow>
   go_error option \<times> (u64 \<rightharpoonup> outputSegment) \<times> disk" where
  "prune_segments faults before cur [] segs d = (None, segs, d)"
| "prune_segments faults before cur (g # order) segs d =
     (case segs g of None \<Rightarrow> prune_segments faults before cur order segs d
      | Some s \<Rightarrow>
          if before \<le> g \<or> g = cur then prune_segments faults before cur order segs d
          else case os_Remove (faults (seg_path s)) (seg_path s) d of (err, d1) \<Rightarrow>
            (case err of
               Some e \<Rightarrow>
                 if errors_Is e ErrNotExist
                 then prune_segments faults before cur order (segs(g := None)) d1
                 else (Some (Wrap (''prune output generation '' @ FormatUint g @ '': '') e []), segs, d1)
             | None \<Rightarrow> prune_segments faults before cur order (segs(g := None)) d1))"

definition log_prune ::
  "(bytes \<Rightarrow> go_error option) \<Rightarrow> u64 list \<Rightarrow> outputLog \<Rightarrow> disk \<Rightarrow> cursor \<Rightarrow>
   go_error option \<times> outputLog \<times> disk" where
  "log_prune faults order l d before =
     (case log_err l of Some e \<Rightarrow> (Some e, l, d)
      | None \<Rightarrow>
          if closed l then (Some (Sentinel ErrSessionClosed), l, d)
          else if generation before = 0 \<or> offset before \<noteq> 0 \<or> generation before > log_generation l
          then (Some (Sentinel ErrInvalidCursor), l, d)
          else case prune_segments faults (generation before) (log_generation l) order
                      (segments l) d of (err, segs, d1) \<Rightarrow>
            (case err of
               Some e \<Rightarrow> (Some e, l\<lparr>segments := segs\<rparr>, d1)
             | None \<Rightarrow>
                 (None,
                  signalLocked (l\<lparr>segments := segs,
                    sizes := filter (\<lambda>m. segs (generation (mark_cursor m)) \<noteq> None) (sizes l)\<rparr>),
                  d1)))"

definition collapseSizesLocked :: "sizeMark list \<Rightarrow> sizeMark list" where
  "collapseSizesLocked ms =
     (let count = length ms in
      if 2 \<le> count \<and> mark_size (ms ! (count - 1)) = mark_size (ms ! (count - 2)) \<and>
         generation (mark_cursor (ms ! (count - 1))) = generation (mark_cursor (ms ! (count - 2)))
      then take (count - 1) ms else ms)"

definition log_markSize :: "outputLog \<Rightarrow> size \<Rightarrow> outputLog" where
  "log_markSize l sz =
     (if closed l then l
      else
        (let cur = Cursor (log_generation l) (seg_size (segment_at l (log_generation l))) in
         if sizes l = [] then signalLocked (l\<lparr>sizes := [SizeMark cur sz]\<rparr>)
         else if mark_size (last (sizes l)) = sz then l
         else if mark_cursor (last (sizes l)) = cur then
           signalLocked (l\<lparr>sizes := collapseSizesLocked (butlast (sizes l) @ [SizeMark cur sz])\<rparr>)
         else signalLocked (l\<lparr>sizes := sizes l @ [SizeMark cur sz]\<rparr>)))"

text \<open>The loop of \<^verbatim>\<open>sizeSpanLocked\<close>: the size so far, and the bytes up to the next mark if there is one.\<close>

fun size_span :: "sizeMark list \<Rightarrow> cursor \<Rightarrow> size \<Rightarrow> size \<times> u64 option" where
  "size_span [] c sz = (sz, None)"
| "size_span (m # ms) c sz =
     (if generation (mark_cursor m) \<noteq> generation c then
        (if generation (mark_cursor m) > generation c then (sz, None) else size_span ms c sz)
      else if offset (mark_cursor m) \<le> offset c then size_span ms c (mark_size m)
      else (sz, Some (offset (mark_cursor m) - offset c)))"

definition sizeSpanLocked :: "outputLog \<Rightarrow> cursor \<Rightarrow> size \<times> u64 option" where
  "sizeSpanLocked l c = size_span (sizes l) c zero_size"

definition log_close :: "go_error option \<Rightarrow> outputLog \<Rightarrow> outputLog" where
  "log_close err l =
     (if closed l then l
      else signalLocked (l\<lparr>closed := True, log_err := err, active := None\<rparr>))"

definition log_discard :: "outputLog \<Rightarrow> disk \<Rightarrow> outputLog \<times> disk" where
  "log_discard l d = (log_close None l, os_RemoveAll (directory l) d)"

end
