(* ===== verification/Log_Invariants.thy ===== *)
theory Log_Invariants
  imports Output_Log "HOL-Library.Sublist"
begin

text \<open>
  The invariant of an output log on its disk, that every operation keeps it, and what
  each operation does to the retained bytes: generations only ever grow at the end,
  completed ones never change, and what is gone does not come back.
\<close>

section \<open>The invariant\<close>

text \<open>The bytes a reader may see in a generation.\<close>

definition content :: "outputLog \<Rightarrow> disk \<Rightarrow> u64 \<Rightarrow> bytes option" where
  "content l d g = (case segments l g of None \<Rightarrow> None
     | Some s \<Rightarrow> map_option (\<lambda>i. take (unat (seg_size s)) (inode d i)) (dirent d (seg_path s)))"

definition segment_ok :: "outputLog \<Rightarrow> disk \<Rightarrow> u64 \<Rightarrow> outputSegment \<Rightarrow> bool" where
  "segment_ok l d g s \<longleftrightarrow>
     0 < g \<and> g \<le> log_generation l \<and>
     (\<exists>i. dirent d (seg_path s) = Some i \<and>
          (if closed l then unat (seg_size s) \<le> length (inode d i)
           else unat (seg_size s) = length (inode d i)))"

definition log_inv :: "outputLog \<Rightarrow> disk \<Rightarrow> bool" where
  "log_inv l d \<longleftrightarrow>
     disk_inv d \<and> segments l (log_generation l) \<noteq> None \<and>
     (\<forall>g s. segments l g = Some s \<longrightarrow> segment_ok l d g s) \<and>
     (\<forall>g h s t. segments l g = Some s \<longrightarrow> segments l h = Some t \<longrightarrow>
        seg_path s = seg_path t \<longrightarrow> g = h) \<and>
     active l = (if closed l then None
                 else dirent d (seg_path (segment_at l (log_generation l)))) \<and>
     (log_err l \<noteq> None \<longrightarrow> closed l)"

lemma log_invD:
  assumes "log_inv l d"
  shows "disk_inv d"
    and "\<exists>s. segments l (log_generation l) = Some s"
    and "segments l g = Some s \<Longrightarrow> segment_ok l d g s"
    and "segments l g = Some s \<Longrightarrow> segments l h = Some t \<Longrightarrow> seg_path s = seg_path t \<Longrightarrow> g = h"
    and "\<not> closed l \<Longrightarrow> active l = dirent d (seg_path (segment_at l (log_generation l)))"
    and "closed l \<Longrightarrow> active l = None"
    and "log_err l = Some e \<Longrightarrow> closed l"
  using assms unfolding log_inv_def by auto

lemma log_invI:
  assumes "disk_inv d" and "segments l (log_generation l) \<noteq> None"
    and "\<And>g s. segments l g = Some s \<Longrightarrow> segment_ok l d g s"
    and "\<And>g h s t. segments l g = Some s \<Longrightarrow> segments l h = Some t \<Longrightarrow> seg_path s = seg_path t \<Longrightarrow> g = h"
    and "\<not> closed l" and "active l = dirent d (seg_path (segment_at l (log_generation l)))"
    and "log_err l = None"
  shows "log_inv l d"
  unfolding log_inv_def using assms(1,2,5-7) by (simp, blast intro: assms(3,4))

lemma log_generation_pos: "log_inv l d \<Longrightarrow> 0 < log_generation l"
  by (metis log_invD(2,3) segment_ok_def)

lemma content_Some_bound: "log_inv l d \<Longrightarrow> content l d g = Some x \<Longrightarrow> g \<le> log_generation l \<and> 0 < g"
  by (auto simp: content_def segment_ok_def dest: log_invD(3) split: option.splits)

lemma segment_content:
  assumes "log_inv l d" and "segments l g = Some s"
  shows "\<exists>x. content l d g = Some x \<and> length x = unat (seg_size s)"
  using log_invD(3) [OF assms] assms(2)
  by (auto simp: content_def segment_ok_def split: if_splits)

lemma content_None_iff: "log_inv l d \<Longrightarrow> content l d g = None \<longleftrightarrow> segments l g = None"
  using segment_content by (fastforce simp: content_def split: option.splits)

lemma content_current: "log_inv l d \<Longrightarrow> content l d (log_generation l) \<noteq> None"
  by (metis content_None_iff log_invD(2) option.distinct(1))

lemma segment_at_Some [simp]: "segments l g = Some s \<Longrightarrow> segment_at l g = s"
  by (simp add: segment_at_def)

text \<open>An operation that leaves the stored segments alone leaves the bytes alone.\<close>

lemma content_frame:
  "segments l' = segments l \<Longrightarrow> content l' d g = content l d g"
  by (simp add: content_def)

lemma signalLocked_simps [simp]:
  "directory (signalLocked l) = directory l"
  "log_generation (signalLocked l) = log_generation l"
  "segments (signalLocked l) = segments l"
  "active (signalLocked l) = active l"
  "closed (signalLocked l) = closed l"
  "log_err (signalLocked l) = log_err l"
  "sizes (signalLocked l) = sizes l"
  "changed (signalLocked l) = Suc (changed l)"
  by (simp_all add: signalLocked_def)

lemma failLocked_simps [simp]:
  "directory (failLocked e l) = directory l"
  "log_generation (failLocked e l) = log_generation l"
  "segments (failLocked e l) = segments l"
  "active (failLocked e l) = None"
  "closed (failLocked e l) = True"
  "sizes (failLocked e l) = sizes l"
  "changed (failLocked e l) = Suc (changed l)"
  by (simp_all add: failLocked_def)

lemma log_err_failLocked: "log_err (failLocked e l) = Some (case log_err l of None \<Rightarrow> e | Some x \<Rightarrow> x)"
  by (simp add: failLocked_def split: option.split)

text \<open>The invariant reads only these fields, and closing a log can only relax it.\<close>

lemma log_inv_cong:
  assumes "log_inv l d" and "segments l' = segments l" and "log_generation l' = log_generation l"
    and "active l' = active l" and "closed l' = closed l" and "log_err l' = log_err l"
  shows "log_inv l' d"
  using assms unfolding log_inv_def segment_ok_def segment_at_def by simp

lemma log_inv_signalLocked [simp]: "log_inv (signalLocked l) d = log_inv l d"
  by (auto elim!: log_inv_cong)

lemma segment_ok_closed:
  assumes "segment_ok l d g s" and "log_generation l' = log_generation l" and "closed l'"
  shows "segment_ok l' d g s"
  using assms by (auto simp: segment_ok_def split: if_splits)

lemma log_inv_closed:
  assumes "log_inv l d" and "segments l' = segments l" and "log_generation l' = log_generation l"
    and "active l' = None" and "closed l'"
  shows "log_inv l' d"
  using assms unfolding log_inv_def
  by (auto intro: segment_ok_closed [of l d _ _ l'])

section \<open>Append\<close>

lemma segment_at_current_path:
  "log_inv l d \<Longrightarrow> segments l g = Some s \<Longrightarrow> seg_path s = seg_path (segment_at l (log_generation l)) \<Longrightarrow>
   g = log_generation l"
  by (metis log_invD(2,4) segment_at_Some)

text \<open>The descriptor of an open log, and the inode of every other segment.\<close>

lemma open_log_active:
  assumes "log_inv l d" and "\<not> closed l"
  obtains s i where "segments l (log_generation l) = Some s" and "active l = Some i"
    and "dirent d (seg_path s) = Some i" and "unat (seg_size s) = length (inode d i)"
    and "length (inode d i) \<le> max_file_size"
    and "\<And>g t j. segments l g = Some t \<Longrightarrow> dirent d (seg_path t) = Some j \<Longrightarrow>
          j = i \<longleftrightarrow> g = log_generation l"
proof -
  obtain s where s: "segments l (log_generation l) = Some s"
    using log_invD(2) [OF assms(1)] by blast
  obtain i where i: "dirent d (seg_path s) = Some i" "unat (seg_size s) = length (inode d i)"
    using log_invD(3) [OF assms(1) s] assms(2) by (auto simp: segment_ok_def)
  have "active l = Some i"
    using log_invD(5) [OF assms] s i(1) by simp
  moreover have "length (inode d i) \<le> max_file_size"
    using log_invD(1) [OF assms(1)] by (simp add: disk_inv_def)
  moreover have "j = i \<longleftrightarrow> g = log_generation l"
    if "segments l g = Some t" and "dirent d (seg_path t) = Some j" for g t j
    using that s i(1) log_invD(1) [OF assms(1)] log_invD(4) [OF assms(1) that(1) s]
    by (auto simp: disk_inv_def)
  ultimately show thesis using that s i by blast
qed

lemma max_file_size_less: "n \<le> max_file_size \<Longrightarrow> n < 2 ^ 63"
  by (simp add: max_file_size_def)

lemma unat_size_add:
  assumes "unat a + n \<le> max_file_size"
  shows "unat (a + of_nat n :: u64) = unat a + n"
proof -
  have "n < 2 ^ 64" and "unat a + n < 2 ^ 64"
    using max_file_size_less [OF assms] by simp_all
  then show ?thesis
    using unat_add_u64 [of a "of_nat n"] by (simp add: unat_of_nat_u64)
qed

abbreviation grow :: "nat \<Rightarrow> bytes \<Rightarrow> disk \<Rightarrow> disk" where
  "grow i data d \<equiv> d\<lparr>inode := (inode d)(i := inode d i @ data)\<rparr>"

definition stored :: "outputLog \<Rightarrow> bytes \<Rightarrow> outputLog" where
  "stored l data =
     (let s = segment_at l (log_generation l) in
      signalLocked (l\<lparr>segments := (segments l)(log_generation l \<mapsto>
        Segment (seg_path s) (seg_size s + of_nat (length data)))\<rparr>))"

lemma stored_simps [simp]:
  "directory (stored l data) = directory l" "log_generation (stored l data) = log_generation l"
  "active (stored l data) = active l" "closed (stored l data) = closed l"
  "log_err (stored l data) = log_err l" "sizes (stored l data) = sizes l"
  "changed (stored l data) = Suc (changed l)"
  "segments (stored l data) = (segments l)(log_generation l \<mapsto>
     Segment (seg_path (segment_at l (log_generation l)))
       (seg_size (segment_at l (log_generation l)) + of_nat (length data)))"
  by (simp_all add: stored_def Let_def)

text \<open>The three ways an append can go: nothing happens, a failed write closes the log, all is stored.\<close>

lemma log_append_cases:
  assumes inv: "log_inv l d" and run: "log_append oc l d data = (r, l', d')"
  obtains (same) "l' = l" and "d' = d" and "r = None \<longleftrightarrow> data = []"
  | (failed) i n e where "\<not> closed l" and "active l = Some i" and "r \<noteq> None"
      and "l' = failLocked e l" and "d' = grow i (take n data) d"
      and "length (inode d i) + length (take n data) \<le> max_file_size"
  | (ok) i where "\<not> closed l" and "active l = Some i" and "r = None" and "data \<noteq> []"
      and "l' = stored l data" and "d' = grow i data d"
      and "length (inode d i) + length data \<le> max_file_size"
proof (cases "data = [] \<or> closed l")
  case True
  then show thesis
    using run same by (cases "data = []") (auto simp: log_append_def)
next
  case False
  then have open_log: "\<not> closed l" by simp
  obtain s i where s: "active l = Some i" "length (inode d i) \<le> max_file_size"
    using open_log_active [OF inv open_log] by metis
  obtain e d1 where w: "writeFull (file_Write oc i) d data = (e, d1)" by fastforce
  obtain n where n: "n \<le> length data" "d1 = grow i (take n data) d"
      "length (inode d i) + n \<le> max_file_size" "e = None \<longrightarrow> n = length data"
    using writeFull_file [OF w s(2)] by blast
  show thesis
  proof (cases e)
    case None
    with n w s False run show thesis
      by (intro ok [of i]) (auto simp: log_append_def stored_def Let_def)
  next
    case (Some x)
    with n w s False run show thesis
      by (intro failed [of i "Wrap ''append output: '' x []" n])
        (auto simp: log_append_def Let_def log_err_failLocked)
  qed
qed

lemma log_inv_failed:
  assumes inv: "log_inv l d" and "\<not> closed l" and "active l = Some i"
    and len: "length (inode d i) + length data \<le> max_file_size"
  shows "log_inv (failLocked e l) (grow i data d)"
proof -
  have ok: "segment_ok (failLocked e l) (grow i data d) g s" if "segments l g = Some s" for g s
    using log_invD(3) [OF inv that] assms(2) by (auto simp: segment_ok_def)
  have "disk_inv (grow i data d)"
    using inv len by (intro disk_inv_append) (auto simp: log_inv_def)
  with inv ok show ?thesis
    unfolding log_inv_def by auto
qed

lemma content_failed:
  assumes inv: "log_inv l d" and "\<not> closed l"
  shows "content (failLocked e l) (grow i data d) g = content l d g"
  using log_invD(3) [OF inv, of g] assms(2)
  by (auto simp: content_def segment_ok_def split: option.splits)

lemma content_stored:
  assumes inv: "log_inv l d" and open_log: "\<not> closed l" and "active l = Some i"
    and len: "length (inode d i) + length data \<le> max_file_size"
  shows "content (stored l data) (grow i data d) g =
    (if g = log_generation l then map_option (\<lambda>x. x @ data) (content l d g) else content l d g)"
proof -
  obtain s where s: "segments l (log_generation l) = Some s" "dirent d (seg_path s) = Some i"
      "unat (seg_size s) = length (inode d i)"
    and other: "\<And>g t j. segments l g = Some t \<Longrightarrow> dirent d (seg_path t) = Some j \<Longrightarrow>
        j = i \<longleftrightarrow> g = log_generation l"
    using open_log_active [OF inv open_log] assms(3) by (metis option.inject)
  show ?thesis
  proof (cases "g = log_generation l")
    case True
    with s len show ?thesis by (simp add: content_def unat_size_add)
  next
    case False
    then show ?thesis
      using other [of g] by (auto simp: content_def map_option_case split: option.split)
  qed
qed

lemma segment_ok_stored:
  assumes inv: "log_inv l d" and open_log: "\<not> closed l" and "active l = Some i"
    and len: "length (inode d i) + length data \<le> max_file_size"
    and seg: "segments (stored l data) g = Some t"
  shows "segment_ok (stored l data) (grow i data d) g t"
proof -
  obtain s where s: "segments l (log_generation l) = Some s" "dirent d (seg_path s) = Some i"
      "unat (seg_size s) = length (inode d i)"
    and other: "\<And>g t j. segments l g = Some t \<Longrightarrow> dirent d (seg_path t) = Some j \<Longrightarrow>
        j = i \<longleftrightarrow> g = log_generation l"
    using open_log_active [OF inv open_log] assms(3) by (metis option.inject)
  show ?thesis
  proof (cases "g = log_generation l")
    case True
    with seg s len open_log log_invD(3) [OF inv s(1)] show ?thesis
      by (auto simp: segment_ok_def unat_size_add)
  next
    case False
    then have t: "segments l g = Some t" using seg by simp
    from log_invD(3) [OF inv t] other [OF t] False open_log show ?thesis
      by (auto simp: segment_ok_def)
  qed
qed

lemma log_inv_stored:
  assumes inv: "log_inv l d" and open_log: "\<not> closed l" and act: "active l = Some i"
    and len: "length (inode d i) + length data \<le> max_file_size"
  shows "log_inv (stored l data) (grow i data d)"
proof -
  obtain s where s: "segments l (log_generation l) = Some s" "dirent d (seg_path s) = Some i"
    using open_log_active [OF inv open_log] act by (metis option.inject)
  have path: "\<exists>t'. segments l h = Some t' \<and> seg_path t' = seg_path t"
    if "segments (stored l data) h = Some t" for h t
    using that s(1) by (auto split: if_splits)
  have inj: "g = h" if "segments (stored l data) g = Some a" "segments (stored l data) h = Some b"
      "seg_path a = seg_path b" for g h a b
    using path [OF that(1)] path [OF that(2)] that(3) log_invD(4) [OF inv] by metis
  have "active (stored l data) = (if closed (stored l data) then None
      else dirent (grow i data d) (seg_path (segment_at (stored l data) (log_generation (stored l data)))))"
    using s act open_log by (simp add: segment_at_def)
  moreover have "disk_inv (grow i data d)"
    using inv len by (intro disk_inv_append) (auto simp: log_inv_def)
  moreover have "log_err (stored l data) \<noteq> None \<longrightarrow> closed (stored l data)"
    using inv by (auto simp: log_inv_def)
  moreover have "segments (stored l data) (log_generation (stored l data)) \<noteq> None" by simp
  ultimately show ?thesis
    unfolding log_inv_def
    using inj segment_ok_stored [OF inv open_log act len] by blast
qed

lemma log_append_inv [wf_intros]:
  assumes "log_inv l d" and "log_append oc l d data = (r, l', d')"
  shows "log_inv l' d'"
  using assms
proof (cases rule: log_append_cases)
  case same
  with assms(1) show ?thesis by simp
next
  case (failed i n e)
  with log_inv_failed [OF assms(1), of i "take n data" e] show ?thesis by simp
next
  case (ok i)
  with log_inv_stored [OF assms(1), of i data] show ?thesis by simp
qed

lemma log_append_content:
  assumes "log_inv l d" and "log_append oc l d data = (r, l', d')"
  shows "content l' d' g =
    (if r = None \<and> g = log_generation l then map_option (\<lambda>x. x @ data) (content l d g)
     else content l d g)"
  using assms
proof (cases rule: log_append_cases)
  case same
  then show ?thesis by (cases "content l d g") auto
next
  case (failed i n e)
  with assms(1) show ?thesis by (auto simp: content_failed)
next
  case (ok i)
  with assms(1) show ?thesis by (simp add: content_stored)
qed

lemma file_Write_dirent: "file_Write oc i d data = (r, d') \<Longrightarrow> dirent d' = dirent d"
  by (auto simp: file_Write_def Let_def split: if_splits write_outcome.splits)

lemma writeFull_file_dirent:
  "writeFull (file_Write oc i) d data = (e, d') \<Longrightarrow> dirent d' = dirent d"
proof (induction "length data" arbitrary: d data rule: less_induct)
  case less
  show ?case
  proof (cases "data = []")
    case True
    with less.prems show ?thesis by simp
  next
    case False
    obtain n err d1 where w: "file_Write oc i d data = ((n, err), d1)" by (metis surj_pair)
    with False less.prems less.hyps [of "drop n data" d1] file_Write_dirent [OF w] show ?thesis
      by (auto simp: writeFull.simps [of _ d data] split: option.splits if_splits)
  qed
qed

lemma log_append_same:
  assumes "log_append oc l d data = (r, l', d')"
  shows "log_generation l' = log_generation l" and "sizes l' = sizes l"
    and "directory l' = directory l" and "dirent d' = dirent d"
  using assms
  by (auto simp: log_append_def Let_def dest: writeFull_file_dirent
      split: if_splits option.splits prod.splits)

section \<open>Rotate\<close>

text \<open>A rotation fails and changes nothing, or starts an empty generation and ends the current one.\<close>

lemma log_rotate_cases:
  assumes "log_rotate fault l d = (r, l', d')"
  obtains (same) e where "r = Inl e" and "l' = l" and "d' = d"
  | (ok) i path where "\<not> closed l" and "log_generation l + 1 \<noteq> 0"
      and "r = Inr (Cursor (log_generation l + 1) 0)"
      and "os_Create fault path d = Inr (i, d')"
      and "path = outputSegmentPath (directory l) (log_generation l + 1)"
      and "log_generation l' = log_generation l + 1"
      and "segments l' = (segments l)(log_generation l + 1 \<mapsto> Segment path 0)"
      and "active l' = Some i" and "closed l' = closed l" and "log_err l' = log_err l"
      and "directory l' = directory l" and "changed l' = Suc (changed l)"
      and "sizes l' = (if sizes l = [] then []
        else sizes l @ [SizeMark (Cursor (log_generation l + 1) 0) (mark_size (last (sizes l)))])"
  using assms
  by (auto simp: log_rotate_def Let_def split: if_splits sum.splits option.splits)

lemma log_rotate_inv [wf_intros]:
  assumes inv: "log_inv l d" and run: "log_rotate fault l d = (r, l', d')"
  shows "log_inv l' d'"
  using run
proof (cases rule: log_rotate_cases)
  case (same e)
  with inv show ?thesis by simp
next
  case (ok i path)
  note new = os_Create_Inr [OF ok(4)]
  have old: "seg_path s \<noteq> path \<and> (\<exists>j. dirent d (seg_path s) = Some j \<and> j \<noteq> i \<and> j < i)"
    if "segments l g = Some s" for g s
    using log_invD(1) [OF inv] log_invD(3) [OF inv that] new
    by (fastforce simp: segment_ok_def disk_inv_def)
  have less: "log_generation l < log_generation l + 1"
    using ok(2) by (rule less_u64_plus_one)
  have "segment_ok l' d' g s" if "segments l' g = Some s" for g s
  proof (cases "g = log_generation l + 1")
    case True
    then have "s = Segment path 0" using that ok(7) by simp
    with True ok(1,2,6,9) new show ?thesis
      by (simp add: segment_ok_def word_neq_0_conv)
  next
    case False
    then have "segments l g = Some s" using that ok(7) by simp
    note ok_old = log_invD(3) [OF inv this] and same = old [OF this]
    have "dirent d' (seg_path s) = dirent d (seg_path s)" and "g \<le> log_generation l'"
      using same new ok_old ok(6) less by (auto simp: segment_ok_def)
    moreover have "inode d' j = inode d j" if "dirent d (seg_path s) = Some j" for j
      using that same new by auto
    ultimately show ?thesis
      using ok_old ok(1,9) unfolding segment_ok_def by auto
  qed
  moreover have "g = h" if "segments l' g = Some s" "segments l' h = Some t" "seg_path s = seg_path t"
    for g h s t
    using that ok(7) old [of g s] old [of h t] log_invD(4) [OF inv, of g s h t]
    by (cases "g = log_generation l + 1"; cases "h = log_generation l + 1") auto
  moreover have "active l' = dirent d' (seg_path (segment_at l' (log_generation l')))"
    using ok(6,7,8) new by simp
  moreover have "log_err l' = None"
    using ok(1,10) log_invD(7) [OF inv] by (cases "log_err l") auto
  moreover have "segments l' (log_generation l') \<noteq> None" and "\<not> closed l'"
    using ok(1,6,7,9) by simp_all
  ultimately show ?thesis
    using os_Create_inv [OF ok(4) log_invD(1) [OF inv]] by - (rule log_invI)
qed

lemma log_rotate_content:
  assumes inv: "log_inv l d" and run: "log_rotate fault l d = (r, l', d')"
  shows "content l' d' g =
    (if log_generation l' \<noteq> log_generation l \<and> g = log_generation l' then Some [] else content l d g)"
  using run
proof (cases rule: log_rotate_cases)
  case (same e)
  then show ?thesis by simp
next
  case (ok i path)
  note new = os_Create_Inr [OF ok(4)]
  have "dirent d' (seg_path s) = dirent d (seg_path s) \<and> dirent d (seg_path s) \<noteq> Some i"
    if "segments l g = Some s" for s
    using log_invD(1) [OF inv] log_invD(3) [OF inv that] new
    by (fastforce simp: segment_ok_def disk_inv_def)
  then show ?thesis
    using ok(6,7) new
    by (auto simp: content_def map_option_case split: option.splits)
qed

section \<open>Prune\<close>

definition paths_distinct :: "(u64 \<rightharpoonup> outputSegment) \<Rightarrow> bool" where
  "paths_distinct segs \<longleftrightarrow>
     (\<forall>g h s t. segs g = Some s \<longrightarrow> segs h = Some t \<longrightarrow> seg_path s = seg_path t \<longrightarrow> g = h)"

lemma paths_distinct_remove: "paths_distinct segs \<Longrightarrow> paths_distinct (segs(g := None))"
  by (auto simp: paths_distinct_def)

text \<open>What every removal of the loop keeps, the loop keeps.\<close>

lemma os_Remove_error: "os_Remove fault path d = (Some e, d1) \<Longrightarrow> d1 = d"
  by (auto simp: os_Remove_def split: option.splits if_splits)

lemma prune_segments_Cons_cases:
  assumes "prune_segments faults before cur (g # order) segs d = (err, segs', d')"
  obtains (skip) "segs g = None \<or> before \<le> g \<or> g = cur"
      and "prune_segments faults before cur order segs d = (err, segs', d')"
  | (removed) s e d1 where "segs g = Some s" and "g < before" and "g \<noteq> cur"
      and "os_Remove (faults (seg_path s)) (seg_path s) d = (e, d1)"
      and "\<And>x. e = Some x \<Longrightarrow> errors_Is x ErrNotExist"
      and "prune_segments faults before cur order (segs(g := None)) d1 = (err, segs', d')"
  | (failed) "err \<noteq> None" and "segs' = segs" and "d' = d"
proof (cases "segs g = None \<or> before \<le> g \<or> g = cur")
  case True
  with assms skip show thesis by (auto split: option.splits)
next
  case False
  then obtain s where s: "segs g = Some s" "g < before" "g \<noteq> cur" by auto
  then have keep: "\<not> before \<le> g" by simp
  obtain e d1 where rm: "os_Remove (faults (seg_path s)) (seg_path s) d = (e, d1)" by fastforce
  show thesis
  proof (cases "\<exists>x. e = Some x \<and> \<not> errors_Is x ErrNotExist")
    case True
    with assms s keep rm show thesis using os_Remove_error [of _ _ d] failed by auto
  next
    case False
    with assms s keep rm have "prune_segments faults before cur order (segs(g := None)) d1 = (err, segs', d')"
      by (auto split: option.splits if_splits)
    with False show thesis using removed [OF s rm] by blast
  qed
qed

lemma prune_segments_keeps:
  assumes "prune_segments faults before cur order segs d = (err, segs', d')" and "P segs d"
    and "\<And>segs d g s e d1. P segs d \<Longrightarrow> segs g = Some s \<Longrightarrow> g < before \<Longrightarrow> g \<noteq> cur \<Longrightarrow>
      os_Remove (faults (seg_path s)) (seg_path s) d = (e, d1) \<Longrightarrow>
      (\<And>x. e = Some x \<Longrightarrow> errors_Is x ErrNotExist) \<Longrightarrow> P (segs(g := None)) d1"
  shows "P segs' d'"
  using assms(1,2)
proof (induction order arbitrary: segs d)
  case Nil
  then show ?case by simp
next
  case (Cons g order)
  from Cons.prems(1) show ?case
    by (cases rule: prune_segments_Cons_cases) (use Cons assms(3) in blast)+
qed

definition prune_rel ::
  "u64 \<Rightarrow> u64 \<Rightarrow> (u64 \<rightharpoonup> outputSegment) \<Rightarrow> disk \<Rightarrow> (u64 \<rightharpoonup> outputSegment) \<Rightarrow> disk \<Rightarrow> bool" where
  "prune_rel before cur segs d segs' d' \<longleftrightarrow>
     disk_inv d' \<and> inode d' = inode d \<and> next_inode d' = next_inode d \<and> dirent d' \<subseteq>\<^sub>m dirent d \<and>
     paths_distinct segs' \<and>
     (\<forall>g. segs' g = segs g \<or> segs' g = None \<and> g < before \<and> g \<noteq> cur) \<and>
     (\<forall>g s. segs' g = Some s \<longrightarrow> dirent d' (seg_path s) = dirent d (seg_path s))"

lemma prune_rel_remove:
  assumes rel: "prune_rel before cur segs d segs1 d1" and seg: "segs1 g = Some s"
    and "g < before" and "g \<noteq> cur" and rm: "os_Remove fault (seg_path s) d1 = (e, d2)"
  shows "prune_rel before cur segs d (segs1(g := None)) d2"
proof -
  have d2: "disk_inv d2" "inode d2 = inode d1" "next_inode d2 = next_inode d1" "\<And>q. q \<noteq> seg_path s \<Longrightarrow> dirent d2 q = dirent d1 q"
    using os_Remove_inv [where path = "seg_path s" and fault = fault and d = d1]
      os_Remove_same [where path = "seg_path s" and fault = fault and d = d1] rm rel
    by (simp_all add: prune_rel_def)
  have "dirent d2 (seg_path t) = dirent d (seg_path t)" if "(segs1(g := None)) h = Some t" for h t
    using that d2(4) [of "seg_path t"] rel seg
    by (auto simp: prune_rel_def paths_distinct_def split: if_splits)
  moreover have "dirent d2 \<subseteq>\<^sub>m dirent d1"
    using rm by (auto simp: os_Remove_def map_le_def split: option.splits if_splits)
  ultimately show ?thesis
    using assms d2(1-3) by (auto simp: prune_rel_def paths_distinct_remove intro: map_le_trans)
qed

lemma prune_segments_rel:
  assumes "prune_segments faults before cur order segs d = (err, segs', d')"
    and "disk_inv d" and "paths_distinct segs"
  shows "prune_rel before cur segs d segs' d'"
proof (rule prune_segments_keeps [OF assms(1)])
  show "prune_rel before cur segs d segs d"
    using assms(2,3) by (simp add: prune_rel_def)
qed (rule prune_rel_remove)

lemma prune_segments_None:
  "prune_segments faults before cur order segs d = (err, segs', d') \<Longrightarrow> segs g = None \<Longrightarrow> segs' g = None"
  by (erule prune_segments_keeps [where P = "\<lambda>segs d. segs g = None"]) auto

lemma prune_segments_complete:
  assumes "prune_segments faults before cur order segs d = (None, segs', d')"
    and "g \<in> set order" and "g < before" and "g \<noteq> cur"
  shows "segs' g = None"
  using assms(1,2)
proof (induction order arbitrary: segs d)
  case Nil
  then show ?case by simp
next
  case (Cons h order)
  from Cons.prems(1) show ?case
  proof (cases rule: prune_segments_Cons_cases)
    case skip
    then show ?thesis
      using Cons.IH Cons.prems(2) assms(3,4) prune_segments_None [OF skip(2)] by auto
  next
    case (removed s e d1)
    then show ?thesis
      using Cons.IH [OF removed(6)] Cons.prems(2) prune_segments_None [OF removed(6), of h] by auto
  qed simp
qed

lemma paths_distinct_log_inv: "log_inv l d \<Longrightarrow> paths_distinct (segments l)"
  unfolding paths_distinct_def using log_invD(4) by blast

text \<open>A prune changes nothing, or is the loop above; what it leaves is described by \<open>prune_rel\<close>.\<close>

lemma log_prune_cases:
  assumes inv: "log_inv l d" and run: "log_prune faults order l d before = (r, l', d')"
  obtains (same) "r \<noteq> None" and "l' = l" and "d' = d"
  | (pruned) "\<not> closed l" and "log_err l = None"
      and "prune_rel (generation before) (log_generation l) (segments l) d (segments l') d'"
      and "log_generation l' = log_generation l" and "active l' = active l"
      and "closed l' = closed l" and "log_err l' = log_err l" and "directory l' = directory l"
      and "r = None \<Longrightarrow> changed l' = Suc (changed l)"
      and "r = None \<Longrightarrow> \<forall>g \<in> set order. g < generation before \<longrightarrow> g \<noteq> log_generation l \<longrightarrow> segments l' g = None"
      and "sizes l' = (if r = None
        then filter (\<lambda>m. segments l' (generation (mark_cursor m)) \<noteq> None) (sizes l) else sizes l)"
proof (cases "log_err l \<noteq> None \<or> closed l \<or> generation before = 0 \<or> offset before \<noteq> 0 \<or>
    generation before > log_generation l")
  case True
  then have "\<exists>e. log_prune faults order l d before = (Some e, l, d)"
    by (cases "log_err l") (auto simp: log_prune_def)
  with run same show thesis by auto
next
  case False
  obtain e segs d1 where loop:
      "prune_segments faults (generation before) (log_generation l) order (segments l) d = (e, segs, d1)"
    by (metis surj_pair)
  have rel: "prune_rel (generation before) (log_generation l) (segments l) d segs d1"
    using prune_segments_rel [OF loop log_invD(1) [OF inv] paths_distinct_log_inv [OF inv]] .
  show thesis
  proof (rule pruned)
    show "r = None \<Longrightarrow> \<forall>g \<in> set order. g < generation before \<longrightarrow> g \<noteq> log_generation l \<longrightarrow> segments l' g = None"
      using False run loop prune_segments_complete [of faults "generation before" "log_generation l" order "segments l" d]
      by (auto simp: log_prune_def split: option.splits)
  qed (use False run loop rel in \<open>auto simp: log_prune_def split: option.splits\<close>)
qed

lemma prune_rel_retained:
  "prune_rel before cur segs d segs' d' \<Longrightarrow> segs' g = Some s \<Longrightarrow>
   segs g = Some s \<and> dirent d' (seg_path s) = dirent d (seg_path s)"
  unfolding prune_rel_def by (metis option.distinct(1))

lemma prune_rel_dropped:
  "prune_rel before cur segs d segs' d' \<Longrightarrow> segs' g = None \<Longrightarrow> segs g = None \<or> g < before \<and> g \<noteq> cur"
  unfolding prune_rel_def by metis

lemma prune_rel_kept:
  "prune_rel before cur segs d segs' d' \<Longrightarrow> before \<le> g \<or> g = cur \<Longrightarrow> segs' g = segs g"
  unfolding prune_rel_def by (metis not_le)

lemma log_prune_inv [wf_intros]:
  assumes inv: "log_inv l d" and run: "log_prune faults order l d before = (r, l', d')"
  shows "log_inv l' d'"
  using assms
proof (cases rule: log_prune_cases)
  case same
  with inv show ?thesis by simp
next
  case pruned
  note keep = prune_rel_retained [OF pruned(3)]
  have node: "inode d' = inode d" using pruned(3) by (simp add: prune_rel_def)
  have "segment_ok l' d' g s" if "segments l' g = Some s" for g s
    using keep [OF that] log_invD(3) [OF inv, of g s] node pruned(4,6)
    by (auto simp: segment_ok_def)
  moreover have cur: "segments l' (log_generation l) = segments l (log_generation l)"
    using prune_rel_kept [OF pruned(3)] by simp
  moreover obtain s where s: "segments l (log_generation l) = Some s"
    using log_invD(2) [OF inv] by blast
  moreover have "active l' = dirent d' (seg_path (segment_at l' (log_generation l')))"
    using log_invD(5) [OF inv pruned(1)] keep [of "log_generation l" s] s cur pruned(4,5)
    by simp
  moreover have "disk_inv d'" and dist: "paths_distinct (segments l')"
    using pruned(3) by (simp_all add: prune_rel_def)
  moreover have inj: "g = h"
    if "segments l' g = Some s" "segments l' h = Some t" "seg_path s = seg_path t" for g h s t
    using dist that unfolding paths_distinct_def by blast
  moreover have "\<not> closed l'" and "log_err l' = None"
    using pruned(1,2,6,7) by simp_all
  moreover have "segments l' (log_generation l') \<noteq> None"
    using cur pruned(4) s by simp
  ultimately show ?thesis
    using inj by - (rule log_invI)
qed

lemma log_prune_content:
  assumes inv: "log_inv l d" and run: "log_prune faults order l d before = (r, l', d')"
  shows "content l' d' g = content l d g \<or>
    content l' d' g = None \<and> g < generation before \<and> g \<noteq> log_generation l"
  using assms
proof (cases rule: log_prune_cases)
  case same
  then show ?thesis by simp
next
  case pruned
  show ?thesis
  proof (cases "segments l' g")
    case None
    with prune_rel_dropped [OF pruned(3), of g] show ?thesis by (auto simp: content_def)
  next
    case (Some s)
    with prune_rel_retained [OF pruned(3) Some] pruned(3) show ?thesis
      by (simp add: content_def prune_rel_def)
  qed
qed

section \<open>Marks and close\<close>

lemma log_markSize_simps [simp]:
  "directory (log_markSize l sz) = directory l"
  "log_generation (log_markSize l sz) = log_generation l"
  "segments (log_markSize l sz) = segments l"
  "active (log_markSize l sz) = active l"
  "closed (log_markSize l sz) = closed l"
  "log_err (log_markSize l sz) = log_err l"
  by (simp_all add: log_markSize_def Let_def)

lemma log_markSize_inv [wf_intros]: "log_inv l d \<Longrightarrow> log_inv (log_markSize l sz) d"
  by (rule log_inv_cong) simp_all

lemma log_close_simps [simp]:
  "directory (log_close e l) = directory l"
  "log_generation (log_close e l) = log_generation l"
  "segments (log_close e l) = segments l"
  "sizes (log_close e l) = sizes l"
  "closed (log_close e l)"
  by (simp_all add: log_close_def)

lemma log_close_inv [wf_intros]: "log_inv l d \<Longrightarrow> log_inv (log_close e l) d"
  by (rule log_inv_closed) (simp_all, simp add: log_close_def log_invD(6))

end
