(* ===== verification/Log_History.thy ===== *)
theory Log_History
  imports Log_Invariants
begin

text \<open>
  Histories of an output log: the operations as labels, one step each, in any order and
  with any faults of the operating system. The contract a reader relies on is the locale
  \<open>segment_store\<close>: generations only grow at the end, completed ones never change, the
  current one is always there, and what is gone does not come back. Inside it, over any
  number of steps, follows that a cursor names the same byte for ever. The log and its
  disk interpret the locale.
\<close>

section \<open>Operations as steps\<close>

datatype log_op =
    Append write_outcome bytes
  | Rotate "go_error option"
  | Prune "bytes \<Rightarrow> go_error option" "u64 list" cursor
  | MarkSize size
  | CloseLog "go_error option"

fun log_exec :: "log_op \<Rightarrow> outputLog \<times> disk \<Rightarrow> outputLog \<times> disk" where
  "log_exec (Append oc data) (l, d) = snd (log_append oc l d data)"
| "log_exec (Rotate fault) (l, d) = snd (log_rotate fault l d)"
| "log_exec (Prune faults order before) (l, d) = snd (log_prune faults order l d before)"
| "log_exec (MarkSize sz) (l, d) = (log_markSize l sz, d)"
| "log_exec (CloseLog err) (l, d) = (log_close err l, d)"

inductive log_step :: "outputLog \<times> disk \<Rightarrow> outputLog \<times> disk \<Rightarrow> bool" where
  log_step: "log_step st (log_exec op st)"

inductive_cases log_stepE: "log_step st st'"

definition log_run :: "log_op list \<Rightarrow> outputLog \<times> disk \<Rightarrow> outputLog \<times> disk" where
  "log_run ops st = foldl (\<lambda>s op. log_exec op s) st ops"

lemma log_run_simps [simp]:
  "log_run [] st = st" "log_run (op # ops) st = log_run ops (log_exec op st)"
  by (simp_all add: log_run_def)

lemma log_run_steps: "log_step\<^sup>*\<^sup>* st (log_run ops st)"
proof (induction ops arbitrary: st)
  case (Cons op ops)
  then show ?case
    using converse_rtranclp_into_rtranclp [OF log_step Cons.IH] by simp
qed simp

lemma log_exec_cases:
  assumes "log_exec op (l, d) = (l', d')"
  obtains (append) oc data r where "op = Append oc data" and "log_append oc l d data = (r, l', d')"
  | (rotate) fault c where "op = Rotate fault" and "log_rotate fault l d = (c, l', d')"
  | (prune) faults order before r where "op = Prune faults order before"
      and "log_prune faults order l d before = (r, l', d')"
  | (mark) sz where "op = MarkSize sz" and "l' = log_markSize l sz" and "d' = d"
  | (close) err where "op = CloseLog err" and "l' = log_close err l" and "d' = d"
  using assms by (cases op) (auto, (metis prod.collapse)+)

lemma log_exec_inv: "log_inv l d \<Longrightarrow> log_exec op (l, d) = (l', d') \<Longrightarrow> log_inv l' d'"
  by (erule log_exec_cases) (auto intro: wf_intros)

lemma log_exec_generation:
  assumes "log_inv l d" and "log_exec op (l, d) = (l', d')"
  shows "log_generation l' = log_generation l \<or>
    log_generation l < log_generation l' \<and> log_generation l' = log_generation l + 1 \<and>
    content l' d' (log_generation l') = Some []"
  using assms(2)
proof (cases rule: log_exec_cases)
  case (append oc data r)
  then show ?thesis by (simp add: log_append_same)
next
  case (rotate fault c)
  note run = rotate(2)
  from run show ?thesis
    by (cases rule: log_rotate_cases)
      (auto simp: log_rotate_content [OF assms(1) run] less_u64_plus_one)
next
  case (prune faults order before r)
  from assms(1) prune(2) show ?thesis by (cases rule: log_prune_cases) auto
qed simp_all

lemma log_exec_content:
  assumes "log_inv l d" and "log_exec op (l, d) = (l', d')" and "g \<le> log_generation l"
  shows "content l' d' g = content l d g \<or>
    content l' d' g = None \<and> g < log_generation l \<or>
    g = log_generation l \<and> (\<exists>x y. content l d g = Some x \<and> content l' d' g = Some (x @ y))"
  using assms(2)
proof (cases rule: log_exec_cases)
  case (append oc data r)
  from log_append_content [OF assms(1) append(2), of g] show ?thesis
    by (cases "content l d g") auto
next
  case (rotate fault c)
  from log_rotate_content [OF assms(1) rotate(2), of g] log_exec_generation [OF assms(1,2)] assms(3)
  show ?thesis by auto
next
  case (prune faults order before r)
  from log_prune_content [OF assms(1) prune(2), of g] assms(3) show ?thesis by auto
next
  case (mark sz)
  then show ?thesis using content_frame [of l' l d g] by simp
next
  case (close err)
  then show ?thesis using content_frame [of l' l d g] by simp
qed

section \<open>The contract of a segment store\<close>

locale segment_store =
  fixes inv :: "'s \<Rightarrow> bool" and step :: "'s \<Rightarrow> 's \<Rightarrow> bool"
    and current :: "'s \<Rightarrow> 'g::linorder" and stored_bytes :: "'s \<Rightarrow> 'g \<Rightarrow> 'b list option"
  assumes inv_step: "inv s \<Longrightarrow> step s s' \<Longrightarrow> inv s'"
    and current_step: "inv s \<Longrightarrow> step s s' \<Longrightarrow> current s \<le> current s'"
    and current_stored: "inv s \<Longrightarrow> stored_bytes s (current s) \<noteq> None"
    and none_after: "inv s \<Longrightarrow> current s < g \<Longrightarrow> stored_bytes s g = None"
    and not_back: "inv s \<Longrightarrow> step s s' \<Longrightarrow> g \<le> current s \<Longrightarrow> stored_bytes s g = None \<Longrightarrow>
      stored_bytes s' g = None"
    and grows: "inv s \<Longrightarrow> step s s' \<Longrightarrow> stored_bytes s g = Some x \<Longrightarrow> stored_bytes s' g = Some y \<Longrightarrow>
      prefix x y \<and> (g < current s \<longrightarrow> y = x)"
begin

lemma inv_steps: "step\<^sup>*\<^sup>* s s' \<Longrightarrow> inv s \<Longrightarrow> inv s'"
  by (induction rule: rtranclp_induct) (auto intro: inv_step)

lemma current_steps: "step\<^sup>*\<^sup>* s s' \<Longrightarrow> inv s \<Longrightarrow> current s \<le> current s'"
  by (induction rule: rtranclp_induct) (auto intro: order_trans current_step inv_steps)

lemma expired_steps:
  "step\<^sup>*\<^sup>* s s' \<Longrightarrow> inv s \<Longrightarrow> g \<le> current s \<Longrightarrow> stored_bytes s g = None \<Longrightarrow> stored_bytes s' g = None"
proof (induction rule: rtranclp_induct)
  case (step t u)
  then show ?case
    using inv_steps [OF step.hyps(1)] current_steps [OF step.hyps(1)]
    by (auto intro!: not_back [of t u g])
qed simp

lemma bytes_steps:
  assumes "step\<^sup>*\<^sup>* s s'" and "inv s" and "stored_bytes s g = Some x" and "stored_bytes s' g = Some y"
  shows "prefix x y \<and> (g < current s \<longrightarrow> y = x)"
  using assms
proof (induction arbitrary: y rule: rtranclp_induct)
  case (step t u)
  have t: "inv t" and le: "current s \<le> current t"
    using inv_steps current_steps step.hyps(1) step.prems(1) by auto
  have "g \<le> current s"
    using none_after [OF step.prems(1)] step.prems(2) by (metis linorder_not_le option.distinct(1))
  then obtain z where z: "stored_bytes t g = Some z"
    using not_back [OF t step.hyps(2) order_trans [OF _ le]] step.prems(3)
    by (cases "stored_bytes t g") auto
  with step.IH [OF step.prems(1,2)] grows [OF t step.hyps(2) z step.prems(3)] le show ?case
    by (auto dest: prefix_order.order_trans)
qed simp

text \<open>A position that is retained now and later holds the same byte.\<close>

lemma byte_stable:
  assumes "step\<^sup>*\<^sup>* s s'" and "inv s" and "stored_bytes s g = Some x" and "stored_bytes s' g = Some y"
    and "n < length x"
  shows "n < length y \<and> y ! n = x ! n"
  using bytes_steps [OF assms(1-4)] assms(5) by (auto simp: prefix_def nth_append)

end

definition store_inv :: "outputLog \<times> disk \<Rightarrow> bool" where
  "store_inv = (\<lambda>(l, d). log_inv l d)"

definition store_current :: "outputLog \<times> disk \<Rightarrow> u64" where
  "store_current = (\<lambda>(l, d). log_generation l)"

definition store_content :: "outputLog \<times> disk \<Rightarrow> u64 \<Rightarrow> bytes option" where
  "store_content = (\<lambda>(l, d). content l d)"

lemmas store_defs = store_inv_def store_current_def store_content_def

lemma store_step_grows:
  assumes "log_inv l d" and "log_exec op (l, d) = (l', d')"
    and "content l d g = Some x" and "content l' d' g = Some y"
  shows "prefix x y \<and> (g < log_generation l \<longrightarrow> y = x)"
  using log_exec_content [OF assms(1,2), of g] content_Some_bound [OF assms(1,3)] assms(3,4) by auto

interpretation olog: segment_store store_inv log_step store_current store_content
proof unfold_locales
  fix s s' :: "outputLog \<times> disk" and g x y
  obtain l d where s: "s = (l, d)" by fastforce
  obtain l' d' where s': "s' = (l', d')" by fastforce
  show "store_content s (store_current s) \<noteq> None" if "store_inv s"
    using that s content_current by (simp add: store_defs)
  show "store_content s g = None" if "store_inv s" "store_current s < g"
    using that s content_Some_bound [of l d g] by (cases "content l d g") (auto simp: store_defs)
  assume inv: "store_inv s" and "log_step s s'"
  then obtain op where inv: "log_inv l d" and run: "log_exec op (l, d) = (l', d')"
    using s s' by (auto simp: store_defs elim!: log_stepE)
  show "store_inv s'"
    using log_exec_inv [OF inv run] s' by (simp add: store_defs)
  show "store_current s \<le> store_current s'"
    using log_exec_generation [OF inv run] s s' by (auto simp: store_defs)
  show "store_content s' g = None" if "g \<le> store_current s" "store_content s g = None"
    using log_exec_content [OF inv run, of g] that s s' by (auto simp: store_defs)
  show "prefix x y \<and> (g < store_current s \<longrightarrow> y = x)"
    if "store_content s g = Some x" "store_content s' g = Some y"
    using store_step_grows [OF inv run, of g x y] that s s' by (simp add: store_defs)
qed

section \<open>A small log to evaluate on\<close>

definition demo_disk :: "bytes \<Rightarrow> disk" where
  "demo_disk x = \<lparr>dirent = [''/t/1'' \<mapsto> 0], inode = (\<lambda>_. [])(0 := x), next_inode = 1\<rparr>"

definition demo_log :: outputLog where
  "demo_log = \<lparr>directory = ''/t'', log_generation = 1, segments = [1 \<mapsto> Segment ''/t/1'' 0],
     active = Some 0, changed = 0, closed = False, log_err = None, sizes = []\<rparr>"

lemma demo_inv: "log_inv demo_log (demo_disk [])"
  by (rule log_invI)
    (auto simp: demo_log_def demo_disk_def disk_inv_def segment_ok_def segment_at_def max_file_size_def
      split: if_splits)

text \<open>One append on a file: the evaluation rule of the examples.\<close>

lemma writeFull_one:
  "data \<noteq> [] \<Longrightarrow> length (inode d i) + length data \<le> max_file_size \<Longrightarrow>
   writeFull (file_Write WriteOK i) d data = (None, grow i data d)"
  by (simp add: writeFull.simps [of _ d data] file_Write_def le_diff_conv2)

lemmas log_eval = log_append_def log_rotate_def log_prune_def log_markSize_def log_close_def
  signalLocked_def failLocked_def segment_at_def collapseSizesLocked_def writeFull_one
  max_file_size_def os_Create_def os_Remove_def os_Open_def Let_def

lemmas demo_eval = log_eval demo_log_def demo_disk_def

end
