(* ===== verification/Size_Marks.thy ===== *)
theory Size_Marks
  imports Log_History
begin

text \<open>
  The size marks of an output log. A ghost history stamps every appended byte with the
  grid size that was in effect, and every generation with the size it ended with,
  independently of the marks; the theorem of this theory is that \<^verbatim>\<open>sizeSpanLocked\<close> reports
  exactly that stamp for every retained byte, and exactly the distance to the next stamp
  that differs, whatever appends, rotations, prunes, resizes and failures lie between.
\<close>

section \<open>Reading the marks\<close>

definition marks_sorted :: "sizeMark list \<Rightarrow> bool" where
  "marks_sorted ms \<longleftrightarrow> sorted_wrt (\<lambda>a b. mark_cursor a < mark_cursor b) ms"

definition applies :: "cursor \<Rightarrow> sizeMark \<Rightarrow> bool" where
  "applies c m \<longleftrightarrow> generation (mark_cursor m) = generation c \<and> offset (mark_cursor m) \<le> offset c"

definition later :: "cursor \<Rightarrow> sizeMark \<Rightarrow> bool" where
  "later c m \<longleftrightarrow> generation (mark_cursor m) = generation c \<and> offset c < offset (mark_cursor m)"

text \<open>The last mark at or before a cursor in its generation, as a size.\<close>

definition size_at :: "sizeMark list \<Rightarrow> cursor \<Rightarrow> size \<Rightarrow> size" where
  "size_at ms c z = (case filter (applies c) ms of [] \<Rightarrow> z | xs \<Rightarrow> mark_size (last xs))"

lemma size_at_simps [simp]:
  "size_at [] c z = z"
  "size_at (m # ms) c z = size_at ms c (if applies c m then mark_size m else z)"
  by (auto simp: size_at_def split: list.splits)

lemma size_at_append: "size_at (ms @ ns) c z = size_at ns c (size_at ms c z)"
  by (induction ms arbitrary: z) auto

lemma size_at_none: "(\<And>m. m \<in> set ms \<Longrightarrow> \<not> applies c m) \<Longrightarrow> size_at ms c z = z"
  by (induction ms) auto

lemma size_at_filter:
  "(\<And>m. m \<in> set ms \<Longrightarrow> applies c m \<Longrightarrow> P m) \<Longrightarrow> size_at (filter P ms) c z = size_at ms c z"
  by (induction ms arbitrary: z) auto

lemma size_span_correct:
  assumes "marks_sorted ms"
  shows "size_span ms c z =
    (size_at ms c z,
     map_option (\<lambda>m. offset (mark_cursor m) - offset c) (find (later c) ms))"
  using assms
proof (induction ms arbitrary: z)
  case (Cons m ms)
  then have sorted: "marks_sorted ms" and after: "\<And>k. k \<in> set ms \<Longrightarrow> mark_cursor m < mark_cursor k"
    by (auto simp: marks_sorted_def)
  have none: "\<not> applies c k" if "k \<in> set ms" "generation (mark_cursor m) > generation c \<or> later c m" for k
    using after [OF that(1)] that(2)
    by (auto simp: applies_def later_def less_cursor_def not_le dest: order.strict_trans2)
  have no_later: "find (later c) ms = None" if "generation (mark_cursor m) > generation c"
    using that after by (fastforce simp: find_None_iff later_def less_cursor_def)
  show ?case
    using Cons.IH [OF sorted] none no_later
    by (auto simp: applies_def [of c m] later_def [of c m] size_at_none not_le)
qed simp

section \<open>Stamping the bytes\<close>

definition appended :: "log_op \<Rightarrow> outputLog \<times> disk \<Rightarrow> nat" where
  "appended op st = (case op of
      Append oc data \<Rightarrow> if fst (log_append oc (fst st) (snd st) data) = None then length data else 0
    | _ \<Rightarrow> 0)"

definition effective :: "log_op \<Rightarrow> outputLog \<times> disk \<Rightarrow> size \<Rightarrow> size" where
  "effective op st z = (case op of MarkSize sz \<Rightarrow> if closed (fst st) then z else sz | _ \<Rightarrow> z)"

definition stamp_op :: "log_op \<Rightarrow> outputLog \<times> disk \<Rightarrow> size \<Rightarrow> (u64 \<Rightarrow> size list) \<Rightarrow> u64 \<Rightarrow> size list" where
  "stamp_op op st z gh =
     (let g = log_generation (fst st) in gh(g := gh g @ replicate (appended op st) z))"

fun stamps ::
  "log_op list \<Rightarrow> outputLog \<times> disk \<Rightarrow> size \<Rightarrow> (u64 \<Rightarrow> size list) \<Rightarrow> u64 \<Rightarrow> size list" where
  "stamps [] st z gh = gh"
| "stamps (op # ops) st z gh =
     stamps ops (log_exec op st) (effective op st z) (stamp_op op st z gh)"

text \<open>The size a generation ended with, or has now when it is the current one.\<close>

fun ends :: "log_op list \<Rightarrow> outputLog \<times> disk \<Rightarrow> size \<Rightarrow> (u64 \<Rightarrow> size) \<Rightarrow> u64 \<Rightarrow> size" where
  "ends [] st z en = en"
| "ends (op # ops) st z en =
     ends ops (log_exec op st) (effective op st z)
       (en(log_generation (fst (log_exec op st)) := effective op st z))"

text \<open>How far a list keeps the value \<open>a\<close>, if it does not keep it to its end.\<close>

fun run_end :: "'a \<Rightarrow> 'a list \<Rightarrow> nat option" where
  "run_end a [] = None"
| "run_end a (b # bs) = (if b = a then map_option Suc (run_end a bs) else Some 0)"

lemma run_end_None: "(\<And>k. k < length xs \<Longrightarrow> xs ! k = a) \<Longrightarrow> run_end a xs = None"
  by (induction xs) force+

lemma run_end_Some:
  "k < length xs \<Longrightarrow> xs ! k \<noteq> a \<Longrightarrow> (\<And>j. j < k \<Longrightarrow> xs ! j = a) \<Longrightarrow> run_end a xs = Some k"
proof (induction xs arbitrary: k)
  case (Cons x xs)
  show ?case
  proof (cases k)
    case (Suc j)
    with Cons.prems(1,2) Cons.prems(3) [of 0] have "run_end a xs = Some j"
      by (intro Cons.IH) (use Cons.prems(3) [of "Suc i" for i] in auto)
    with Suc Cons.prems(3) [of 0] show ?thesis by simp
  qed (use Cons.prems(2) in simp)
qed simp

definition current_size :: "outputLog \<Rightarrow> size" where
  "current_size l = (if sizes l = [] then zero_size else mark_size (last (sizes l)))"

definition log_end :: "outputLog \<Rightarrow> cursor" where
  "log_end l = Cursor (log_generation l) (seg_size (segment_at l (log_generation l)))"

definition marks_inv :: "outputLog \<Rightarrow> bool" where
  "marks_inv l \<longleftrightarrow>
     marks_sorted (sizes l) \<and> (\<forall>m \<in> set (sizes l). mark_cursor m \<le> log_end l) \<and>
     (sizes l \<noteq> [] \<longrightarrow> generation (mark_cursor (last (sizes l))) = log_generation l)"

definition stamped :: "outputLog \<Rightarrow> disk \<Rightarrow> (u64 \<Rightarrow> size list) \<Rightarrow> bool" where
  "stamped l d gh \<longleftrightarrow>
     (\<forall>g x. content l d g = Some x \<longrightarrow> length (gh g) = length x \<and>
        (\<forall>n < length x. size_at (sizes l) (Cursor g (of_nat n)) zero_size = gh g ! n))"

section \<open>Every operation keeps the marks in order\<close>

lemma marks_invD:
  assumes "marks_inv l"
  shows "marks_sorted (sizes l)"
    and "m \<in> set (sizes l) \<Longrightarrow> mark_cursor m \<le> log_end l"
    and "sizes l \<noteq> [] \<Longrightarrow> generation (mark_cursor (last (sizes l))) = log_generation l"
  using assms by (auto simp: marks_inv_def)

lemma marks_sorted_snoc:
  "marks_sorted (ms @ [m]) \<longleftrightarrow> marks_sorted ms \<and> (\<forall>k \<in> set ms. mark_cursor k < mark_cursor m)"
  by (auto simp: marks_sorted_def sorted_wrt_append)

lemma marks_sorted_filter: "marks_sorted ms \<Longrightarrow> marks_sorted (filter P ms)"
  by (simp add: marks_sorted_def sorted_wrt_filter)

lemma last_filter_last: "ms \<noteq> [] \<Longrightarrow> P (last ms) \<Longrightarrow> filter P ms \<noteq> [] \<and> last (filter P ms) = last ms"
  by (induction ms rule: rev_induct) auto

lemma marks_inv_frame:
  assumes "marks_inv l" and "sizes l' = sizes l" and "log_generation l' = log_generation l"
    and "log_end l \<le> log_end l'"
  shows "marks_inv l'"
  using assms by (auto simp: marks_inv_def intro: order_trans)

lemma generation_log_end [simp]: "generation (log_end l) = log_generation l"
  by (simp add: log_end_def)

lemma log_end_frame:
  "segments l' = segments l \<Longrightarrow> log_generation l' = log_generation l \<Longrightarrow> log_end l' = log_end l"
  by (simp add: log_end_def segment_at_def)

lemma log_end_stored:
  assumes "log_inv l d" and "\<not> closed l" and "active l = Some i"
    and "length (inode d i) + length data \<le> max_file_size"
  shows "log_end l \<le> log_end (stored l data)"
proof -
  obtain s where "segments l (log_generation l) = Some s" "unat (seg_size s) = length (inode d i)"
    using open_log_active [OF assms(1,2)] assms(3) by (metis option.inject)
  with assms(4) show ?thesis
    by (simp add: log_end_def less_eq_cursor_def word_le_nat_alt unat_size_add)
qed

lemma marks_inv_append:
  assumes "log_inv l d" and "marks_inv l" and "log_append oc l d data = (r, l', d')"
  shows "marks_inv l'"
  using assms(1,3)
proof (cases rule: log_append_cases)
  case (failed i n e)
  then have "log_end l' = log_end l" by (intro log_end_frame) simp_all
  with failed show ?thesis by (auto intro: marks_inv_frame [OF assms(2)])
next
  case (ok i)
  with log_end_stored [OF assms(1) ok(1,2,7)] show ?thesis
    by (auto intro: marks_inv_frame [OF assms(2)])
qed (simp add: assms(2))

lemma marks_inv_rotate:
  assumes "marks_inv l" and "log_rotate fault l d = (r, l', d')"
  shows "marks_inv l'"
  using assms(2)
proof (cases rule: log_rotate_cases)
  case (ok i path)
  have lt: "mark_cursor m < Cursor (log_generation l + 1) 0" if "m \<in> set (sizes l)" for m
    using marks_invD(2) [OF assms(1) that] less_u64_plus_one [OF ok(2)]
    by (auto simp: log_end_def less_eq_cursor_def less_cursor_def)
  have "log_end l' = Cursor (log_generation l + 1) 0"
    using ok(6,7) by (simp add: log_end_def)
  then show ?thesis
    using lt marks_invD(1) [OF assms(1)] ok(6,13)
    by (auto simp: marks_inv_def marks_sorted_snoc order.strict_implies_order
        simp flip: marks_sorted_def)
qed (simp add: assms(1))

lemma log_prune_marks:
  assumes inv: "log_inv l d" and "marks_inv l" and run: "log_prune faults order l d before = (r, l', d')"
  shows "marks_inv l' \<and> current_size l' = current_size l"
  using inv run
proof (cases rule: log_prune_cases)
  case same
  with assms(2) show ?thesis by simp
next
  case pruned
  have cur: "segments l' (log_generation l) = segments l (log_generation l)"
    using prune_rel_kept [OF pruned(3)] by simp
  then have log_end: "log_end l' = log_end l"
    using pruned(4) by (simp add: log_end_def segment_at_def)
  show ?thesis
  proof (cases "r = None \<and> sizes l \<noteq> []")
    case True
    let ?P = "\<lambda>m. segments l' (generation (mark_cursor m)) \<noteq> None"
    have "?P (last (sizes l))"
      using marks_invD(3) [OF assms(2)] True cur log_invD(2) [OF inv] by simp
    with True last_filter_last [of "sizes l" ?P] have "sizes l' \<noteq> [] \<and> last (sizes l') = last (sizes l)"
      using pruned(11) by simp
    moreover have "sizes l' = filter ?P (sizes l)"
      using pruned(11) True by simp
    ultimately show ?thesis
      using True marks_invD [OF assms(2)] log_end pruned(4)
      by (auto simp: marks_inv_def current_size_def marks_sorted_filter simp del: not_None_eq)
  next
    case False
    then have "sizes l' = sizes l" using pruned(11) by auto
    then show ?thesis
      using marks_inv_frame [OF assms(2) _ pruned(4)] log_end by (simp add: current_size_def)
  qed
qed

lemma log_markSize_cases:
  assumes "marks_inv l"
  obtains (same) "sizes (log_markSize l sz) = sizes l"
      and "closed l \<or> sizes l \<noteq> [] \<and> mark_size (last (sizes l)) = sz"
  | (add) ms where "\<not> closed l" and "sizes (log_markSize l sz) = ms @ [SizeMark (log_end l) sz]"
      and "\<forall>m \<in> set ms. mark_cursor m < log_end l"
      and "sizes l = ms \<or> (\<exists>z. sizes l = ms @ [SizeMark (log_end l) z])"
      and "ms \<noteq> [] \<Longrightarrow> generation (mark_cursor (last ms)) = log_generation l \<Longrightarrow> mark_size (last ms) \<noteq> sz"
  | (collapse) ms z where "\<not> closed l" and "sizes (log_markSize l sz) = ms" and "ms \<noteq> []"
      and "mark_size (last ms) = sz" and "generation (mark_cursor (last ms)) = log_generation l"
      and "sizes l = ms @ [SizeMark (log_end l) z]"
proof (cases "closed l \<or> sizes l \<noteq> [] \<and> mark_size (last (sizes l)) = sz")
  case True
  then show thesis using same by (auto simp: log_markSize_def Let_def)
next
  case False
  show thesis
  proof (cases "sizes l = [] \<or> mark_cursor (last (sizes l)) \<noteq> log_end l")
    case True
    have "\<forall>m \<in> set (sizes l). mark_cursor m < log_end l"
    proof (cases "sizes l" rule: rev_cases)
      case (snoc ms m)
      with True marks_invD(1,2) [OF assms] show ?thesis
        by (auto simp: marks_sorted_snoc order.strict_iff_order)
         (metis order.strict_trans2 order.strict_iff_order)+
    qed simp
    moreover have "sizes (log_markSize l sz) = sizes l @ [SizeMark (log_end l) sz]"
      using True False by (auto simp: log_markSize_def Let_def log_end_def)
    ultimately show thesis using add False by blast
  next
    case at_end: False
    then obtain ms z where ms: "sizes l = ms @ [SizeMark (log_end l) z]"
      by (cases "sizes l" rule: rev_cases) (auto, metis sizeMark.collapse)
    have before: "\<forall>m \<in> set ms. mark_cursor m < log_end l"
      using marks_invD(1) [OF assms] ms by (simp add: marks_sorted_snoc)
    let ?new = "ms @ [SizeMark (log_end l) sz]"
    have new: "sizes (log_markSize l sz) = collapseSizesLocked ?new"
      using False at_end ms by (auto simp: log_markSize_def Let_def log_end_def)
    show thesis
    proof (cases "ms \<noteq> [] \<and> mark_size (last ms) = sz \<and>
        generation (mark_cursor (last ms)) = log_generation l")
      case True
      then have "collapseSizesLocked ?new = ms"
        by (cases ms rule: rev_cases)
          (auto simp: collapseSizesLocked_def nth_append log_end_def)
      with True new ms collapse False show thesis by auto
    next
      case no: False
      then have "collapseSizesLocked ?new = ?new"
        by (cases ms rule: rev_cases)
          (auto simp: collapseSizesLocked_def nth_append log_end_def)
      with new ms before False show thesis by (intro add [of ms]) (use no in auto)
    qed
  qed
qed

lemma log_end_markSize [simp]: "log_end (log_markSize l sz) = log_end l"
  by (rule log_end_frame) simp_all

lemma marks_inv_markSize:
  assumes "marks_inv l"
  shows "marks_inv (log_markSize l sz)"
    and "\<not> closed l \<Longrightarrow> current_size (log_markSize l sz) = sz"
proof -
  have "marks_inv (log_markSize l sz) \<and> (\<not> closed l \<longrightarrow> current_size (log_markSize l sz) = sz)"
    using assms
  proof (cases rule: log_markSize_cases [where sz = sz])
    case same
    with assms show ?thesis
      by (auto simp: current_size_def intro: marks_inv_frame [OF assms])
  next
    case (add ms)
    have "marks_sorted ms"
      using add(4) marks_invD(1) [OF assms] by (auto simp: marks_sorted_snoc)
    with add show ?thesis
      by (auto simp: marks_inv_def current_size_def marks_sorted_snoc less_imp_le)
  next
    case (collapse ms z)
    with marks_invD(1,2) [OF assms] show ?thesis
      by (auto simp: marks_inv_def current_size_def marks_sorted_snoc)
  qed
  then show "marks_inv (log_markSize l sz)"
    and "\<not> closed l \<Longrightarrow> current_size (log_markSize l sz) = sz" by auto
qed

lemma marks_inv_exec:
  assumes "log_inv l d" and "marks_inv l" and "log_exec op (l, d) = (l', d')"
  shows "marks_inv l'" and "current_size l' = effective op (l, d) (current_size l)"
proof -
  have "marks_inv l' \<and> current_size l' = effective op (l, d) (current_size l)"
    using assms(3)
  proof (cases rule: log_exec_cases)
    case (append oc data r)
    then show ?thesis
      using marks_inv_append [OF assms(1,2) append(2)] log_append_same(2) [OF append(2)]
      by (simp add: effective_def current_size_def)
  next
    case (rotate fault c)
    then have "current_size l' = current_size l"
      by (cases rule: log_rotate_cases [OF rotate(2)]) (auto simp: current_size_def)
    with rotate marks_inv_rotate [OF assms(2) rotate(2)] show ?thesis by (simp add: effective_def)
  next
    case (prune faults order before r)
    with log_prune_marks [OF assms(1,2) prune(2)] show ?thesis by (simp add: effective_def)
  next
    case (mark sz)
    with marks_inv_markSize [OF assms(2), of sz] show ?thesis
      by (auto simp: effective_def log_markSize_def)
  next
    case (close err)
    then have "log_end l' = log_end l" by (intro log_end_frame) simp_all
    with close show ?thesis
      by (auto simp: effective_def current_size_def intro!: marks_inv_frame [OF assms(2)])
  qed
  then show "marks_inv l'" and "current_size l' = effective op (l, d) (current_size l)" by auto
qed

section \<open>Neighbouring marks of a generation differ\<close>

abbreviation marks_of :: "u64 \<Rightarrow> sizeMark list \<Rightarrow> sizeMark list" where
  "marks_of g \<equiv> filter (\<lambda>m. generation (mark_cursor m) = g)"

definition marks_change :: "sizeMark list \<Rightarrow> bool" where
  "marks_change ms \<longleftrightarrow> (\<forall>m \<in> set ms. mark_size m \<noteq> zero_size) \<and>
     (\<forall>g. successively (\<noteq>) (map mark_size (marks_of g ms)))"

lemma marks_changeD:
  assumes "marks_change ms"
  shows "m \<in> set ms \<Longrightarrow> mark_size m \<noteq> zero_size"
    and "successively (\<noteq>) (map mark_size (marks_of g ms))"
  using assms by (auto simp: marks_change_def)

lemma marks_change_snoc:
  assumes "marks_change ms" and "mark_size m \<noteq> zero_size"
    and "marks_of (generation (mark_cursor m)) ms \<noteq> [] \<Longrightarrow>
      mark_size (last (marks_of (generation (mark_cursor m)) ms)) \<noteq> mark_size m"
  shows "marks_change (ms @ [m])"
  using assms by (auto simp: marks_change_def successively_append_iff last_map)

lemma marks_change_prefix: "marks_change (ms @ ns) \<Longrightarrow> marks_change ms"
  by (auto simp: marks_change_def successively_append_iff)

lemma marks_of_retained:
  "marks_of g (filter (\<lambda>m. P (generation (mark_cursor m))) ms) = (if P g then marks_of g ms else [])"
  by (induction ms) auto

lemma marks_change_retained:
  "marks_change ms \<Longrightarrow> marks_change (filter (\<lambda>m. P (generation (mark_cursor m))) ms)"
  by (auto simp: marks_change_def marks_of_retained simp del: filter_filter)

text \<open>The marks of the last generation are at the end of the list.\<close>

lemma marks_of_last:
  assumes "marks_sorted ms" and "marks_of g ms \<noteq> []"
    and "\<And>m. m \<in> set ms \<Longrightarrow> generation (mark_cursor m) \<le> g"
  shows "ms \<noteq> [] \<and> generation (mark_cursor (last ms)) = g \<and> last (marks_of g ms) = last ms"
proof (cases ms rule: rev_cases)
  case (snoc ns m)
  have "generation (mark_cursor m) = g"
  proof (rule ccontr)
    assume ne: "generation (mark_cursor m) \<noteq> g"
    then obtain k where k: "k \<in> set ns" "generation (mark_cursor k) = g"
      using assms(2) snoc by (auto simp: filter_empty_conv)
    then have "mark_cursor k < mark_cursor m"
      using assms(1) snoc by (simp add: marks_sorted_snoc)
    with k ne assms(3) [of m] snoc show False by (auto simp: less_cursor_def)
  qed
  with snoc show ?thesis by simp
qed (use assms(2) in simp)

lemma mark_generation_le:
  "marks_inv l \<Longrightarrow> m \<in> set (sizes l) \<Longrightarrow> generation (mark_cursor m) \<le> log_generation l"
  using marks_invD(2) [of l m] by (auto simp: log_end_def less_eq_cursor_def)

lemma marks_change_markSize:
  assumes mi: "marks_inv l" and ch: "marks_change (sizes l)" and "sz \<noteq> zero_size"
  shows "marks_change (sizes (log_markSize l sz))"
  using mi
proof (cases rule: log_markSize_cases [where sz = sz])
  case same
  with ch show ?thesis by simp
next
  case (add ms)
  have ms: "marks_change ms" "marks_sorted ms"
    using add(4) ch marks_invD(1) [OF mi] by (auto simp: marks_sorted_snoc dest: marks_change_prefix)
  have le: "generation (mark_cursor m) \<le> log_generation l" if "m \<in> set ms" for m
    using mark_generation_le [OF mi, of m] add(4) that by auto
  have "marks_change (ms @ [SizeMark (log_end l) sz])"
  proof (rule marks_change_snoc [OF ms(1)])
    assume "marks_of (generation (mark_cursor (SizeMark (log_end l) sz))) ms \<noteq> []"
    with marks_of_last [OF ms(2) _ le] add(5)
    show "mark_size (last (marks_of (generation (mark_cursor (SizeMark (log_end l) sz))) ms)) \<noteq>
        mark_size (SizeMark (log_end l) sz)" by auto
  qed (simp add: assms(3))
  with add(2) show ?thesis by simp
next
  case (collapse ms z)
  with ch marks_change_prefix show ?thesis by metis
qed

lemma marks_change_exec:
  assumes inv: "log_inv l d" and mi: "marks_inv l" and ch: "marks_change (sizes l)"
    and run: "log_exec op (l, d) = (l', d')" and "op \<noteq> MarkSize zero_size"
  shows "marks_change (sizes l')"
  using run
proof (cases rule: log_exec_cases)
  case (append oc data r)
  with ch log_append_same(2) [OF append(2)] show ?thesis by simp
next
  case (rotate fault c)
  from rotate(2) show ?thesis
  proof (cases rule: log_rotate_cases)
    case (ok i path)
    have "marks_of (log_generation l + 1) (sizes l) = []"
      using mark_generation_le [OF mi] less_u64_plus_one [OF ok(2)] by (fastforce simp: filter_empty_conv)
    with ch ok(13) marks_changeD(1) [OF ch, of "last (sizes l)"] show ?thesis
      by (auto intro!: marks_change_snoc)
  qed (use ch in simp)
next
  case (prune faults order before r)
  from inv prune(2) show ?thesis
    by (cases rule: log_prune_cases)
      (use ch marks_change_retained [OF ch, of "\<lambda>g. segments l' g \<noteq> None"] in auto)
next
  case (mark sz)
  with marks_change_markSize [OF mi ch] assms(5) show ?thesis by simp
next
  case (close err)
  with ch show ?thesis by simp
qed

lemma size_at_marks_of: "size_at (marks_of (generation c) ms) c z = size_at ms c z"
  by (rule size_at_filter) (simp add: applies_def)

section \<open>Every byte carries the size it was produced for\<close>

lemma content_index:
  assumes "log_inv l d" and "content l d g = Some x" and "n < length x"
  shows "unat (of_nat n :: u64) = n"
proof -
  obtain s where s: "segments l g = Some s"
    using assms(2) by (auto simp: content_def split: option.splits)
  then have "length x = unat (seg_size s)"
    using segment_content [OF assms(1) s] assms(2) by auto
  with assms(3) unat_u64_less [of "seg_size s"] show ?thesis by (simp add: unat_of_nat_u64)
qed

lemma not_applies_end:
  assumes "log_inv l d" and "content l d g = Some x" and "n < length x"
  shows "\<not> applies (Cursor g (of_nat n)) (SizeMark (log_end l) z)"
proof
  assume "applies (Cursor g (of_nat n)) (SizeMark (log_end l) z)"
  then have g: "g = log_generation l" and le: "unat (seg_size (segment_at l g)) \<le> n"
    using content_index [OF assms] by (auto simp: applies_def log_end_def word_le_nat_alt)
  obtain s where s: "segments l g = Some s" using g log_invD(2) [OF assms(1)] by blast
  with segment_content [OF assms(1) s] assms(2,3) le show False by auto
qed

lemma stampedI:
  assumes "\<And>g x. content l d g = Some x \<Longrightarrow> length (gh g) = length x"
    and "\<And>g x n. content l d g = Some x \<Longrightarrow> n < length x \<Longrightarrow>
      size_at (sizes l) (Cursor g (of_nat n)) zero_size = gh g ! n"
  shows "stamped l d gh"
  using assms by (auto simp: stamped_def)

lemma stampedD:
  assumes "stamped l d gh" and "content l d g = Some x"
  shows "length (gh g) = length x"
    and "n < length x \<Longrightarrow> size_at (sizes l) (Cursor g (of_nat n)) zero_size = gh g ! n"
  using assms by (auto simp: stamped_def)

lemma stamped_frame:
  assumes "stamped l d gh" and "sizes l' = sizes l"
    and "\<And>g x. content l' d' g = Some x \<Longrightarrow> content l d g = Some x"
  shows "stamped l' d' gh"
  using assms by (auto simp: stamped_def)

text \<open>In the current generation every offset from the last mark on has the current size.\<close>

lemma size_at_current:
  assumes "marks_inv l" and "log_end l \<le> Cursor (log_generation l) k"
  shows "size_at (sizes l) (Cursor (log_generation l) k) zero_size = current_size l"
proof (cases "sizes l" rule: rev_cases)
  case (snoc ms m)
  have "mark_cursor m \<le> Cursor (log_generation l) k" and "generation (mark_cursor m) = log_generation l"
    using marks_invD(2,3) [OF assms(1)] assms(2) snoc by (auto intro: order_trans)
  then have "applies (Cursor (log_generation l) k) m"
    by (auto simp: applies_def less_eq_cursor_def)
  with snoc show ?thesis by (simp add: size_at_append current_size_def)
qed (simp add: current_size_def)

lemma stamped_append:
  assumes inv: "log_inv l d" and "marks_inv l" and st: "stamped l d gh"
    and run: "log_append oc l d data = (r, l', d')"
  shows "stamped l' d' (gh(log_generation l := gh (log_generation l) @
    replicate (if r = None then length data else 0) (current_size l)))"
    (is "stamped l' d' ?gh")
proof (rule stampedI)
  note eff = log_append_content [OF inv run] and szs = log_append_same(2) [OF run]
  fix g x
  assume x: "content l' d' g = Some x"
  obtain y where y: "content l d g = Some y"
      "x = (if r = None \<and> g = log_generation l then y @ data else y)"
    using x eff [of g] by (auto split: if_splits)
  show "length (?gh g) = length x"
    using stampedD(1) [OF st y(1)] y(2) by auto
  fix n
  assume n: "n < length x"
  show "size_at (sizes l') (Cursor g (of_nat n)) zero_size = ?gh g ! n"
  proof (cases "n < length y")
    case True
    with stampedD [OF st y(1)] szs show ?thesis by (auto simp: nth_append)
  next
    case False
    with y(2) n have g: "g = log_generation l" and "r = None" by (auto split: if_splits)
    obtain s where s: "segments l g = Some s" using log_invD(2) [OF inv] g by blast
    have "unat (seg_size s) \<le> n" using segment_content [OF inv s] y(1) False by auto
    moreover have "unat (of_nat n :: u64) = n"
      using content_index [OF log_append_inv [OF inv run] x n] .
    ultimately have "log_end l \<le> Cursor (log_generation l) (of_nat n)"
      using s g by (simp add: log_end_def less_eq_cursor_def word_le_nat_alt)
    with g size_at_current [OF assms(2)] szs stampedD(1) [OF st y(1)] False n y(2) \<open>r = None\<close>
    show ?thesis by (simp add: nth_append)
  qed
qed

lemma stamped_rotate:
  assumes inv: "log_inv l d" and st: "stamped l d gh" and fresh: "gh (log_generation l + 1) = []"
    and run: "log_rotate fault l d = (r, l', d')"
  shows "stamped l' d' gh"
  using run
proof (cases rule: log_rotate_cases)
  case (same e)
  with st show ?thesis by simp
next
  case (ok i path)
  have eff: "content l' d' g = (if g = log_generation l + 1 then Some [] else content l d g)" for g
    using log_rotate_content [OF inv run, of g] ok(6) by simp
  have old: "size_at (sizes l') c zero_size = size_at (sizes l) c zero_size"
    if "generation c \<noteq> log_generation l + 1" for c
    using ok(13) that by (auto simp: size_at_append applies_def)
  show ?thesis
    using eff fresh stampedD [OF st] old by (intro stampedI) (auto split: if_splits)
qed

lemma stamped_prune:
  assumes inv: "log_inv l d" and st: "stamped l d gh"
    and run: "log_prune faults order l d before = (r, l', d')"
  shows "stamped l' d' gh"
proof (rule stampedI)
  fix g x
  assume x: "content l' d' g = Some x"
  then have y: "content l d g = Some x"
    using log_prune_content [OF inv run, of g] by auto
  show "length (gh g) = length x" using stampedD(1) [OF st y] .
  fix n
  assume "n < length x"
  moreover have "segments l' g \<noteq> None"
    using x by (auto simp: content_def split: option.splits)
  then have "size_at (sizes l') (Cursor g (of_nat n)) zero_size =
      size_at (sizes l) (Cursor g (of_nat n)) zero_size"
    by (cases rule: log_prune_cases [OF inv run]) (auto simp: applies_def intro!: size_at_filter)
  ultimately show "size_at (sizes l') (Cursor g (of_nat n)) zero_size = gh g ! n"
    using stampedD(2) [OF st y] by simp
qed

lemma stamped_markSize:
  assumes inv: "log_inv l d" and mi: "marks_inv l" and st: "stamped l d gh"
  shows "stamped (log_markSize l sz) d gh"
proof (rule stampedI)
  fix g x
  assume "content (log_markSize l sz) d g = Some x"
  then have x: "content l d g = Some x" using content_frame [of "log_markSize l sz" l d g] by simp
  show "length (gh g) = length x" using stampedD(1) [OF st x] .
  fix n
  assume n: "n < length x"
  have "size_at (sizes (log_markSize l sz)) (Cursor g (of_nat n)) zero_size =
      size_at (sizes l) (Cursor g (of_nat n)) zero_size"
    using mi
    by (cases rule: log_markSize_cases [where sz = sz])
      (auto simp: size_at_append not_applies_end [OF inv x n])
  then show "size_at (sizes (log_markSize l sz)) (Cursor g (of_nat n)) zero_size = gh g ! n"
    using stampedD(2) [OF st x n] by simp
qed

section \<open>Every generation carries the size it ended with\<close>

definition ended :: "outputLog \<Rightarrow> disk \<Rightarrow> (u64 \<Rightarrow> size) \<Rightarrow> bool" where
  "ended l d en \<longleftrightarrow>
     (\<forall>g x. content l d g = Some x \<longrightarrow>
        size_at (sizes l) (Cursor g (of_nat (length x))) zero_size = en g \<and>
        (\<forall>m \<in> set (marks_of g (sizes l)). unat (offset (mark_cursor m)) \<le> length x))"

lemma endedD:
  assumes "ended l d en" and "content l d g = Some x"
  shows "size_at (sizes l) (Cursor g (of_nat (length x))) zero_size = en g"
    and "m \<in> set (marks_of g (sizes l)) \<Longrightarrow> unat (offset (mark_cursor m)) \<le> length x"
  using assms by (auto simp: ended_def)

lemma content_end:
  assumes "log_inv l d" and "content l d (log_generation l) = Some x"
  shows "log_end l = Cursor (log_generation l) (of_nat (length x))"
    and "unat (offset (log_end l)) = length x"
proof -
  obtain s where s: "segments l (log_generation l) = Some s" using log_invD(2) [OF assms(1)] by blast
  then have "length x = unat (seg_size s)" using segment_content [OF assms(1) s] assms(2) by auto
  with s show "log_end l = Cursor (log_generation l) (of_nat (length x))"
    and "unat (offset (log_end l)) = length x" by (simp_all add: log_end_def)
qed

text \<open>What an operation leaves of the generations it does not make current.\<close>

lemma log_exec_completed:
  assumes inv: "log_inv l d" and mi: "marks_inv l" and run: "log_exec op (l, d) = (l', d')"
    and g: "g \<noteq> log_generation l'" and x: "content l' d' g = Some x"
  shows "content l d g = Some x \<and> marks_of g (sizes l') = marks_of g (sizes l)"
  using run
proof (cases rule: log_exec_cases)
  case (append oc data r)
  then show ?thesis
    using log_append_content [OF inv append(2), of g] log_append_same [OF append(2)] g x
    by (auto split: if_splits)
next
  case (rotate fault c)
  from rotate(2) show ?thesis
  proof (cases rule: log_rotate_cases)
    case (ok i path)
    with log_rotate_content [OF inv rotate(2), of g] g x show ?thesis by auto
  qed (use x in simp)
next
  case (prune faults order before r)
  have kept: "segments l' g \<noteq> None" using x by (auto simp: content_def split: option.splits)
  have "marks_of g (sizes l') = marks_of g (sizes l)"
    by (cases rule: log_prune_cases [OF inv prune(2)])
      (use kept marks_of_retained [of g "\<lambda>g. segments l' g \<noteq> None" "sizes l"] in auto)
  with log_prune_content [OF inv prune(2), of g] x show ?thesis by auto
next
  case (mark sz)
  have "marks_of g (sizes (log_markSize l sz)) = marks_of g (sizes l)"
    using mi by (cases rule: log_markSize_cases [where sz = sz]) (use g mark in auto)
  with mark x content_frame [of "log_markSize l sz" l d g] show ?thesis by simp
next
  case (close err)
  with x content_frame [of l' l d g] show ?thesis by auto
qed

lemma ended_exec:
  assumes inv: "log_inv l d" and mi: "marks_inv l" and en: "ended l d en"
    and run: "log_exec op (l, d) = (l', d')"
  shows "ended l' d' (en(log_generation l' := current_size l'))"
proof -
  note inv' = log_exec_inv [OF inv run] and mi' = marks_inv_exec(1) [OF inv mi run]
  have "size_at (sizes l') (Cursor g (of_nat (length x))) zero_size =
      (en(log_generation l' := current_size l')) g \<and>
      (\<forall>m \<in> set (marks_of g (sizes l')). unat (offset (mark_cursor m)) \<le> length x)"
    if x: "content l' d' g = Some x" for g x
  proof (cases "g = log_generation l'")
    case True
    with content_end [OF inv'] x have log_end: "log_end l' = Cursor g (of_nat (length x))"
      "unat (offset (log_end l')) = length x" by auto
    have "unat (offset (mark_cursor m)) \<le> length x" if "m \<in> set (marks_of g (sizes l'))" for m
      using marks_invD(2) [OF mi', of m] that log_end True
      by (auto simp: less_eq_cursor_def word_le_nat_alt)
    with True size_at_current [OF mi', of "of_nat (length x)"] log_end show ?thesis by simp
  next
    case False
    note same = log_exec_completed [OF inv mi run False x]
    let ?c = "Cursor g (of_nat (length x))"
    have "size_at (sizes l') ?c zero_size = size_at (sizes l) ?c zero_size"
      using same size_at_marks_of [of ?c "sizes l'" zero_size] size_at_marks_of [of ?c "sizes l" zero_size]
      by simp
    with False same endedD [OF en, of g x] show ?thesis by simp
  qed
  then show ?thesis unfolding ended_def by blast
qed

section \<open>Spans end where the size changes\<close>

lemma applies_generation: "applies c m \<Longrightarrow> generation (mark_cursor m) = generation c"
  by (simp add: applies_def)

text \<open>
  The marks of one generation, cut at a position: those up to it and those beyond it. The
  first beyond it is where the size changes.
\<close>

lemma marks_split:
  assumes "marks_sorted ms"
  obtains as bs where "marks_of (generation c) ms = as @ bs"
    and "\<And>m. m \<in> set as \<Longrightarrow> offset (mark_cursor m) \<le> offset c"
    and "\<And>m. m \<in> set bs \<Longrightarrow> offset c < offset (mark_cursor m)"
    and "\<And>m b cs. bs = b # cs \<Longrightarrow> m \<in> set cs \<Longrightarrow> offset (mark_cursor b) < offset (mark_cursor m)"
    and "find (later c) ms = (case bs of [] \<Rightarrow> None | m # _ \<Rightarrow> Some m)"
proof -
  let ?fs = "marks_of (generation c) ms" and ?P = "\<lambda>m. offset (mark_cursor m) \<le> offset c"
  have sorted: "sorted_wrt (\<lambda>a b. offset (mark_cursor a) < offset (mark_cursor b)) ?fs"
    using assms unfolding marks_sorted_def
    by (induction ms) (auto simp: less_cursor_def)
  have beyond: "offset c < offset (mark_cursor m)" if "m \<in> set (dropWhile ?P ?fs)" for m
  proof (cases "dropWhile ?P ?fs")
    case (Cons b cs)
    then have "offset c < offset (mark_cursor b)"
      using hd_dropWhile [of ?P ?fs] by (simp add: not_le)
    moreover have "sorted_wrt (\<lambda>a b. offset (mark_cursor a) < offset (mark_cursor b)) (b # cs)"
      using sorted Cons by (metis sorted_wrt_append takeWhile_dropWhile_id)
    ultimately show ?thesis using that Cons by (auto intro: less_trans)
  next
    case Nil
    with that show ?thesis by (simp only: list.set empty_iff)
  qed
  have least: "offset (mark_cursor b) < offset (mark_cursor m)"
    if "dropWhile ?P ?fs = b # cs" "m \<in> set cs" for m b cs
  proof -
    have "sorted_wrt (\<lambda>a b. offset (mark_cursor a) < offset (mark_cursor b)) (b # cs)"
      using sorted that(1) by (metis sorted_wrt_append takeWhile_dropWhile_id)
    with that show ?thesis by auto
  qed
  have "find (later c) ms = find (\<lambda>m. \<not> ?P m) ?fs"
    by (induction ms) (auto simp: later_def not_le)
  also have "\<dots> = (case dropWhile ?P ?fs of [] \<Rightarrow> None | m # _ \<Rightarrow> Some m)"
    by (simp add: find_dropWhile comp_def)
  finally have found: "find (later c) ms = (case dropWhile ?P ?fs of [] \<Rightarrow> None | m # _ \<Rightarrow> Some m)" .
  show thesis
    using that [of "takeWhile ?P ?fs" "dropWhile ?P ?fs"] beyond least found
    by (metis (mono_tags, lifting) set_takeWhileD takeWhile_dropWhile_id)
qed

lemma size_at_before:
  assumes "marks_of g ms = as @ bs" and "\<And>m. m \<in> set as \<Longrightarrow> offset (mark_cursor m) \<le> k"
    and "\<And>m. m \<in> set bs \<Longrightarrow> k < offset (mark_cursor m)"
  shows "size_at ms (Cursor g k) z = (if as = [] then z else mark_size (last as))"
proof -
  have gen: "generation (mark_cursor m) = g" if "m \<in> set (as @ bs)" for m
    using that assms(1) [symmetric] by auto
  have all: "filter (applies (Cursor g k)) as = as"
    using gen assms(2) by (auto simp: filter_id_conv applies_def)
  have "size_at ms (Cursor g k) z = size_at (as @ bs) (Cursor g k) z"
    using size_at_marks_of [of "Cursor g k" ms z] assms(1) by simp
  also have "\<dots> = size_at as (Cursor g k) z"
    using assms(3) by (simp add: size_at_append size_at_none applies_def not_le)
  also have "\<dots> = (if as = [] then z else mark_size (last as))"
    by (simp add: size_at_def all split: list.split)
  finally show ?thesis .
qed

lemma span_to_change:
  assumes sorted: "marks_sorted ms" and ch: "marks_change ms"
    and ts: "\<And>k. k < length ts \<Longrightarrow> size_at ms (Cursor g (of_nat k)) zero_size = ts ! k"
    and small: "length ts \<le> 2 ^ 64" and n: "n < length ts"
    and inside: "\<And>m. m \<in> set (marks_of g ms) \<Longrightarrow> unat (offset (mark_cursor m)) < length ts"
  shows "map_option (\<lambda>m. offset (mark_cursor m) - of_nat n) (find (later (Cursor g (of_nat n))) ms) =
    map_option of_nat (run_end (ts ! n) (drop n ts))"
proof -
  have idx: "unat (of_nat k :: u64) = k" if "k < length ts" for k
    using that small by (simp add: unat_of_nat_u64)
  let ?c = "Cursor g (of_nat n)"
  obtain as bs where fs: "marks_of g ms = as @ bs"
    and as: "\<And>m. m \<in> set as \<Longrightarrow> offset (mark_cursor m) \<le> of_nat n"
    and bs: "\<And>m. m \<in> set bs \<Longrightarrow> of_nat n < offset (mark_cursor m)"
    and least: "\<And>m b cs. bs = b # cs \<Longrightarrow> m \<in> set cs \<Longrightarrow> offset (mark_cursor b) < offset (mark_cursor m)"
    and found: "find (later ?c) ms = (case bs of [] \<Rightarrow> None | m # _ \<Rightarrow> Some m)"
    using marks_split [OF sorted, of ?c] by auto
  have before: "ts ! k = (if as = [] then zero_size else mark_size (last as))"
    if "n \<le> k" "k < length ts" "\<And>m. m \<in> set bs \<Longrightarrow> of_nat k < offset (mark_cursor m)" for k
  proof -
    have "(of_nat n :: u64) \<le> of_nat k" using that n by (simp add: word_le_nat_alt idx)
    then have "offset (mark_cursor m) \<le> of_nat k" if "m \<in> set as" for m
      using as [OF that] by (rule order_trans [rotated])
    then show ?thesis
      using size_at_before [OF fs, of "of_nat k" zero_size] that(3) ts [OF that(2)] by simp
  qed
  show ?thesis
  proof (cases bs)
    case Nil
    have "drop n ts ! k = ts ! n" if "k < length (drop n ts)" for k
      using that n before [of "n + k"] before [of n] Nil by simp
    then show ?thesis using found Nil run_end_None [of "drop n ts" "ts ! n"] by simp
  next
    case (Cons m cs)
    let ?k = "unat (offset (mark_cursor m))"
    have k: "?k < length ts" using inside [of m] fs Cons by simp
    have nk: "n < ?k" using bs [of m] Cons n by (simp add: word_less_nat_alt idx)
    have "offset (mark_cursor b) \<le> offset (mark_cursor m)" if "b \<in> set as" for b
      using as [OF that] bs [of m] Cons by simp
    then have at_k: "ts ! ?k = mark_size m"
      using size_at_before [of g ms "as @ [m]" cs "offset (mark_cursor m)" zero_size]
        fs Cons least [OF Cons] ts [OF k] by auto
    have below: "of_nat j < offset (mark_cursor b)" if "b \<in> set bs" "j < ?k" for b j
      using that k least [OF Cons, of b] Cons by (auto simp: word_less_nat_alt idx)
    have "m \<in> set (marks_of g ms)" unfolding fs Cons by simp
    then have "mark_size m \<noteq> zero_size" using marks_changeD(1) [OF ch] by simp
    moreover have "successively (\<noteq>) (map mark_size (as @ m # cs))"
      using marks_changeD(2) [OF ch, of g] unfolding fs Cons .
    ultimately have differ: "mark_size m \<noteq> (if as = [] then zero_size else mark_size (last as))"
      by (auto simp: successively_append_iff last_map)
    have "run_end (ts ! n) (drop n ts) = Some (?k - n)"
    proof (rule run_end_Some)
      show "drop n ts ! (?k - n) \<noteq> ts ! n"
        using at_k differ before [of n] below nk n k by simp
      show "drop n ts ! j = ts ! n" if "j < ?k - n" for j
        using before [of "n + j"] before [of n] below [of _ "n + j"] below [of _ n] nk n k that by simp
    qed (use nk k in simp)
    moreover have "(of_nat (?k - n) :: u64) = offset (mark_cursor m) - of_nat n"
      using nk by (simp add: of_nat_diff)
    ultimately show ?thesis using found Cons by simp
  qed
qed

definition stamp_inv :: "outputLog \<times> disk \<Rightarrow> size \<Rightarrow> (u64 \<Rightarrow> size list) \<Rightarrow> (u64 \<Rightarrow> size) \<Rightarrow> bool" where
  "stamp_inv st z gh en \<longleftrightarrow> (case st of (l, d) \<Rightarrow>
     log_inv l d \<and> marks_inv l \<and> marks_change (sizes l) \<and> current_size l = z \<and>
     stamped l d gh \<and> ended l d en \<and> (\<forall>g > log_generation l. gh g = []))"

lemma stamp_op_none [simp]: "appended op st = 0 \<Longrightarrow> stamp_op op st z gh = gh"
  by (simp add: stamp_op_def)

lemma stamped_exec:
  assumes inv: "log_inv l d" "marks_inv l" "stamped l d gh" "\<forall>g > log_generation l. gh g = []"
    and run: "log_exec op (l, d) = (l', d')"
  shows "stamped l' d' (stamp_op op (l, d) (current_size l) gh)"
  using run
proof (cases rule: log_exec_cases)
  case (append oc data r)
  from stamped_append [OF inv(1-3) append(2)] append show ?thesis
    by (auto simp: stamp_op_def appended_def Let_def)
next
  case (rotate fault c)
  have "stamped l' d' gh"
  proof (cases "log_generation l + 1 = 0")
    case True
    with rotate(2) inv(3) show ?thesis by (cases rule: log_rotate_cases) auto
  next
    case False
    then have "gh (log_generation l + 1) = []" using inv(4) less_u64_plus_one by blast
    from stamped_rotate [OF inv(1,3) this rotate(2)] show ?thesis .
  qed
  with rotate(1) show ?thesis by (simp add: appended_def)
next
  case (prune faults order before r)
  with stamped_prune [OF inv(1,3) prune(2)] show ?thesis by (simp add: appended_def)
next
  case (mark sz)
  with stamped_markSize [OF inv(1-3)] show ?thesis by (simp add: appended_def)
next
  case (close err)
  have "stamped l' d' gh"
    by (rule stamped_frame [OF inv(3)]) (use close content_frame [of l' l d] in auto)
  with close show ?thesis by (simp add: appended_def)
qed

lemma stamp_inv_exec:
  assumes "stamp_inv st z gh en" and "op \<noteq> MarkSize zero_size"
  shows "stamp_inv (log_exec op st) (effective op st z) (stamp_op op st z gh)
    (en(log_generation (fst (log_exec op st)) := effective op st z))"
proof -
  obtain l d where st: "st = (l, d)" by fastforce
  obtain l' d' where run: "log_exec op (l, d) = (l', d')" by fastforce
  have inv: "log_inv l d" "marks_inv l" "stamped l d gh" "\<forall>g > log_generation l. gh g = []"
    and ch: "marks_change (sizes l)" and en: "ended l d en" and z: "z = current_size l"
    using assms st by (auto simp: stamp_inv_def)
  have "\<forall>g > log_generation l'. stamp_op op (l, d) z gh g = []"
    using inv(4) log_exec_generation [OF inv(1) run] by (auto simp: stamp_op_def Let_def)
  then show ?thesis
    using log_exec_inv [OF inv(1) run] marks_inv_exec [OF inv(1,2) run] stamped_exec [OF inv run]
      marks_change_exec [OF inv(1,2) ch run assms(2)] ended_exec [OF inv(1,2) en run] st run z
    by (simp add: stamp_inv_def)
qed

lemma stamp_inv_run:
  "stamp_inv st z gh en \<Longrightarrow> MarkSize zero_size \<notin> set ops \<Longrightarrow>
   \<exists>z'. stamp_inv (log_run ops st) z' (stamps ops st z gh) (ends ops st z en)"
proof (induction ops arbitrary: st z gh en)
  case (Cons op ops)
  have "op \<noteq> MarkSize zero_size" "MarkSize zero_size \<notin> set ops" using Cons.prems(2) by auto
  from Cons.IH [OF stamp_inv_exec [OF Cons.prems(1) this(1)] this(2)] show ?case
    by (simp del: fun_upd_apply)
qed auto

definition no_stamps :: "outputLog \<Rightarrow> disk \<Rightarrow> u64 \<Rightarrow> size list" where
  "no_stamps l d g = (case content l d g of None \<Rightarrow> [] | Some x \<Rightarrow> replicate (length x) zero_size)"

lemma stamp_inv_unmarked:
  assumes "log_inv l d" and "sizes l = []"
  shows "stamp_inv (l, d) zero_size (no_stamps l d) (\<lambda>_. zero_size)"
proof -
  have "no_stamps l d g = []" if "g > log_generation l" for g
    using content_Some_bound [OF assms(1), of g] that
    by (cases "content l d g") (auto simp: no_stamps_def)
  with assms show ?thesis
    by (simp add: stamp_inv_def marks_inv_def current_size_def marks_sorted_def marks_change_def
        stamped_def ended_def no_stamps_def)
qed

text \<open>
  The sizes along one generation: the size every byte was produced for, then the size the
  generation ended with.
\<close>

definition timeline :: "log_op list \<Rightarrow> outputLog \<Rightarrow> disk \<Rightarrow> u64 \<Rightarrow> size list" where
  "timeline ops l d g =
     stamps ops (l, d) zero_size (no_stamps l d) g @ [ends ops (l, d) zero_size (\<lambda>_. zero_size) g]"

lemma timeline_marks:
  assumes "log_inv l d" and "sizes l = []" and "log_run ops (l, d) = (l', d')"
    and "MarkSize zero_size \<notin> set ops" and "content l' d' g = Some x"
  shows "marks_sorted (sizes l')" and "marks_change (sizes l')" and "length (timeline ops l d g) = Suc (length x)"
    and "k < length (timeline ops l d g) \<Longrightarrow>
      size_at (sizes l') (Cursor g (of_nat k)) zero_size = timeline ops l d g ! k"
    and "m \<in> set (marks_of g (sizes l')) \<Longrightarrow> unat (offset (mark_cursor m)) < length (timeline ops l d g)"
    and "length x < 2 ^ 64"
proof -
  obtain z where "stamp_inv (l', d') z (stamps ops (l, d) zero_size (no_stamps l d))
      (ends ops (l, d) zero_size (\<lambda>_. zero_size))"
    using stamp_inv_run [OF stamp_inv_unmarked [OF assms(1,2)] assms(4)] assms(3) by auto
  then have inv: "log_inv l' d'" "marks_sorted (sizes l')" "marks_change (sizes l')"
    "stamped l' d' (stamps ops (l, d) zero_size (no_stamps l d))"
    "ended l' d' (ends ops (l, d) zero_size (\<lambda>_. zero_size))"
    by (auto simp: stamp_inv_def marks_inv_def)
  show "marks_sorted (sizes l')" and "marks_change (sizes l')" using inv by auto
  note st = stampedD [OF inv(4) assms(5)] and en = endedD [OF inv(5) assms(5)]
  show len: "length (timeline ops l d g) = Suc (length x)" by (simp add: timeline_def st(1))
  show "size_at (sizes l') (Cursor g (of_nat k)) zero_size = timeline ops l d g ! k"
    if "k < length (timeline ops l d g)"
    using st(1) st(2) [of k] en(1) that len by (cases "k < length x") (auto simp: timeline_def nth_append less_Suc_eq)
  show "unat (offset (mark_cursor m)) < length (timeline ops l d g)"
    if "m \<in> set (marks_of g (sizes l'))"
    using en(2) [OF that] len by simp
  obtain s where s: "segments l' g = Some s"
    using assms(5) by (auto simp: content_def split: option.splits)
  then show "length x < 2 ^ 64"
    using segment_content [OF inv(1) s] assms(5) unat_u64_less [of "seg_size s"] by auto
qed

text \<open>
  C4. Exact size marks: start from any log that has no marks yet (a new or an adopted one)
  and run any sequence of appends, rotations, prunes, resizes (to a size other than the
  zero size, which no session sets) and closes, with any faults. At every position still
  retained \<^verbatim>\<open>sizeSpanLocked\<close> reports the grid size that was in effect when the byte there was
  appended (the zero size for bytes older than the first mark; at the end of a generation,
  the size it ended with), and the span it reports ends exactly where the size changes
  next: not earlier, at a mark that changes nothing, and not later. Without a further
  change in the generation it reports no end.
\<close>

theorem size_marks_exact:
  assumes "log_inv l d" and "sizes l = []" and "log_run ops (l, d) = (l', d')"
    and "MarkSize zero_size \<notin> set ops" and "content l' d' g = Some x" and "n \<le> length x"
  shows "sizeSpanLocked l' (Cursor g (of_nat n)) =
    (timeline ops l d g ! n,
     map_option of_nat (run_end (timeline ops l d g ! n) (drop n (timeline ops l d g))))"
proof -
  note tm = timeline_marks [OF assms(1-5)]
  have n: "n < length (timeline ops l d g)" using tm(3) assms(6) by simp
  have "length (timeline ops l d g) \<le> 2 ^ 64" using tm(3,6) by simp
  with span_to_change [OF tm(1,2,4) _ n tm(5)] tm(4) [OF n] show ?thesis
    by (simp add: sizeSpanLocked_def size_span_correct [OF tm(1)])
qed

theorem size_marks_exact_witness:
  "sizeSpanLocked (fst (log_run [MarkSize (Size 80 24), Append WriteOK ''ab'', MarkSize (Size 100 30),
      MarkSize (Size 80 24), Append WriteOK ''c'', MarkSize (Size 90 20)] (demo_log, demo_disk [])))
      (Cursor 1 1) = (Size 80 24, Some 2)"
proof -
  let ?ops = "[MarkSize (Size 80 24), Append WriteOK ''ab'', MarkSize (Size 100 30),
      MarkSize (Size 80 24), Append WriteOK ''c'', MarkSize (Size 90 20)]"
  obtain l d where run: "log_run ?ops (demo_log, demo_disk []) = (l, d)" by fastforce
  have "content l d 1 = Some ''abc''"
    using run by (auto simp: demo_eval content_def)
  moreover have "timeline ?ops demo_log (demo_disk []) 1 =
      [Size 80 24, Size 80 24, Size 80 24, Size 90 20]"
    by (simp add: demo_eval timeline_def stamp_op_def appended_def effective_def no_stamps_def content_def)
  moreover have "sizes demo_log = []" by (simp add: demo_log_def)
  moreover have "MarkSize zero_size \<notin> set ?ops" by simp
  ultimately show ?thesis
    using size_marks_exact [OF demo_inv _ run, of 1 "''abc''" 1] run by simp
qed

end
