(* ===== verification/Log_Cursors.thy ===== *)
theory Log_Cursors
  imports Log_History
begin

text \<open>
  Cursors against a log: which ones \<^verbatim>\<open>resolveCursorLocked\<close> accepts, and what becomes of
  an accepted cursor while the log moves on. These are the facts of \<open>segment_store\<close>,
  read through the interpretation on the log and its disk.
\<close>

lemma resolveCursor_nonzero:
  assumes inv: "log_inv l d" and "c \<noteq> zero_cursor"
  shows "resolveCursorLocked order l c = Inr c' \<longleftrightarrow>
    c' = c \<and> (\<exists>x. content l d (generation c) = Some x \<and> unat (offset c) \<le> length x)"
proof (cases "segments l (generation c)")
  case None
  with assms show ?thesis by (simp add: resolveCursorLocked_def content_def)
next
  case (Some s)
  obtain x where x: "content l d (generation c) = Some x" "length x = unat (seg_size s)"
    using segment_content [OF inv Some] by blast
  obtain i where "unat (seg_size s) \<le> length (inode d i)" "0 < generation c"
    using log_invD(3) [OF inv Some] unfolding segment_ok_def by (metis order_refl)
  then have "unat (seg_size s) \<le> max_file_size" and pos: "generation c \<noteq> 0"
    using log_invD(1) [OF inv] by (auto simp: disk_inv_def intro: order_trans)
  then have "unat (seg_size s) \<le> 2 ^ 63 - 1" by (simp add: max_file_size_def)
  with x Some assms(2) pos show ?thesis
    by (auto simp: resolveCursorLocked_def word_less_nat_alt)
qed

lemma resolveCursor_expired:
  assumes "log_inv l d" and "0 < generation c" and "unat (offset c) \<le> 2 ^ 63 - 1"
    and "generation c < log_generation l" and "content l d (generation c) = None"
  shows "resolveCursorLocked order l c = Inl (Sentinel ErrCursorExpired)"
  using assms content_None_iff [OF assms(1), of "generation c"]
  by (cases c) (auto simp: resolveCursorLocked_def)

lemma foldl_min:
  "foldl (\<lambda>g cand. if cand < g then cand else g) (a :: u64) xs = Min (insert a (set xs))"
proof (induction xs arbitrary: a)
  case (Cons x xs)
  have "Min (insert (min x a) (set xs)) = Min (insert a (insert x (set xs)))"
    by (cases "set xs = {}") (auto simp: min.assoc min.commute min.left_commute)
  moreover have "(if x < a then x else a) = min x a" by (auto simp: min_def)
  ultimately show ?case using Cons.IH [of "min x a"] by simp
qed simp

lemma resolveCursor_zero:
  assumes "log_inv l d" and "set order = dom (segments l)"
  shows "\<exists>g. resolveCursorLocked order l zero_cursor = Inr (Cursor g 0) \<and>
    content l d g \<noteq> None \<and> (\<forall>h < g. content l d h = None)"
proof -
  let ?g = "Min (insert (log_generation l) (set order))"
  have dom: "insert (log_generation l) (set order) = dom (segments l)"
    using log_invD(2) [OF assms(1)] assms(2) by auto
  have "?g \<in> insert (log_generation l) (set order)" by (rule Min_in) auto
  then have "?g \<in> dom (segments l)" unfolding dom .
  moreover have "h \<notin> dom (segments l)" if "h < ?g" for h
    using that Min_le [of "insert (log_generation l) (set order)" h] unfolding dom [symmetric] by auto
  ultimately show ?thesis
    using content_None_iff [OF assms(1)] foldl_min [of "log_generation l" order]
    by (intro exI [of _ ?g]) (auto simp: resolveCursorLocked_def domIff)
qed

lemma log_run_store:
  assumes "log_inv l d" and "log_run ops (l, d) = (l', d')"
  shows "log_step\<^sup>*\<^sup>* (l, d) (l', d')" and "store_inv (l, d)" and "log_inv l' d'"
proof -
  show steps: "log_step\<^sup>*\<^sup>* (l, d) (l', d')" using log_run_steps [of "(l, d)" ops] assms(2) by simp
  show inv: "store_inv (l, d)" using assms(1) by (simp add: store_defs)
  show "log_inv l' d'" using olog.inv_steps [OF steps inv] by (simp add: store_defs)
qed

text \<open>
  What a log holds under a position it accepts, and what later states of the log hold there.
\<close>

lemma content_stable:
  assumes "log_inv l d" and "log_run ops (l, d) = (l', d')" and "content l d g = Some x"
  shows "content l' d' g = None \<Longrightarrow> g < log_generation l'"
    and "content l' d' g = Some y \<Longrightarrow> prefix x y \<and> (g < log_generation l \<longrightarrow> y = x)"
proof -
  note steps = log_run_store [OF assms(1,2)]
  have "g \<le> log_generation l" using content_Some_bound [OF assms(1,3)] by simp
  moreover have "log_generation l \<le> log_generation l'"
    using olog.current_steps [OF steps(1,2)] by (simp add: store_defs)
  ultimately show "g < log_generation l'" if "content l' d' g = None"
    using that content_current [OF steps(3)] by (cases "g = log_generation l'") auto
  show "prefix x y \<and> (g < log_generation l \<longrightarrow> y = x)" if "content l' d' g = Some y"
    using olog.bytes_steps [OF steps(1,2), of g x y] assms(3) that by (auto simp: store_defs)
qed

lemma resolveCursor_bounds:
  assumes "c \<noteq> zero_cursor" and "resolveCursorLocked order l c = Inr c"
  shows "0 < generation c" and "unat (offset c) \<le> 2 ^ 63 - 1"
  using assms by (auto simp: resolveCursorLocked_def word_neq_0_conv split: if_splits)

lemma expired_stays:
  assumes "log_inv l d" and "log_run ops (l, d) = (l', d')"
    and "0 < generation c" and "unat (offset c) \<le> 2 ^ 63 - 1"
    and "generation c < log_generation l" and "content l d (generation c) = None"
  shows "resolveCursorLocked order l' c = Inl (Sentinel ErrCursorExpired)"
proof -
  note steps = log_run_store [OF assms(1,2)]
  have "content l' d' (generation c) = None"
    using olog.expired_steps [OF steps(1,2), of "generation c"] assms(5,6) by (simp add: store_defs)
  moreover have "generation c < log_generation l'"
    using olog.current_steps [OF steps(1,2)] assms(5) by (simp add: store_defs)
  ultimately show ?thesis using resolveCursor_expired [OF steps(3) assms(3,4)] by blast
qed

text \<open>
  C27. Positions are stable: a cursor that \<^verbatim>\<open>resolveCursorLocked\<close> accepts names a position in
  the content of a retained generation. Whatever operations the log goes through then
  (appends, rotations, prunes, resizes, closes, and failures of each), one of two things
  holds. Either the generation is still retained: then the cursor is accepted again and
  names the same position, since the bytes the generation held stay where they are, and a
  generation that was completed does not change at all. Or the generation is gone: then the
  cursor is refused as expired, and so it is after any further operations. It never becomes
  an invalid cursor, so a client can tell "too late" from "wrong".
\<close>

theorem cursor_positions_stable:
  assumes "log_inv l d" and "log_run ops (l, d) = (l', d')" and "c \<noteq> zero_cursor"
    and "resolveCursorLocked order l c = Inr c"
  shows "\<exists>x. content l d (generation c) = Some x \<and> unat (offset c) \<le> length x \<and>
    (case content l' d' (generation c) of
       Some y \<Rightarrow> resolveCursorLocked order' l' c = Inr c \<and> prefix x y \<and>
         (generation c < log_generation l \<longrightarrow> y = x)
     | None \<Rightarrow> \<forall>ops' order''.
         resolveCursorLocked order'' (fst (log_run ops' (l', d'))) c = Inl (Sentinel ErrCursorExpired))"
proof -
  obtain x where x: "content l d (generation c) = Some x" "unat (offset c) \<le> length x"
    using assms(4) resolveCursor_nonzero [OF assms(1,3)] by auto
  note stable = content_stable [OF assms(1,2) x(1)] and inv' = log_run_store(3) [OF assms(1,2)]
  show ?thesis
  proof (cases "content l' d' (generation c)")
    case None
    have "resolveCursorLocked order'' (fst (log_run ops' (l', d'))) c = Inl (Sentinel ErrCursorExpired)"
      for ops' order''
      using expired_stays [OF inv' _ resolveCursor_bounds [OF assms(3,4)] stable(1) [OF None] None]
      by (metis prod.collapse)
    with None x show ?thesis by simp
  next
    case (Some y)
    with stable(2) [OF Some] x resolveCursor_nonzero [OF inv' assms(3), of order' c]
    show ?thesis using prefix_length_le [of x y] by (intro exI [of _ x]) auto
  qed
qed

theorem cursor_positions_stable_witness:
  "resolveCursorLocked [] (fst (log_run [Append WriteOK ''ab'', Append WriteOK ''c''] (demo_log, demo_disk [])))
     (Cursor 1 0) = Inr (Cursor 1 0)"
proof -
  obtain l d where run: "log_run [Append WriteOK ''ab'', Append WriteOK ''c''] (demo_log, demo_disk []) = (l, d)"
    by fastforce
  have "resolveCursorLocked [] demo_log (Cursor 1 0) = Inr (Cursor 1 0)"
    by (simp add: resolveCursorLocked_def demo_log_def)
  moreover have "content l d 1 = Some ''abc''"
    using run by (auto simp: demo_eval content_def)
  ultimately have "resolveCursorLocked [] l (Cursor 1 0) = Inr (Cursor 1 0)"
    using cursor_positions_stable [OF demo_inv run, of "Cursor 1 0" "[]" "[]"] by auto
  then show ?thesis unfolding run by simp
qed

end
