(* ===== verification/Log_Reopen.thy ===== *)
theory Log_Reopen
  imports Log_History
begin

text \<open>
  Opening an output log: a new one (\<^verbatim>\<open>createOutputLog\<close>) and one that another process left
  on the disk (\<^verbatim>\<open>adoptOutputLog\<close>). The directory listing is the answer of
  \<^verbatim>\<open>os.ReadDir\<close>; \<open>lists_dir\<close> says that it is truthful. An opened log satisfies the
  invariant, and adopting a log recovers exactly the generations and bytes its former
  owner had.
\<close>

section \<open>Scanning the directory\<close>

definition lists_dir :: "bytes \<Rightarrow> disk \<Rightarrow> dirEntry list \<Rightarrow> bool" where
  "lists_dir dir d entries \<longleftrightarrow>
     (\<forall>e \<in> set entries. plain_component (entry_name e) \<and>
        (entry_isdir e \<or> (\<exists>i. dirent d (filepath_Join dir (entry_name e)) = Some i \<and>
           entry_info e = Inr (length (inode d i))))) \<and>
     (\<forall>name. plain_component name \<longrightarrow> dirent d (filepath_Join dir name) \<noteq> None \<longrightarrow>
        (\<exists>e \<in> set entries. entry_name e = name \<and> \<not> entry_isdir e))"

text \<open>The generation an entry stands for, if the scan takes it.\<close>

definition entry_generation :: "u64 \<Rightarrow> dirEntry \<Rightarrow> u64 option" where
  "entry_generation g e =
     (if entry_isdir e \<or> \<not> hasSuffix ''.out'' (entry_name e) then None
      else case ParseUint (TrimSuffix (entry_name e) ''.out'') 10 64 of
        None \<Rightarrow> None | Some k \<Rightarrow> if k = 0 \<or> g < k then None else Some k)"

lemma scan_entries_Cons:
  "scan_entries dir g (e # es) segs =
     (case entry_generation g e of None \<Rightarrow> scan_entries dir g es segs
      | Some k \<Rightarrow> (case entry_info e of
          Inl x \<Rightarrow> Inl (Wrap (''stat output segment '' @ FormatUint k @ '': '') x [])
        | Inr n \<Rightarrow> scan_entries dir g es
            (segs(k \<mapsto> Segment (filepath_Join dir (entry_name e)) (of_nat n)))))"
  by (auto simp: entry_generation_def split: option.splits)

declare scan_entries.simps(2) [simp del]

lemma scan_entries_sound:
  assumes "scan_entries dir g es segs = Inr segs'" and "segs' k = Some s"
  shows "segs k = Some s \<or> (\<exists>e \<in> set es. \<exists>n. entry_generation g e = Some k \<and> entry_info e = Inr n \<and>
    s = Segment (filepath_Join dir (entry_name e)) (of_nat n))"
  using assms
  by (induction es arbitrary: segs)
    (fastforce simp: scan_entries_Cons split: option.splits sum.splits if_splits)+

lemma scan_entries_keeps:
  assumes "scan_entries dir g es segs = Inr segs'" and "segs k \<noteq> None"
  shows "segs' k \<noteq> None"
  using assms
  by (induction es arbitrary: segs)
    (fastforce simp: scan_entries_Cons split: option.splits sum.splits if_splits)+

lemma scan_entries_complete:
  assumes "scan_entries dir g es segs = Inr segs'" and "e \<in> set es" and "entry_generation g e = Some k"
  shows "segs' k \<noteq> None"
  using assms
proof (induction es arbitrary: segs)
  case (Cons x es)
  show ?case
  proof (cases "x = e")
    case True
    with Cons.prems obtain n where
      "scan_entries dir g es (segs(k \<mapsto> Segment (filepath_Join dir (entry_name e)) (of_nat n))) = Inr segs'"
      by (auto simp: scan_entries_Cons split: sum.splits)
    from scan_entries_keeps [OF this] show ?thesis by simp
  next
    case False
    with Cons show ?thesis
      by (auto simp: scan_entries_Cons split: option.splits sum.splits)
  qed
qed simp

lemma scan_entries_total:
  assumes "\<And>e. e \<in> set es \<Longrightarrow> \<not> entry_isdir e \<Longrightarrow> \<exists>n. entry_info e = Inr n"
  shows "\<exists>segs'. scan_entries dir g es segs = Inr segs'"
  using assms
proof (induction es arbitrary: segs)
  case (Cons x es)
  have rest: "\<exists>segs'. scan_entries dir g es segs1 = Inr segs'" for segs1
    using Cons by simp
  show ?case
  proof (cases "entry_generation g x")
    case None
    with rest show ?thesis by (simp add: scan_entries_Cons)
  next
    case (Some k)
    then have "\<not> entry_isdir x" by (auto simp: entry_generation_def split: if_splits)
    with Cons.prems obtain n where "entry_info x = Inr n" by auto
    with Some rest show ?thesis by (simp add: scan_entries_Cons)
  qed
qed simp

section \<open>Segment names\<close>

abbreviation segment_name :: "u64 \<Rightarrow> bytes" where
  "segment_name g \<equiv> dec_padded 20 (unat g) @ ''.out''"

lemma plain_segment_name: "plain_component (segment_name g)"
proof -
  have "CHR ''/'' \<notin> set (dec_padded 20 (unat g))"
    using set_dec_padded [of "CHR ''/''" 20 "unat g"] by auto
  then show ?thesis by (auto simp: plain_component_def)
qed

lemma outputSegmentPath_inj: "outputSegmentPath dir g = outputSegmentPath dir h \<Longrightarrow> g = h"
  unfolding outputSegmentPath_def
  by (drule filepath_Join_inj [OF plain_segment_name plain_segment_name])
    (auto dest!: dec_padded_inj simp: word_unat_eq_iff)

lemma entry_generation_segment:
  assumes "entry_name e = segment_name k" and "\<not> entry_isdir e" and "0 < k" and "k \<le> g"
  shows "entry_generation g e = Some k"
proof -
  have "ParseUint (dec_padded 20 (unat k)) 10 64 = Some k"
    by (rule ParseUint_dec_padded) (rule unat_u64_less)
  moreover have "hasSuffix ''.out'' (entry_name e)"
    using assms(1) by (auto simp: hasSuffix_iff)
  ultimately show ?thesis
    using assms by (auto simp: entry_generation_def)
qed

lemma entry_generation_SomeD:
  "entry_generation g e = Some k \<Longrightarrow> \<not> entry_isdir e \<and> 0 < k \<and> k \<le> g \<and>
   ParseUint (TrimSuffix (entry_name e) ''.out'') 10 64 = Some k"
  by (auto simp: entry_generation_def word_neq_0_conv split: if_splits option.splits)

section \<open>An opened log\<close>

lemma openOutputLog_Inr:
  assumes "openOutputLog env dir g create d = (Inr l, d')"
  obtains i entries segs where "dirent d' (outputSegmentPath dir g) = Some i"
    and "readdir env = Inr entries" and "scan_entries dir g entries Map.empty = Inr segs"
    and "segs g \<noteq> None"
    and "l = \<lparr>directory = dir, log_generation = g,
       segments = segs(g \<mapsto> Segment (outputSegmentPath dir g) (of_nat (length (inode d' i)))),
       active = Some i, changed = 0, closed = False, log_err = None, sizes = []\<rparr>"
    and "create \<Longrightarrow> os_Create (open_fault env) (outputSegmentPath dir g) d = Inr (i, d')"
    and "\<not> create \<Longrightarrow> d' = d"
proof -
  obtain i where i: "dirent d' (outputSegmentPath dir g) = Some i"
      "create \<Longrightarrow> os_Create (open_fault env) (outputSegmentPath dir g) d = Inr (i, d')"
      "\<not> create \<Longrightarrow> os_Open (open_fault env) (outputSegmentPath dir g) d = Inr i \<and> d' = d"
    using assms
    by (cases create)
      (fastforce simp: openOutputLog_def Let_def os_Open_def dest: os_Create_Inr
        split: sum.splits option.splits if_splits prod.splits)+
  then show thesis
    using assms that [of i]
    by (cases create)
      (auto simp: openOutputLog_def Let_def split: sum.splits option.splits if_splits)
qed

lemma openOutputLog_disk_inv:
  "openOutputLog env dir g create d = (Inr l, d') \<Longrightarrow> disk_inv d \<Longrightarrow> disk_inv d'"
  by (erule openOutputLog_Inr) (cases create, auto intro: os_Create_inv)

lemma scanned_segment_ok:
  assumes "lists_dir dir d entries" and "scan_entries dir g entries Map.empty = Inr segs"
    and "segs k = Some s" and "disk_inv d"
  obtains e i where "e \<in> set entries" and "entry_generation g e = Some k"
    and "plain_component (entry_name e)" and "seg_path s = filepath_Join dir (entry_name e)"
    and "dirent d (seg_path s) = Some i" and "unat (seg_size s) = length (inode d i)"
proof -
  obtain e n where e: "e \<in> set entries" "entry_generation g e = Some k" "entry_info e = Inr n"
      "s = Segment (filepath_Join dir (entry_name e)) (of_nat n)"
    using scan_entries_sound [OF assms(2,3)] by auto
  then obtain i where i: "dirent d (seg_path s) = Some i" "n = length (inode d i)"
      "plain_component (entry_name e)"
    using assms(1) by (auto simp: lists_dir_def dest: entry_generation_SomeD)
  have "length (inode d i) < 2 ^ 64" using assms(4) by (rule disk_length_less)
  with e i show thesis by (intro that [of e i]) (auto simp: unat_of_nat_u64)
qed

lemma openOutputLog_inv:
  assumes "openOutputLog env dir g create d = (Inr l, d')" and "disk_inv d" and "0 < g"
    and "\<And>entries. readdir env = Inr entries \<Longrightarrow> lists_dir dir d' entries"
  shows "log_inv l d'"
  using assms(1)
proof (cases rule: openOutputLog_Inr)
  case (1 i entries segs)
  have dinv: "disk_inv d'" using openOutputLog_disk_inv [OF assms(1,2)] .
  note listing = assms(4) [OF 1(2)] and len = disk_length_less [OF dinv]
  have seg: "(\<exists>j. dirent d' (seg_path s) = Some j \<and> unat (seg_size s) = length (inode d' j)) \<and>
      0 < k \<and> k \<le> g \<and> (\<exists>name. plain_component name \<and> seg_path s = filepath_Join dir name \<and>
        ParseUint (TrimSuffix name ''.out'') 10 64 = Some k)"
    if "segments l k = Some s" for k s
  proof (cases "k = g")
    case True
    with that 1(1,5) assms(3) len [of i] show ?thesis
      using plain_segment_name [of g] ParseUint_dec_padded [OF unat_u64_less, of 20 g]
      by (auto simp: outputSegmentPath_def unat_of_nat_u64 intro!: exI [of _ "segment_name g"])
  next
    case False
    then have "segs k = Some s" using that 1(5) by simp
    from scanned_segment_ok [OF listing 1(3) this dinv] show ?thesis
      by (metis entry_generation_SomeD)
  qed
  show ?thesis
  proof (rule log_invI [OF dinv])
    show "segment_ok l d' k s" if "segments l k = Some s" for k s
      using seg [OF that] 1(5) by (auto simp: segment_ok_def)
    show "h = k" if "segments l h = Some s" "segments l k = Some t" "seg_path s = seg_path t" for h k s t
      using seg [OF that(1)] seg [OF that(2)] that(3) by (metis filepath_Join_inj option.inject)
  qed (use 1(1,5) in auto)
qed

section \<open>The directory holds the log and nothing else\<close>

definition reopenable :: "outputLog \<Rightarrow> disk \<Rightarrow> bool" where
  "reopenable l d \<longleftrightarrow>
     (\<forall>k s. segments l k = Some s \<longrightarrow> seg_path s = outputSegmentPath (directory l) k) \<and>
     (\<forall>name. plain_component name \<longrightarrow> hasSuffix ''.out'' name \<longrightarrow>
        dirent d (filepath_Join (directory l) name) \<noteq> None \<longrightarrow>
        (\<exists>k. segments l k \<noteq> None \<and> name = segment_name k))"

lemma reopenableD:
  assumes "reopenable l d"
  shows "segments l k = Some s \<Longrightarrow> seg_path s = outputSegmentPath (directory l) k"
    and "plain_component name \<Longrightarrow> hasSuffix ''.out'' name \<Longrightarrow>
      dirent d (filepath_Join (directory l) name) \<noteq> None \<Longrightarrow>
      \<exists>k. segments l k \<noteq> None \<and> name = segment_name k"
  using assms by (auto simp: reopenable_def)

text \<open>A fault of \<^verbatim>\<open>os.Remove\<close> is not the report that the file is gone: that comes from the disk.\<close>

definition honest :: "log_op \<Rightarrow> bool" where
  "honest op \<longleftrightarrow> (case op of
      Prune faults order before \<Rightarrow> (\<forall>p e. faults p = Some e \<longrightarrow> \<not> errors_Is e ErrNotExist)
    | _ \<Rightarrow> True)"

lemma reopenable_frame:
  assumes "reopenable l d" and "directory l' = directory l"
    and "\<And>k. map_option seg_path (segments l' k) = map_option seg_path (segments l k)"
    and "dirent d' = dirent d"
  shows "reopenable l' d'"
proof -
  have "\<exists>t. segments l k = Some t \<and> seg_path t = seg_path s" if "segments l' k = Some s" for k s
    using assms(3) [of k] that by (cases "segments l k") auto
  moreover have "segments l k = None \<longleftrightarrow> segments l' k = None" for k
    using assms(3) [of k] by auto
  ultimately show ?thesis
    using reopenableD [OF assms(1)] assms(2,4) by (fastforce simp: reopenable_def)
qed

lemma reopenable_append:
  assumes inv: "log_inv l d" and "reopenable l d" and run: "log_append oc l d data = (r, l', d')"
  shows "reopenable l' d'"
proof (rule reopenable_frame [OF assms(2)])
  show "directory l' = directory l" and "dirent d' = dirent d"
    using log_append_same [OF run] by auto
  show "map_option seg_path (segments l' k) = map_option seg_path (segments l k)" for k
    using log_invD(2) [OF inv] by (cases rule: log_append_cases [OF inv run]) auto
qed

lemma reopenable_rotate:
  assumes "reopenable l d" and run: "log_rotate fault l d = (r, l', d')"
  shows "reopenable l' d'"
  using run
proof (cases rule: log_rotate_cases)
  case (same e)
  with assms(1) show ?thesis by simp
next
  case (ok i path)
  note new = os_Create_Inr [OF ok(4)]
  have "\<exists>k. segments l' k \<noteq> None \<and> name = segment_name k"
    if name: "plain_component name" "hasSuffix ''.out'' name"
      "dirent d' (filepath_Join (directory l') name) \<noteq> None" for name
  proof (cases "filepath_Join (directory l) name = path")
    case True
    then have "name = segment_name (log_generation l + 1)"
      using ok(5) filepath_Join_inj [OF name(1) plain_segment_name] by (simp add: outputSegmentPath_def)
    with ok(7) show ?thesis by auto
  next
    case False
    then have "dirent d (filepath_Join (directory l) name) \<noteq> None" using name(3) new ok(11) by simp
    from reopenableD(2) [OF assms(1) name(1,2) this] obtain k where
      "segments l k \<noteq> None" and "name = segment_name k" by blast
    with ok(7) show ?thesis by (intro exI [of _ k]) simp
  qed
  moreover have "seg_path s = outputSegmentPath (directory l') k" if "segments l' k = Some s" for k s
    using that ok(5,7,11) reopenableD(1) [OF assms(1), of k s] by (auto split: if_splits)
  ultimately show ?thesis unfolding reopenable_def by blast
qed

lemma reopenable_prune:
  assumes inv: "log_inv l d" and re: "reopenable l d" and run: "log_prune faults order l d before = (r, l', d')"
    and honest: "\<And>p e. faults p = Some e \<Longrightarrow> \<not> errors_Is e ErrNotExist"
  shows "reopenable l' d'"
proof -
  let ?P = "\<lambda>segs d. reopenable (l\<lparr>segments := segs\<rparr>) d"
  have remove: "?P (segs(g := None)) d1"
    if P: "?P segs d" and seg: "segs g = Some s"
      and rm: "os_Remove (faults (seg_path s)) (seg_path s) d = (e, d1)"
      and gone: "\<And>x. e = Some x \<Longrightarrow> errors_Is x ErrNotExist" for segs d g s e d1
  proof -
    have path: "seg_path s = filepath_Join (directory l) (segment_name g)"
      using reopenableD(1) [OF P] seg by (simp add: outputSegmentPath_def)
    have d1: "dirent d1 = (dirent d)(seg_path s := None)"
    proof (cases "faults (seg_path s)")
      case None
      with rm show ?thesis by (auto simp: os_Remove_def fun_eq_iff split: if_splits)
    next
      case (Some x)
      with rm have "e = Some x" by (simp add: os_Remove_def)
      with gone honest Some show ?thesis by blast
    qed
    have "\<exists>k. k \<noteq> g \<and> segs k \<noteq> None \<and> name = segment_name k"
      if "plain_component name" "hasSuffix ''.out'' name"
        "dirent d1 (filepath_Join (directory l) name) \<noteq> None" for name
      using reopenableD(2) [OF P that(1,2)] that(3) d1 path by (auto split: if_splits)
    with P show ?thesis by (auto simp: reopenable_def)
  qed
  have re': "?P (segments l) d" using re by simp
  show ?thesis
  proof (cases "segments l' = segments l \<and> d' = d")
    case True
    then show ?thesis
      using re by (cases rule: log_prune_cases [OF inv run]) (auto simp: reopenable_def)
  next
    case False
    then obtain err where loop: "prune_segments faults (generation before) (log_generation l) order
        (segments l) d = (err, segments l', d')"
      using run by (auto simp: log_prune_def split: option.splits if_splits prod.splits)
    have "?P (segments l') d'"
      by (rule prune_segments_keeps [where P = ?P, OF loop re']) (rule remove)
    moreover have "directory l' = directory l"
      by (cases rule: log_prune_cases [OF inv run]) auto
    ultimately show ?thesis by (simp add: reopenable_def)
  qed
qed

lemma reopenable_exec:
  assumes "log_inv l d" and "reopenable l d" and "honest op" and "log_exec op (l, d) = (l', d')"
  shows "reopenable l' d'"
  using assms(4)
proof (cases rule: log_exec_cases)
  case (append oc data r)
  with reopenable_append [OF assms(1,2)] show ?thesis by blast
next
  case (rotate fault c)
  with reopenable_rotate [OF assms(2)] show ?thesis by blast
next
  case (prune faults order before r)
  with assms(3) show ?thesis
    by (intro reopenable_prune [OF assms(1,2) prune(2)]) (simp add: honest_def)
qed (use assms(2) in \<open>auto intro: reopenable_frame\<close>)

lemma reopenable_run:
  assumes "log_inv l d" and "reopenable l d" and "list_all honest ops" and "log_run ops (l, d) = (l', d')"
  shows "log_inv l' d' \<and> reopenable l' d'"
  using assms
proof (induction ops arbitrary: l d)
  case (Cons op ops)
  obtain l1 d1 where run: "log_exec op (l, d) = (l1, d1)" by fastforce
  with Cons log_exec_inv [OF Cons.prems(1) run] reopenable_exec [OF Cons.prems(1,2) _ run]
  show ?case by simp
qed simp

section \<open>Creating and adopting\<close>

definition fresh_dir :: "bytes \<Rightarrow> disk \<Rightarrow> bool" where
  "fresh_dir dir d \<longleftrightarrow> (\<forall>name. plain_component name \<longrightarrow> dirent d (filepath_Join dir name) = None)"

lemma createOutputLog_reopenable:
  assumes "createOutputLog (Inr dir) env d = (Inr l, d')" and "disk_inv d" and "fresh_dir dir d"
    and "\<And>entries. readdir env = Inr entries \<Longrightarrow> lists_dir dir d' entries"
  shows "log_inv l d' \<and> reopenable l d' \<and> sizes l = [] \<and> \<not> closed l \<and> log_generation l = 1 \<and>
    directory l = dir"
proof -
  have run: "openOutputLog env dir 1 True d = (Inr l, d')"
    using assms(1) by (auto simp: createOutputLog_def split: sum.splits prod.splits)
  from run show ?thesis
  proof (cases rule: openOutputLog_Inr)
    case (1 i entries segs)
    have dirs: "dirent d' = (dirent d)(outputSegmentPath dir 1 \<mapsto> i)"
      using os_Create_Inr 1(6) by blast
    have only: "name = segment_name 1"
      if "plain_component name" "dirent d' (filepath_Join dir name) \<noteq> None" for name
      using that assms(3) dirs filepath_Join_inj [OF that(1) plain_segment_name [of 1], of dir]
      by (auto simp: fresh_dir_def outputSegmentPath_def split: if_splits)
    have inv: "log_inv l d'"
      using openOutputLog_inv [OF run assms(2) _ assms(4)] by simp
    have one: "k = 1" if seg: "segs k = Some s" for k s
    proof -
      obtain e j where e: "entry_generation 1 e = Some k" "plain_component (entry_name e)"
          "seg_path s = filepath_Join dir (entry_name e)" "dirent d' (seg_path s) = Some j"
        using scanned_segment_ok [OF assms(4) [OF 1(2)] 1(3) seg log_invD(1) [OF inv]] by metis
      then show ?thesis
        using only [of "entry_name e"] entry_generation_segment [of e 1 1] entry_generation_SomeD [OF e(1)]
        by auto
    qed
    have paths: "k = 1 \<and> seg_path s = outputSegmentPath dir k" if "segments l k = Some s" for k s
      using that 1(5) one [of k s] by (auto split: if_splits)
    moreover have "segments l 1 \<noteq> None" and "directory l = dir" using 1(5) by simp_all
    ultimately have "reopenable l d'"
      unfolding reopenable_def using only by blast
    with inv 1(5) show ?thesis by simp
  qed
qed

lemma createOutputLog_blank:
  assumes "createOutputLog (Inr dir) env d = (Inr l, d')"
  shows "content l d' 1 = Some []"
proof -
  have "openOutputLog env dir 1 True d = (Inr l, d')"
    using assms by (auto simp: createOutputLog_def split: sum.splits prod.splits)
  then show ?thesis
    by (cases rule: openOutputLog_Inr) (auto simp: content_def dest!: os_Create_Inr)
qed

lemma log_exec_directory: "log_exec op (l, d) = (l', d') \<Longrightarrow> directory l' = directory l"
  by (erule log_exec_cases)
    (auto simp: log_append_same log_prune_def elim: log_rotate_cases
      split: option.splits if_splits prod.splits)

lemma log_run_directory: "log_run ops (l, d) = (l', d') \<Longrightarrow> directory l' = directory l"
proof (induction ops arbitrary: l d)
  case (Cons op ops)
  obtain l1 d1 where "log_exec op (l, d) = (l1, d1)" by fastforce
  with Cons log_exec_directory show ?case by fastforce
qed simp

text \<open>A truthful listing of the directory of an open log describes exactly its segments.\<close>

lemma scan_recovers:
  assumes inv: "log_inv l d" and open_log: "\<not> closed l" and re: "reopenable l d"
    and listing: "lists_dir (directory l) d entries"
    and scan: "scan_entries (directory l) (log_generation l) entries Map.empty = Inr segs"
  shows "segs = segments l"
proof
  fix k
  have found: "segments l k = Some t" if seg: "segs k = Some t" for t
  proof -
    obtain e i where e: "entry_generation (log_generation l) e = Some k" "plain_component (entry_name e)"
        "seg_path t = filepath_Join (directory l) (entry_name e)" "dirent d (seg_path t) = Some i"
        "unat (seg_size t) = length (inode d i)"
      using scanned_segment_ok [OF listing scan seg log_invD(1) [OF inv]] by metis
    have suffix: "hasSuffix ''.out'' (entry_name e)"
      using e(1) by (auto simp: entry_generation_def split: if_splits)
    obtain h s where h: "segments l h = Some s" "entry_name e = segment_name h"
      using reopenableD(2) [OF re e(2) suffix] e(3,4) by auto
    have "h = k"
      using entry_generation_segment [OF h(2)] log_invD(3) [OF inv h(1)] entry_generation_SomeD [OF e(1)] e(1)
      by (auto simp: segment_ok_def)
    moreover have "seg_path s = seg_path t"
      using reopenableD(1) [OF re h(1)] e(3) h(2) by (simp add: outputSegmentPath_def)
    moreover have "seg_size s = seg_size t"
      using log_invD(3) [OF inv h(1)] e(4,5) open_log calculation
      by (auto simp: segment_ok_def word_unat_eq_iff)
    ultimately show ?thesis using h(1) by (cases s; cases t) auto
  qed
  have "segs k \<noteq> None" if s: "segments l k = Some s" for s
  proof -
    have ok: "segment_ok l d k s" using log_invD(3) [OF inv s] .
    then have "dirent d (filepath_Join (directory l) (segment_name k)) \<noteq> None"
      using reopenableD(1) [OF re s] by (auto simp: segment_ok_def outputSegmentPath_def)
    then obtain e where "e \<in> set entries" "entry_name e = segment_name k" "\<not> entry_isdir e"
      using listing plain_segment_name [of k] unfolding lists_dir_def by blast
    with ok scan_entries_complete [OF scan] entry_generation_segment show ?thesis
      by (auto simp: segment_ok_def)
  qed
  with found show "segs k = segments l k" by (cases "segs k"; cases "segments l k") auto
qed

text \<open>
  C6. Handing a log over loses nothing: take a log created in a fresh directory and any
  history of appends, rotations, prunes and resizes that leaves it open. A process that
  adopts the directory with the generation from \<^verbatim>\<open>metadata\<close> gets a log with the same
  generations, the same paths and sizes, the same active file, and hence the same bytes
  at every cursor.
\<close>

theorem adopt_recovers_log:
  assumes "createOutputLog (Inr dir) env0 d0 = (Inr l0, d1)" and "disk_inv d0" and "fresh_dir dir d0"
    and "\<And>entries. readdir env0 = Inr entries \<Longrightarrow> lists_dir dir d1 entries"
    and "log_run ops (l0, d1) = (l, d)" and "list_all honest ops" and "\<not> closed l"
    and "open_fault env = None" and "stat_fault env = None" and "readdir env = Inr entries"
    and "lists_dir dir d entries"
  shows "\<exists>l'. adoptOutputLog env (fst (log_metadata l)) (snd (log_metadata l)) d = (Inr l', d) \<and>
    segments l' = segments l \<and> log_generation l' = log_generation l \<and> active l' = active l \<and>
    log_inv l' d \<and> content l' d = content l d"
proof -
  have start: "log_inv l0 d1 \<and> reopenable l0 d1 \<and> directory l0 = dir"
    using createOutputLog_reopenable [OF assms(1-4)] by blast
  then have inv: "log_inv l d" and re: "reopenable l d"
    using reopenable_run [OF _ _ assms(6,5)] by auto
  have dir: "directory l = dir" using log_run_directory [OF assms(5)] start by simp
  obtain segs where scan: "scan_entries dir (log_generation l) entries Map.empty = Inr segs"
    using scan_entries_total [of entries] assms(11) by (fastforce simp: lists_dir_def)
  have segs: "segs = segments l"
    using scan_recovers [OF inv assms(7) re] assms(11) scan dir by simp
  obtain s i where cur: "segments l (log_generation l) = Some s" "active l = Some i"
      "dirent d (seg_path s) = Some i" "unat (seg_size s) = length (inode d i)"
    using open_log_active [OF inv assms(7)] by metis
  have path: "seg_path s = outputSegmentPath dir (log_generation l)"
    using reopenableD(1) [OF re cur(1)] dir by simp
  let ?l' = "\<lparr>directory = dir, log_generation = log_generation l, segments = segments l,
    active = Some i, changed = 0, closed = False, log_err = None, sizes = []\<rparr>"
  have size: "Segment (outputSegmentPath dir (log_generation l)) (of_nat (length (inode d i))) = s"
    using path cur(4) by (cases s) (auto simp flip: cur(4))
  then have upd: "(segments l)(log_generation l \<mapsto>
      Segment (outputSegmentPath dir (log_generation l)) (of_nat (length (inode d i)))) = segments l"
    using cur(1) by (auto simp: fun_eq_iff)
  have run: "openOutputLog env dir (log_generation l) False d = (Inr ?l', d)"
    using cur path scan segs upd assms(8-10)
    by (simp add: openOutputLog_def os_Open_def Let_def)
  have "log_inv ?l' d"
    using openOutputLog_inv [OF run log_invD(1) [OF inv] log_generation_pos [OF inv]] assms(10,11) by simp
  moreover have "content ?l' d = content l d" by (simp add: fun_eq_iff content_def)
  ultimately show ?thesis
    using run dir cur(2) log_generation_pos [OF inv]
    by (intro exI [of _ ?l']) (simp add: adoptOutputLog_def log_metadata_def)
qed

text \<open>A directory with one file, as \<^verbatim>\<open>os.ReadDir\<close> lists it.\<close>

lemma lists_single:
  assumes "dirent d = [outputSegmentPath dir g \<mapsto> i]" and "n = length (inode d i)"
  shows "lists_dir dir d [\<lparr>entry_name = segment_name g, entry_isdir = False, entry_info = Inr n\<rparr>]"
  using assms filepath_Join_inj [OF _ plain_segment_name]
  by (auto simp: lists_dir_def plain_segment_name outputSegmentPath_def split: if_splits)

definition listing1 :: "nat \<Rightarrow> open_env" where
  "listing1 n = \<lparr>open_fault = None, stat_fault = None,
     readdir = Inr [\<lparr>entry_name = segment_name 1, entry_isdir = False, entry_info = Inr n\<rparr>]\<rparr>"

definition demo_disk :: disk where
  "demo_disk = \<lparr>dirent = Map.empty, inode = (\<lambda>_. []), next_inode = 0\<rparr>"

definition demo_disk1 :: disk where
  "demo_disk1 = \<lparr>dirent = [outputSegmentPath ''/t'' 1 \<mapsto> 0], inode = (\<lambda>_. [])(0 := []), next_inode = 1\<rparr>"

definition demo_log :: outputLog where
  "demo_log = \<lparr>directory = ''/t'', log_generation = 1, segments = [1 \<mapsto> Segment (outputSegmentPath ''/t'' 1) 0],
     active = Some 0, changed = 0, closed = False, log_err = None, sizes = []\<rparr>"

lemma demo_create: "createOutputLog (Inr ''/t'') (listing1 0) demo_disk = (Inr demo_log, demo_disk1)"
proof -
  have "scan_entries ''/t'' 1 [\<lparr>entry_name = segment_name 1, entry_isdir = False, entry_info = Inr 0\<rparr>]
      Map.empty = Inr [1 \<mapsto> Segment (outputSegmentPath ''/t'' 1) 0]"
    using entry_generation_segment [of _ 1 1]
    by (simp add: scan_entries_Cons outputSegmentPath_def)
  then show ?thesis
    by (simp add: createOutputLog_def openOutputLog_def listing1_def os_Create_def Let_def
        demo_disk_def demo_disk1_def demo_log_def)
qed

lemma demo_fresh: "fresh_dir ''/t'' demo_disk" "disk_inv demo_disk"
  using disk_inv_empty by (simp_all add: fresh_dir_def demo_disk_def)

lemma demo_listing: "readdir (listing1 0) = Inr es \<Longrightarrow> lists_dir ''/t'' demo_disk1 es"
  using lists_single [of demo_disk1 "''/t''" 1 0 0] by (auto simp: listing1_def demo_disk1_def)

theorem adopt_recovers_log_witness:
  "\<exists>l d l'. log_run [Append WriteOK ''abc''] (demo_log, demo_disk1) = (l, d) \<and>
    adoptOutputLog (listing1 3) ''/t'' 1 d = (Inr l', d) \<and> content l' d 1 = Some ''abc''"
proof -
  obtain l d where run: "log_run [Append WriteOK ''abc''] (demo_log, demo_disk1) = (l, d)" by fastforce
  have d: "dirent d = [outputSegmentPath ''/t'' 1 \<mapsto> 0]" "inode d 0 = ''abc''"
    and l: "\<not> closed l" "log_metadata l = (''/t'', 1)" "content l d 1 = Some ''abc''"
    using run by (auto simp: log_eval log_metadata_def content_def demo_log_def demo_disk1_def)
  have honest: "list_all honest [Append WriteOK ''abc'']" by (simp add: honest_def)
  have env: "open_fault (listing1 3) = None" "stat_fault (listing1 3) = None"
      "readdir (listing1 3) = Inr [\<lparr>entry_name = segment_name 1, entry_isdir = False, entry_info = Inr 3\<rparr>]"
    by (simp_all add: listing1_def)
  have "lists_dir ''/t'' d [\<lparr>entry_name = segment_name 1, entry_isdir = False, entry_info = Inr 3\<rparr>]"
    using lists_single [OF d(1), of 3] d(2) by simp
  note adopt_recovers_log [OF demo_create demo_fresh(2,1) demo_listing run honest l(1) env this]
  then obtain l' where "adoptOutputLog (listing1 3) ''/t'' 1 d = (Inr l', d)" "content l' d = content l d"
    using l(2) by auto
  with run l(3) show ?thesis by metis
qed

end
