(* ===== verification/Output_Reader.thy ===== *)
theory Output_Reader
  imports Log_Reopen Log_Cursors Size_Marks
begin

text \<open>
  Reading an output log (\<^verbatim>\<open>output.go\<close>, type \<^verbatim>\<open>localOutputSource\<close>). One turn of the loop of
  \<^verbatim>\<open>read\<close> is two atomic steps, as in the code: \<open>read_decide\<close> runs under the lock of the log
  and decides what to do; when that is to fetch bytes, \<open>read_fetch\<close> opens and reads the
  file after the lock was released, when the log may have moved on already. The race of
  the two channels of a \<^verbatim>\<open>select\<close> and the faults of the operating system are arguments.
\<close>

section \<open>State\<close>

record outputSource =
  src_cursor :: cursor
  reported :: size
  src_file :: "(nat \<times> bytes) option"
  fileGen :: u64
  fileLimit :: u64
  complete :: bool
  src_done :: bool

record read_env =
  ctx_err :: "go_error option"
  prefer_ctx :: bool
  file_fault :: "go_error option"
  readat_fault :: "(nat \<times> go_error) option"

definition newLocalOutputSource :: "cursor \<Rightarrow> outputSource" where
  "newLocalOutputSource c =
     \<lparr>src_cursor = c, reported = zero_size, src_file = None, fileGen = 0, fileLimit = 0,
      complete = False, src_done = False\<rparr>"

definition closeFile :: "outputSource \<Rightarrow> outputSource" where
  "closeFile r = r\<lparr>src_file := None\<rparr>"

definition source_Close :: "outputSource \<Rightarrow> outputSource" where
  "source_Close r = closeFile (r\<lparr>src_done := True\<rparr>)"

definition open_error :: "outputSource \<Rightarrow> go_error \<Rightarrow> go_error" where
  "open_error r e =
     Wrap (''open output generation '' @ FormatUint (generation (src_cursor r)) @ '': '') e []"

definition openFile ::
  "go_error option \<Rightarrow> bytes \<Rightarrow> disk \<Rightarrow> outputSource \<Rightarrow> go_error option \<times> outputSource" where
  "openFile fault path d r =
     (if src_file r \<noteq> None \<and> fileGen r = generation (src_cursor r) then (None, r)
      else
        (let r1 = closeFile r in
         case os_Open fault path d of
           Inl e \<Rightarrow> (Some (open_error r1 e), r1)
         | Inr i \<Rightarrow>
             (None, r1\<lparr>src_file := Some (i, path), fileGen := generation (src_cursor r1)\<rparr>)))"

definition pin ::
  "go_error option \<Rightarrow> bytes \<Rightarrow> u64 \<Rightarrow> bool \<Rightarrow> disk \<Rightarrow> outputSource \<Rightarrow> go_error option \<times> outputSource" where
  "pin fault path limit cmpl d r =
     (case os_Open fault path d of
        Inl e \<Rightarrow> (Some (open_error r e), r)
      | Inr i \<Rightarrow>
          (None, r\<lparr>src_file := Some (i, path), fileGen := generation (src_cursor r),
                   fileLimit := limit, complete := cmpl\<rparr>))"

text \<open>\<^verbatim>\<open>reader\<close> looks at the log under its lock and pins the file after releasing it: \<open>d\<close> is the disk then.\<close>

definition log_reader ::
  "go_error option \<Rightarrow> go_error option \<Rightarrow> u64 list \<Rightarrow> outputLog \<Rightarrow> disk \<Rightarrow> cursor \<Rightarrow>
   go_error + outputSource" where
  "log_reader ctx fault order l d from =
     (case ctx of Some e \<Rightarrow> Inl e
      | None \<Rightarrow> (case log_err l of Some e \<Rightarrow> Inl e
          | None \<Rightarrow> (case resolveCursorLocked order l from of
              Inl e \<Rightarrow> Inl e
            | Inr c \<Rightarrow>
                (let s = segment_at l (generation c) in
                 case pin fault (seg_path s) (seg_size s) (generation c < log_generation l) d
                        (newLocalOutputSource c) of
                   (Some e, _) \<Rightarrow> Inl e
                 | (None, r) \<Rightarrow> Inr r))))"

section \<open>One turn of the loop\<close>

datatype decision =
    Return bytes size "go_error option"
  | Fetch bytes u64 size
  | Again
  | Wait nat

text \<open>The check of the \<^verbatim>\<open>select\<close>: which of the two closed channels it takes, if any.\<close>

definition poll :: "read_env \<Rightarrow> outputSource \<Rightarrow> decision option" where
  "poll env r =
     (case ctx_err env of
        Some e \<Rightarrow>
          if src_done r \<and> \<not> prefer_ctx env then Some (Return [] zero_size (Some (Sentinel ErrClosedPipe)))
          else Some (Return [] zero_size (Some e))
      | None \<Rightarrow>
          if src_done r then Some (Return [] zero_size (Some (Sentinel ErrClosedPipe))) else None)"

definition refresh :: "outputLog \<Rightarrow> outputSource \<Rightarrow> outputSource" where
  "refresh l r =
     (let g = generation (src_cursor r) in
      case segments l g of
        Some s \<Rightarrow> r\<lparr>fileLimit := seg_size s, complete := (g < log_generation l)\<rparr>
      | None \<Rightarrow>
          if src_file r \<noteq> None \<and> fileGen r = g then r\<lparr>complete := (g < log_generation l)\<rparr> else r)"

definition advance :: "outputSource \<Rightarrow> outputSource" where
  "advance r = (closeFile r)\<lparr>src_cursor := Cursor (generation (src_cursor r) + 1) 0\<rparr>"

text \<open>Fetch up to \<open>stop\<close>, move to the next generation, or wait: the tail of the locked part.\<close>

definition read_tail ::
  "outputLog \<Rightarrow> outputSource \<Rightarrow> size \<Rightarrow> u64 \<Rightarrow> decision \<times> outputSource" where
  "read_tail l r sz stop =
     (let c = src_cursor r in
      if offset c < stop then
        (let path = (case segments l (generation c) of
               Some s \<Rightarrow> seg_path s
             | None \<Rightarrow> (case src_file r of Some (i, p) \<Rightarrow> p | None \<Rightarrow> [])) in
         (Fetch path (stop - offset c) sz, r))
      else if complete r \<and> offset c \<ge> fileLimit r then (Again, advance r)
      else if closed l then
        (Return [] zero_size (Some (case log_err l of Some e \<Rightarrow> e | None \<Rightarrow> Sentinel EOF)), r)
      else (Wait (changed l), r))"

definition read_decide ::
  "read_env \<Rightarrow> bool \<Rightarrow> outputLog \<Rightarrow> outputSource \<Rightarrow> decision \<times> outputSource" where
  "read_decide env sized l r0 =
     (case poll env r0 of Some res \<Rightarrow> (res, r0)
      | None \<Rightarrow>
          (let r = refresh l r0; c = src_cursor r in
           if segments l (generation c) = None \<and>
              \<not> (src_file r \<noteq> None \<and> fileGen r = generation c \<and> complete r)
           then (Return [] zero_size (Some (Sentinel ErrCursorExpired)), r)
           else if \<not> sized then read_tail l r zero_size (fileLimit r)
           else case sizeSpanLocked l c of (sz, span) \<Rightarrow>
             if sz \<noteq> zero_size \<and> sz \<noteq> reported r then (Return [] sz None, r\<lparr>reported := sz\<rparr>)
             else read_tail l r sz
               (case span of
                  Some k \<Rightarrow> if offset c + k < fileLimit r then offset c + k else fileLimit r
                | None \<Rightarrow> fileLimit r)))"

text \<open>
  The unlocked part. \<^verbatim>\<open>ReadAt\<close> gets the cursor as an \<^verbatim>\<open>int64\<close>, so an offset of \<open>2 ^ 63\<close> or
  more would be negative and refused.
\<close>

definition read_fetch ::
  "read_env \<Rightarrow> nat \<Rightarrow> bytes \<Rightarrow> u64 \<Rightarrow> size \<Rightarrow> disk \<Rightarrow> outputSource \<Rightarrow> decision \<times> outputSource" where
  "read_fetch env buflen path limit sz d r =
     (case openFile (file_fault env) path d r of
        (Some e, r1) \<Rightarrow> (Return [] zero_size (Some e), r1)
      | (None, r1) \<Rightarrow>
          (let c = src_cursor r1;
               want = (if buflen > unat limit then unat limit else buflen);
               (data, err) =
                 (if unat (offset c) \<ge> 2 ^ 63 then ([], Some (Plain ''negative offset''))
                  else file_ReadAt (readat_fault env) (fst (the (src_file r1))) d (unat (offset c)) want);
               r2 = r1\<lparr>src_cursor := Cursor (generation c) (offset c + of_nat (length data))\<rparr> in
           if data \<noteq> [] \<and> (case err of None \<Rightarrow> True | Some e \<Rightarrow> errors_Is e EOF)
           then (Return data sz None, r2)
           else (Return data sz err, r2)))"

section \<open>The whole call\<close>

text \<open>
  \<^verbatim>\<open>Read\<close> on a log that does not move: the loop turns at most once per generation before it
  returns or waits. \<open>fuel\<close> bounds the turns; \<open>None\<close> is running out of it.
\<close>

fun read_loop ::
  "nat \<Rightarrow> read_env \<Rightarrow> nat \<Rightarrow> bool \<Rightarrow> outputLog \<Rightarrow> disk \<Rightarrow> outputSource \<Rightarrow>
   (decision \<times> outputSource) option" where
  "read_loop 0 env buflen sized l d r = None"
| "read_loop (Suc fuel) env buflen sized l d r =
     (case read_decide env sized l r of
        (Again, r1) \<Rightarrow> read_loop fuel env buflen sized l d r1
      | (Fetch path limit sz, r1) \<Rightarrow> Some (read_fetch env buflen path limit sz d r1)
      | res \<Rightarrow> Some res)"

definition source_read ::
  "nat \<Rightarrow> read_env \<Rightarrow> nat \<Rightarrow> bool \<Rightarrow> outputLog \<Rightarrow> disk \<Rightarrow> outputSource \<Rightarrow>
   (decision \<times> outputSource) option" where
  "source_read fuel env buflen sized l d r =
     (if buflen = 0 then Some (Return [] zero_size None, r)
      else read_loop fuel env buflen sized l d r)"

end
