(* ===== verification/Reader_Stream.thy ===== *)
theory Reader_Stream
  imports Output_Reader
begin

text \<open>
  What a reader delivers. A ghost history keeps the bytes of every generation ever
  written, pruned or not; a reader and the log are run against each other with any
  interleaving, also between the locked and the unlocked half of a read. Every chunk a
  reader returns is the slice of the history its cursor moved over, and the chunks
  together are the history from where the reader began.
\<close>

section \<open>The history and the inodes that hold it\<close>

definition canonical :: "outputLog \<Rightarrow> bool" where
  "canonical l \<longleftrightarrow> (\<forall>k s. segments l k = Some s \<longrightarrow> seg_path s = outputSegmentPath (directory l) k)"

definition holds :: "outputLog \<Rightarrow> disk \<Rightarrow> (u64 \<Rightarrow> bytes) \<Rightarrow> u64 \<Rightarrow> nat \<Rightarrow> bool" where
  "holds l d H g i \<longleftrightarrow>
     0 < g \<and> g \<le> log_generation l \<and> i < next_inode d \<and> prefix (H g) (inode d i) \<and>
     (segments l g \<noteq> None \<longrightarrow> dirent d (outputSegmentPath (directory l) g) = Some i) \<and>
     (g < log_generation l \<longrightarrow> active l \<noteq> Some i)"

definition hist_inv :: "outputLog \<Rightarrow> disk \<Rightarrow> (u64 \<Rightarrow> bytes) \<Rightarrow> bool" where
  "hist_inv l d H \<longleftrightarrow>
     log_inv l d \<and> canonical l \<and> (\<forall>g x. content l d g = Some x \<longrightarrow> H g = x) \<and>
     (\<forall>g i. 0 < g \<longrightarrow> g \<le> log_generation l \<longrightarrow>
        dirent d (outputSegmentPath (directory l) g) = Some i \<longrightarrow> holds l d H g i)"

definition grow_hist :: "outputLog \<Rightarrow> disk \<Rightarrow> (u64 \<Rightarrow> bytes) \<Rightarrow> u64 \<Rightarrow> bytes" where
  "grow_hist l d H g = (case content l d g of Some x \<Rightarrow> x | None \<Rightarrow> H g)"

lemma hist_invD:
  assumes "hist_inv l d H"
  shows "log_inv l d" and "canonical l" and "content l d g = Some x \<Longrightarrow> H g = x"
    and "0 < g \<Longrightarrow> g \<le> log_generation l \<Longrightarrow> dirent d (outputSegmentPath (directory l) g) = Some i \<Longrightarrow>
      holds l d H g i"
  using assms by (auto simp: hist_inv_def)

lemma grow_hist_same [simp]: "hist_inv l d H \<Longrightarrow> grow_hist l d H = H"
  by (auto simp: grow_hist_def fun_eq_iff hist_invD(3) split: option.split)

lemma grow_hist_content:
  "(\<And>g x. content l' d' g = Some x \<Longrightarrow> content l d g = Some x) \<Longrightarrow> hist_inv l d H \<Longrightarrow> grow_hist l' d' H = H"
  by (auto simp: grow_hist_def fun_eq_iff hist_invD(3) split: option.split)

lemma canonical_exec:
  assumes inv: "log_inv l d" and can: "canonical l" and run: "log_exec op (l, d) = (l', d')"
  shows "canonical l'"
proof -
  have dir: "directory l' = directory l" using log_exec_directory [OF run] .
  from run show ?thesis
  proof (cases rule: log_exec_cases)
    case (append oc data r)
    obtain s where "segments l (log_generation l) = Some s" using log_invD(2) [OF inv] by blast
    with can dir show ?thesis
      by (cases rule: log_append_cases [OF inv append(2)]) (auto simp: canonical_def)
  next
    case (rotate fault c)
    with can dir show ?thesis
      by (cases rule: log_rotate_cases [OF rotate(2)]) (auto simp: canonical_def)
  next
    case (prune faults order before r)
    from inv prune(2) show ?thesis
    proof (cases rule: log_prune_cases)
      case same
      with can show ?thesis by simp
    next
      case pruned
      with can dir prune_rel_retained [OF pruned(3)] show ?thesis by (simp add: canonical_def)
    qed
  qed (use can in \<open>auto simp: canonical_def\<close>)
qed

section \<open>An inode goes on holding its generation\<close>

lemma current_inode:
  assumes "hist_inv l d H" and "holds l d H (log_generation l) i" and "active l = Some j"
  shows "i = j"
proof -
  have inv: "log_inv l d" using hist_invD(1) [OF assms(1)] .
  obtain s where s: "segments l (log_generation l) = Some s" using log_invD(2) [OF inv] by blast
  have "\<not> closed l" using log_invD(6) [OF inv] assms(3) by auto
  then have "active l = dirent d (seg_path s)" using log_invD(5) [OF inv] s by simp
  moreover have "seg_path s = outputSegmentPath (directory l) (log_generation l)"
    using hist_invD(2) [OF assms(1)] s by (simp add: canonical_def)
  ultimately show ?thesis using assms(2,3) s by (simp add: holds_def)
qed

lemma holds_append:
  assumes hist: "hist_inv l d H" and h: "holds l d H g i" and run: "log_append oc l d data = (r, l', d')"
  shows "holds l' d' (grow_hist l' d' H) g i"
proof -
  have inv: "log_inv l d" using hist_invD(1) [OF hist] .
  from inv run show ?thesis
  proof (cases rule: log_append_cases)
    case same
    with hist h show ?thesis by simp
  next
    case (failed j n e)
    have "grow_hist l' d' H = H"
      using failed log_append_content [OF inv run] by (intro grow_hist_content [OF _ hist]) (auto split: if_splits)
    with failed h show ?thesis
      by (auto simp: holds_def intro: prefix_order.order_trans)
  next
    case (ok j)
    show ?thesis
    proof (cases "g = log_generation l")
      case True
      then have "i = j" using current_inode [OF hist] h ok(2) by auto
      obtain s where s: "segments l g = Some s" "dirent d (seg_path s) = Some j"
          "unat (seg_size s) = length (inode d j)"
        using open_log_active [OF inv ok(1)] ok(2) True by (metis option.inject)
      then have "content l d g = Some (inode d j)" by (simp add: content_def)
      then have "grow_hist l' d' H g = inode d j @ data"
        using log_append_content [OF inv run, of g] True ok(3) by (simp add: grow_hist_def)
      with h \<open>i = j\<close> True ok s show ?thesis by (auto simp: holds_def)
    next
      case False
      then have "i \<noteq> j" using h ok(2) by (auto simp: holds_def)
      moreover have "grow_hist l' d' H g = H g"
        using log_append_content [OF inv run, of g] False hist_invD(3) [OF hist, of g]
        by (auto simp: grow_hist_def split: option.split)
      ultimately show ?thesis using h False ok by (auto simp: holds_def)
    qed
  qed
qed

lemma holds_rotate:
  assumes hist: "hist_inv l d H" and h: "holds l d H g i" and run: "log_rotate fault l d = (r, l', d')"
  shows "holds l' d' (grow_hist l' d' H) g i"
  using run
proof (cases rule: log_rotate_cases)
  case (same e)
  with hist h show ?thesis by simp
next
  case (ok j path)
  note new = os_Create_Inr [OF ok(4)] and less = less_u64_plus_one [OF ok(2)]
  have "g \<noteq> log_generation l + 1" using h less by (auto simp: holds_def)
  moreover from this have "outputSegmentPath (directory l) g \<noteq> path"
    using ok(5) outputSegmentPath_inj by blast
  moreover have "grow_hist l' d' H g = H g"
    using log_rotate_content [OF hist_invD(1) [OF hist] run, of g] ok(6) calculation(1)
      hist_invD(3) [OF hist, of g]
    by (auto simp: grow_hist_def split: option.split)
  ultimately show ?thesis
    using h ok new less by (auto simp: holds_def)
qed

lemma holds_prune:
  assumes hist: "hist_inv l d H" and h: "holds l d H g i"
    and run: "log_prune faults order l d before = (r, l', d')"
  shows "holds l' d' (grow_hist l' d' H) g i"
proof -
  have inv: "log_inv l d" using hist_invD(1) [OF hist] .
  from inv run show ?thesis
  proof (cases rule: log_prune_cases)
    case same
    with hist h show ?thesis by simp
  next
    case pruned
    have "grow_hist l' d' H = H"
    proof (rule grow_hist_content [OF _ hist])
      show "content l d k = Some x" if "content l' d' k = Some x" for k x
        using log_prune_content [OF inv run, of k] that by auto
    qed
    moreover have "dirent d' (outputSegmentPath (directory l) g) = Some i" if "segments l' g \<noteq> None"
      using that prune_rel_retained [OF pruned(3)] h hist_invD(2) [OF hist]
      by (force simp: holds_def canonical_def)
    ultimately show ?thesis
      using h pruned(3-5,8) by (simp add: holds_def prune_rel_def)
  qed
qed

lemma holds_exec:
  assumes hist: "hist_inv l d H" and h: "holds l d H g i" and run: "log_exec op (l, d) = (l', d')"
  shows "holds l' d' (grow_hist l' d' H) g i"
  using run
proof (cases rule: log_exec_cases)
  case (append oc data r)
  then show ?thesis using holds_append [OF hist h] by simp
next
  case (rotate fault c)
  then show ?thesis using holds_rotate [OF hist h] by simp
next
  case (prune faults order before r)
  then show ?thesis using holds_prune [OF hist h] by simp
next
  case (mark sz)
  then have "grow_hist l' d' H = H"
    using content_frame [of l' l d] by (intro grow_hist_content [OF _ hist]) simp
  with mark h show ?thesis by (simp add: holds_def)
next
  case (close err)
  then have "grow_hist l' d' H = H"
    using content_frame [of l' l d] by (intro grow_hist_content [OF _ hist]) simp
  moreover have "active l' = active l \<or> active l' = None" using close by (auto simp: log_close_def)
  ultimately show ?thesis using close h by (auto simp: holds_def)
qed

lemma dirent_back:
  assumes inv: "log_inv l d" and run: "log_exec op (l, d) = (l', d')" and "g \<le> log_generation l"
    and "dirent d' (outputSegmentPath (directory l) g) = Some i"
  shows "dirent d (outputSegmentPath (directory l) g) = Some i"
  using run
proof (cases rule: log_exec_cases)
  case (append oc data r)
  with assms(4) log_append_same(4) [OF append(2)] show ?thesis by simp
next
  case (rotate fault c)
  from rotate(2) show ?thesis
  proof (cases rule: log_rotate_cases)
    case (same e)
    with assms(4) show ?thesis by simp
  next
    case (ok j path)
    have "g \<noteq> log_generation l + 1" using less_u64_plus_one [OF ok(2)] assms(3) by auto
    then have "outputSegmentPath (directory l) g \<noteq> path" using ok(5) outputSegmentPath_inj by blast
    with os_Create_Inr [OF ok(4)] assms(4) show ?thesis by simp
  qed
next
  case (prune faults order before r)
  from inv prune(2) show ?thesis
    by (cases rule: log_prune_cases)
      (use assms(4) in \<open>auto simp: prune_rel_def map_le_def dom_def\<close>)
qed (use assms(4) in auto)

lemma hist_inv_exec:
  assumes hist: "hist_inv l d H" and run: "log_exec op (l, d) = (l', d')"
  shows "hist_inv l' d' (grow_hist l' d' H)"
proof -
  have inv: "log_inv l d" and inv': "log_inv l' d'"
    using hist_invD(1) [OF hist] log_exec_inv [OF _ run] by auto
  have dir: "directory l' = directory l" using log_exec_directory [OF run] .
  have "holds l' d' (grow_hist l' d' H) g i"
    if g: "0 < g" "g \<le> log_generation l'" and i: "dirent d' (outputSegmentPath (directory l') g) = Some i" for g i
  proof (cases "g \<le> log_generation l")
    case True
    then show ?thesis
      using dirent_back [OF inv run True] i dir hist_invD(4) [OF hist g(1) True] holds_exec [OF hist _ run]
      by simp
  next
    case False
    then have new: "g = log_generation l'" "content l' d' g = Some []"
      using log_exec_generation [OF inv run] g(2) inc_le [of "log_generation l" g] by auto
    moreover have "i < next_inode d'" using log_invD(1) [OF inv'] i by (simp add: disk_inv_def)
    ultimately show ?thesis using g i by (simp add: holds_def grow_hist_def)
  qed
  then show ?thesis
    using inv' canonical_exec [OF inv hist_invD(2) [OF hist] run]
    by (auto simp: hist_inv_def grow_hist_def)
qed

lemma grow_hist_prefix:
  assumes hist: "hist_inv l d H" and run: "log_exec op (l, d) = (l', d')" and "g \<le> log_generation l"
  shows "prefix (H g) (grow_hist l' d' H g)" and "g < log_generation l \<Longrightarrow> grow_hist l' d' H g = H g"
proof -
  have "prefix (H g) (grow_hist l' d' H g) \<and> (g < log_generation l \<longrightarrow> grow_hist l' d' H g = H g)"
    using log_exec_content [OF hist_invD(1) [OF hist] run assms(3)] hist_invD(3) [OF hist, of g]
    by (auto simp: grow_hist_def split: option.splits)
  then show "prefix (H g) (grow_hist l' d' H g)"
    and "g < log_generation l \<Longrightarrow> grow_hist l' d' H g = H g" by auto
qed

lemma hist_inv_start:
  assumes inv: "log_inv l d" and can: "canonical l"
  shows "hist_inv l d (grow_hist l d (\<lambda>_. []))"
proof -
  have "holds l d (grow_hist l d (\<lambda>_. [])) g i"
    if g: "0 < g" "g \<le> log_generation l" and i: "dirent d (outputSegmentPath (directory l) g) = Some i" for g i
  proof -
    have "active l \<noteq> Some i" if "g < log_generation l"
    proof
      assume act: "active l = Some i"
      then have "\<not> closed l" using log_invD(6) [OF inv] by auto
      obtain s where s: "segments l (log_generation l) = Some s" using log_invD(2) [OF inv] by blast
      then have "dirent d (outputSegmentPath (directory l) (log_generation l)) = Some i"
        using log_invD(5) [OF inv \<open>\<not> closed l\<close>] act can by (simp add: canonical_def)
      then have "outputSegmentPath (directory l) (log_generation l) = outputSegmentPath (directory l) g"
        using i log_invD(1) [OF inv] by (simp add: disk_inv_def)
      with outputSegmentPath_inj that show False by blast
    qed
    moreover have "prefix (grow_hist l d (\<lambda>_. []) g) (inode d i)"
      using i can by (auto simp: grow_hist_def content_def canonical_def take_is_prefix split: option.split)
    moreover have "i < next_inode d" using i log_invD(1) [OF inv] by (simp add: disk_inv_def)
    ultimately show ?thesis using g i by (simp add: holds_def)
  qed
  with inv can show ?thesis by (simp add: hist_inv_def grow_hist_def)
qed

section \<open>A reader and the log, interleaved\<close>

text \<open>
  \<open>sys_out\<close> is everything the reader returned so far. A read in progress that is about to
  fetch is \<open>sys_pending\<close>; \<^verbatim>\<open>Close\<close> of the reader marks it done at once, and closes the file
  when no read is in progress (it waits for the reader's lock otherwise).
\<close>

record sys =
  sys_log :: outputLog
  sys_disk :: disk
  sys_hist :: "u64 \<Rightarrow> bytes"
  sys_src :: outputSource
  sys_pending :: "(bytes \<times> u64 \<times> size) option"
  sys_out :: bytes

datatype sys_event =
    LogOp log_op
  | Decide read_env bool
  | DoFetch read_env nat
  | CloseReader

definition settle :: "decision \<times> outputSource \<Rightarrow> sys \<Rightarrow> sys" where
  "settle res st = (case res of
      (Return data sz err, r) \<Rightarrow> st\<lparr>sys_src := r, sys_pending := None, sys_out := sys_out st @ data\<rparr>
    | (Fetch path limit sz, r) \<Rightarrow> st\<lparr>sys_src := r, sys_pending := Some (path, limit, sz)\<rparr>
    | (_, r) \<Rightarrow> st\<lparr>sys_src := r, sys_pending := None\<rparr>)"

fun sys_exec :: "sys_event \<Rightarrow> sys \<Rightarrow> sys" where
  "sys_exec (LogOp op) st =
     (case log_exec op (sys_log st, sys_disk st) of (l, d) \<Rightarrow>
        st\<lparr>sys_log := l, sys_disk := d, sys_hist := grow_hist l d (sys_hist st)\<rparr>)"
| "sys_exec (Decide env sized) st =
     (if sys_pending st \<noteq> None then st
      else settle (read_decide env sized (sys_log st) (sys_src st)) st)"
| "sys_exec (DoFetch env buflen) st =
     (case sys_pending st of None \<Rightarrow> st
      | Some (path, limit, sz) \<Rightarrow>
          settle (read_fetch env buflen path limit sz (sys_disk st) (sys_src st)) st)"
| "sys_exec CloseReader st =
     st\<lparr>sys_src := (if sys_pending st = None then source_Close (sys_src st)
                    else (sys_src st)\<lparr>src_done := True\<rparr>)\<rparr>"

definition sys_run :: "sys_event list \<Rightarrow> sys \<Rightarrow> sys" where
  "sys_run evs st = foldl (\<lambda>s ev. sys_exec ev s) st evs"

lemma sys_run_simps [simp]: "sys_run [] st = st" "sys_run (ev # evs) st = sys_run evs (sys_exec ev st)"
  by (simp_all add: sys_run_def)

text \<open>
  A prune overtakes a reader when it removes the generation the reader is in after bytes
  arrived there that the reader has not looked at yet: the limit the reader remembers is
  then out of date.
\<close>

definition in_time :: "sys \<Rightarrow> sys_event \<Rightarrow> bool" where
  "in_time st ev = (case ev of
      Decide env sized \<Rightarrow>
        (let g = generation (src_cursor (sys_src st)) in
         segments (sys_log st) g \<noteq> None \<or> unat (fileLimit (sys_src st)) = length (sys_hist st g))
    | _ \<Rightarrow> True)"

fun all_in_time :: "sys_event list \<Rightarrow> sys \<Rightarrow> bool" where
  "all_in_time [] st = True"
| "all_in_time (ev # evs) st = (in_time st ev \<and> all_in_time evs (sys_exec ev st))"

text \<open>The bytes from the start of generation \<open>g0\<close> up to a cursor.\<close>

definition bytes_upto :: "(u64 \<Rightarrow> bytes) \<Rightarrow> u64 \<Rightarrow> cursor \<Rightarrow> bytes" where
  "bytes_upto H g0 c = concat (map (\<lambda>k. H (of_nat k)) [unat g0..<unat (generation c)]) @
     take (unat (offset c)) (H (generation c))"

definition src_inv :: "outputLog \<Rightarrow> disk \<Rightarrow> (u64 \<Rightarrow> bytes) \<Rightarrow> outputSource \<Rightarrow> bool" where
  "src_inv l d H r \<longleftrightarrow> (let c = src_cursor r; g = generation c in
     0 < g \<and> g \<le> log_generation l \<and> unat (offset c) \<le> length (H g) \<and>
     (\<forall>i p. src_file r = Some (i, p) \<longrightarrow>
        fileGen r = g \<and> holds l d H g i \<and> p = outputSegmentPath (directory l) g \<and>
        unat (fileLimit r) \<le> length (H g)))"

definition pending_inv :: "outputLog \<Rightarrow> (u64 \<Rightarrow> bytes) \<Rightarrow> outputSource \<Rightarrow> (bytes \<times> u64 \<times> size) option \<Rightarrow> bool" where
  "pending_inv l H r pend \<longleftrightarrow> (case pend of None \<Rightarrow> True
    | Some (path, limit, sz) \<Rightarrow> (let c = src_cursor r; g = generation c in
        0 < limit \<and> unat (offset c) + unat limit \<le> length (H g) \<and>
        path = outputSegmentPath (directory l) g \<and> unat (fileLimit r) \<le> length (H g)))"

definition out_inv :: "cursor \<Rightarrow> (u64 \<Rightarrow> bytes) \<Rightarrow> outputSource \<Rightarrow> bytes \<Rightarrow> bool" where
  "out_inv start H r out \<longleftrightarrow>
     generation start \<le> generation (src_cursor r) \<and>
     unat (offset start) \<le> length (bytes_upto H (generation start) (src_cursor r)) \<and>
     out = drop (unat (offset start)) (bytes_upto H (generation start) (src_cursor r))"

definition sys_inv :: "cursor \<Rightarrow> sys \<Rightarrow> bool" where
  "sys_inv start st \<longleftrightarrow>
     hist_inv (sys_log st) (sys_disk st) (sys_hist st) \<and>
     src_inv (sys_log st) (sys_disk st) (sys_hist st) (sys_src st) \<and>
     pending_inv (sys_log st) (sys_hist st) (sys_src st) (sys_pending st) \<and>
     out_inv start (sys_hist st) (sys_src st) (sys_out st)"

lemmas src_defs = src_inv_def Let_def

section \<open>Every event keeps the invariant\<close>

lemma upto_grow:
  assumes hist: "hist_inv l d H" and run: "log_exec op (l, d) = (l', d')"
    and c: "generation c \<le> log_generation l" "unat (offset c) \<le> length (H (generation c))"
  shows "bytes_upto (grow_hist l' d' H) g0 c = bytes_upto H g0 c"
proof -
  have "grow_hist l' d' H (of_nat k) = H (of_nat k)" if "k < unat (generation c)" for k
  proof -
    have "unat (of_nat k :: u64) = k"
      using that unat_u64_less [of "generation c"] by (intro unat_of_nat_u64) linarith
    then have "of_nat k < log_generation l" using that c(1) by (simp add: word_less_nat_alt word_le_nat_alt)
    then show ?thesis using grow_hist_prefix(2) [OF hist run, of "of_nat k"] by simp
  qed
  then have "map (\<lambda>k. grow_hist l' d' H (of_nat k)) [unat g0..<unat (generation c)] =
      map (\<lambda>k. H (of_nat k)) [unat g0..<unat (generation c)]"
    by simp
  moreover have "take (unat (offset c)) (grow_hist l' d' H (generation c)) =
      take (unat (offset c)) (H (generation c))"
    using grow_hist_prefix(1) [OF hist run c(1)] c(2) by (auto simp: prefix_def)
  ultimately show ?thesis unfolding bytes_upto_def by presburger
qed

lemma sys_inv_LogOp:
  assumes "sys_inv start st"
  shows "sys_inv start (sys_exec (LogOp op) st)"
proof -
  let ?l = "sys_log st" and ?d = "sys_disk st" and ?H = "sys_hist st" and ?r = "sys_src st"
  let ?c = "src_cursor ?r"
  have hist: "hist_inv ?l ?d ?H" and src: "src_inv ?l ?d ?H ?r"
    and pend: "pending_inv ?l ?H ?r (sys_pending st)" and out: "out_inv start ?H ?r (sys_out st)"
    using assms by (auto simp: sys_inv_def)
  obtain l' d' where run: "log_exec op (?l, ?d) = (l', d')" by fastforce
  let ?H' = "grow_hist l' d' ?H"
  have c: "generation ?c \<le> log_generation ?l" "unat (offset ?c) \<le> length (?H (generation ?c))"
    using src by (auto simp: src_defs)
  have len: "length (?H (generation ?c)) \<le> length (?H' (generation ?c))"
    using grow_hist_prefix(1) [OF hist run c(1)] by (rule prefix_length_le)
  have gen: "log_generation ?l \<le> log_generation l'"
    using log_exec_generation [OF hist_invD(1) [OF hist] run] by auto
  have dir: "directory l' = directory ?l" using log_exec_directory [OF run] .
  have "src_inv l' d' ?H' ?r"
    using src len gen dir holds_exec [OF hist _ run] by (fastforce simp: src_defs)
  moreover have "pending_inv l' ?H' ?r (sys_pending st)"
    using pend len dir by (auto simp: pending_inv_def Let_def split: option.splits)
  moreover have "out_inv start ?H' ?r (sys_out st)"
    using out upto_grow [OF hist run c] by (simp add: out_inv_def)
  ultimately show ?thesis
    using hist_inv_exec [OF hist run] run by (simp add: sys_inv_def)
qed

text \<open>What the locked half of a read does to the reader, and what it can decide.\<close>

lemma src_inv_refresh:
  assumes hist: "hist_inv l d H" and src: "src_inv l d H r"
  defines "g \<equiv> generation (src_cursor r)"
  shows "src_inv l d H (refresh l r)"
    and "src_cursor (refresh l r) = src_cursor r" and "src_file (refresh l r) = src_file r"
    and "segments l g \<noteq> None \<or> src_file r \<noteq> None \<Longrightarrow> unat (fileLimit (refresh l r)) \<le> length (H g)"
    and "segments l g \<noteq> None \<or> src_file r \<noteq> None \<Longrightarrow> complete (refresh l r) = (g < log_generation l)"
    and "segments l g \<noteq> None \<or> unat (fileLimit r) = length (H g) \<Longrightarrow>
      unat (fileLimit (refresh l r)) = length (H g)"
proof -
  have size: "unat (seg_size s) = length (H g)" if "segments l g = Some s" for s
    using segment_content [OF hist_invD(1) [OF hist] that] hist_invD(3) [OF hist] by auto
  show "src_cursor (refresh l r) = src_cursor r" and "src_file (refresh l r) = src_file r"
    by (auto simp: refresh_def Let_def split: option.splits)
  show "src_inv l d H (refresh l r)"
    using src size by (auto simp: src_defs refresh_def g_def split: option.splits)
  show "unat (fileLimit (refresh l r)) \<le> length (H g)" if "segments l g \<noteq> None \<or> src_file r \<noteq> None"
    using that src size by (auto simp: src_defs refresh_def g_def split: option.splits)
  show "complete (refresh l r) = (g < log_generation l)" if "segments l g \<noteq> None \<or> src_file r \<noteq> None"
    using that src by (auto simp: src_defs refresh_def g_def split: option.splits)
  show "unat (fileLimit (refresh l r)) = length (H g)"
    if "segments l g \<noteq> None \<or> unat (fileLimit r) = length (H g)"
    using that size by (auto simp: refresh_def g_def Let_def split: option.splits)
qed

lemma bytes_upto_advance:
  assumes "unat (offset c) = length (H (generation c))" and "g0 \<le> generation c"
    and "generation c + 1 \<noteq> 0"
  shows "bytes_upto H g0 (Cursor (generation c + 1) 0) = bytes_upto H g0 c"
  using assms unat_Suc_u64 [OF assms(3)] by (simp add: bytes_upto_def word_le_nat_alt)

definition decided ::
  "cursor \<Rightarrow> outputLog \<Rightarrow> disk \<Rightarrow> (u64 \<Rightarrow> bytes) \<Rightarrow> bytes \<Rightarrow> decision \<times> outputSource \<Rightarrow> bool" where
  "decided start l d H out res = (case res of (dc, r) \<Rightarrow>
     src_inv l d H r \<and> out_inv start H r out \<and>
     (case dc of Return data sz err \<Rightarrow> data = []
      | Fetch path limit sz \<Rightarrow> pending_inv l H r (Some (path, limit, sz))
      | _ \<Rightarrow> True))"

lemma read_tail_decided:
  assumes src: "src_inv l d H r" and out: "out_inv start H r out" and can: "canonical l"
    and stop: "stop \<le> fileLimit r" and limit: "unat (fileLimit r) = length (H (generation (src_cursor r)))
      \<or> offset (src_cursor r) < stop \<and> unat (fileLimit r) \<le> length (H (generation (src_cursor r)))"
    and some_file: "segments l (generation (src_cursor r)) \<noteq> None \<or> src_file r \<noteq> None"
    and cmpl: "complete r = (generation (src_cursor r) < log_generation l)"
  shows "decided start l d H out (read_tail l r sz stop)"
proof -
  let ?c = "src_cursor r" and ?g = "generation (src_cursor r)"
  consider (fetch) "offset ?c < stop" | (onward) "\<not> offset ?c < stop" "complete r" "offset ?c \<ge> fileLimit r"
    | (rest) "\<not> offset ?c < stop" "\<not> (complete r \<and> offset ?c \<ge> fileLimit r)" by blast
  then show ?thesis
  proof cases
    case fetch
    have len: "unat (stop - offset ?c) = unat stop - unat (offset ?c)"
      using fetch by (intro unat_sub_u64) simp
    then have "0 < stop - offset ?c" using fetch by (simp add: word_less_nat_alt)
    moreover have "unat (offset ?c) + (unat stop - unat (offset ?c)) \<le> length (H ?g)"
      using limit stop fetch by (auto simp: word_le_nat_alt word_less_nat_alt)
    moreover have "unat (fileLimit r) \<le> length (H ?g)" using limit by auto
    moreover have "(case segments l ?g of Some s \<Rightarrow> seg_path s
        | None \<Rightarrow> (case src_file r of Some (i, p) \<Rightarrow> p | None \<Rightarrow> [])) = outputSegmentPath (directory l) ?g"
      using some_file src can by (auto simp: src_defs canonical_def split: option.splits)
    ultimately show ?thesis
      using fetch src out len by (simp add: decided_def read_tail_def pending_inv_def Let_def)
  next
    case onward
    have full: "unat (offset ?c) = length (H ?g)"
      using limit onward(1,3) src by (auto simp: src_defs word_le_nat_alt)
    have less: "?g < log_generation l" using cmpl onward(2) by simp
    have ne: "?g + 1 \<noteq> 0" and le: "?g + 1 \<le> log_generation l"
      using inc_le [OF less] less_u64_Suc_nonzero [OF less] by simp_all
    have "src_inv l d H (advance r)"
      using ne le by (auto simp: src_defs advance_def closeFile_def word_neq_0_conv)
    moreover have "out_inv start H (advance r) out"
      using out bytes_upto_advance [of ?c H "generation start", OF full _ ne] less_u64_plus_one [OF ne]
      by (auto simp: out_inv_def advance_def closeFile_def)
    ultimately show ?thesis
      using onward by (simp add: decided_def read_tail_def Let_def)
  next
    case rest
    then show ?thesis using src out by (auto simp: decided_def read_tail_def Let_def)
  qed
qed

lemma read_decide_decided:
  assumes hist: "hist_inv l d H" and src: "src_inv l d H r" and out: "out_inv start H r out"
    and time: "segments l (generation (src_cursor r)) \<noteq> None \<or>
      unat (fileLimit r) = length (H (generation (src_cursor r)))"
  shows "decided start l d H out (read_decide env sized l r)"
proof (cases "poll env r")
  case (Some res)
  then show ?thesis
    using src out by (auto simp: decided_def read_decide_def poll_def split: option.splits if_splits)
next
  case None
  let ?r = "refresh l r" and ?g = "generation (src_cursor r)"
  note ref = src_inv_refresh [OF hist src]
  have out': "out_inv start H ?r out" using out ref(2) by (simp add: out_inv_def)
  have limit: "unat (fileLimit ?r) = length (H ?g)" using ref(6) time by blast
  show ?thesis
  proof (cases "segments l ?g = None \<and> \<not> (src_file r \<noteq> None \<and> fileGen ?r = ?g \<and> complete ?r)")
    case True
    then show ?thesis
      using None ref(1-3) out' by (simp add: decided_def read_decide_def Let_def)
  next
    case False
    then have some_file: "segments l ?g \<noteq> None \<or> src_file r \<noteq> None" by auto
    have tail: "decided start l d H out (read_tail l ?r sz stop)" if "stop \<le> fileLimit ?r" for sz stop
      using ref(1-3,5) out' hist_invD(2) [OF hist] that limit some_file
      by (intro read_tail_decided) auto
    obtain sz span where span: "sizeSpanLocked l (src_cursor r) = (sz, span)" by fastforce
    show ?thesis
    proof (cases "sized \<and> sz \<noteq> zero_size \<and> sz \<noteq> reported ?r")
      case True
      have "src_inv l d H (?r\<lparr>reported := sz\<rparr>)" "out_inv start H (?r\<lparr>reported := sz\<rparr>) out"
        using ref(1) out' by (simp_all add: src_defs out_inv_def)
      then show ?thesis
        using None False True span ref(2,3) by (auto simp: decided_def read_decide_def Let_def)
    next
      case no: False
      let ?stop = "if \<not> sized then fileLimit ?r else (case span of
          Some k \<Rightarrow> if offset (src_cursor r) + k < fileLimit ?r then offset (src_cursor r) + k else fileLimit ?r
        | None \<Rightarrow> fileLimit ?r)"
      have "read_decide env sized l r = read_tail l ?r (if sized then sz else zero_size) ?stop"
        using None False no span ref(2,3) by (cases span) (auto simp: read_decide_def Let_def)
      moreover have "?stop \<le> fileLimit ?r" by (auto split: option.split)
      ultimately show ?thesis using tail by simp
    qed
  qed
qed

lemma sys_inv_Decide:
  assumes "sys_inv start st" and "in_time st (Decide env sized)"
  shows "sys_inv start (sys_exec (Decide env sized) st)"
proof (cases "sys_pending st = None")
  case True
  have "decided start (sys_log st) (sys_disk st) (sys_hist st) (sys_out st)
      (read_decide env sized (sys_log st) (sys_src st))"
    using assms by (intro read_decide_decided) (auto simp: sys_inv_def in_time_def Let_def)
  with assms(1) True show ?thesis
    by (auto simp: sys_inv_def decided_def settle_def pending_inv_def split: decision.splits prod.splits)
qed (use assms(1) in simp)

text \<open>The unlocked half: the file that is opened or already open holds the generation of the cursor.\<close>

lemma openFile_holds:
  assumes hist: "hist_inv l d H" and src: "src_inv l d H r" and pend: "pending_inv l H r (Some (path, limit, sz))"
    and run: "openFile fault path d r = (err, r1)"
  shows "src_inv l d H r1" and "src_cursor r1 = src_cursor r" and "fileLimit r1 = fileLimit r"
    and "err = None \<Longrightarrow> \<exists>i p. src_file r1 = Some (i, p) \<and> holds l d H (generation (src_cursor r)) i"
proof -
  let ?g = "generation (src_cursor r)"
  have g: "0 < ?g" "?g \<le> log_generation l" and path: "path = outputSegmentPath (directory l) ?g"
    and lim: "unat (fileLimit r) \<le> length (H ?g)"
    using src pend by (auto simp: src_defs pending_inv_def)
  have opened: "holds l d H ?g i" if "os_Open fault path d = Inr i" for i
    using that path hist_invD(4) [OF hist g] by (auto simp: os_Open_def split: option.splits)
  show "src_inv l d H r1"
    using run src opened path lim
    by (auto simp: openFile_def closeFile_def src_defs split: if_splits sum.splits)
  show "src_cursor r1 = src_cursor r" and "fileLimit r1 = fileLimit r"
    using run by (auto simp: openFile_def closeFile_def Let_def split: if_splits sum.splits)
  show "\<exists>i p. src_file r1 = Some (i, p) \<and> holds l d H ?g i" if "err = None"
    using that run src opened by (auto simp: openFile_def closeFile_def src_defs split: if_splits sum.splits)
qed

lemma bytes_upto_read:
  assumes "unat (offset c) + n \<le> length (H (generation c))" and "n < 2 ^ 64"
    and "unat (offset c) + n < 2 ^ 64"
  shows "bytes_upto H g0 (Cursor (generation c) (offset c + of_nat n)) =
    bytes_upto H g0 c @ take n (drop (unat (offset c)) (H (generation c)))"
proof -
  have "unat (offset c + of_nat n) = unat (offset c) + n"
    using assms(2,3) unat_add_u64 [of "offset c" "of_nat n"] by (simp add: unat_of_nat_u64)
  then show ?thesis by (simp add: bytes_upto_def take_add)
qed

lemma ReadAt_slice:
  assumes "holds l d H g i" and "off + n \<le> length (H g)"
    and "file_ReadAt fault i d off n = (data, err)"
  shows "data = take (length data) (drop off (H g)) \<and> length data \<le> n"
proof -
  obtain z where z: "inode d i = H g @ z" using assms(1) by (auto simp: holds_def prefix_def)
  have "take n (drop off (inode d i)) = take n (drop off (H g))"
    using z assms(2) by simp
  then have "\<exists>k. data = take k (take n (drop off (H g)))"
    using assms(3) by (cases fault) (auto simp: file_ReadAt_def Let_def intro: exI [of _ n])
  then show ?thesis by (auto simp: min_def)
qed

lemma holds_length: "hist_inv l d H \<Longrightarrow> holds l d H g i \<Longrightarrow> length (H g) \<le> max_file_size"
  using hist_invD(1) [THEN log_invD(1), of l d H]
  by (auto simp: holds_def disk_inv_def dest!: prefix_length_le intro: order_trans)

text \<open>A fetch returns the slice of the history between the old and the new cursor.\<close>

lemma read_fetch_slice:
  assumes hist: "hist_inv l d H" and src: "src_inv l d H r"
    and pend: "pending_inv l H r (Some (path, limit, sz))" and out: "out_inv start H r out"
    and run: "read_fetch env buflen path limit sz d r = (dc, r2)"
  shows "\<exists>data sz' err. dc = Return data sz' err \<and> src_inv l d H r2 \<and> out_inv start H r2 (out @ data)"
proof -
  let ?c = "src_cursor r"
  obtain e r1 where op: "openFile (file_fault env) path d r = (e, r1)" by fastforce
  note opened = openFile_holds [OF hist src pend op]
  show ?thesis
  proof (cases e)
    case (Some x)
    then show ?thesis
      using run op opened(1,2) out by (auto simp: read_fetch_def out_inv_def)
  next
    case None
    obtain i p where i: "src_file r1 = Some (i, p)" "holds l d H (generation ?c) i"
      using opened(4) [OF None] by auto
    define want where "want = (if buflen > unat limit then unat limit else buflen)"
    have room: "unat (offset ?c) + want \<le> length (H (generation ?c))"
      using pend by (auto simp: pending_inv_def Let_def want_def)
    have max: "length (H (generation ?c)) < 2 ^ 63"
      using holds_length [OF hist i(2)] by (rule max_file_size_less)
    obtain data err where rd: "file_ReadAt (readat_fault env) i d (unat (offset ?c)) want = (data, err)"
      by fastforce
    note slice = ReadAt_slice [OF i(2) room rd]
    let ?r2 = "r1\<lparr>src_cursor := Cursor (generation ?c) (offset ?c + of_nat (length data))\<rparr>"
    have le: "unat (offset ?c) + length data \<le> length (H (generation ?c))" using slice room by simp
    then have "bytes_upto H (generation start) (src_cursor ?r2) = bytes_upto H (generation start) ?c @ data"
      using bytes_upto_read [of ?c "length data" H "generation start"] slice max by simp
    then have "out_inv start H ?r2 (out @ data)" using out by (auto simp: out_inv_def)
    moreover have "unat (offset ?c + of_nat (length data)) = unat (offset ?c) + length data"
      using le max unat_add_u64 [of "offset ?c" "of_nat (length data)"] by (simp add: unat_of_nat_u64)
    then have "src_inv l d H ?r2" using opened(1,2) le by (auto simp: src_defs)
    moreover have "r2 = ?r2 \<and> (\<exists>err'. dc = Return data sz err')"
      using run op None rd opened(2) i(1) le max
      by (auto simp: read_fetch_def Let_def want_def split: if_splits)
    ultimately show ?thesis by auto
  qed
qed

lemma sys_inv_DoFetch:
  assumes "sys_inv start st"
  shows "sys_inv start (sys_exec (DoFetch env buflen) st)"
proof (cases "sys_pending st")
  case None
  with assms show ?thesis by simp
next
  case (Some q)
  obtain path limit sz where q: "q = (path, limit, sz)" by (cases q)
  obtain dc r2 where run: "read_fetch env buflen path limit sz (sys_disk st) (sys_src st) = (dc, r2)"
    by fastforce
  have "\<exists>data sz' err. dc = Return data sz' err \<and> src_inv (sys_log st) (sys_disk st) (sys_hist st) r2 \<and>
      out_inv start (sys_hist st) r2 (sys_out st @ data)"
    using assms Some q run by (intro read_fetch_slice [where d = "sys_disk st"]) (auto simp: sys_inv_def)
  with assms Some q run show ?thesis
    by (auto simp: sys_inv_def settle_def pending_inv_def)
qed

lemma sys_inv_CloseReader:
  "sys_inv start st \<Longrightarrow> sys_inv start (sys_exec CloseReader st)"
  by (auto simp: sys_inv_def src_defs pending_inv_def out_inv_def source_Close_def closeFile_def
      split: option.splits)

lemma sys_inv_run:
  "sys_inv start st \<Longrightarrow> all_in_time evs st \<Longrightarrow> sys_inv start (sys_run evs st)"
proof (induction evs arbitrary: st)
  case (Cons ev evs)
  have "sys_inv start (sys_exec ev st)"
    using Cons.prems
    by (cases ev) (auto simp del: sys_exec.simps
        intro: sys_inv_LogOp sys_inv_Decide sys_inv_DoFetch sys_inv_CloseReader)
  with Cons show ?case by simp
qed simp

section \<open>Opening a reader\<close>

definition sys_start :: "outputLog \<Rightarrow> disk \<Rightarrow> outputSource \<Rightarrow> sys" where
  "sys_start l d r = \<lparr>sys_log = l, sys_disk = d, sys_hist = grow_hist l d (\<lambda>_. []), sys_src = r,
     sys_pending = None, sys_out = []\<rparr>"

lemma resolveCursor_retained:
  assumes inv: "log_inv l d" and order: "set order = dom (segments l)"
    and run: "resolveCursorLocked order l from = Inr c"
  shows "\<exists>x. content l d (generation c) = Some x \<and> unat (offset c) \<le> length x"
proof (cases "from = zero_cursor")
  case True
  with resolveCursor_zero [OF inv order] run show ?thesis by auto
next
  case False
  with resolveCursor_nonzero [OF inv False] run show ?thesis by auto
qed

lemma sys_inv_start:
  assumes inv: "log_inv l d" and can: "canonical l" and order: "set order = dom (segments l)"
    and run: "log_reader ctx fault order l d from = Inr r"
  shows "sys_inv (src_cursor r) (sys_start l d r)"
proof -
  let ?H = "grow_hist l d (\<lambda>_. [])"
  obtain c where res: "resolveCursorLocked order l from = Inr c"
    and pin: "pin fault (seg_path (segment_at l (generation c))) (seg_size (segment_at l (generation c)))
      (generation c < log_generation l) d (newLocalOutputSource c) = (None, r)"
    using run by (auto simp: log_reader_def Let_def split: option.splits sum.splits prod.splits)
  obtain x where x: "content l d (generation c) = Some x" "unat (offset c) \<le> length x"
    using resolveCursor_retained [OF inv order res] by blast
  obtain s where s: "segments l (generation c) = Some s"
    using x(1) by (auto simp: content_def split: option.splits)
  have path: "seg_path s = outputSegmentPath (directory l) (generation c)"
    using can s by (simp add: canonical_def)
  have H: "?H (generation c) = x" "length x = unat (seg_size s)"
    using x(1) segment_content [OF inv s] by (auto simp: grow_hist_def)
  obtain i where i: "os_Open fault (seg_path s) d = Inr i" and
    r: "r = (newLocalOutputSource c)\<lparr>src_file := Some (i, seg_path s), fileGen := generation c,
      fileLimit := seg_size s, complete := (generation c < log_generation l)\<rparr>"
    using pin s by (auto simp: pin_def newLocalOutputSource_def split: sum.splits)
  have g: "0 < generation c" "generation c \<le> log_generation l"
    using content_Some_bound [OF inv x(1)] by auto
  have hist: "hist_inv l d ?H" using hist_inv_start [OF inv can] .
  have "holds l d ?H (generation c) i"
    using hist_invD(4) [OF hist g] i path by (auto simp: os_Open_def split: option.splits)
  then have "src_inv l d ?H r"
    using r g x H path by (simp add: src_defs newLocalOutputSource_def)
  moreover have "out_inv (src_cursor r) ?H r []"
    using r x H by (simp add: out_inv_def bytes_upto_def newLocalOutputSource_def)
  ultimately show ?thesis
    using hist by (simp add: sys_inv_def sys_start_def pending_inv_def)
qed

section \<open>What a reader delivers\<close>

text \<open>
  C1. Exact delivery: open a reader on a log at any cursor and let it read while the log is
  appended to, rotated, pruned, resized, closed or fails, in any interleaving, also between
  the locked and the unlocked half of a read, with any buffer sizes and any faults of the
  file system. As long as no prune overtakes the reader, everything the reader returned is,
  without a gap, a repetition or a wrong byte, the output from the cursor it was opened at
  up to the cursor it now reports.
\<close>

theorem reader_delivers_exactly:
  assumes "log_inv l d" and "canonical l" and "set order = dom (segments l)"
    and "log_reader ctx fault order l d from = Inr r"
    and "all_in_time evs (sys_start l d r)" and "sys_run evs (sys_start l d r) = st"
  shows "sys_out st =
    drop (unat (offset (src_cursor r)))
      (bytes_upto (sys_hist st) (generation (src_cursor r)) (src_cursor (sys_src st)))"
  using sys_inv_run [OF sys_inv_start [OF assms(1-4)] assms(5)] assms(6)
  by (simp add: sys_inv_def out_inv_def)

definition calm :: read_env where
  "calm = \<lparr>ctx_err = None, prefer_ctx = False, file_fault = None, readat_fault = None\<rparr>"

definition small_disk :: disk where
  "small_disk = \<lparr>dirent = [outputSegmentPath ''/t'' 1 \<mapsto> 0], inode = (\<lambda>_. []), next_inode = 1\<rparr>"

definition small_log :: outputLog where
  "small_log = \<lparr>directory = ''/t'', log_generation = 1,
     segments = [1 \<mapsto> Segment (outputSegmentPath ''/t'' 1) 0], active = Some 0, changed = 0,
     closed = False, log_err = None, sizes = []\<rparr>"

definition small_reader :: outputSource where
  "small_reader = \<lparr>src_cursor = Cursor 1 0, reported = zero_size,
     src_file = Some (0, outputSegmentPath ''/t'' 1), fileGen = 1, fileLimit = 0, complete = False,
     src_done = False\<rparr>"

lemma small_inv: "log_inv small_log small_disk" "canonical small_log"
  by (rule log_invI)
    (auto simp: small_log_def small_disk_def disk_inv_def segment_ok_def segment_at_def
      max_file_size_def canonical_def split: if_splits)

lemma small_reader_opens:
  "log_reader None None [1] small_log small_disk zero_cursor = Inr small_reader"
  by (simp add: log_reader_def small_log_def small_disk_def small_reader_def resolveCursorLocked_def
      segment_at_def pin_def os_Open_def newLocalOutputSource_def)

lemma path_2_1 [simp]: "outputSegmentPath ''/t'' 2 \<noteq> outputSegmentPath ''/t'' 1"
  using outputSegmentPath_inj [of "''/t''" 2 1] by auto

lemmas read_eval = read_decide_def poll_def refresh_def read_tail_def advance_def closeFile_def
  read_fetch_def openFile_def file_ReadAt_def calm_def settle_def small_log_def small_disk_def
  small_reader_def sys_start_def

theorem reader_delivers_exactly_witness:
  "sys_out (sys_run [LogOp (Append WriteOK ''abc''), Decide calm False, LogOp (Rotate None),
      DoFetch calm 2] (sys_start small_log small_disk small_reader)) = ''ab''"
proof -
  let ?evs = "[LogOp (Append WriteOK ''abc''), Decide calm False, LogOp (Rotate None), DoFetch calm 2]"
  obtain st where run: "sys_run ?evs (sys_start small_log small_disk small_reader) = st" by simp
  have "all_in_time ?evs (sys_start small_log small_disk small_reader)"
    by (simp add: in_time_def log_eval read_eval)
  moreover have "set [1] = dom (segments small_log)" by (simp add: small_log_def)
  ultimately have "sys_out st = drop 0 (bytes_upto (sys_hist st) 1 (src_cursor (sys_src st)))"
    using reader_delivers_exactly [OF small_inv _ small_reader_opens _ run] by (simp add: small_reader_def)
  moreover have "src_cursor (sys_src st) = Cursor 1 2" "sys_hist st 1 = ''abc''"
    using run by (auto simp: log_eval read_eval grow_hist_def content_def path_2_1 [symmetric])
  ultimately show ?thesis using run by (simp add: bytes_upto_def)
qed

end
