(* ===== verification/Reader_Progress.thy ===== *)
theory Reader_Progress
  imports Reader_Stream
begin

text \<open>
  A reader makes progress: a read on a log that stands still ends after at most one turn
  per generation, whatever faults it meets; without faults it ends with bytes when there
  are any, with the end of the log when it is closed, and otherwise by waiting; a waiting reader is woken by every change that
  concerns it. The last section shows the one place where a reader loses output: a prune
  that overtakes it.
\<close>

section \<open>No lost wake-up\<close>

lemma exec_unsignalled:
  assumes inv: "log_inv l d" and run: "log_exec op (l, d) = (l', d')" and same: "changed l' = changed l"
  shows "log_generation l' = log_generation l \<and> closed l' = closed l \<and> log_err l' = log_err l \<and>
    sizes l' = sizes l \<and> segments l' (log_generation l) = segments l (log_generation l)"
  using run
proof (cases rule: log_exec_cases)
  case (append oc data r)
  from inv append(2) show ?thesis
    by (cases rule: log_append_cases) (use same in auto)
next
  case (rotate fault c)
  from rotate(2) show ?thesis
    by (cases rule: log_rotate_cases) (use same in auto)
next
  case (prune faults order before r)
  from inv prune(2) show ?thesis
  proof (cases rule: log_prune_cases)
    case pruned
    with same prune_rel_kept [OF pruned(3)] show ?thesis by (cases r) auto
  qed simp
next
  case (mark sz)
  with same show ?thesis by (auto simp: log_markSize_def Let_def split: if_splits)
next
  case (close err)
  with same show ?thesis by (auto simp: log_close_def split: if_splits)
qed

lemma read_tail_Wait:
  "read_tail l r sz stop = (Wait k, r') \<longleftrightarrow>
   \<not> offset (src_cursor r) < stop \<and> \<not> (complete r \<and> offset (src_cursor r) \<ge> fileLimit r) \<and>
   \<not> closed l \<and> k = changed l \<and> r' = r"
  by (auto simp: read_tail_def Let_def)

lemma size_span_positive:
  "size_span ms c z = (sz, Some k) \<Longrightarrow> offset c < offset c + k"
proof (induction ms arbitrary: z)
  case (Cons m ms)
  then show ?case
    by (cases "generation (mark_cursor m) = generation c \<and> offset c < offset (mark_cursor m)")
      (auto simp: not_le word_less_nat_alt unat_sub_u64 split: if_splits)
qed simp

text \<open>Where a sized read stops: before the next mark, but never at the cursor unless all is read.\<close>

definition sized_stop :: "cursor \<Rightarrow> u64 option \<Rightarrow> u64 \<Rightarrow> u64" where
  "sized_stop c span limit = (case span of
      Some k \<Rightarrow> if offset c + k < limit then offset c + k else limit | None \<Rightarrow> limit)"

lemma sized_stop_end:
  "sized_stop c (snd (sizeSpanLocked l c)) limit \<le> offset c \<Longrightarrow> limit \<le> offset c"
  using size_span_positive [of "sizes l" c zero_size "fst (sizeSpanLocked l c)"]
  by (auto simp: sized_stop_def sizeSpanLocked_def split: option.splits if_splits)
    (metis leD prod.collapse)

lemma refresh_same [simp]:
  "src_cursor (refresh l r) = src_cursor r" "src_file (refresh l r) = src_file r"
  "fileGen (refresh l r) = fileGen r" "reported (refresh l r) = reported r"
  "src_done (refresh l r) = src_done r" "refresh l (refresh l r) = refresh l r"
  by (auto simp: refresh_def Let_def split: option.splits)

lemma read_decide_cases:
  "read_decide env sized l r =
     (case poll env r of Some res \<Rightarrow> (res, r)
      | None \<Rightarrow>
          (let q = refresh l r; c = src_cursor r in
           if segments l (generation c) = None \<and>
              \<not> (src_file r \<noteq> None \<and> fileGen r = generation c \<and> complete q)
           then (Return [] zero_size (Some (Sentinel ErrCursorExpired)), q)
           else if \<not> sized then read_tail l q zero_size (fileLimit q)
           else if fst (sizeSpanLocked l c) \<noteq> zero_size \<and> fst (sizeSpanLocked l c) \<noteq> reported r
             then (Return [] (fst (sizeSpanLocked l c)) None, q\<lparr>reported := fst (sizeSpanLocked l c)\<rparr>)
           else read_tail l q (fst (sizeSpanLocked l c))
                  (sized_stop c (snd (sizeSpanLocked l c)) (fileLimit q))))"
  by (simp add: read_decide_def sized_stop_def Let_def case_prod_beta split: option.split)

lemma poll_Some: "poll env r = Some res \<Longrightarrow> \<exists>e. res = Return [] zero_size (Some e)"
  by (auto simp: poll_def split: option.splits if_splits)

lemma poll_refresh [simp]: "poll env (refresh l r) = poll env r"
  by (simp add: poll_def split: option.split)

lemma waiting_poll: "read_decide env sized l r = (Wait k, r') \<Longrightarrow> poll env r = None"
  by (cases "poll env r") (auto simp: read_decide_cases dest: poll_Some)

lemma waiting_at_end:
  assumes "read_decide env sized l r = (Wait k, r')" and "generation (src_cursor r) \<le> log_generation l"
  shows "generation (src_cursor r) = log_generation l \<and> k = changed l \<and> r' = refresh l r"
proof -
  let ?q = "refresh l r" and ?c = "src_cursor r"
  have none: "poll env r = None" using waiting_poll [OF assms(1)] .
  obtain sz stop where tail: "read_tail l ?q sz stop = (Wait k, r')"
    and stop: "stop = fileLimit ?q \<or> stop = sized_stop ?c (snd (sizeSpanLocked l ?c)) (fileLimit ?q)"
    and found: "segments l (generation ?c) \<noteq> None \<or>
      src_file r \<noteq> None \<and> fileGen r = generation ?c \<and> complete ?q"
    using assms(1) none by (auto simp: read_decide_cases Let_def split: if_splits)
  have "offset ?c \<ge> fileLimit ?q"
    using stop tail sized_stop_end by (auto simp: read_tail_Wait not_less)
  then have "\<not> complete ?q" using tail by (simp add: read_tail_Wait)
  then have "\<not> generation ?c < log_generation l"
    using found by (auto simp: refresh_def Let_def split: option.splits if_splits)
  with assms(2) tail show ?thesis by (simp add: read_tail_Wait)
qed

lemma read_decide_frame:
  assumes "segments l' (generation (src_cursor r)) = segments l (generation (src_cursor r))"
    and "log_generation l' = log_generation l" and "closed l' = closed l" and "log_err l' = log_err l"
    and "sizes l' = sizes l" and "changed l' = changed l"
  shows "read_decide env sized l' r = read_decide env sized l r"
proof -
  have "refresh l' r = refresh l r" using assms(1,2) by (simp add: refresh_def Let_def split: option.split)
  moreover have "sizeSpanLocked l' c = sizeSpanLocked l c" for c using assms(5) by (simp add: sizeSpanLocked_def)
  moreover have "read_tail l' (refresh l r) sz stop = read_tail l (refresh l r) sz stop" for sz stop
    using assms(1,3,4,6) by (simp add: read_tail_def Let_def)
  ultimately show ?thesis
    using assms(1) by (cases "poll env r") (simp_all add: read_decide_cases Let_def)
qed

lemma read_decide_refresh: "read_decide env sized l (refresh l r) = read_decide env sized l r" if "poll env r = None"
  using that by (simp add: read_decide_cases Let_def)

lemma exec_changed_mono:
  assumes "log_inv l d" and "log_exec op (l, d) = (l', d')"
  shows "changed l \<le> changed l'"
  using assms(2)
proof (cases rule: log_exec_cases)
  case (append oc data r)
  from assms(1) append(2) show ?thesis by (cases rule: log_append_cases) auto
next
  case (rotate fault c)
  from rotate(2) show ?thesis by (cases rule: log_rotate_cases) auto
next
  case (prune faults order before r)
  then show ?thesis
    by (auto simp: log_prune_def split: option.splits if_splits prod.splits)
qed (auto simp: log_markSize_def log_close_def Let_def)

lemma run_changed_mono: "log_inv l d \<Longrightarrow> log_run ops (l, d) = (l', d') \<Longrightarrow> changed l \<le> changed l'"
proof (induction ops arbitrary: l d)
  case (Cons op ops)
  obtain l1 d1 where run: "log_exec op (l, d) = (l1, d1)" by fastforce
  with Cons.prems(2) have "log_run ops (l1, d1) = (l', d')" by simp
  from Cons.IH [OF log_exec_inv [OF Cons.prems(1) run] this] show ?case
    using exec_changed_mono [OF Cons.prems(1) run] by simp
qed simp

lemma waiting_step:
  assumes "log_inv l d" and "generation (src_cursor r) \<le> log_generation l"
    and wait: "read_decide env sized l r = (Wait k, r')" and run: "log_exec op (l, d) = (l', d')"
  shows "k < changed l' \<or> read_decide env sized l' r' = (Wait k, r') \<and> k = changed l'"
proof (cases "changed l' = changed l")
  case True
  note still = exec_unsignalled [OF assms(1) run True] and at_end = waiting_at_end [OF wait assms(2)]
  have none: "poll env r = None" using waiting_poll [OF wait] .
  have "read_decide env sized l' r' = read_decide env sized l r'"
    using still at_end True by (intro read_decide_frame) simp_all
  also have "\<dots> = (Wait k, r')"
    using at_end wait read_decide_refresh [OF none] by simp
  finally show ?thesis using at_end True by simp
next
  case False
  with exec_changed_mono [OF assms(1) run] waiting_at_end [OF wait assms(2)] show ?thesis by simp
qed

text \<open>
  C5. No lost wake-up: a reader that decided to wait saw the broadcast counter \<open>k\<close>. Whatever
  operations the log goes through after that, either the counter has moved, so the reader
  wakes up, or the reader would still decide to wait: nothing it could read, no resize and
  no end of the log has happened behind its back.
\<close>

theorem no_lost_wakeup:
  assumes "log_inv l d" and "generation (src_cursor r) \<le> log_generation l"
    and "read_decide env sized l r = (Wait k, r')" and "log_run ops (l, d) = (l', d')"
  shows "k < changed l' \<or> read_decide env sized l' r' = (Wait k, r')"
proof -
  have "k < changed l' \<or> (read_decide env sized l' r' = (Wait k, r') \<and> k = changed l' \<and>
      src_cursor r' = src_cursor r)"
    using assms
  proof (induction ops arbitrary: l d r)
    case Nil
    then show ?case
      using waiting_at_end [OF Nil.prems(3,2)] read_decide_refresh [OF waiting_poll [OF Nil.prems(3)]]
      by simp
  next
    case (Cons op ops)
    obtain l1 d1 where run: "log_exec op (l, d) = (l1, d1)" by fastforce
    have inv1: "log_inv l1 d1" using log_exec_inv [OF Cons.prems(1) run] .
    have rest: "log_run ops (l1, d1) = (l', d')" using Cons.prems(4) run by simp
    have mono: "changed l1 \<le> changed l'" using run_changed_mono [OF inv1 rest] .
    have r': "r' = refresh l r" "src_cursor r' = src_cursor r"
      using waiting_at_end [OF Cons.prems(3,2)] by auto
    have gen: "generation (src_cursor r') \<le> log_generation l1"
      using log_exec_generation [OF Cons.prems(1) run] Cons.prems(2) r' by auto
    from waiting_step [OF Cons.prems(1-3) run] show ?case
      using Cons.IH [OF inv1 gen _ rest] mono r' by auto
  qed
  then show ?thesis by blast
qed

theorem no_lost_wakeup_witness:
  "read_decide calm False small_log small_reader = (Wait 0, small_reader) \<and>
   0 < changed (fst (log_run [Append WriteOK ''x''] (small_log, small_disk)))"
proof -
  obtain l d where run: "log_run [Append WriteOK ''x''] (small_log, small_disk) = (l, d)" by fastforce
  have wait: "read_decide calm False small_log small_reader = (Wait 0, small_reader)"
    by (simp add: read_eval)
  moreover have "read_decide calm False l small_reader \<noteq> (Wait 0, small_reader)"
    using run by (auto simp: log_eval read_eval)
  moreover have "generation (src_cursor small_reader) \<le> log_generation small_log"
    by (simp add: small_reader_def small_log_def)
  ultimately have "0 < changed l"
    using no_lost_wakeup [OF small_inv(1) _ wait run] by blast
  with wait run show ?thesis by simp
qed

section \<open>A read ends\<close>

text \<open>Everything retained from a cursor on.\<close>

definition unread :: "outputLog \<Rightarrow> (u64 \<Rightarrow> bytes) \<Rightarrow> cursor \<Rightarrow> bytes" where
  "unread l H c = drop (unat (offset c)) (H (generation c)) @
     concat (map (\<lambda>k. H (of_nat k)) [Suc (unat (generation c))..<Suc (unat (log_generation l))])"

lemma unread_advance:
  assumes "unat (offset c) = length (H (generation c))" and "generation c < log_generation l"
  shows "unread l H (Cursor (generation c + 1) 0) = unread l H c"
proof -
  have suc: "unat (generation c + 1) = Suc (unat (generation c))"
    using unat_Suc_u64 [OF less_u64_Suc_nonzero [OF assms(2)]] .
  have "[Suc (unat (generation c))..<Suc (unat (log_generation l))] =
      unat (generation c + 1) # [Suc (unat (generation c + 1))..<Suc (unat (log_generation l))]"
    using assms(2) suc by (simp add: upt_conv_Cons word_less_nat_alt)
  then show ?thesis using assms(1) by (simp add: unread_def)
qed

lemma unread_at_end:
  "generation c = log_generation l \<Longrightarrow> unread l H c = drop (unat (offset c)) (H (generation c))"
  by (simp add: unread_def)

text \<open>
  What a read answers when \<open>rest\<close> is unread: a sized read first announces a size it has not
  reported yet; then the next bytes, the end of the log, or waiting.
\<close>

definition read_answer :: "bool \<Rightarrow> outputLog \<Rightarrow> outputSource \<Rightarrow> bytes \<Rightarrow> decision \<Rightarrow> bool" where
  "read_answer sized l r rest dc \<longleftrightarrow>
     (\<exists>sz. sized \<and> sz \<noteq> zero_size \<and> sz \<noteq> reported r \<and> dc = Return [] sz None) \<or>
     (if rest \<noteq> [] then
        \<exists>n > 0. \<exists>sz. n \<le> length rest \<and> dc = Return (take n rest) sz None \<and> (sized \<or> sz = zero_size)
      else if closed l then
        dc = Return [] zero_size (Some (case log_err l of Some e \<Rightarrow> e | None \<Rightarrow> Sentinel EOF))
      else dc = Wait (changed l))"

lemma read_answer_prefix:
  "0 < n \<Longrightarrow> n \<le> length a \<Longrightarrow> sized \<or> sz = zero_size \<Longrightarrow>
   read_answer sized l r (a @ b) (Return (take n a) sz None)"
  by (auto simp: read_answer_def intro!: exI [of _ n])

lemma read_fetch_calm:
  assumes hist: "hist_inv l d H" and src: "src_inv l d H r"
    and pend: "pending_inv l H r (Some (path, limit, sz))"
    and env: "file_fault env = None" "readat_fault env = None" and "0 < buflen"
    and dirent: "dirent d path \<noteq> None"
  shows "\<exists>n r2. 0 < n \<and> n \<le> length (drop (unat (offset (src_cursor r))) (H (generation (src_cursor r)))) \<and>
    read_fetch env buflen path limit sz d r =
      (Return (take n (drop (unat (offset (src_cursor r))) (H (generation (src_cursor r))))) sz None, r2)"
proof -
  let ?c = "src_cursor r"
  obtain e r1 where op: "openFile (file_fault env) path d r = (e, r1)" by fastforce
  note opened = openFile_holds [OF hist src pend op]
  have "e = None"
    using op env(1) dirent by (auto simp: openFile_def os_Open_def Let_def split: if_splits option.splits)
  then obtain i p where i: "src_file r1 = Some (i, p)" "holds l d H (generation ?c) i"
    using opened(4) by auto
  define want where "want = (if buflen > unat limit then unat limit else buflen)"
  have lim: "0 < limit" "unat (offset ?c) + unat limit \<le> length (H (generation ?c))"
    using pend by (auto simp: pending_inv_def Let_def)
  then have want: "0 < want" "unat (offset ?c) + want \<le> length (H (generation ?c))"
    using assms(6) by (auto simp: want_def word_less_nat_alt)
  obtain z where z: "inode d i = H (generation ?c) @ z" using i(2) by (auto simp: holds_def prefix_def)
  have "length (H (generation ?c)) < 2 ^ 63"
    using holds_length [OF hist i(2)] by (rule max_file_size_less)
  then have "unat (offset ?c) < 2 ^ 63" using want by simp
  moreover have "file_ReadAt None i d (unat (offset ?c)) want =
      (take want (drop (unat (offset ?c)) (H (generation ?c))), None)"
    using z want by (simp add: file_ReadAt_def Let_def)
  ultimately show ?thesis
    using op \<open>e = None\<close> env(2) i(1) opened(2) want
    by (intro exI [of _ want]) (simp add: read_fetch_def Let_def want_def [symmetric] del: drop_eq_Nil)
qed

lemma read_decide_sized:
  assumes "poll env r = None" and "segments l (generation (src_cursor r)) = Some s"
  obtains (announce) sz where "sized" and "sz \<noteq> zero_size" and "sz \<noteq> reported r"
      and "read_decide env sized l r = (Return [] sz None, (refresh l r)\<lparr>reported := sz\<rparr>)"
  | (tail) sz stop where "read_decide env sized l r = read_tail l (refresh l r) sz stop"
      and "sized \<or> sz = zero_size" and "stop \<le> offset (src_cursor r) \<Longrightarrow> fileLimit (refresh l r) \<le> offset (src_cursor r)"
proof (cases sized)
  case True
  let ?c = "src_cursor r"
  show thesis
  proof (cases "fst (sizeSpanLocked l ?c) \<noteq> zero_size \<and> fst (sizeSpanLocked l ?c) \<noteq> reported r")
    case fresh: True
    with assms True show thesis by (intro announce) (auto simp: read_decide_cases Let_def)
  next
    case False
    show thesis
      by (rule tail [OF _ _ sized_stop_end]) (use assms True False in \<open>auto simp: read_decide_cases Let_def\<close>)
  qed
next
  case False
  with assms show thesis
    by (intro tail [of zero_size "fileLimit (refresh l r)"]) (simp_all add: read_decide_cases Let_def)
qed

lemma src_inv_advance:
  assumes "generation (src_cursor r) < log_generation l"
  shows "src_inv l d H (advance r)"
  using inc_le [OF assms] less_u64_Suc_nonzero [OF assms]
  by (auto simp: src_defs advance_def closeFile_def word_neq_0_conv)

lemma advance_cursor [simp]: "src_cursor (advance r) = Cursor (generation (src_cursor r) + 1) 0"
  and advance_reported [simp]: "reported (advance r) = reported r"
  and poll_advance [simp]: "poll env (advance r) = poll env r"
  by (simp_all add: poll_def advance_def closeFile_def split: option.split)

lemma read_loop_answer:
  assumes hist: "hist_inv l d H" and "src_inv l d H r" and "poll env r = None"
    and env: "file_fault env = None" "readat_fault env = None" and buf: "0 < buflen"
    and retained: "\<forall>g. generation (src_cursor r) \<le> g \<longrightarrow> g \<le> log_generation l \<longrightarrow> segments l g \<noteq> None"
    and "read_loop fuel env buflen sized l d r = Some (dc, r2)"
  shows "read_answer sized l r (unread l H (src_cursor r)) dc"
  using assms(2,3,7,8)
proof (induction fuel arbitrary: r)
  case (Suc fuel)
  let ?q = "refresh l r" and ?c = "src_cursor r" and ?g = "generation (src_cursor r)"
  note ref = src_inv_refresh [OF hist Suc.prems(1)]
  have g: "?g \<le> log_generation l" using Suc.prems(1) by (simp add: src_defs)
  obtain s where s: "segments l ?g = Some s" using Suc.prems(3) g by blast
  have lim: "unat (fileLimit ?q) = length (H ?g)" and cmpl: "complete ?q = (?g < log_generation l)"
    using ref(5,6) s by auto
  from Suc.prems(2) s show ?case
  proof (cases rule: read_decide_sized [where sized = sized])
    case (announce sz)
    with Suc.prems(4) show ?thesis by (auto simp: read_answer_def)
  next
    case (tail sz stop)
    consider (fetch) "offset ?c < stop"
      | (onward) "\<not> offset ?c < stop" "?g < log_generation l"
      | (idle) "\<not> offset ?c < stop" "?g = log_generation l" using g by fastforce
    then show ?thesis
    proof cases
      case fetch
      then have run: "read_tail l ?q sz stop = (Fetch (seg_path s) (stop - offset ?c) sz, ?q)"
        using s by (simp add: read_tail_def)
      have "out_inv ?c H r (drop (unat (offset ?c)) (bytes_upto H ?g ?c))"
        using Suc.prems(1) by (simp add: out_inv_def bytes_upto_def src_defs)
      with read_decide_decided [OF hist Suc.prems(1), of ?c _ env sized] s tail(1) run
      have pend: "pending_inv l H ?q (Some (seg_path s, stop - offset ?c, sz))"
        by (simp add: decided_def)
      have "dirent d (seg_path s) \<noteq> None"
        using log_invD(3) [OF hist_invD(1) [OF hist] s] by (auto simp: segment_ok_def)
      from read_fetch_calm [OF hist ref(1) pend env buf this] obtain n r3 where
        n: "0 < n" "n \<le> length (drop (unat (offset ?c)) (H ?g))" and
        "read_fetch env buflen (seg_path s) (stop - offset ?c) sz d ?q =
          (Return (take n (drop (unat (offset ?c)) (H ?g))) sz None, r3)"
        by (auto simp: ref(2))
      with Suc.prems(4) tail(1) run have "dc = Return (take n (drop (unat (offset ?c)) (H ?g))) sz None" by simp
      with read_answer_prefix [OF n tail(2)] show ?thesis by (simp add: unread_def)
    next
      case onward
      then have limit: "fileLimit ?q \<le> offset ?c" using tail(3) by simp
      then have full: "unat (offset ?c) = length (H ?g)"
        using lim Suc.prems(1) by (auto simp: src_defs word_le_nat_alt)
      have "read_tail l ?q sz stop = (Again, advance ?q)"
        using onward cmpl limit by (simp add: read_tail_def)
      with Suc.prems(4) tail(1) have "read_loop fuel env buflen sized l d (advance ?q) = Some (dc, r2)" by simp
      moreover have "?g \<le> h" if "?g + 1 \<le> h" for h
        using that less_u64_plus_one [OF less_u64_Suc_nonzero [OF onward(2)]] by simp
      ultimately have "read_answer sized l (advance ?q) (unread l H (src_cursor (advance ?q))) dc"
        using Suc.prems(2,3) onward(2) by (intro Suc.IH src_inv_advance) simp_all
      with unread_advance [of ?c H l, OF full onward(2)] show ?thesis by (simp add: read_answer_def)
    next
      case idle
      then have limit: "fileLimit ?q \<le> offset ?c" using tail(3) by simp
      then have "unread l H ?c = []"
        using lim unread_at_end [OF idle(2)] by (simp add: word_le_nat_alt)
      with idle cmpl tail(1) limit Suc.prems(4) show ?thesis
        by (auto simp: read_answer_def read_tail_def split: if_splits)
    qed
  qed
qed simp

text \<open>Only a generation that is over is left behind, so the loop turns at most once per generation.\<close>

lemma read_again_advances:
  assumes "read_decide env sized l r = (Again, r')"
  shows "r' = advance (refresh l r) \<and> generation (src_cursor r) < log_generation l"
proof -
  have none: "poll env r = None" using assms by (cases "poll env r") (auto simp: read_decide_cases dest: poll_Some)
  then have "r' = advance (refresh l r)" and "complete (refresh l r)"
    and found: "segments l (generation (src_cursor r)) \<noteq> None \<or>
      src_file r \<noteq> None \<and> fileGen r = generation (src_cursor r)"
    using assms by (auto simp: read_decide_cases read_tail_def Let_def split: if_splits)
  then show ?thesis by (auto simp: refresh_def Let_def split: option.splits if_splits)
qed

lemma read_fetch_returns: "\<exists>b sz' e r'. read_fetch env buflen path limit sz d r = (Return b sz' e, r')"
  by (auto simp: read_fetch_def Let_def split: prod.split option.split)

lemma read_loop_ends:
  "unat (log_generation l) - unat (generation (src_cursor r)) < fuel \<Longrightarrow>
   \<exists>dc r2. read_loop fuel env buflen sized l d r = Some (dc, r2) \<and>
     (dc = Wait (changed l) \<or> (\<exists>b sz e. dc = Return b sz e))"
proof (induction fuel arbitrary: r)
  case (Suc fuel)
  obtain dc r1 where dec: "read_decide env sized l r = (dc, r1)" by fastforce
  show ?case
  proof (cases dc)
    case Again
    with read_again_advances [of env sized l r r1] dec have
      adv: "r1 = advance (refresh l r)" "generation (src_cursor r) < log_generation l" by auto
    then have "unat (log_generation l) - unat (generation (src_cursor r1)) < fuel"
      using Suc.prems unat_Suc_u64 [OF less_u64_Suc_nonzero [OF adv(2)]] by (simp add: word_less_nat_alt)
    from Suc.IH [OF this] dec Again show ?thesis by simp
  next
    case (Fetch path limit sz)
    with read_fetch_returns [of env buflen path limit sz d r1] dec show ?thesis by auto
  next
    case (Wait k)
    then have "k = changed l"
      using dec by (auto simp: read_decide_cases read_tail_def Let_def dest: poll_Some split: option.splits if_splits)
    with dec Wait show ?thesis by simp
  qed (use dec in simp)
qed simp


definition small_written :: "outputLog \<times> disk" where
  "small_written = log_exec (Append WriteOK ''abc'') (small_log, small_disk)"


section \<open>An overtaken reader\<close>

text \<open>
  C35. An overtaken reader can lose output silently, as one run shows: a reader opened on the active generation
  remembers the limit it saw then. When bytes arrive, the generation is rotated away and
  pruned before the reader looks again, the reader, which still has the file with those
  bytes open, takes its old limit for the end of the generation and moves on to the next
  one without an error. The bytes were never delivered.
\<close>

theorem overtaken_reader_skips:
  "let st = sys_run [LogOp (Append WriteOK ''abc''), LogOp (Rotate None),
        LogOp (Prune (\<lambda>_. None) [1, 2] (Cursor 2 0)), Decide calm False]
        (sys_start small_log small_disk small_reader) in
   log_reader None None [1] small_log small_disk zero_cursor = Inr small_reader \<and>
   sys_hist st 1 = ''abc'' \<and> src_file small_reader = Some (0, outputSegmentPath ''/t'' 1) \<and>
   inode (sys_disk st) 0 = ''abc'' \<and>
   sys_out st = [] \<and> src_cursor (sys_src st) = Cursor 2 0"
proof -
  let ?p = "outputSegmentPath ''/t''"
  let ?l1 = "\<lparr>directory = ''/t'', log_generation = 1, segments = [1 \<mapsto> Segment (?p 1) 3],
     active = Some 0, changed = 1, closed = False, log_err = None, sizes = []\<rparr> :: outputLog"
  let ?d1 = "\<lparr>dirent = [?p 1 \<mapsto> 0], inode = (\<lambda>_. [])(0 := ''abc''), next_inode = 1\<rparr> :: disk"
  let ?l2 = "\<lparr>directory = ''/t'', log_generation = 2, segments = [1 \<mapsto> Segment (?p 1) 3, 2 \<mapsto> Segment (?p 2) 0],
     active = Some 1, changed = 2, closed = False, log_err = None, sizes = []\<rparr> :: outputLog"
  let ?d2 = "\<lparr>dirent = [?p 1 \<mapsto> 0, ?p 2 \<mapsto> 1], inode = (\<lambda>_. [])(0 := ''abc'', 1 := []), next_inode = 2\<rparr> :: disk"
  let ?l3 = "?l2\<lparr>segments := (segments ?l2)(1 := None), changed := 3\<rparr>"
  let ?d3 = "?d2\<lparr>dirent := (dirent ?d2)(?p 1 := None)\<rparr>"
  have "log_exec (Append WriteOK ''abc'') (small_log, small_disk) = (?l1, ?d1)"
    by (simp add: log_eval small_log_def small_disk_def)
  moreover have "log_exec (Rotate None) (?l1, ?d1) = (?l2, ?d2)"
    by (simp add: log_eval)
  moreover have "\<not> (2 :: u64) \<le> 1" by (simp add: word_le_nat_alt)
  then have "log_exec (Prune (\<lambda>_. None) [1, 2] (Cursor 2 0)) (?l2, ?d2) = (?l3, ?d3)"
    using path_2_1 [symmetric] by (simp add: log_eval)
  moreover have "content ?l1 ?d1 1 = Some ''abc''" "content ?l2 ?d2 1 = Some ''abc''" "content ?l3 ?d3 1 = None"
    using path_2_1 [symmetric] by (simp_all add: content_def)
  moreover have "read_decide calm False ?l3 small_reader = (Again, advance (small_reader\<lparr>complete := True\<rparr>))"
    by (simp add: read_eval Let_def)
  ultimately show ?thesis
    using small_reader_opens
    by (simp add: sys_start_def settle_def grow_hist_def advance_def closeFile_def small_reader_def Let_def
        del: log_exec.simps)
qed

end
