(* ===== verification/Query_Responder.thy ===== *)
theory Query_Responder
  imports Validation
begin

text \<open>
  The responder to terminal queries (\<^verbatim>\<open>query.go\<close>): a scanner over PTY output that buffers
  an escape sequence until it is complete, answers the ones it knows, and gives up on a
  sequence that cannot be one or grows too long. The colour callback is a parameter of
  \<^verbatim>\<open>Feed\<close>; so is what \<^verbatim>\<open>strings.ToLower\<close> does to text that is not ASCII.
\<close>

section \<open>State\<close>

definition ColorQueryForeground :: nat where
  "ColorQueryForeground = 10"

definition ColorQueryBackground :: nat where
  "ColorQueryBackground = 11"

record queryResponder =
  pending :: bytes
  q_rows :: int
  q_cols :: int

datatype pendingQueryReply = Fixed bytes | ColorKind nat

definition NewQueryResponder :: queryResponder where
  "NewQueryResponder = \<lparr>pending = [], q_rows = 36, q_cols = 120\<rparr>"

definition Responder_Resize :: "int \<Rightarrow> int \<Rightarrow> queryResponder \<Rightarrow> queryResponder" where
  "Responder_Resize columns rows r =
     (if columns \<le> 0 \<or> rows \<le> 0 then r else r\<lparr>q_cols := columns, q_rows := rows\<rparr>)"

section \<open>Scanning\<close>

text \<open>An index, \<open>-1\<close> for "still incomplete", and whether the sequence is complete.\<close>

fun csiFinal :: "bytes \<Rightarrow> int \<times> bool" where
  "csiFinal [] = (- 1, False)"
| "csiFinal (b # body) =
     (if 0x40 \<le> byte_val b \<and> byte_val b \<le> 0x7e then (0, True)
      else if byte_val b < 0x20 \<or> byte_val b = 0x7f then (0, False)
      else case csiFinal body of (i, c) \<Rightarrow> (if i < 0 then - 1 else i + 1, c))"

fun oscEnd :: "bytes \<Rightarrow> int \<times> bool" where
  "oscEnd [] = (- 1, False)"
| "oscEnd (b # body) =
     (if b = BEL then (0, True)
      else if b = ESC then (0, body \<noteq> [] \<and> hd body = backslash)
      else if byte_val b < 0x20 then (0, False)
      else case oscEnd body of (i, c) \<Rightarrow> (if i < 0 then - 1 else i + 1, c))"

definition csiReply :: "queryResponder \<Rightarrow> bytes \<Rightarrow> bytes" where
  "csiReply r sequence =
     (let final = last sequence; params = butlast sequence in
      if final = CHR ''c'' then
        (if params \<noteq> [] \<and> hd params = CHR ''>'' then ESC # ''[>0;0;0c'' else ESC # ''[?62;c'')
      else if final = CHR ''n'' then
        (if params = ''5'' then ESC # ''[0n'' else if params = ''6'' then ESC # ''[1;1R'' else [])
      else if final = CHR ''u'' then (if params = ''?'' then ESC # ''[?u'' else [])
      else if final = CHR ''p'' then
        (if 2 \<le> length params \<and> hd params = CHR ''?'' \<and> last params = CHR ''$''
         then ESC # ''[?'' @ slice 1 (length params - 1) params @ '';1$y'' else [])
      else if final = CHR ''t'' then
        (if params = ''14'' then ESC # ''[4;'' @ Itoa (q_rows r) @ '';'' @ Itoa (q_cols r) @ ''t''
         else if params = ''16''
           then ESC # ''[4;'' @ Itoa (wrap64 (q_rows r * 24)) @ '';'' @ Itoa (wrap64 (q_cols r * 8)) @ ''t''
         else if params = ''18'' then ESC # ''[8;'' @ Itoa (q_rows r) @ '';'' @ Itoa (q_cols r) @ ''t''
         else [])
      else [])"

definition oscColorQuery :: "bytes \<Rightarrow> nat option" where
  "oscColorQuery sequence =
     (if sequence = ''10;?'' then Some ColorQueryForeground
      else if sequence = ''11;?'' then Some ColorQueryBackground
      else None)"

text \<open>
  The loop of \<^verbatim>\<open>feedLocked\<close> over the buffered bytes: the replies it appends and the bytes
  it leaves pending. Every turn that goes on has dropped at least one byte.
\<close>

function feed_loop :: "queryResponder \<Rightarrow> bytes \<Rightarrow> pendingQueryReply list \<times> bytes" where
  "feed_loop r buf =
     (case IndexByte buf ESC of None \<Rightarrow> ([], [])
      | Some index \<Rightarrow>
          let p = drop index buf in
          if length p < 2 then ([], p)
          else if p ! 1 = CHR ''['' then
            (case csiFinal (drop 2 p) of (final, cmpl) \<Rightarrow>
               if \<not> cmpl then
                 (if 0 \<le> final then feed_loop r (drop 1 p)
                  else if length p > 256 then ([], []) else ([], p))
               else
                 (case feed_loop r (drop (2 + nat final + 1) p) of (replies, rest) \<Rightarrow>
                    (let reply = csiReply r (slice 2 (2 + nat final + 1) p) in
                     (if reply \<noteq> [] then Fixed reply # replies else replies, rest))))
          else if p ! 1 = CHR '']'' then
            (case oscEnd (drop 2 p) of (end_, cmpl) \<Rightarrow>
               if \<not> cmpl then
                 (if 0 \<le> end_ then feed_loop r (drop 1 p)
                  else if length p > 4096 then ([], []) else ([], p))
               else
                 (case feed_loop r (drop (2 + nat end_) p) of (replies, rest) \<Rightarrow>
                    (case oscColorQuery (slice 2 (2 + nat end_) p) of
                       Some kind \<Rightarrow> (ColorKind kind # replies, rest)
                     | None \<Rightarrow> (replies, rest))))
          else feed_loop r (drop 1 p))"
  by pat_completeness auto

termination
  by (relation "measure (\<lambda>(r, buf). length buf)") (auto dest!: IndexByte_less)

declare feed_loop.simps [simp del]

definition feedLocked :: "bytes \<Rightarrow> queryResponder \<Rightarrow> pendingQueryReply list \<times> queryResponder" where
  "feedLocked data r =
     (case feed_loop r (pending r @ data) of (replies, rest) \<Rightarrow> (replies, r\<lparr>pending := rest\<rparr>))"

section \<open>Colours\<close>

text \<open>\<^verbatim>\<open>string(b)\<close> for a byte: the UTF-8 encoding of the rune with that number.\<close>

definition string_of_byte :: "byte \<Rightarrow> bytes" where
  "string_of_byte b =
     (if byte_val b < 128 then [b]
      else [char_of (0xC0 + byte_val b div 64), char_of (0x80 + byte_val b mod 64)])"

definition formatOSCColor :: "(bytes \<Rightarrow> bytes) \<Rightarrow> bytes \<Rightarrow> bytes option" where
  "formatOSCColor uni color =
     (let value = TrimSpace color in
      if hasPrefix ''rgb:'' (ToLower uni value) then
        (let components = Split (drop 4 value) CHR ''/'' in
         if length components \<noteq> 3 then None
         else if list_all (\<lambda>x. x \<noteq> [] \<and> length x \<le> 4 \<and> ParseUint x 16 16 \<noteq> None) components
         then Some (''rgb:'' @ ToLower uni (Join components ''/'')) else None)
      else
        (let value = TrimPrefix value ''#'';
             value = (if length value = 3
               then concat (map (\<lambda>b. string_of_byte b @ string_of_byte b) value) else value) in
         if length value \<noteq> 6 then None
         else
           (let a = slice 0 2 value; b = slice 2 4 value; c = slice 4 6 value in
            if list_all (\<lambda>x. ParseUint x 16 8 \<noteq> None) [a, b, c]
            then Some (''rgb:'' @ ToLower uni a @ ToLower uni a @ ''/'' @ ToLower uni b @ ToLower uni b @
                   ''/'' @ ToLower uni c @ ToLower uni c)
            else None)))"

fun color_replies ::
  "(bytes \<Rightarrow> bytes) \<Rightarrow> (nat \<Rightarrow> bytes option) option \<Rightarrow> pendingQueryReply list \<Rightarrow> bytes list" where
  "color_replies uni callback [] = []"
| "color_replies uni callback (Fixed reply # rest) =
     (if reply \<noteq> [] then [reply] else []) @ color_replies uni callback rest"
| "color_replies uni callback (ColorKind kind # rest) =
     (case callback of None \<Rightarrow> []
      | Some f \<Rightarrow>
          if kind = 0 then []
          else case f kind of None \<Rightarrow> []
            | Some color \<Rightarrow> (case formatOSCColor uni color of None \<Rightarrow> []
                | Some value \<Rightarrow> [ESC # '']'' @ dec kind @ '';'' @ value @ [ESC, backslash]])) @
     color_replies uni callback rest"

definition Feed ::
  "(bytes \<Rightarrow> bytes) \<Rightarrow> (nat \<Rightarrow> bytes option) option \<Rightarrow> bytes \<Rightarrow> queryResponder \<Rightarrow>
   bytes list \<times> queryResponder" where
  "Feed uni callback data r =
     (case feedLocked data r of (replies, r1) \<Rightarrow> (color_replies uni callback replies, r1))"

section \<open>The scanner, case by case\<close>

lemma feed_Nil [simp]: "feed_loop r [] = ([], [])"
  by (simp add: feed_loop.simps IndexByte_def)

lemma IndexByte_hd [simp]: "IndexByte (c # s) c = Some 0"
  by (simp add: IndexByte_def)

lemma IndexByte_skip:
  "c \<notin> set a \<Longrightarrow> IndexByte (a @ b) c = map_option (\<lambda>i. length a + i) (IndexByte b c)"
  using find_index_None [of "\<lambda>x. x = c" a] by (auto simp: IndexByte_def find_index_append)

lemma feed_skip:
  assumes "ESC \<notin> set a"
  shows "feed_loop r (a @ b) = feed_loop r b"
  by (cases "IndexByte b ESC")
    (simp_all add: feed_loop.simps [of r "a @ b"] feed_loop.simps [of r b] IndexByte_skip [OF assms] Let_def)

lemma feed_skip1 [simp]: "c \<noteq> ESC \<Longrightarrow> feed_loop r (c # t) = feed_loop r t"
  using feed_skip [of "[c]" r t] by simp

lemma feed_ESC [simp]: "feed_loop r [ESC] = ([], [ESC])"
  by (simp add: feed_loop.simps)

lemma feed_other:
  "c \<noteq> CHR ''['' \<Longrightarrow> c \<noteq> CHR '']'' \<Longrightarrow> feed_loop r (ESC # c # t) = feed_loop r (c # t)"
  by (simp add: feed_loop.simps [of r "ESC # c # t"])

definition add_reply :: "pendingQueryReply list \<Rightarrow> pendingQueryReply list \<times> bytes \<Rightarrow> pendingQueryReply list \<times> bytes" where
  "add_reply new res = (new @ fst res, snd res)"

definition csi_found :: "queryResponder \<Rightarrow> bytes \<Rightarrow> pendingQueryReply list" where
  "csi_found r sequence = (if csiReply r sequence \<noteq> [] then [Fixed (csiReply r sequence)] else [])"

definition osc_found :: "bytes \<Rightarrow> pendingQueryReply list" where
  "osc_found sequence = (case oscColorQuery sequence of Some kind \<Rightarrow> [ColorKind kind] | None \<Rightarrow> [])"

lemma add_reply_append: "add_reply (a @ b) res = add_reply a (add_reply b res)"
  by (simp add: add_reply_def)

lemma feed_csi:
  "feed_loop r (ESC # CHR ''['' # t) =
     (case csiFinal t of (f, cm) \<Rightarrow>
        if \<not> cm then
          (if 0 \<le> f then feed_loop r t
           else if length t > 254 then ([], []) else ([], ESC # CHR ''['' # t))
        else add_reply (csi_found r (take (nat f + 1) t)) (feed_loop r (drop (nat f + 1) t)))"
  by (auto simp: feed_loop.simps [of r "ESC # CHR ''['' # t"] slice_def csi_found_def add_reply_def Let_def
      split: prod.split)

lemma feed_osc:
  "feed_loop r (ESC # CHR '']'' # t) =
     (case oscEnd t of (f, cm) \<Rightarrow>
        if \<not> cm then
          (if 0 \<le> f then feed_loop r t
           else if length t > 4094 then ([], []) else ([], ESC # CHR '']'' # t))
        else add_reply (osc_found (take (nat f) t)) (feed_loop r (drop (nat f) t)))"
  by (auto simp: feed_loop.simps [of r "ESC # CHR '']'' # t"] slice_def osc_found_def add_reply_def Let_def
      split: prod.split option.split)

lemma csiFinal_range: "csiFinal t = (f, cm) \<Longrightarrow> f = - 1 \<and> \<not> cm \<or> 0 \<le> f \<and> nat f < length t"
  by (induction t arbitrary: f cm) (fastforce split: prod.splits if_splits)+

lemma oscEnd_range: "oscEnd t = (f, cm) \<Longrightarrow> f = - 1 \<and> \<not> cm \<or> 0 \<le> f \<and> nat f < length t"
  by (induction t arbitrary: f cm) (fastforce split: prod.splits if_splits)+

lemma csiFinal_append: "0 \<le> fst (csiFinal t) \<Longrightarrow> csiFinal (t @ b) = csiFinal t"
  by (induction t) (auto split: prod.splits if_splits)

text \<open>An OSC body that stops at the first byte of its two-byte terminator.\<close>

definition cut_body :: "bytes \<Rightarrow> bool" where
  "cut_body t \<longleftrightarrow> t \<noteq> [] \<and> last t = ESC \<and> fst (oscEnd (butlast t)) < 0"

lemma cut_body_Cons:
  "cut_body (c # t) \<longleftrightarrow>
   (if t = [] then c = ESC else c \<noteq> BEL \<and> c \<noteq> ESC \<and> \<not> byte_val c < 0x20 \<and> cut_body t)"
  by (auto simp: cut_body_def split: prod.splits)

lemma oscEnd_append:
  "0 \<le> fst (oscEnd t) \<Longrightarrow> \<not> (cut_body t \<and> b \<noteq> [] \<and> hd b = backslash) \<Longrightarrow> oscEnd (t @ b) = oscEnd t"
proof (induction t)
  case (Cons c t)
  then show ?case
    by (cases "t = []") (auto simp: cut_body_Cons hd_append split: prod.splits if_splits)
qed simp

section \<open>Where a chunk boundary matters\<close>

text \<open>
  Two kinds of input are not scanned the same in two chunks as in one. The first is an
  unfinished sequence that has outgrown the bound of the buffer: it is given up. The second
  is an OSC sequence cut between the two bytes of its terminator.
\<close>

fun overlong :: "bytes \<Rightarrow> bool" where
  "overlong [] = False"
| "overlong (c # t) =
     (c = ESC \<and> t \<noteq> [] \<and>
        (hd t = CHR ''['' \<and> fst (csiFinal (List.tl t)) < 0 \<and> length (List.tl t) > 254 \<or>
         hd t = CHR '']'' \<and> fst (oscEnd (List.tl t)) < 0 \<and> length (List.tl t) > 4094) \<or>
      overlong t)"

fun cut_terminator :: "bytes \<Rightarrow> bool" where
  "cut_terminator [] = False"
| "cut_terminator (c # t) =
     (c = ESC \<and> t \<noteq> [] \<and> hd t = CHR '']'' \<and> cut_body (List.tl t) \<or> cut_terminator t)"

lemma overlong_drop: "overlong (drop k s) \<Longrightarrow> overlong s"
proof (induction s arbitrary: k)
  case (Cons c s)
  then show ?case by (cases k) auto
qed simp

lemma cut_terminator_drop: "cut_terminator (drop k s) \<Longrightarrow> cut_terminator s"
proof (induction s arbitrary: k)
  case (Cons c s)
  then show ?case by (cases k) auto
qed simp

text \<open>Induction along the scanner: what is left after each kind of turn.\<close>

lemma feed_induct [case_names Nil skip single csi osc other]:
  assumes "P []" and "\<And>c t. c \<noteq> ESC \<Longrightarrow> P t \<Longrightarrow> P (c # t)" and "P [ESC]"
    and "\<And>t. (\<And>k. P (drop k t)) \<Longrightarrow> P (ESC # CHR ''['' # t)"
    and "\<And>t. (\<And>k. P (drop k t)) \<Longrightarrow> P (ESC # CHR '']'' # t)"
    and "\<And>c t. c \<noteq> CHR ''['' \<Longrightarrow> c \<noteq> CHR '']'' \<Longrightarrow> P (c # t) \<Longrightarrow> P (ESC # c # t)"
  shows "P s"
proof (induction "length s" arbitrary: s rule: less_induct)
  case less
  show ?case
  proof (cases s)
    case Nil
    with assms(1) show ?thesis by simp
  next
    case (Cons c t)
    show ?thesis
    proof (cases t)
      case Nil
      with Cons assms(1,2,3) show ?thesis by (cases "c = ESC") auto
    next
      case (Cons c' u)
      have t: "P t" and u: "\<And>k. P (drop k u)"
        using \<open>s = c # t\<close> Cons less by simp_all
      show ?thesis
        unfolding \<open>s = c # t\<close> Cons using t u assms(2) [of c t] assms(4,5) [of u] assms(6) [of c' u] Cons
        by (cases "c = ESC"; cases "c' = CHR ''['' \<or> c' = CHR '']''") blast+
    qed
  qed
qed

lemma feed_chunks:
  assumes "\<not> overlong s" and "\<not> (cut_terminator s \<and> b \<noteq> [] \<and> hd b = backslash)"
  shows "feed_loop r (s @ b) = add_reply (fst (feed_loop r s)) (feed_loop r (snd (feed_loop r s) @ b))"
  using assms
proof (induction s rule: feed_induct)
  case Nil
  then show ?case by (simp add: add_reply_def)
next
  case (skip c t)
  then show ?case by simp
next
  case single
  then show ?case by (simp add: add_reply_def)
next
  case (csi t)
  obtain f cm where fc: "csiFinal t = (f, cm)" by fastforce
  have rest: "feed_loop r (drop k t @ b) =
      add_reply (fst (feed_loop r (drop k t))) (feed_loop r (snd (feed_loop r (drop k t)) @ b))" for k
    using csi.IH [of k] csi.prems overlong_drop [of k t] cut_terminator_drop [of k t] by auto
  show ?case
  proof (cases "0 \<le> f")
    case True
    then have "csiFinal (t @ b) = (f, cm)" "nat f < length t"
      using csiFinal_append [of t b] csiFinal_range [OF fc] fc by auto
    then show ?thesis
      using fc True rest [of 0] rest [of "nat f + 1"]
      by (cases cm) (simp_all add: feed_csi add_reply_def)
  next
    case False
    then show ?thesis using fc csi.prems csiFinal_range [OF fc] by (simp add: feed_csi add_reply_def)
  qed
next
  case (osc t)
  obtain f cm where fc: "oscEnd t = (f, cm)" by fastforce
  have rest: "feed_loop r (drop k t @ b) =
      add_reply (fst (feed_loop r (drop k t))) (feed_loop r (snd (feed_loop r (drop k t)) @ b))" for k
    using osc.IH [of k] osc.prems overlong_drop [of k t] cut_terminator_drop [of k t] by auto
  show ?case
  proof (cases "0 \<le> f")
    case True
    then have "oscEnd (t @ b) = (f, cm)" "nat f < length t"
      using oscEnd_append [of t b] oscEnd_range [OF fc] fc osc.prems(2) by auto
    then show ?thesis
      using fc True rest [of 0] rest [of "nat f"]
      by (cases cm) (simp_all add: feed_osc add_reply_def)
  next
    case False
    then show ?thesis using fc osc.prems oscEnd_range [OF fc] by (simp add: feed_osc add_reply_def)
  qed
next
  case (other c t)
  then show ?case by (simp add: feed_other)
qed

lemma csiReply_pending [simp]: "csiReply (r\<lparr>pending := x\<rparr>) = csiReply r"
  by (simp add: csiReply_def fun_eq_iff Let_def)

lemma feed_loop_pending [simp]: "feed_loop (r\<lparr>pending := x\<rparr>) s = feed_loop r s"
proof (induction s rule: feed_induct)
  case (csi t)
  from csi.IH [of 0] csi.IH [of "nat (fst (csiFinal t)) + 1"] show ?case
    by (simp add: feed_csi csi_found_def case_prod_beta)
next
  case (osc t)
  from osc.IH [of 0] osc.IH [of "nat (fst (oscEnd t))"] show ?case
    by (simp add: feed_osc case_prod_beta)
qed (simp_all add: feed_other)

lemma color_replies_append:
  "color_replies uni cb (a @ b) = color_replies uni cb a @ color_replies uni cb b"
  by (induction uni cb a rule: color_replies.induct) simp_all

section \<open>Properties\<close>

text \<open>
  C33. Queries split across chunks: feeding two chunks of any length one after the other
  gives the same replies, in the same order, and leaves the same state as feeding them as
  one. There are exactly two exceptions, and both are excluded by name: what is buffered
  with the first chunk ends in an unfinished control sequence of more than 256 bytes, or an
  unfinished operating-system command of more than 4096, which the responder gives up; or
  it ends in an operating-system command cut between the two bytes ESC and backslash of its
  terminator, with the backslash first in the next chunk.
\<close>

theorem responder_chunks:
  assumes "\<not> overlong (pending r @ a)"
    and "\<not> (cut_terminator (pending r @ a) \<and> b \<noteq> [] \<and> hd b = backslash)"
  shows "Feed uni callback (a @ b) r =
    (fst (Feed uni callback a r) @ fst (Feed uni callback b (snd (Feed uni callback a r))),
     snd (Feed uni callback b (snd (Feed uni callback a r))))"
  using feed_chunks [OF assms, of r]
  by (simp add: Feed_def feedLocked_def case_prod_beta add_reply_def color_replies_append)

theorem responder_chunks_witness:
  "fst (Feed id None ([ESC] @ ''[6'' @ ''n'') NewQueryResponder) = [ESC # ''[1;1R''] \<and>
   fst (Feed id None ([ESC] @ ''[6'') NewQueryResponder) = []"
proof -
  let ?r = "NewQueryResponder\<lparr>pending := ESC # ''[6''\<rparr>"
  have first: "Feed id None ([ESC] @ ''[6'') NewQueryResponder = ([], ?r)"
    by (simp add: Feed_def feedLocked_def NewQueryResponder_def feed_csi)
  have "Feed id None ''n'' ?r = ([ESC # ''[1;1R''], NewQueryResponder)"
    by (simp add: Feed_def feedLocked_def NewQueryResponder_def feed_csi csi_found_def csiReply_def add_reply_def)
  moreover have "\<not> overlong (pending NewQueryResponder @ [ESC] @ ''[6'')"
    "\<not> cut_terminator (pending NewQueryResponder @ [ESC] @ ''[6'')"
    by (simp_all add: NewQueryResponder_def go_simps)
  ultimately show ?thesis
    using first responder_chunks [of NewQueryResponder "[ESC] @ ''[6''" "''n''" id None]
    by (simp add: NewQueryResponder_def)
qed

text \<open>
  The responder's memory is bounded whatever the child writes: after any feed the
  buffer is empty, or it is the start of one sequence: a lone ESC, an unfinished CSI
  sequence of at most 256 bytes or an unfinished OSC sequence of at most 4096.
\<close>

lemma responder_bounded:
  "pending (snd (Feed uni callback data r)) \<in>
     {[], [ESC]} \<union> {ESC # CHR ''['' # t | t. length t \<le> 254} \<union> {ESC # CHR '']'' # t | t. length t \<le> 4094}"
proof -
  have "snd (feed_loop r s) \<in>
      {[], [ESC]} \<union> {ESC # CHR ''['' # t | t. length t \<le> 254} \<union> {ESC # CHR '']'' # t | t. length t \<le> 4094}" for s
  proof (induction s rule: feed_induct)
    case (csi t)
    from csi.IH [of 0] csi.IH [of "nat (fst (csiFinal t)) + 1"] show ?case
      by (simp add: feed_csi add_reply_def case_prod_beta)
  next
    case (osc t)
    from osc.IH [of 0] osc.IH [of "nat (fst (oscEnd t))"] show ?case
      by (simp add: feed_osc add_reply_def case_prod_beta)
  qed (simp_all add: feed_other)
  then show ?thesis by (simp add: Feed_def feedLocked_def case_prod_beta)
qed

lemma csiFinal_params:
  "\<forall>c \<in> set params. 0x20 \<le> byte_val c \<and> byte_val c < 0x40 \<Longrightarrow>
   0x40 \<le> byte_val final \<Longrightarrow> byte_val final \<le> 0x7e \<Longrightarrow>
   csiFinal (params @ final # post) = (int (length params), True)"
  by (induction params) (auto simp: not_le)

text \<open>
  A control-sequence query is answered wherever it stands in the output: after any bytes
  without an escape, a CSI sequence with parameter bytes and a final byte gives exactly the
  reply of \<^verbatim>\<open>csiReply\<close> (if it has one), and scanning goes on behind it.
\<close>

lemma csi_query_answered:
  assumes "pending r = []" and "ESC \<notin> set pre"
    and "\<forall>c \<in> set params. 0x20 \<le> byte_val c \<and> byte_val c < 0x40"
    and "0x40 \<le> byte_val final" and "byte_val final \<le> 0x7e"
  shows "fst (Feed uni callback (pre @ ESC # CHR ''['' # params @ final # post) r) =
    (if csiReply r (params @ [final]) = [] then [] else [csiReply r (params @ [final])]) @
    fst (Feed uni callback post r)"
proof -
  have "feed_loop r (pre @ ESC # CHR ''['' # params @ final # post) =
      add_reply (csi_found r (params @ [final])) (feed_loop r post)"
    using csiFinal_params [OF assms(3-5), of post]
    by (simp add: feed_skip [OF assms(2)] feed_csi)
  then show ?thesis
    using assms(1)
    by (simp add: Feed_def feedLocked_def case_prod_beta add_reply_def csi_found_def)
qed

text \<open>
  Both exceptions of the chunk theorem are real. A query of more than 256 bytes is answered
  when it arrives in one chunk, and given up when its start arrives alone.
\<close>

lemma csiFinal_unfinished: "csiFinal (replicate n CHR ''0'') = (- 1, False)"
  by (induction n) simp_all

lemma overlong_lost:
  "fst (Feed id None (ESC # CHR ''['' # replicate 255 CHR ''0'' @ ''c'') NewQueryResponder) = [ESC # ''[?62;c''] \<and>
   Feed id None (ESC # CHR ''['' # replicate 255 CHR ''0'') NewQueryResponder = ([], NewQueryResponder)"
proof -
  have hd: "hd (replicate 255 CHR ''0'') = CHR ''0''" by (simp add: hd_replicate)
  have "csiFinal (replicate 255 CHR ''0'' @ ''c'') = (255, True)"
    using csiFinal_params [of "replicate 255 CHR ''0''" "CHR ''c''" "[]"] by simp
  then show ?thesis
    using csiFinal_unfinished [of 255] hd
    by (simp add: Feed_def feedLocked_def NewQueryResponder_def feed_csi csi_found_def csiReply_def
        add_reply_def butlast_append)
qed

text \<open>
  A query whose terminator is split is dropped: the colour query OSC 11 terminated by ST
  is answered when it arrives in one chunk, and lost when the chunk boundary falls between
  the two bytes of the terminator.
\<close>

lemma split_terminator_lost:
  "fst (Feed id (Some (\<lambda>k. Some ''#000000'')) (ESC # '']11;?'' @ [ESC, backslash]) NewQueryResponder) =
     [ESC # '']11;rgb:0000/0000/0000'' @ [ESC, backslash]] \<and>
   fst (Feed id (Some (\<lambda>k. Some ''#000000'')) (ESC # '']11;?'' @ [ESC]) NewQueryResponder) = [] \<and>
   fst (Feed id (Some (\<lambda>k. Some ''#000000'')) [backslash]
     (snd (Feed id (Some (\<lambda>k. Some ''#000000'')) (ESC # '']11;?'' @ [ESC]) NewQueryResponder))) = []"
proof -
  have color: "formatOSCColor id ''#000000'' = Some ''rgb:0000/0000/0000''"
    by (simp add: formatOSCColor_def TrimSpace_def trim_encodings.simps leading_def space_encodings_def
        ToLower_def is_ascii_def lower_ascii_def TrimPrefix_def ParseUint_def digit_val_def slice_def Let_def)
  have [simp]: "feed_loop r [backslash] = ([], [])" "feed_loop r [ESC, backslash] = ([], [])" for r
    by (simp_all add: feed_other)
  show ?thesis
    using color
    by (simp add: Feed_def feedLocked_def NewQueryResponder_def feed_osc osc_found_def oscColorQuery_def
        ColorQueryBackground_def ColorQueryForeground_def add_reply_def dec.simps digit_char_def go_simps)
qed

end
