(* ===== verification/Semantic.thy ===== *)
theory Semantic
  imports Go_Strings
begin

text \<open>
  OSC 133 semantic prompt markers in PTY output (\<^verbatim>\<open>semantic.go\<close>): the scan of one chunk
  for complete markers, and the parse of the exit status that the marker \<^verbatim>\<open>D\<close> carries.
  Positions are byte indices into the chunk.
\<close>

section \<open>Definitions\<close>

definition osc133Prefix :: bytes where
  "osc133Prefix = ESC # '']133;''"

definition osc133Suffix :: bytes where
  "osc133Suffix = '']133;''"

definition maxSemanticExitDigits :: nat where
  "maxSemanticExitDigits = 6"

record osc133Span =
  span_kind :: byte
  span_exitCode :: int
  span_hasExit :: bool
  span_end :: nat

text \<open>The loop of \<^verbatim>\<open>parseOSC133Exit\<close>; \<open>None\<close> is its early return of "unknown".\<close>

fun exit_digits :: "bytes \<Rightarrow> int \<Rightarrow> nat \<Rightarrow> (int \<times> nat) option" where
  "exit_digits [] value digits = Some (value, digits)"
| "exit_digits (digit # rest) value digits =
     (if digit = CHR '';'' then Some (value, digits)
      else if digit < CHR ''0'' \<or> digit > CHR ''9'' then None
      else if digits \<ge> maxSemanticExitDigits then None
      else exit_digits rest (value * 10 + int (byte_val digit - 48)) (digits + 1))"

definition parseOSC133Exit :: "bytes \<Rightarrow> int \<times> bool" where
  "parseOSC133Exit payload =
     (if payload = [] \<or> hd payload \<noteq> CHR '';'' then (0, False)
      else case exit_digits (tl payload) 0 0 of None \<Rightarrow> (0, False)
        | Some (value, digits) \<Rightarrow> if digits = 0 then (0, False) else (value, True))"

text \<open>The terminator: its index and length, searched from \<open>index\<close> on.\<close>

function osc133_terminator :: "bytes \<Rightarrow> nat \<Rightarrow> (nat \<times> nat) option" where
  "osc133_terminator data index =
     (if length data \<le> index then None
      else if data ! index = BEL then Some (index, 1)
      else if data ! index = ESC \<and> index + 1 < length data \<and> data ! (index + 1) = backslash
        then Some (index, 2)
      else osc133_terminator data (index + 1))"
  by pat_completeness auto
termination by (relation "measure (\<lambda>(data, index). length data - index)") auto

declare osc133_terminator.simps [simp del]

definition parseOSC133At :: "bytes \<Rightarrow> nat \<Rightarrow> osc133Span \<times> bool" where
  "parseOSC133At data start =
     (let span = \<lparr>span_kind = NUL, span_exitCode = 0, span_hasExit = False, span_end = length data\<rparr>;
          body = start + length osc133Prefix in
      if body \<ge> length data then (span, False)
      else
        (let span = span\<lparr>span_kind := data ! body\<rparr> in
         case osc133_terminator data (body + 1) of
           None \<Rightarrow> (span, False)
         | Some (index, n) \<Rightarrow>
             (let span =
                (if span_kind span = CHR ''D'' then
                   (case parseOSC133Exit (slice (body + 1) index data) of (code, has) \<Rightarrow>
                      span\<lparr>span_exitCode := code, span_hasExit := has\<rparr>)
                 else span) in
              (span\<lparr>span_end := index + n\<rparr>, True))))"

function find_spans :: "bytes \<Rightarrow> nat \<Rightarrow> osc133Span list" where
  "find_spans data position =
     (if position \<ge> length data then []
      else case Index (drop position data) osc133Suffix of None \<Rightarrow> []
        | Some i \<Rightarrow>
            (let index = i + position in
             if index = 0 \<or> data ! (index - 1) \<noteq> ESC then find_spans data (index + 1)
             else case parseOSC133At data (index - 1) of (span, ok) \<Rightarrow>
               if span_end span \<le> position then find_spans data (index + length osc133Suffix)
               else if ok then span # find_spans data (span_end span)
               else find_spans data (span_end span)))"
  by pat_completeness auto
termination
  by (relation "measure (\<lambda>(data, position). length data - position)")
    (auto simp: osc133Suffix_def)

declare find_spans.simps [simp del]

definition findOSC133 :: "bytes \<Rightarrow> osc133Span list" where
  "findOSC133 data = (if Index data osc133Suffix = None then [] else find_spans data 0)"

section \<open>The exit status\<close>

lemma digit_range:
  assumes "\<not> (c < CHR ''0'' \<or> c > CHR ''9'')"
  shows "byte_val c - 48 < 10"
  using assms by (auto simp: not_less less_eq_char_def)

lemma exit_digits_bound:
  assumes "exit_digits s val digits = Some (v, n)" and "0 \<le> val" and "val < 10 ^ digits"
    and "digits \<le> maxSemanticExitDigits"
  shows "0 \<le> v \<and> v < 10 ^ n \<and> n \<le> maxSemanticExitDigits"
  using assms
proof (induction s val digits rule: exit_digits.induct)
  case (2 digit rest val digits)
  show ?case
  proof (cases "digit = CHR '';''")
    case True
    with 2(2-5) show ?thesis by simp
  next
    case False
    then have digit: "\<not> (digit < CHR ''0'' \<or> digit > CHR ''9'')" "\<not> digits \<ge> maxSemanticExitDigits"
      using 2(2) by (auto split: if_splits)
    have "int (byte_val digit - 48) < 10" using digit_range [OF digit(1)] by simp
    then have "val * 10 + int (byte_val digit - 48) < 10 ^ (digits + 1)"
      using 2(4) by simp
    with 2(1) [OF False digit] 2(2,3) digit False show ?thesis by auto
  qed
qed simp

lemma exit_digits_run:
  assumes "\<forall>c \<in> set ds. CHR ''0'' \<le> c \<and> c \<le> CHR ''9''"
    and "length ds + digits \<le> maxSemanticExitDigits" and "rest = [] \<or> hd rest = CHR '';''"
    and "parse_digits 10 acc ds = Some n"
  shows "exit_digits (ds @ rest) (int acc) digits = Some (int n, digits + length ds)"
  using assms
proof (induction ds arbitrary: acc digits)
  case Nil
  then show ?case by (cases rest) auto
next
  case (Cons c ds)
  then have c: "CHR ''0'' \<le> c" "c \<le> CHR ''9''" "c \<noteq> CHR '';''" by auto
  then have digit: "\<not> (c < CHR ''0'' \<or> c > CHR ''9'')" by (simp add: not_less)
  have "digit_val c = Some (byte_val c - 48)" "byte_val c - 48 < 10"
    using c digit_range [OF digit] by (simp_all add: digit_val_def)
  with Cons.prems(4) have "parse_digits 10 (acc * 10 + (byte_val c - 48)) ds = Some n" by simp
  with Cons.IH [of "digits + 1" "acc * 10 + (byte_val c - 48)"] Cons.prems c digit show ?case by simp
qed

text \<open>
  Exit statuses: the payload \<^verbatim>\<open>;n\<close> of a \<^verbatim>\<open>D\<close> marker, possibly followed by further
  fields, is read back as \<open>n\<close> for every status below a million; and no accepted payload
  gives a status outside that range.
\<close>

lemma exit_status_exact:
  "(\<forall>n < 10 ^ 6. \<forall>rest. rest = [] \<or> hd rest = CHR '';'' \<longrightarrow>
      parseOSC133Exit (CHR '';'' # dec n @ rest) = (int n, True)) \<and>
   (\<forall>payload v. parseOSC133Exit payload = (v, True) \<longrightarrow> 0 \<le> v \<and> v < 10 ^ 6)"
proof (intro conjI allI impI)
  fix n :: nat and rest
  assume n: "n < 10 ^ 6" and rest: "rest = [] \<or> hd rest = CHR '';''"
  have "exit_digits (dec n @ rest) (int 0) 0 = Some (int n, 0 + length (dec n))"
  proof (rule exit_digits_run [OF _ _ rest parse_digits_dec])
    show "\<forall>c \<in> set (dec n). CHR ''0'' \<le> c \<and> c \<le> CHR ''9''" using set_dec by blast
    show "length (dec n) + 0 \<le> maxSemanticExitDigits"
      using length_dec [of n 5] n by (simp add: maxSemanticExitDigits_def)
  qed
  then show "parseOSC133Exit (CHR '';'' # dec n @ rest) = (int n, True)"
    by (simp add: parseOSC133Exit_def)
next
  fix payload v
  assume "parseOSC133Exit payload = (v, True)"
  then obtain n where "exit_digits (tl payload) 0 0 = Some (v, n)"
    by (auto simp: parseOSC133Exit_def split: if_splits option.splits prod.splits)
  from exit_digits_bound [OF this] have "0 \<le> v" "v < 10 ^ n" "n \<le> 6"
    by (auto simp: maxSemanticExitDigits_def)
  then show "0 \<le> v" and "v < 10 ^ 6" using power_increasing [of n 6 "10 :: int"] by auto
qed

section \<open>The spans of a chunk\<close>

lemma osc133_terminator_Some:
  assumes "osc133_terminator data index = Some (i, n)"
  shows "index \<le> i \<and> i + n \<le> length data \<and>
    (data ! i = BEL \<and> n = 1 \<or> data ! i = ESC \<and> data ! (i + 1) = backslash \<and> n = 2)"
  using assms
  by (induction data index rule: osc133_terminator.induct)
    (subst (asm) osc133_terminator.simps, auto split: if_splits)

text \<open>A span in a chunk: a complete marker that ends where the span says.\<close>

definition marker_at :: "bytes \<Rightarrow> nat \<Rightarrow> osc133Span \<Rightarrow> bool" where
  "marker_at data start span \<longleftrightarrow>
     hasPrefix osc133Prefix (drop start data) \<and>
     start + length osc133Prefix < span_end span \<and> span_end span \<le> length data \<and>
     span_kind span = data ! (start + length osc133Prefix) \<and>
     (data ! (span_end span - 1) = BEL \<or>
      data ! (span_end span - 2) = ESC \<and> data ! (span_end span - 1) = backslash)"

lemma parseOSC133At_end: "start + length osc133Prefix \<le> length data \<Longrightarrow>
  parseOSC133At data start = (span, ok) \<Longrightarrow> start + length osc133Prefix \<le> span_end span"
  by (auto simp: parseOSC133At_def Let_def dest!: osc133_terminator_Some
      split: if_splits option.splits prod.splits)

lemma parseOSC133At_ok:
  assumes "parseOSC133At data start = (span, True)" and "hasPrefix osc133Prefix (drop start data)"
  shows "marker_at data start span"
  using assms
  by (auto simp: parseOSC133At_def marker_at_def Let_def dest!: osc133_terminator_Some
      split: if_splits option.splits prod.splits)

lemma prefix_before_suffix:
  assumes "hasPrefix osc133Suffix (drop index data)" and "0 < index" and "data ! (index - 1) = ESC"
    and "index < length data"
  shows "hasPrefix osc133Prefix (drop (index - 1) data)"
    and "index - 1 + length osc133Prefix \<le> length data"
proof -
  have "drop (index - 1) data = ESC # drop index data"
    using assms(2-4) Cons_nth_drop_Suc [of "index - 1" data] by simp
  then show pre: "hasPrefix osc133Prefix (drop (index - 1) data)"
    using assms(1) by (simp add: osc133Prefix_def osc133Suffix_def)
  show "index - 1 + length osc133Prefix \<le> length data"
    using hasPrefix_length [OF pre] assms(4) by (simp add: osc133Prefix_def)
qed

text \<open>Markers in order and without overlap: each starts where the one before ended, or later.\<close>

fun spans_from :: "bytes \<Rightarrow> nat \<Rightarrow> osc133Span list \<Rightarrow> bool" where
  "spans_from data pos [] = True"
| "spans_from data pos (s # ss) =
     ((\<exists>start \<ge> pos. marker_at data start s) \<and> spans_from data (span_end s) ss)"

lemma spans_from_mono: "spans_from data q ss \<Longrightarrow> p \<le> q \<Longrightarrow> spans_from data p ss"
  by (cases ss) (auto intro: order_trans)

lemma marker_end_not_ESC: "marker_at data start s \<Longrightarrow> data ! (span_end s - 1) \<noteq> ESC"
  by (auto simp: marker_at_def)

lemma find_spans_wf:
  assumes "pos = 0 \<or> data ! (pos - 1) \<noteq> ESC"
  shows "spans_from data pos (find_spans data pos)"
  using assms
proof (induction data pos rule: find_spans.induct)
  case (1 data pos)
  show ?case
  proof (cases "pos \<ge> length data \<or> Index (drop pos data) osc133Suffix = None")
    case True
    then show ?thesis by (auto simp: find_spans.simps [of data pos])
  next
    case False
    then obtain i where i: "Index (drop pos data) osc133Suffix = Some i" and pos: "pos < length data" by auto
    let ?index = "i + pos"
    have at: "hasPrefix osc133Suffix (drop ?index data)" "?index < length data"
      using Index_Some [OF i] by (simp_all add: less_diff_conv)
    show ?thesis
    proof (cases "?index = 0 \<or> data ! (?index - 1) \<noteq> ESC")
      case True
      have "data ! ?index \<noteq> ESC"
        using at by (cases "drop ?index data") (auto simp: osc133Suffix_def nth_via_drop)
      then have "spans_from data (?index + 1) (find_spans data (?index + 1))"
        using 1(1) [of i ?index] True i pos by simp
      then show ?thesis
        using True i pos spans_from_mono by (simp add: find_spans.simps [of data pos] Let_def)
    next
      case False
      let ?start = "?index - 1"
      obtain span ok where parse: "parseOSC133At data ?start = (span, ok)" by fastforce
      note pre = prefix_before_suffix [OF at(1) _ _ at(2)]
      have ends: "?start + length osc133Prefix \<le> span_end span"
        using parseOSC133At_end [OF pre(2) parse] False by simp
      then have progress: "\<not> span_end span \<le> pos" using False by (simp add: osc133Prefix_def)
      have start: "pos \<le> ?start" using False 1(5) by (cases i) auto
      show ?thesis
      proof (cases ok)
        case True
        then have m: "marker_at data ?start span"
          using parseOSC133At_ok parse pre(1) False by simp
        have "spans_from data (span_end span) (find_spans data (span_end span))"
          using 1(3) [of i ?index span ok] True i pos False parse progress marker_end_not_ESC [OF m]
          by simp
        then show ?thesis
          using True i pos False parse progress m start by (auto simp: find_spans.simps [of data pos] Let_def)
      next
        case no: False
        then have "span_end span = length data"
          using parse by (auto simp: parseOSC133At_def Let_def split: if_splits option.splits prod.splits)
        then show ?thesis
          using no i pos False parse progress
          by (auto simp: find_spans.simps [of data pos] find_spans.simps [of data "length data"] Let_def)
      qed
    qed
  qed
qed

text \<open>
  The scan is sound: the spans it reports are complete OSC 133 markers of the chunk, in
  order and without overlap, each ending inside the chunk right behind its terminator. The
  branch of the code that guards against a span that makes no progress is never taken.
\<close>

lemma spans_wellformed: "spans_from data 0 (findOSC133 data)"
  using find_spans_wf [of 0 data] by (simp add: findOSC133_def)

lemma Index_skip:
  assumes "sub \<noteq> []" and "hd sub \<notin> set a" and "hasPrefix sub b"
  shows "Index (a @ b) sub = Some (length a)"
  using assms(2)
proof (induction a)
  case Nil
  with assms(1,3) show ?case by (cases b; cases sub) auto
next
  case (Cons x a)
  then show ?case using assms(1) by (cases sub) auto
qed

lemma osc133_terminator_skip:
  assumes "\<forall>c \<in> set mid. c \<noteq> BEL \<and> c \<noteq> ESC"
  shows "osc133_terminator (pre @ mid @ BEL # post) (length pre) = Some (length pre + length mid, 1)"
  using assms
proof (induction mid arbitrary: pre)
  case Nil
  then show ?case by (simp add: osc133_terminator.simps)
next
  case (Cons c mid)
  from Cons.IH [of "pre @ [c]"] Cons.prems show ?case
    by (simp add: osc133_terminator.simps [of "pre @ c # mid @ BEL # post" "length pre"])
qed

text \<open>
  The scan is complete for a marker that stands in one chunk: the first marker of a
  chunk, terminated by BEL, is reported with its letter, its end and, for \<^verbatim>\<open>D\<close>, its exit
  status, and the scan continues right behind it.
\<close>

lemma first_marker_found:
  assumes "CHR '']'' \<notin> set pre" and "\<forall>c \<in> set payload. c \<noteq> BEL \<and> c \<noteq> ESC"
    and "data = pre @ osc133Prefix @ k # payload @ BEL # post"
    and "stop = length pre + length osc133Prefix + length payload + 2"
  shows "findOSC133 data =
    \<lparr>span_kind = k,
     span_exitCode = (if k = CHR ''D'' then fst (parseOSC133Exit payload) else 0),
     span_hasExit = (k = CHR ''D'' \<and> snd (parseOSC133Exit payload)),
     span_end = stop\<rparr> # find_spans data stop"
proof -
  let ?head = "pre @ osc133Prefix @ [k]"
  have data: "data = ?head @ payload @ BEL # post" using assms(3) by simp
  have "Index ((pre @ [ESC]) @ (osc133Suffix @ k # payload @ BEL # post)) osc133Suffix = Some (length (pre @ [ESC]))"
    using assms(1) by (intro Index_skip) (auto simp: osc133Suffix_def)
  then have index: "Index data osc133Suffix = Some (length pre + 1)"
    using assms(3) by (simp add: osc133Prefix_def osc133Suffix_def)
  have "osc133_terminator data (length ?head) = Some (length ?head + length payload, 1)"
    using osc133_terminator_skip [OF assms(2), of ?head post] data by simp
  then have stops: "osc133_terminator data (length pre + length osc133Prefix + 1) =
      Some (length pre + length osc133Prefix + 1 + length payload, 1)" by simp
  have body: "data ! (length pre + length osc133Prefix) = k"
    "slice (length pre + length osc133Prefix + 1) (length pre + length osc133Prefix + 1 + length payload) data = payload"
    "length pre + length osc133Prefix < length data"
    using assms(3) by (simp_all add: nth_append slice_def)
  have "parseOSC133At data (length pre) =
    (\<lparr>span_kind = k, span_exitCode = (if k = CHR ''D'' then fst (parseOSC133Exit payload) else 0),
      span_hasExit = (k = CHR ''D'' \<and> snd (parseOSC133Exit payload)), span_end = stop\<rparr>, True)"
    using stops body assms(4) by (auto simp: parseOSC133At_def Let_def split: prod.split)
  moreover have "data ! length pre = ESC" "data \<noteq> []" using assms(3) by (simp_all add: osc133Prefix_def)
  ultimately show ?thesis
    using index assms(4) by (simp add: findOSC133_def find_spans.simps [of data 0] Let_def)
qed

end
