(* ===== verification/Pwd.thy ===== *)
theory Pwd
  imports Go_Strings
begin

text \<open>
  The working directory a program reports through OSC 7 (\<^verbatim>\<open>pwd.go\<close>): URIs with a scheme
  and an authority, percent escapes, and bare paths. The host name of the machine is a
  parameter (\<open>None\<close>: \<^verbatim>\<open>os.Hostname\<close> failed), and so is \<^verbatim>\<open>strings.ToLower\<close> on text that is
  not ASCII.
\<close>

section \<open>Definitions\<close>

definition hexValue :: "byte \<Rightarrow> nat option" where
  "hexValue v =
     (if CHR ''0'' \<le> v \<and> v \<le> CHR ''9'' then Some (byte_val v - 48)
      else if CHR ''a'' \<le> v \<and> v \<le> CHR ''f'' then Some (byte_val v - 97 + 10)
      else if CHR ''A'' \<le> v \<and> v \<le> CHR ''F'' then Some (byte_val v - 65 + 10)
      else None)"

text \<open>The loop of \<^verbatim>\<open>percentDecode\<close>; \<open>None\<close> is a malformed or truncated escape.\<close>

fun percent_loop :: "bytes \<Rightarrow> bytes option" where
  "percent_loop [] = Some []"
| "percent_loop (c # rest) =
     (if c \<noteq> CHR ''%'' then map_option ((#) c) (percent_loop rest)
      else case rest of
        h # l # rest' \<Rightarrow>
          (case (hexValue h, hexValue l) of
             (Some high, Some low) \<Rightarrow>
               map_option ((#) (char_of (high * 16 + low))) (percent_loop rest')
           | _ \<Rightarrow> None)
      | _ \<Rightarrow> None)"

definition percentDecode :: "bytes \<Rightarrow> bytes option" where
  "percentDecode input = (if CHR ''%'' \<notin> set input then Some input else percent_loop input)"

definition shortHostname :: "bytes \<Rightarrow> bytes" where
  "shortHostname s = (case IndexByte s CHR ''.'' of
     Some i \<Rightarrow> if i > 0 then take i s else s | None \<Rightarrow> s)"

definition isLocalHost :: "(bytes \<Rightarrow> bytes) \<Rightarrow> bytes \<Rightarrow> bytes \<Rightarrow> bool" where
  "isLocalHost uni host local =
     (if EqualFold host ''localhost'' then True
      else if local = [] then False
      else
        (let host = ToLower uni host; local = ToLower uni local in
         if host = local then True else shortHostname host = shortHostname local))"

definition localHostname :: "bytes option \<Rightarrow> bytes" where
  "localHostname host = (case host of Some h \<Rightarrow> h | None \<Rightarrow> [])"

definition absolutePath :: "bytes \<Rightarrow> bytes" where
  "absolutePath s = (let path = Trim s [quote] in if hasPrefix ''/'' path then path else [])"

definition hostPath :: "(bytes \<Rightarrow> bytes) \<Rightarrow> bytes \<Rightarrow> bytes \<Rightarrow> bytes" where
  "hostPath uni rest localHost =
     (let finish = (\<lambda>path. absolutePath (case percentDecode path of Some p \<Rightarrow> p | None \<Rightarrow> path)) in
      if hasPrefix ''/'' rest then finish rest
      else case IndexByte rest CHR ''/'' of
        None \<Rightarrow> []
      | Some slash \<Rightarrow>
          (let host = take slash rest in
           if host \<noteq> [] \<and> \<not> isLocalHost uni host localHost then []
           else finish (drop slash rest)))"

definition splitReportedScheme :: "bytes \<Rightarrow> (bytes \<times> bytes) option" where
  "splitReportedScheme s = (case Index s ''://'' of
     None \<Rightarrow> None
   | Some i \<Rightarrow> if i = 0 then None else Some (take i s, drop (i + 3) s))"

definition parseReportedPwd :: "(bytes \<Rightarrow> bytes) \<Rightarrow> bytes option \<Rightarrow> bytes \<Rightarrow> bytes" where
  "parseReportedPwd uni host raw =
     (let s = TrimSpace raw in
      if s = [] then []
      else case splitReportedScheme s of
        Some (scheme, rest) \<Rightarrow> hostPath uni rest (localHostname host)
      | None \<Rightarrow> absolutePath s)"

section \<open>Percent escapes\<close>

text \<open>The encoder of the reporting side: every byte but letters, digits and the slash is escaped.\<close>

definition hex_digit :: "nat \<Rightarrow> byte" where
  "hex_digit d = (if d < 10 then char_of (48 + d) else char_of (55 + d))"

definition unreserved :: "byte \<Rightarrow> bool" where
  "unreserved c \<longleftrightarrow> c = CHR ''/'' \<or> CHR ''0'' \<le> c \<and> c \<le> CHR ''9'' \<or>
     CHR ''A'' \<le> c \<and> c \<le> CHR ''Z'' \<or> CHR ''a'' \<le> c \<and> c \<le> CHR ''z''"

definition percent_encode :: "bytes \<Rightarrow> bytes" where
  "percent_encode s = concat (map (\<lambda>c. if unreserved c then [c]
     else [CHR ''%'', hex_digit (byte_val c div 16), hex_digit (byte_val c mod 16)]) s)"

lemma hexValue_hex_digit: "d < 16 \<Longrightarrow> hexValue (hex_digit d) = Some d"
  by (auto simp: hexValue_def hex_digit_def less_eq_char_def)

lemma percent_loop_encode: "percent_loop (percent_encode s) = Some s"
proof (induction s)
  case (Cons c s)
  have "byte_val c < 256" by (rule nat_of_char_less_256)
  then have "char_of (byte_val c div 16 * 16 + byte_val c mod 16) = c" "byte_val c div 16 < 16"
    by (simp_all add: less_mult_imp_div_less)
  moreover have "unreserved c \<Longrightarrow> c \<noteq> CHR ''%''" by (auto simp: unreserved_def)
  ultimately show ?case
    using Cons by (auto simp: percent_encode_def hexValue_hex_digit)
qed (simp add: percent_encode_def)

lemma percentDecode_encode: "percentDecode (percent_encode s) = Some s"
proof (cases "CHR ''%'' \<in> set (percent_encode s)")
  case True
  then show ?thesis by (simp add: percentDecode_def percent_loop_encode)
next
  case False
  then have "\<forall>c \<in> set s. unreserved c" by (auto simp: percent_encode_def split: if_splits)
  then have "percent_encode s = s" by (induction s) (auto simp: percent_encode_def)
  with False show ?thesis by (simp add: percentDecode_def)
qed

section \<open>Text without white space\<close>

definition printable :: "byte \<Rightarrow> bool" where
  "printable c \<longleftrightarrow> 0x20 < byte_val c \<and> byte_val c < 0x80"

lemma leading_printable:
  assumes "s = [] \<or> printable (hd s)"
  shows "leading space_encodings s = None" and "leading (map rev space_encodings) s = None"
proof -
  have "\<forall>e \<in> set space_encodings. e \<noteq> [] \<and> \<not> printable (hd e)"
    and "\<forall>e \<in> set (map rev space_encodings). e \<noteq> [] \<and> \<not> printable (hd e)"
    by (simp_all add: space_encodings_def printable_def)
  moreover have "\<not> hasPrefix e s" if "e \<noteq> []" "\<not> printable (hd e)" for e
    using that assms by (cases e; cases s) auto
  ultimately show "leading space_encodings s = None" and "leading (map rev space_encodings) s = None"
    unfolding leading_def find_None_iff by blast+
qed

lemma TrimSpace_printable:
  assumes "s = [] \<or> printable (hd s) \<and> printable (last s)"
  shows "TrimSpace s = s"
proof -
  have "trim_encodings space_encodings s = s"
    using leading_printable(1) [of s] assms by (auto simp: trim_encodings.simps)
  moreover have "trim_encodings (map rev space_encodings) (rev s) = rev s"
    using leading_printable(2) [of "rev s"] assms by (auto simp: trim_encodings.simps hd_rev)
  ultimately show ?thesis by (simp add: TrimSpace_def)
qed

lemma printable_hex: "d < 16 \<Longrightarrow> printable (hex_digit d)"
  by (auto simp: hex_digit_def printable_def)

lemma printable_encode: "c \<in> set (percent_encode s) \<Longrightarrow> printable c"
proof -
  have "byte_val x div 16 < 16" for x :: byte
    using nat_of_char_less_256 [of x] by (simp add: less_mult_imp_div_less)
  moreover have "printable x" if "unreserved x" for x
    using that by (auto simp: unreserved_def printable_def less_eq_char_def)
  moreover have "printable CHR ''%''" by (simp add: printable_def)
  ultimately show "c \<in> set (percent_encode s) \<Longrightarrow> printable c"
    by (auto simp: percent_encode_def printable_hex split: if_splits)
qed

lemma last_encode: "s \<noteq> [] \<Longrightarrow> percent_encode s \<noteq> []"
  by (cases s) (auto simp: percent_encode_def)

section \<open>Properties\<close>

lemma absolutePath_shape:
  "absolutePath s = [] \<or> hasPrefix ''/'' (absolutePath s) \<and> last (absolutePath s) \<noteq> quote"
proof -
  have "last (TrimRight t [quote]) \<noteq> quote" if "TrimRight t [quote] \<noteq> []" for t
    using that hd_dropWhile [of "\<lambda>c. c \<in> set [quote]" "rev t"] by (auto simp: TrimRight_def last_rev)
  then show ?thesis
    by (auto simp: absolutePath_def Let_def Trim_def)
qed

text \<open>
  Only absolute paths: whatever bytes a program reports, the result is the empty string
  ("no report") or a path that begins with a slash and carries no closing quote.
\<close>

lemma reported_pwd_absolute:
  "parseReportedPwd uni host raw = [] \<or>
   hasPrefix ''/'' (parseReportedPwd uni host raw) \<and> last (parseReportedPwd uni host raw) \<noteq> quote"
  using absolutePath_shape
  by (auto simp: parseReportedPwd_def hostPath_def Let_def split: option.splits)

text \<open>
  Reported directories survive the URI: a shell that reports an absolute path as a file
  URI with percent escapes, without an authority, is understood as that very path.
\<close>

lemma reported_pwd_roundtrip:
  assumes "hasPrefix ''/'' path" and "last path \<noteq> quote"
  shows "parseReportedPwd uni host (''file://'' @ percent_encode path) = path"
proof -
  let ?e = "percent_encode path"
  obtain rest where path: "path = CHR ''/'' # rest" using assms(1) by (cases path) auto
  then have e: "?e = CHR ''/'' # percent_encode rest" by (simp add: percent_encode_def unreserved_def)
  have "printable (last (''file://'' @ ?e))"
    using printable_encode [of "last ?e" path] e by simp
  then have trim: "TrimSpace (''file://'' @ ?e) = ''file://'' @ ?e"
    by (intro TrimSpace_printable) (simp add: printable_def)
  have "splitReportedScheme (''file://'' @ ?e) = Some (''file'', ?e)"
    by (simp add: splitReportedScheme_def)
  moreover have "dropWhile (\<lambda>c. c = quote) (rev path) = rev path"
    using assms(2) path by (simp add: dropWhile_eq_self_iff hd_rev del: rev.simps)
  then have "absolutePath path = path"
    using path by (simp add: absolutePath_def Trim_def TrimLeft_def TrimRight_def Let_def del: rev.simps)
  ultimately show ?thesis
    using trim e percentDecode_encode [of path] by (simp add: parseReportedPwd_def hostPath_def)
qed

end
