(* ===== verification/Terminal.thy ===== *)
theory Terminal
  imports Semantic Pwd Validation
begin

text \<open>
  The emulated terminal of a session (\<^verbatim>\<open>terminal.go\<close>): feeding PTY output to libghostty-vt
  with the OSC 133 markers acted on at the byte where they end, the command line read back
  from the semantic input region, the reported directory, shell metadata, resize with its
  repair of wide cells, and the encoded state with its envelope. The native library is the
  parameter \<open>'t ghostty\<close>: an opaque terminal with the calls that the code makes, each
  answering \<open>None\<close> or the result code when it does not succeed. SHA-256 is a parameter of
  the envelope. The text functions on Unicode letters that \<^verbatim>\<open>parseReportedPwd\<close> needs and
  the local host name are the parameters \<open>low\<close> and \<open>host\<close>, and \<open>now\<close> is the clock.
\<close>

section \<open>The native library\<close>

datatype cell_wide = Narrow | Wide | SpacerTail | SpacerHead
datatype cell_semantic = CellOutput | CellInput | CellPrompt
datatype row_semantic = RowNone | RowPrompt | RowContinuation
datatype vt_mode = ModeWraparound | ModeOrigin

text \<open>A cell and a row as their getters answer.\<close>

record cell =
  c_wide :: "cell_wide option"
  c_semantic :: "cell_semantic option"
  c_codepoint :: "nat option"

record row =
  r_semantic :: "row_semantic option"
  r_wrap :: "bool option"

record 't ghostty =
  gt_new :: "int \<Rightarrow> int \<Rightarrow> int + 't"
  gt_scrollback :: "u64 \<Rightarrow> 't \<Rightarrow> int + 't"
  gt_continuation :: "nat \<Rightarrow> 't \<Rightarrow> int + 't"
  gt_write :: "bytes \<Rightarrow> 't \<Rightarrow> 't"
  gt_resize :: "int \<Rightarrow> int \<Rightarrow> 't \<Rightarrow> 't"
  gt_at_prompt :: "'t \<Rightarrow> bool option"
  gt_cursor_x :: "'t \<Rightarrow> nat option"
  gt_cursor_y :: "'t \<Rightarrow> nat option"
  gt_cols :: "'t \<Rightarrow> nat option"
  gt_rows :: "'t \<Rightarrow> nat option"
  gt_alternate :: "'t \<Rightarrow> bool option"
  gt_pwd :: "'t \<Rightarrow> bytes option"
  gt_ground :: "'t \<Rightarrow> bool option"
  gt_mode :: "vt_mode \<Rightarrow> 't \<Rightarrow> bool option"
  gt_cell :: "nat \<Rightarrow> nat \<Rightarrow> 't \<Rightarrow> cell option"
  gt_row :: "nat \<Rightarrow> 't \<Rightarrow> row option"
  gt_encode :: "'t \<Rightarrow> int + bytes"
  gt_decoder_new :: "bytes \<Rightarrow> int option"
  gt_decode :: "bytes \<Rightarrow> int + 't"
  gt_formatter_new :: "'t \<Rightarrow> int option"
  gt_format :: "'t \<Rightarrow> int + bytes"

text \<open>\<^verbatim>\<open>GHOSTTY_INVALID_VALUE\<close>.\<close>

definition invalidValue :: int where
  "invalidValue = - 2"

section \<open>The C helpers\<close>

definition cell_is_wide :: "'t ghostty \<Rightarrow> nat \<Rightarrow> nat \<Rightarrow> 't \<Rightarrow> bool" where
  "cell_is_wide L x y t = (case gt_cell L x y t of Some c \<Rightarrow> c_wide c = Some Wide | None \<Rightarrow> False)"

definition terminal_is_ground :: "'t ghostty \<Rightarrow> 't \<Rightarrow> bool" where
  "terminal_is_ground L t \<longleftrightarrow> gt_ground L t = Some True"

definition terminal_mode :: "'t ghostty \<Rightarrow> vt_mode \<Rightarrow> 't \<Rightarrow> bool" where
  "terminal_mode L m t \<longleftrightarrow> gt_mode L m t = Some True"

definition terminal_row_semantic :: "'t ghostty \<Rightarrow> nat \<Rightarrow> 't \<Rightarrow> row_semantic" where
  "terminal_row_semantic L y t =
     (case gt_row L y t of
        Some r \<Rightarrow> (case r_semantic r of Some s \<Rightarrow> s | None \<Rightarrow> RowNone)
      | None \<Rightarrow> RowNone)"

definition terminal_row_wrap :: "'t ghostty \<Rightarrow> nat \<Rightarrow> 't \<Rightarrow> bool" where
  "terminal_row_wrap L y t = (case gt_row L y t of Some r \<Rightarrow> r_wrap r = Some True | None \<Rightarrow> False)"

text \<open>The codepoint that one cell contributes to the input of its row.\<close>

definition input_cell :: "'t ghostty \<Rightarrow> nat \<Rightarrow> nat \<Rightarrow> 't \<Rightarrow> nat option" where
  "input_cell L x y t =
     (case gt_cell L x y t of None \<Rightarrow> None
      | Some c \<Rightarrow>
          if c_semantic c \<noteq> Some CellInput then None
          else if c_wide c = Some SpacerTail \<or> c_wide c = Some SpacerHead then None
          else c_codepoint c)"

text \<open>The loop of \<^verbatim>\<open>ghostline_terminal_input_row\<close> over the columns; \<open>None\<close> is its answer \<open>max + 1\<close>.\<close>

fun input_columns :: "'t ghostty \<Rightarrow> nat \<Rightarrow> 't \<Rightarrow> nat \<Rightarrow> nat list \<Rightarrow> nat list \<Rightarrow> nat list option" where
  "input_columns L y t most out [] = Some out"
| "input_columns L y t most out (x # xs) =
     (case input_cell L x y t of
        None \<Rightarrow> input_columns L y t most out xs
      | Some cp \<Rightarrow> if length out \<ge> most then None else input_columns L y t most (out @ [cp]) xs)"

definition terminal_input_row :: "'t ghostty \<Rightarrow> nat \<Rightarrow> nat \<Rightarrow> 't \<Rightarrow> nat list option" where
  "terminal_input_row L y most t =
     (case gt_cols L t of None \<Rightarrow> Some [] | Some cols \<Rightarrow> input_columns L y t most [] [0..<cols])"

section \<open>State\<close>

definition snapshotContinuationMaxBytes :: nat where
  "snapshotContinuationMaxBytes = 1048576"

definition maxReportedPwdBytes :: nat where
  "maxReportedPwdBytes = 65536"

definition maxSemanticCommandBytes :: nat where
  "maxSemanticCommandBytes = 8192"

definition semanticLookbackRows :: nat where
  "semanticLookbackRows = 4"

definition semanticRegionMaxRows :: nat where
  "semanticRegionMaxRows = 128"

record 't vtTerminal =
  vt_terminal :: "'t option"
  scrollbackMaxBytes :: u64
  reportedPwd :: bytes
  semanticSeen :: bool
  atPrompt :: bool
  runningCommand :: bytes
  lastCommand :: bytes
  lastExitCode :: int
  lastExitKnown :: bool
  lastExitAt :: "int option"

record shellMetadata =
  AtPrompt :: bool
  RunningCommand :: bytes
  LastCommand :: bytes
  LastExitCode :: "int option"
  LastExitAt :: "int option"

definition setScrollbackMaxBytes :: "'t ghostty \<Rightarrow> u64 \<Rightarrow> 't \<Rightarrow> go_error + 't" where
  "setScrollbackMaxBytes L n t =
     (case gt_scrollback L n t of Inl r \<Rightarrow> Inl (Plain (''configure scrollback: '' @ Itoa r)) | Inr t' \<Rightarrow> Inr t')"

definition enableContinuationTracking :: "'t ghostty \<Rightarrow> 't \<Rightarrow> go_error + 't" where
  "enableContinuationTracking L t =
     (case gt_continuation L snapshotContinuationMaxBytes t of
        Inl r \<Rightarrow> Inl (Plain (''enable continuation tracking: '' @ Itoa r)) | Inr t' \<Rightarrow> Inr t')"

text \<open>Both settings, in the order in which a new and a restored terminal get them.\<close>

definition configure :: "'t ghostty \<Rightarrow> u64 \<Rightarrow> 't \<Rightarrow> go_error + 't" where
  "configure L n t =
     (case setScrollbackMaxBytes L n t of Inl e \<Rightarrow> Inl e | Inr t1 \<Rightarrow> enableContinuationTracking L t1)"

definition newVTTerminalWithOptions :: "'t ghostty \<Rightarrow> int \<Rightarrow> int \<Rightarrow> u64 \<Rightarrow> go_error + 't vtTerminal" where
  "newVTTerminalWithOptions L cols rows maxBytes =
     (if cols \<le> 0 \<or> rows \<le> 0 \<or> cols > maxTerminalDimension \<or> rows > maxTerminalDimension then
        Inl (Plain (''invalid terminal size '' @ Itoa cols @ ''x'' @ Itoa rows))
      else case gt_new L cols rows of
        Inl r \<Rightarrow> Inl (Plain (''ghostty terminal new failed: '' @ Itoa r))
      | Inr t \<Rightarrow>
          (case configure L (resolvedScrollbackMaxBytes maxBytes) t of
             Inl e \<Rightarrow> Inl e
           | Inr t' \<Rightarrow>
               Inr \<lparr>vt_terminal = Some t', scrollbackMaxBytes = resolvedScrollbackMaxBytes maxBytes,
                    reportedPwd = [], semanticSeen = False, atPrompt = False, runningCommand = [],
                    lastCommand = [], lastExitCode = 0, lastExitKnown = False, lastExitAt = None\<rparr>))"

section \<open>Reading the command line back\<close>

text \<open>
  The search for the last row of the input region, upwards from the cursor: the second
  argument is the number of rows from the top down to the current one.
\<close>

fun region_bottom :: "'t ghostty \<Rightarrow> 't \<Rightarrow> nat \<Rightarrow> nat \<Rightarrow> nat option" where
  "region_bottom L t skipped 0 = None"
| "region_bottom L t skipped (Suc bottom) =
     (if skipped > semanticLookbackRows then None
      else if terminal_row_semantic L bottom t \<noteq> RowNone then Some bottom
      else region_bottom L t (skipped + 1) bottom)"

fun region_start :: "'t ghostty \<Rightarrow> 't \<Rightarrow> nat \<Rightarrow> nat \<Rightarrow> nat option" where
  "region_start L t bottom 0 = None"
| "region_start L t bottom (Suc row) =
     (if bottom - row > semanticRegionMaxRows then None
      else case terminal_row_semantic L row t of
        RowNone \<Rightarrow> None
      | RowPrompt \<Rightarrow> Some row
      | RowContinuation \<Rightarrow> region_start L t bottom row)"

definition inputRegionRowsLocked :: "'t ghostty \<Rightarrow> 't \<Rightarrow> nat \<Rightarrow> nat list option" where
  "inputRegionRowsLocked L t cursorY =
     (case region_bottom L t 0 (Suc cursorY) of
        None \<Rightarrow> None
      | Some bottom \<Rightarrow>
          (case region_start L t bottom (Suc bottom) of
             None \<Rightarrow> None
           | Some start \<Rightarrow> Some [start..<Suc bottom]))"

text \<open>\<^verbatim>\<open>strings.Builder.WriteRune\<close>: UTF-8, with U+FFFD for what is no Unicode scalar value.\<close>

definition writeRune :: "nat \<Rightarrow> bytes" where
  "writeRune r =
     (let b = (\<lambda>n :: nat. char_of n) in
      if r < 0x80 then [b r]
      else if r < 0x800 then [b (0xC0 + r div 64), b (0x80 + r mod 64)]
      else if 0xD800 \<le> r \<and> r \<le> 0xDFFF \<or> r > 0x10FFFF then [b 0xEF, b 0xBF, b 0xBD]
      else if r < 0x10000 then [b (0xE0 + r div 4096), b (0x80 + r div 64 mod 64), b (0x80 + r mod 64)]
      else [b (0xF0 + r div 262144), b (0x80 + r div 4096 mod 64), b (0x80 + r div 64 mod 64), b (0x80 + r mod 64)])"

definition row_text :: "nat list \<Rightarrow> bytes" where
  "row_text codepoints = TrimSpace (concat (map writeRune (filter (\<lambda>cp. cp \<noteq> 0) codepoints)))"

text \<open>The loop over the rows: the text so far, whether the row before wrapped, whether all was empty.\<close>

fun capture_rows :: "'t ghostty \<Rightarrow> 't \<Rightarrow> bytes \<Rightarrow> bool \<Rightarrow> bool \<Rightarrow> nat list \<Rightarrow> bytes" where
  "capture_rows L t builder previousWrapped previousEmpty [] = builder"
| "capture_rows L t builder previousWrapped previousEmpty (row # rows) =
     (case terminal_input_row L row (maxSemanticCommandBytes + 1) t of
        None \<Rightarrow> []
      | Some codepoints \<Rightarrow>
          if length codepoints > maxSemanticCommandBytes then []
          else
            (let trimmed = row_text codepoints;
                 builder' =
                   (if trimmed \<noteq> []
                    then builder @ (if \<not> previousEmpty \<and> \<not> previousWrapped then '' '' else []) @ trimmed
                    else builder) in
             if length builder' > maxSemanticCommandBytes then []
             else capture_rows L t builder' (terminal_row_wrap L row t) (previousEmpty \<and> trimmed = []) rows))"

definition captureInputLocked :: "'t ghostty \<Rightarrow> 't \<Rightarrow> bytes" where
  "captureInputLocked L t =
     (case gt_cursor_y L t of None \<Rightarrow> []
      | Some cursorY \<Rightarrow>
          (case inputRegionRowsLocked L t cursorY of None \<Rightarrow> []
           | Some rows \<Rightarrow> capture_rows L t [] False True rows))"

section \<open>Feeding output\<close>

definition writeLocked :: "'t ghostty \<Rightarrow> bytes \<Rightarrow> 't vtTerminal \<Rightarrow> 't vtTerminal" where
  "writeLocked L data v = (if data = [] then v else v\<lparr>vt_terminal := map_option (gt_write L data) (vt_terminal v)\<rparr>)"

definition refreshReportedPwdLocked :: "'t ghostty \<Rightarrow> (bytes \<Rightarrow> bytes) \<Rightarrow> bytes option \<Rightarrow> 't vtTerminal \<Rightarrow> 't vtTerminal" where
  "refreshReportedPwdLocked L low host v =
     (case vt_terminal v of None \<Rightarrow> v\<lparr>reportedPwd := []\<rparr>
      | Some t \<Rightarrow>
          (case gt_pwd L t of None \<Rightarrow> v\<lparr>reportedPwd := []\<rparr>
           | Some raw \<Rightarrow>
               if raw = [] \<or> length raw > maxReportedPwdBytes then v\<lparr>reportedPwd := []\<rparr>
               else v\<lparr>reportedPwd := parseReportedPwd low host raw\<rparr>))"

definition refreshAtPromptLocked :: "'t ghostty \<Rightarrow> 't vtTerminal \<Rightarrow> 't vtTerminal" where
  "refreshAtPromptLocked L v =
     (case vt_terminal v of None \<Rightarrow> v
      | Some t \<Rightarrow>
          (case gt_at_prompt L t of None \<Rightarrow> v
           | Some p \<Rightarrow> v\<lparr>semanticSeen := (semanticSeen v \<or> p), atPrompt := p\<rparr>))"

definition applyOSC133Locked :: "'t ghostty \<Rightarrow> int \<Rightarrow> osc133Span \<Rightarrow> 't vtTerminal \<Rightarrow> 't vtTerminal" where
  "applyOSC133Locked L now span v =
     (if span_kind span \<notin> set ''ABCD'' then v
      else
        (let v1 = v\<lparr>semanticSeen := True\<rparr> in
         if span_kind span = CHR ''C'' then
           v1\<lparr>runningCommand := (case vt_terminal v of Some t \<Rightarrow> captureInputLocked L t | None \<Rightarrow> [])\<rparr>
         else if span_kind span = CHR ''D'' then
           (let v2 = v1\<lparr>lastCommand := runningCommand v1, runningCommand := []\<rparr>;
                v3 = (if span_hasExit span then v2\<lparr>lastExitCode := span_exitCode span, lastExitKnown := True\<rparr> else v2) in
            v3\<lparr>lastExitAt := Some now\<rparr>)
         else v1))"

text \<open>The loop of \<^verbatim>\<open>Feed\<close> over the markers: \<open>fed\<close> bytes of the chunk are written already.\<close>

fun feed_spans :: "'t ghostty \<Rightarrow> int \<Rightarrow> bytes \<Rightarrow> nat \<Rightarrow> osc133Span list \<Rightarrow> 't vtTerminal \<Rightarrow> 't vtTerminal \<times> nat" where
  "feed_spans L now data fed [] v = (v, fed)"
| "feed_spans L now data fed (span # spans) v =
     feed_spans L now data (span_end span) spans
       (refreshAtPromptLocked L (applyOSC133Locked L now span
          (writeLocked L (slice fed (span_end span) data) v)))"

definition terminal_Feed ::
  "'t ghostty \<Rightarrow> (bytes \<Rightarrow> bytes) \<Rightarrow> bytes option \<Rightarrow> int \<Rightarrow> bytes \<Rightarrow> 't vtTerminal \<Rightarrow> 't vtTerminal" where
  "terminal_Feed L low host now data v =
     (if vt_terminal v = None \<or> data = [] then v
      else
        (let spans = findOSC133 data in
         if spans = [] then
           refreshAtPromptLocked L (refreshReportedPwdLocked L low host (writeLocked L data v))
         else
           (case feed_spans L now data 0 spans v of (v1, fed) \<Rightarrow>
              refreshAtPromptLocked L (refreshReportedPwdLocked L low host (writeLocked L (drop fed data) v1)))))"

section \<open>Metadata\<close>

definition SetReportedPwd :: "bytes \<Rightarrow> 't vtTerminal \<Rightarrow> 't vtTerminal" where
  "SetReportedPwd pwd v = v\<lparr>reportedPwd := pwd\<rparr>"

definition ShellMetadata :: "'t vtTerminal \<Rightarrow> shellMetadata option" where
  "ShellMetadata v =
     (if \<not> semanticSeen v then None
      else Some \<lparr>AtPrompt = atPrompt v, RunningCommand = runningCommand v, LastCommand = lastCommand v,
                 LastExitCode = (if lastExitKnown v then Some (lastExitCode v) else None),
                 LastExitAt = lastExitAt v\<rparr>)"

definition SetShellMetadata :: "shellMetadata option \<Rightarrow> 't vtTerminal \<Rightarrow> 't vtTerminal" where
  "SetShellMetadata metadata v =
     (case metadata of None \<Rightarrow> v
      | Some m \<Rightarrow>
          (let v1 = v\<lparr>semanticSeen := True, atPrompt := AtPrompt m, runningCommand := RunningCommand m,
                     lastCommand := LastCommand m\<rparr>;
               v2 = (case LastExitCode m of Some code \<Rightarrow> v1\<lparr>lastExitCode := code, lastExitKnown := True\<rparr> | None \<Rightarrow> v1) in
           case LastExitAt m of Some at \<Rightarrow> v2\<lparr>lastExitAt := Some at\<rparr> | None \<Rightarrow> v2))"

section \<open>Resize and its repair\<close>

text \<open>The control sequence that moves the cursor, one-based.\<close>

definition cursor_to :: "nat \<Rightarrow> nat \<Rightarrow> bytes" where
  "cursor_to row col = ESC # ''['' @ dec row @ '';'' @ dec col @ ''H''"

definition erase_rows :: "'t ghostty \<Rightarrow> 't \<Rightarrow> nat \<Rightarrow> nat \<Rightarrow> bytes" where
  "erase_rows L t cols rowLimit =
     concat (map (\<lambda>row. if cell_is_wide L (cols - 1) row t then cursor_to (row + 1) cols @ ESC # ''[1X'' else [])
       [0..<rowLimit])"

text \<open>The bytes that the repair writes; \<open>[]\<close> where it returns early.\<close>

definition wide_repair :: "'t ghostty \<Rightarrow> 't \<Rightarrow> int \<Rightarrow> int \<Rightarrow> bool \<Rightarrow> bytes" where
  "wide_repair L t cols rows onlyNoReflow =
     (if cols \<le> 0 \<or> rows \<le> 0 then []
      else case (gt_cols L t, gt_rows L t) of
        (Some currentCols, Some currentRows) \<Rightarrow>
          if cols > int currentCols then []
          else if onlyNoReflow \<and>
                  (case gt_alternate L t of None \<Rightarrow> True
                   | Some alternate \<Rightarrow> \<not> alternate \<and> terminal_mode L ModeWraparound t) then []
          else if \<not> terminal_is_ground L t \<or> terminal_mode L ModeOrigin t then []
          else (case (gt_cursor_x L t, gt_cursor_y L t) of
            (Some x, Some y) \<Rightarrow>
              (let erase = erase_rows L t (nat cols) (min currentRows (nat rows)) in
               if erase \<noteq> [] then erase @ cursor_to (y + 1) (x + 1) else [])
          | _ \<Rightarrow> [])
      | _ \<Rightarrow> [])"

definition clearWideResizeBoundaryLocked :: "'t ghostty \<Rightarrow> int \<Rightarrow> int \<Rightarrow> bool \<Rightarrow> 't vtTerminal \<Rightarrow> 't vtTerminal" where
  "clearWideResizeBoundaryLocked L cols rows onlyNoReflow v =
     (case vt_terminal v of None \<Rightarrow> v
      | Some t \<Rightarrow> writeLocked L (wide_repair L t cols rows onlyNoReflow) v)"

definition repair_current :: "'t ghostty \<Rightarrow> 't vtTerminal \<Rightarrow> 't vtTerminal" where
  "repair_current L v =
     (case vt_terminal v of None \<Rightarrow> v
      | Some t \<Rightarrow>
          (case (gt_cols L t, gt_rows L t) of
             (Some cols, Some rows) \<Rightarrow> clearWideResizeBoundaryLocked L (int cols) (int rows) False v
           | _ \<Rightarrow> v))"

definition clearInactiveAlternateBoundaryLocked :: "'t ghostty \<Rightarrow> 't vtTerminal \<Rightarrow> 't vtTerminal" where
  "clearInactiveAlternateBoundaryLocked L v =
     (case vt_terminal v of None \<Rightarrow> v
      | Some t \<Rightarrow>
          if \<not> terminal_is_ground L t \<or> terminal_mode L ModeOrigin t then v
          else (case gt_alternate L t of None \<Rightarrow> v
            | Some alternate \<Rightarrow>
                (let on = ESC # ''[?47h''; off = ESC # ''[?47l'';
                     (enter, leave) = (if alternate then (off, on) else (on, off)) in
                 case (gt_cursor_x L t, gt_cursor_y L t) of
                   (Some x, Some y) \<Rightarrow>
                     writeLocked L (cursor_to (y + 1) (x + 1))
                       (writeLocked L leave (repair_current L (writeLocked L enter v)))
                 | _ \<Rightarrow> v)))"

definition terminal_Resize :: "'t ghostty \<Rightarrow> int \<Rightarrow> int \<Rightarrow> 't vtTerminal \<Rightarrow> 't vtTerminal" where
  "terminal_Resize L cols rows v =
     (if vt_terminal v = None \<or> cols \<le> 0 \<or> rows \<le> 0 \<or> cols > maxTerminalDimension \<or> rows > maxTerminalDimension then v
      else (let v1 = clearWideResizeBoundaryLocked L cols rows True v in
            v1\<lparr>vt_terminal := map_option (gt_resize L cols rows) (vt_terminal v1)\<rparr>))"

section \<open>The encoded state\<close>

definition vtStateMagic :: bytes where
  "vtStateMagic = ''ghostline-vt-v1'' @ [NUL]"

text \<open>\<^verbatim>\<open>binary.LittleEndian.PutUint64\<close> and \<^verbatim>\<open>Uint64\<close>.\<close>

fun put_le :: "nat \<Rightarrow> nat \<Rightarrow> bytes" where
  "put_le 0 n = []"
| "put_le (Suc k) n = char_of (n mod 256) # put_le k (n div 256)"

fun get_le :: "bytes \<Rightarrow> nat" where
  "get_le [] = 0"
| "get_le (b # bs) = of_char b + 256 * get_le bs"

definition vtStateHeaderSize :: nat where
  "vtStateHeaderSize = length vtStateMagic + 8 + 32"

definition wrapVTState :: "(bytes \<Rightarrow> bytes) \<Rightarrow> bytes \<Rightarrow> bytes" where
  "wrapVTState sha raw = vtStateMagic @ put_le 8 (length raw) @ sha raw @ raw"

definition unwrapVTState :: "(bytes \<Rightarrow> bytes) \<Rightarrow> bytes \<Rightarrow> go_error + bytes" where
  "unwrapVTState sha state =
     (if length state < vtStateHeaderSize \<or> take (length vtStateMagic) state \<noteq> vtStateMagic then
        Inl (Plain ''invalid ghostline VT state envelope'')
      else
        (let raw = drop vtStateHeaderSize state in
         if get_le (take 8 (drop (length vtStateMagic) state)) \<noteq> length raw then
           Inl (Plain ''invalid ghostline VT state length'')
         else if slice (length vtStateMagic + 8) vtStateHeaderSize state \<noteq> sha raw then
           Inl (Plain ''invalid ghostline VT state checksum'')
         else if raw = [] then Inl (Plain ''ghostline VT state payload is empty'')
         else Inr raw))"

text \<open>
  \<^verbatim>\<open>C.GoBytes(ptr, C.int(length))\<close>: the length of a native buffer, a \<^verbatim>\<open>size_t\<close>, is narrowed to a
  signed integer of 32 bits, which keeps its low 32 bits. A negative result makes
  \<^verbatim>\<open>C.GoBytes\<close> panic; the panic is the error value \<open>goBytesPanic\<close>.
\<close>

definition C_int :: "nat \<Rightarrow> int" where
  "C_int n = sint (of_nat n :: 32 word)"

definition goBytesPanic :: go_error where
  "goBytesPanic = Plain ''runtime error: gobytes: length out of range''"

definition GoBytes :: "bytes \<Rightarrow> go_error + bytes" where
  "GoBytes buffer =
     (let n = C_int (length buffer) in if n < 0 then Inl goBytesPanic else Inr (take (nat n) buffer))"

lemma C_int_small: "n < 2 ^ 31 \<Longrightarrow> C_int n = int n"
  by (simp add: C_int_def signed_of_nat signed_take_bit_int_eq_self)

lemma GoBytes_small [simp]: "length buffer < 2 ^ 31 \<Longrightarrow> GoBytes buffer = Inr buffer"
  by (simp add: GoBytes_def C_int_small Let_def)

text \<open>A longer buffer is not copied whole: it panics, or only its head is returned.\<close>

lemma C_int_less: "C_int n < 2 ^ 31"
  using sint_less [of "of_nat n :: 32 word"] by (simp add: C_int_def)

lemma GoBytes_large: "2 ^ 31 \<le> length buffer \<Longrightarrow> GoBytes buffer \<noteq> Inr buffer"
  using C_int_less [of "length buffer"]
  by (auto simp: GoBytes_def Let_def dest: arg_cong [of _ _ length])

definition encodeStateLocked :: "'t ghostty \<Rightarrow> 't vtTerminal \<Rightarrow> int + (go_error + bytes)" where
  "encodeStateLocked L v =
     (case vt_terminal v of None \<Rightarrow> Inl invalidValue
      | Some t \<Rightarrow> (case gt_encode L t of Inl r \<Rightarrow> Inl r | Inr buffer \<Rightarrow> Inr (GoBytes buffer)))"

definition encodeStateWithRepairLocked :: "'t ghostty \<Rightarrow> 't vtTerminal \<Rightarrow> (go_error + bytes) \<times> 't vtTerminal" where
  "encodeStateWithRepairLocked L v =
     (let v1 = repair_current L v;
          first = encodeStateLocked L v1;
          v2 = (if first = Inl invalidValue then clearInactiveAlternateBoundaryLocked L v1 else v1);
          answer = (if first = Inl invalidValue then encodeStateLocked L v2 else first) in
      (case answer of
         Inl r \<Rightarrow> Inl (Plain (''ghostty snapshot encode failed: '' @ Itoa r))
       | Inr snapshot \<Rightarrow> snapshot, v2))"

definition closedError :: go_error where
  "closedError = Plain ''ghostty terminal is closed''"

definition encodeAtomicState :: "'t ghostty \<Rightarrow> 't vtTerminal \<Rightarrow> (go_error + bytes) \<times> 't vtTerminal" where
  "encodeAtomicState L v = (if vt_terminal v = None then (Inl closedError, v) else encodeStateWithRepairLocked L v)"

definition EncodeState :: "'t ghostty \<Rightarrow> (bytes \<Rightarrow> bytes) \<Rightarrow> 't vtTerminal \<Rightarrow> (go_error + bytes) \<times> 't vtTerminal" where
  "EncodeState L sha v =
     (if vt_terminal v = None then (Inl closedError, v)
      else (case encodeStateWithRepairLocked L v of
        (Inl e, v') \<Rightarrow> (Inl e, v')
      | (Inr snapshot, v') \<Rightarrow> (Inr (wrapVTState sha snapshot), v')))"

definition RestoreState ::
  "'t ghostty \<Rightarrow> (bytes \<Rightarrow> bytes) \<Rightarrow> (bytes \<Rightarrow> bytes) \<Rightarrow> bytes option \<Rightarrow> bytes \<Rightarrow> 't vtTerminal \<Rightarrow>
   go_error option \<times> 't vtTerminal" where
  "RestoreState L sha low host snapshot v =
     (case unwrapVTState sha snapshot of
        Inl e \<Rightarrow> (Some e, v)
      | Inr raw \<Rightarrow>
          if vt_terminal v = None then (Some closedError, v)
          else (case gt_decoder_new L raw of
            Some r \<Rightarrow> (Some (Plain (''ghostty snapshot decoder new failed: '' @ Itoa r)), v)
          | None \<Rightarrow>
              (case gt_decode L raw of
                 Inl r \<Rightarrow> (Some (Plain (''ghostty snapshot decode failed: '' @ Itoa r)), v)
               | Inr restored \<Rightarrow>
                   (case configure L (scrollbackMaxBytes v) restored of
                      Inl e \<Rightarrow> (Some e, v)
                    | Inr t \<Rightarrow> (None, refreshReportedPwdLocked L low host (v\<lparr>vt_terminal := Some t\<rparr>))))))"

definition Snapshot :: "'t ghostty \<Rightarrow> 't vtTerminal \<Rightarrow> go_error + bytes" where
  "Snapshot L v =
     (case vt_terminal v of None \<Rightarrow> Inl closedError
      | Some t \<Rightarrow>
          (case gt_formatter_new L t of
             Some r \<Rightarrow> Inl (Plain (''ghostty formatter new failed: '' @ Itoa r))
           | None \<Rightarrow>
               (case gt_format L t of
                  Inl r \<Rightarrow> Inl (Plain (''ghostty formatter format failed: '' @ Itoa r))
                | Inr buffer \<Rightarrow> GoBytes buffer)))"

definition terminal_Close :: "'t vtTerminal \<Rightarrow> 't vtTerminal" where
  "terminal_Close v = v\<lparr>vt_terminal := None\<rparr>"

end
