(* ===== verification/Process_Env.thy ===== *)
theory Process_Env
  imports Validation
begin

text \<open>
  The command and the environment of a child process (\<^verbatim>\<open>process.go\<close>). The environment of
  the server and its \<^verbatim>\<open>SHELL\<close> variable are parameters. \<^verbatim>\<open>mergeEnvironment\<close> slices every
  override at its equals sign; without one the slice panics, which is \<open>None\<close> here.
\<close>

section \<open>Definitions\<close>

definition builtinTerm :: bytes where
  "builtinTerm = ''xterm-256color''"

fun env_indices :: "bytes list \<Rightarrow> nat \<Rightarrow> (bytes \<rightharpoonup> nat) \<Rightarrow> (bytes \<rightharpoonup> nat)" where
  "env_indices [] index m = m"
| "env_indices (entry # rest) index m =
     env_indices rest (Suc index)
       (case IndexByte entry CHR ''='' of
          Some separator \<Rightarrow> if separator > 0 then m(take separator entry \<mapsto> index) else m
        | None \<Rightarrow> m)"

fun merge_overrides :: "bytes list \<Rightarrow> (bytes \<rightharpoonup> nat) \<Rightarrow> bytes list \<Rightarrow> bytes list option" where
  "merge_overrides base indices [] = Some base"
| "merge_overrides base indices (entry # rest) =
     (case IndexByte entry CHR ''='' of
        None \<Rightarrow> None
      | Some separator \<Rightarrow>
          (let key = take separator entry in
           case indices key of
             Some index \<Rightarrow> merge_overrides (base[index := entry]) indices rest
           | None \<Rightarrow> merge_overrides (base @ [entry]) (indices(key \<mapsto> length base)) rest))"

definition mergeEnvironment :: "bytes list \<Rightarrow> bytes list \<Rightarrow> bytes list option" where
  "mergeEnvironment base overrides =
     (if overrides = [] then Some base
      else merge_overrides base (env_indices base 0 Map.empty) overrides)"

definition nonEmptyEnv :: "bytes list \<Rightarrow> bytes \<Rightarrow> bool" where
  "nonEmptyEnv env key =
     (let pre = key @ ''='' in list_ex (\<lambda>entry. length entry > length pre \<and> hasPrefix pre entry) env)"

definition mergeTermDefault :: "bytes list \<Rightarrow> bytes \<Rightarrow> bytes list option" where
  "mergeTermDefault env defaultTerm =
     (if nonEmptyEnv env ''TERM'' then Some env
      else mergeEnvironment env [''TERM='' @ (if defaultTerm = [] then builtinTerm else defaultTerm)])"

definition ptyEnvironment :: "bytes list \<Rightarrow> bytes list \<Rightarrow> bytes \<Rightarrow> bytes list option" where
  "ptyEnvironment environ overrides defaultTerm =
     (case mergeEnvironment environ overrides of None \<Rightarrow> None
      | Some env \<Rightarrow> mergeTermDefault env defaultTerm)"

record exec_cmd =
  cmd_path :: bytes
  cmd_args :: "bytes list"
  cmd_dir :: bytes
  cmd_env :: "bytes list"

definition ptyCommand ::
  "bytes list \<Rightarrow> bytes \<Rightarrow> processSpec \<Rightarrow> bytes \<Rightarrow> exec_cmd option" where
  "ptyCommand environ SHELL process defaultTerm =
     (let (path, args) =
        (if ShellCommand process \<noteq> [] then (''sh'', [''-lc'', ShellCommand process])
         else if Path process \<noteq> [] then (Path process, Args process)
         else (if SHELL = [] then ''sh'' else SHELL, [])) in
      case ptyEnvironment environ (Environment process) defaultTerm of
        None \<Rightarrow> None
      | Some env \<Rightarrow>
          Some \<lparr>cmd_path = path, cmd_args = args, cmd_dir = Directory process, cmd_env = env\<rparr>)"

section \<open>The last entry of a name wins\<close>

text \<open>The name of an entry, and the entry a name has in an environment where later ones win.\<close>

definition entry_key :: "bytes \<Rightarrow> bytes option" where
  "entry_key e = (case IndexByte e CHR ''='' of
     Some i \<Rightarrow> if i > 0 then Some (take i e) else None | None \<Rightarrow> None)"

definition last_entry :: "bytes list \<Rightarrow> bytes \<Rightarrow> bytes option" where
  "last_entry env k = List.find (\<lambda>e. entry_key e = Some k) (rev env)"

lemma last_entry_simps [simp]:
  "last_entry [] k = None"
  "last_entry (env @ [e]) k = (if entry_key e = Some k then Some e else last_entry env k)"
  by (simp_all add: last_entry_def)

definition index_inv :: "bytes list \<Rightarrow> (bytes \<rightharpoonup> nat) \<Rightarrow> bool" where
  "index_inv env m \<longleftrightarrow>
     (\<forall>k i. m k = Some i \<longrightarrow> i < length env \<and> entry_key (env ! i) = Some k \<and>
        (\<forall>j < length env. i < j \<longrightarrow> entry_key (env ! j) \<noteq> Some k)) \<and>
     (\<forall>k. m k = None \<longrightarrow> (\<forall>e \<in> set env. entry_key e \<noteq> Some k))"

lemma last_entry_Cons:
  "last_entry (e # es) k = (case last_entry es k of Some x \<Rightarrow> Some x
     | None \<Rightarrow> if entry_key e = Some k then Some e else None)"
proof (induction es rule: rev_induct)
  case Nil
  then show ?case by (simp add: last_entry_def)
next
  case (snoc x es)
  then show ?case using last_entry_simps(2) [of "e # es" x k] by simp
qed

lemma last_entry_index:
  assumes "i < length env" and "entry_key (env ! i) = Some k"
    and "\<forall>j < length env. i < j \<longrightarrow> entry_key (env ! j) \<noteq> Some k"
  shows "last_entry env k = Some (env ! i)"
  using assms
proof (induction env rule: rev_induct)
  case (snoc e env)
  show ?case
  proof (cases "i = length env")
    case True
    with snoc.prems(2) show ?thesis by simp
  next
    case False
    with snoc.prems(1) have i: "i < length env" by simp
    then have "entry_key e \<noteq> Some k" using snoc.prems(3) [rule_format, of "length env"] by simp
    moreover have "\<forall>j < length env. i < j \<longrightarrow> entry_key (env ! j) \<noteq> Some k"
      using snoc.prems(3) by (auto simp: nth_append split: if_splits)
    ultimately show ?thesis using snoc i by (simp add: nth_append)
  qed
qed simp

lemma last_entry_none: "\<forall>e \<in> set env. entry_key e \<noteq> Some k \<Longrightarrow> last_entry env k = None"
  by (auto simp: last_entry_def find_None_iff)

lemma index_inv_last: "index_inv env m \<Longrightarrow> last_entry env k = map_option (\<lambda>i. env ! i) (m k)"
  by (cases "m k") (auto simp: index_inv_def last_entry_index last_entry_none)

lemma index_inv_snoc:
  assumes "index_inv env m"
  shows "index_inv (env @ [e]) (case entry_key e of Some k \<Rightarrow> m(k \<mapsto> length env) | None \<Rightarrow> m)"
  using assms
  by (auto simp: index_inv_def nth_append less_Suc_eq split: option.splits if_splits)

lemma index_inv_replace:
  assumes "index_inv env m" and "m k = Some i" and "entry_key e = Some k"
  shows "index_inv (env[i := e]) m"
proof -
  have i: "i < length env" "entry_key (env ! i) = Some k"
    using assms(1,2) by (auto simp: index_inv_def)
  have same: "entry_key (env[i := e] ! j) = entry_key (env ! j)" if "j < length env" for j
    using that i assms(3) by (cases "i = j") auto
  have "\<forall>x \<in> set (env[i := e]). entry_key x \<noteq> Some h" if "m h = None" for h
  proof
    fix x
    assume "x \<in> set (env[i := e])"
    then have "x = e \<or> x \<in> set env" using set_update_subset_insert [of env i e] by blast
    moreover have "h \<noteq> k" using that assms(2) by auto
    ultimately show "entry_key x \<noteq> Some h" using that assms(1,3) by (auto simp: index_inv_def)
  qed
  moreover have "h < length env \<and> entry_key (env[i := e] ! h) = Some g \<and>
      (\<forall>j < length env. h < j \<longrightarrow> entry_key (env[i := e] ! j) \<noteq> Some g)" if "m g = Some h" for g h
    using that assms(1) same unfolding index_inv_def by metis
  ultimately show ?thesis unfolding index_inv_def by simp
qed

lemma env_indices_inv:
  "index_inv env m \<Longrightarrow> index_inv (env @ es) (env_indices es (length env) m)"
proof (induction es arbitrary: env m)
  case (Cons e es)
  have "(case IndexByte e CHR ''='' of Some i \<Rightarrow> if i > 0 then m(take i e \<mapsto> length env) else m | None \<Rightarrow> m) =
      (case entry_key e of Some k \<Rightarrow> m(k \<mapsto> length env) | None \<Rightarrow> m)"
    by (auto simp: entry_key_def split: option.split)
  with Cons.IH [OF index_inv_snoc [OF Cons.prems], of e] show ?case by simp
qed simp

lemma merge_overrides_last:
  assumes "index_inv env m" and "\<forall>e \<in> set ov. entry_key e \<noteq> None"
  shows "\<exists>env'. merge_overrides env m ov = Some env' \<and>
    (\<forall>k. last_entry env' k = (case last_entry ov k of Some e \<Rightarrow> Some e | None \<Rightarrow> last_entry env k))"
  using assms
proof (induction ov arbitrary: env m)
  case (Cons e ov)
  then obtain k i where k: "entry_key e = Some k" "IndexByte e CHR ''='' = Some i" "k = take i e"
    by (auto simp: entry_key_def split: option.splits if_splits)
  have rest: "\<forall>e \<in> set ov. entry_key e \<noteq> None" using Cons.prems(2) by simp
  show ?case
  proof (cases "m k")
    case None
    have inv: "index_inv (env @ [e]) (m(k \<mapsto> length env))"
      using index_inv_snoc [OF Cons.prems(1), of e] k(1) by simp
    obtain env' where "merge_overrides (env @ [e]) (m(k \<mapsto> length env)) ov = Some env'"
      and "\<forall>h. last_entry env' h = (case last_entry ov h of Some e \<Rightarrow> Some e | None \<Rightarrow> last_entry (env @ [e]) h)"
      using Cons.IH [OF inv rest] by blast
    with None k show ?thesis
      by (intro exI [of _ env']) (auto simp: last_entry_Cons split: option.split)
  next
    case (Some j)
    note inv = index_inv_replace [OF Cons.prems(1) Some k(1)]
    have "last_entry (env[j := e]) h = (if h = k then Some e else last_entry env h)" for h
    proof -
      have "m h \<noteq> Some j" if "h \<noteq> k"
        using that Some Cons.prems(1) unfolding index_inv_def by (metis option.inject)
      moreover have "j < length env" using Some Cons.prems(1) by (auto simp: index_inv_def)
      ultimately show ?thesis
        using index_inv_last [OF inv, of h] index_inv_last [OF Cons.prems(1), of h] Some
        by (cases "m h") auto
    qed
    moreover obtain env' where "merge_overrides (env[j := e]) m ov = Some env'"
      and "\<forall>h. last_entry env' h = (case last_entry ov h of Some e \<Rightarrow> Some e | None \<Rightarrow> last_entry (env[j := e]) h)"
      using Cons.IH [OF inv rest] by blast
    ultimately show ?thesis
      using Some k by (intro exI [of _ env']) (auto simp: last_entry_Cons split: option.split)
  qed
qed simp

lemma mergeEnvironment_last:
  assumes "\<forall>e \<in> set overrides. entry_key e \<noteq> None"
  shows "\<exists>env. mergeEnvironment base overrides = Some env \<and>
    (\<forall>k. last_entry env k = (case last_entry overrides k of Some e \<Rightarrow> Some e | None \<Rightarrow> last_entry base k))"
  using merge_overrides_last [OF _ assms, of base] env_indices_inv [of "[]" Map.empty base]
  by (auto simp: mergeEnvironment_def index_inv_def)

section \<open>Properties\<close>

lemma valid_entry_key: "validateEnvironment es = None \<Longrightarrow> e \<in> set es \<Longrightarrow> entry_key e \<noteq> None"
  by (auto simp: validateEnvironment_None entry_key_def IndexByte_append_notin)

text \<open>How often a name occurs in an environment; merging does not multiply a name.\<close>

abbreviation key_count :: "bytes list \<Rightarrow> bytes \<Rightarrow> nat" where
  "key_count env k \<equiv> count_list (map entry_key env) (Some k)"

lemma merge_overrides_count:
  assumes "index_inv env m" and "\<forall>e \<in> set ov. entry_key e \<noteq> None"
    and "merge_overrides env m ov = Some env'" and "key_count env k \<le> 1"
  shows "key_count env' k \<le> 1"
  using assms
proof (induction ov arbitrary: env m)
  case (Cons e ov)
  then obtain h i where h: "entry_key e = Some h" "IndexByte e CHR ''='' = Some i" "h = take i e"
    by (auto simp: entry_key_def split: option.splits if_splits)
  have rest: "\<forall>e \<in> set ov. entry_key e \<noteq> None" using Cons.prems(2) by simp
  show ?case
  proof (cases "m h")
    case None
    have inv: "index_inv (env @ [e]) (m(h \<mapsto> length env))"
      using index_inv_snoc [OF Cons.prems(1), of e] h(1) by simp
    have "Some h \<notin> set (map entry_key env)"
      using None Cons.prems(1) unfolding index_inv_def by (metis image_iff list.set_map)
    then have "key_count env h = 0" by (rule count_notin)
    then have "key_count (env @ [e]) k \<le> 1" using Cons.prems(4) h(1) by auto
    moreover have "merge_overrides (env @ [e]) (m(h \<mapsto> length env)) ov = Some env'"
      using Cons.prems(3) None h by simp
    ultimately show ?thesis using Cons.IH [OF inv rest] by blast
  next
    case (Some j)
    note inv = index_inv_replace [OF Cons.prems(1) Some h(1)]
    have "map entry_key (env[j := e]) = map entry_key env"
      using Some Cons.prems(1) h(1) by (auto simp: index_inv_def map_update intro!: list_update_same_conv [THEN iffD2])
    with Cons.IH [OF inv rest] Cons.prems(3,4) Some h show ?thesis by simp
  qed
qed simp

lemma mergeEnvironment_count:
  assumes "\<forall>e \<in> set overrides. entry_key e \<noteq> None" and "mergeEnvironment base overrides = Some env"
    and "key_count base k \<le> 1"
  shows "key_count env k \<le> 1"
  using merge_overrides_count [OF _ assms(1) _ assms(3)] env_indices_inv [of "[]" Map.empty base] assms(2,3)
  by (auto simp: mergeEnvironment_def index_inv_def split: if_splits)

lemma key_count_unique:
  "key_count env k \<le> 1 \<Longrightarrow> x \<in> set env \<Longrightarrow> entry_key x = Some k \<Longrightarrow> last_entry env k = Some x"
proof (induction env)
  case (Cons e env)
  show ?case
  proof (cases "entry_key e = Some k")
    case True
    then have "key_count env k = 0" using Cons.prems(1) by simp
    then have none: "\<forall>y \<in> set env. entry_key y \<noteq> Some k" by (force simp: count_list_0_iff)
    then have "x = e" using Cons.prems(2,3) by auto
    with True last_entry_none [OF none] show ?thesis by (simp add: last_entry_Cons)
  next
    case False
    with Cons show ?thesis by (auto simp: last_entry_Cons)
  qed
qed simp

lemma last_entry_in: "last_entry env k = Some e \<Longrightarrow> e \<in> set env \<and> entry_key e = Some k"
  by (auto simp: last_entry_def find_Some_iff rev_nth)

lemma entry_key_prefix:
  assumes "CHR ''='' \<notin> set k" and "k \<noteq> []"
  shows "entry_key (k @ CHR ''='' # v) = Some k"
  using assms by (simp add: entry_key_def IndexByte_append_notin)

lemma entry_keyD: "entry_key e = Some k \<Longrightarrow> \<exists>v. e = k @ CHR ''='' # v"
  by (auto simp: entry_key_def IndexByte_def find_index_Some split: option.splits if_splits)
    (metis id_take_nth_drop)

lemma nonEmptyEnv_last:
  assumes "key_count env k \<le> 1" and "CHR ''='' \<notin> set k" and "k \<noteq> []"
  shows "nonEmptyEnv env k \<longleftrightarrow> last_entry env k \<notin> {None, Some (k @ ''='')}"
proof
  assume "nonEmptyEnv env k"
  then obtain x where x: "x \<in> set env" "length x > length (k @ ''='')" "hasPrefix (k @ ''='') x"
    by (auto simp: nonEmptyEnv_def list_ex_iff Let_def)
  then obtain v where v: "x = (k @ ''='') @ v" "v \<noteq> []"
    by (auto simp: hasPrefix_iff)
  with key_count_unique [OF assms(1) x(1)] entry_key_prefix [OF assms(2,3), of v]
  show "last_entry env k \<notin> {None, Some (k @ ''='')}" by simp
next
  assume "last_entry env k \<notin> {None, Some (k @ ''='')}"
  then obtain e where e: "last_entry env k = Some e" "e \<noteq> k @ ''=''" by auto
  obtain v where v: "e = k @ CHR ''='' # v" using last_entry_in [OF e(1)] entry_keyD by blast
  with e(2) have "hasPrefix (k @ ''='') e" "length e > length (k @ ''='')"
    using hasPrefix_append [of "k @ ''=''" v] by auto
  with last_entry_in [OF e(1)] show "nonEmptyEnv env k"
    by (auto simp: nonEmptyEnv_def list_ex_iff Let_def)
qed

text \<open>The entry a child should find under a name.\<close>

definition child_entry :: "bytes list \<Rightarrow> bytes list \<Rightarrow> bytes \<Rightarrow> bytes \<Rightarrow> bytes option" where
  "child_entry environ overrides defaultTerm k =
     (let e = (case last_entry overrides k of Some e \<Rightarrow> Some e | None \<Rightarrow> last_entry environ k) in
      if k = ''TERM'' \<and> (e = None \<or> e = Some ''TERM='')
      then Some (''TERM='' @ (if defaultTerm = [] then ''xterm-256color'' else defaultTerm)) else e)"

text \<open>
  C34. The environment of a child: for overrides that pass \<^verbatim>\<open>validateEnvironment\<close>, and an
  environment of the server in which \<^verbatim>\<open>TERM\<close> occurs at most once (as \<^verbatim>\<open>os.Environ\<close> returns it),
  the merge does not panic, and for every name the child finds exactly the last override, or
  without one what the server has. The only exception is \<^verbatim>\<open>TERM\<close> when that is unset or
  empty: then it gets the default of the hub, or the built-in one. An explicit \<^verbatim>\<open>TERM\<close> wins
  over every default.
\<close>

theorem child_environment:
  assumes "validateEnvironment overrides = None" and "key_count environ ''TERM'' \<le> 1"
  shows "\<exists>env. ptyEnvironment environ overrides defaultTerm = Some env \<and>
    (\<forall>k. last_entry env k = child_entry environ overrides defaultTerm k)"
proof -
  have valid: "\<forall>e \<in> set overrides. entry_key e \<noteq> None" using valid_entry_key [OF assms(1)] by blast
  obtain env where env: "mergeEnvironment environ overrides = Some env"
    and last: "\<And>k. last_entry env k =
      (case last_entry overrides k of Some e \<Rightarrow> Some e | None \<Rightarrow> last_entry environ k)"
    using mergeEnvironment_last [OF valid, of environ] by blast
  have TERM: "nonEmptyEnv env ''TERM'' \<longleftrightarrow> last_entry env ''TERM'' \<notin> {None, Some ''TERM=''}"
    using nonEmptyEnv_last [OF mergeEnvironment_count [OF valid env assms(2)]] by simp
  show ?thesis
  proof (cases "nonEmptyEnv env ''TERM''")
    case True
    then have "last_entry env k = child_entry environ overrides defaultTerm k" for k
      using TERM unfolding child_entry_def Let_def last [symmetric] by auto
    with True env show ?thesis by (simp add: ptyEnvironment_def mergeTermDefault_def)
  next
    case False
    let ?e = "''TERM='' @ (if defaultTerm = [] then builtinTerm else defaultTerm)"
    have key: "entry_key ?e = Some ''TERM''"
      by (simp add: entry_key_def IndexByte_def)
    obtain env' where env': "mergeEnvironment env [?e] = Some env'"
      and last': "\<And>k. last_entry env' k =
        (case last_entry [?e] k of Some e \<Rightarrow> Some e | None \<Rightarrow> last_entry env k)"
      using mergeEnvironment_last [of "[?e]" env] key by auto
    have "ptyEnvironment environ overrides defaultTerm = Some env'"
      using env env' False by (simp add: ptyEnvironment_def mergeTermDefault_def)
    moreover have "last_entry env' k = child_entry environ overrides defaultTerm k" for k
      using last' [of k] key False TERM unfolding child_entry_def Let_def last [symmetric]
      by (auto simp: last_entry_Cons builtinTerm_def)
    ultimately show ?thesis by blast
  qed
qed

theorem child_environment_witness:
  "\<exists>env. ptyEnvironment [''HOME=/root'', ''LANG=C'', ''TERM=vt100''] [''LANG=en'', ''TERM=dumb''] ''xterm'' =
      Some env \<and>
    last_entry env ''TERM'' = Some ''TERM=dumb'' \<and> last_entry env ''LANG'' = Some ''LANG=en''"
proof -
  have "validateEnvironment [''LANG=en'', ''TERM=dumb''] = None" by (simp add: IndexByte_def)
  moreover have "key_count [''HOME=/root'', ''LANG=C'', ''TERM=vt100''] ''TERM'' \<le> 1"
    by (simp add: entry_key_def IndexByte_def)
  ultimately obtain env where "ptyEnvironment [''HOME=/root'', ''LANG=C'', ''TERM=vt100'']
      [''LANG=en'', ''TERM=dumb''] ''xterm'' = Some env"
    and "\<forall>k. last_entry env k = child_entry [''HOME=/root'', ''LANG=C'', ''TERM=vt100'']
      [''LANG=en'', ''TERM=dumb''] ''xterm'' k"
    using child_environment [of "[''LANG=en'', ''TERM=dumb'']" "[''HOME=/root'', ''LANG=C'', ''TERM=vt100'']" "''xterm''"]
    by blast
  then show ?thesis
    by (auto simp: child_entry_def last_entry_def entry_key_def IndexByte_def)
qed

end
