(* ===== verification/Session.thy ===== *)
theory Session
  imports Terminal Output_Reader Process_Env
begin

text \<open>
  One session (\<^verbatim>\<open>process.go\<close>, \<^verbatim>\<open>session.go\<close>): the state around a PTY master, starting it,
  recording what the child writes into the output log and the emulated terminal, and the
  operations of \<^verbatim>\<open>localSession\<close>. The PTY is input: what each poll and read of it answers
  comes as a list of events, and the faults of the system calls are arguments. \<open>ctx\<close> is
  the value of \<^verbatim>\<open>ctx.Err()\<close> and \<open>cur\<close> whether the hub still lists this state under its name.
\<close>

section \<open>State\<close>

record 't platform =
  vtlib :: "'t ghostty"
  lowercase :: "bytes \<Rightarrow> bytes"
  hostName :: "bytes option"
  sha256 :: "bytes \<Rightarrow> bytes"

record 't sessionState =
  st_name :: bytes
  st_command :: bool
  st_pid :: int
  st_masterFD :: int
  st_size :: size
  st_master :: bool
  st_output :: outputLog
  st_vt :: "'t vtTerminal"
  st_scrollback :: u64
  st_createdAt :: int
  st_waitErr :: "go_error option"
  st_closeOnce :: bool
  st_done :: bool
  st_reaped :: bool
  st_migrated :: bool

section \<open>Starting\<close>

record start_env =
  mkdirTemp :: "go_error + bytes"
  logEnv :: open_env
  wakePipe :: "go_error option"
  osEnviron :: "bytes list"
  osShell :: bytes
  startPty :: "exec_cmd option \<Rightarrow> 16 word \<times> 16 word \<Rightarrow> go_error + int \<times> int"
  startTime :: int

definition startSession ::
  "'t platform \<Rightarrow> go_error option \<Rightarrow> start_env \<Rightarrow> bytes \<Rightarrow> processSpec \<Rightarrow> size \<Rightarrow> bytes \<Rightarrow> u64 \<Rightarrow> disk \<Rightarrow>
   (go_error + 't sessionState) \<times> disk" where
  "startSession P ctx env name process sz defaultTerm scrollback d =
     (case ctx of Some e \<Rightarrow> (Inl e, d)
      | None \<Rightarrow>
          (case newVTTerminalWithOptions (vtlib P) (Columns sz) (Rows sz) scrollback of
             Inl e \<Rightarrow> (Inl (Wrap ''create vt: '' e []), d)
           | Inr vt \<Rightarrow>
               (case createOutputLog (mkdirTemp env) (logEnv env) d of
                  (Inl e, d1) \<Rightarrow> (Inl e, d1)
                | (Inr l, d1) \<Rightarrow>
                    (let l1 = log_markSize l sz in
                     case wakePipe env of
                       Some e \<Rightarrow> (Inl (Wrap ''create migration wake pipe: '' e []), snd (log_discard l1 d1))
                     | None \<Rightarrow>
                         (case startPty env (ptyCommand (osEnviron env) (osShell env) process defaultTerm) (winsize sz) of
                            Inl e \<Rightarrow> (Inl (Wrap ''start pty: '' e []), snd (log_discard l1 d1))
                          | Inr (pid, fd) \<Rightarrow>
                              (Inr \<lparr>st_name = name, st_command = True, st_pid = pid, st_masterFD = fd,
                                    st_size = sz, st_master = True, st_output = l1, st_vt = vt,
                                    st_scrollback = scrollback, st_createdAt = startTime env,
                                    st_waitErr = None, st_closeOnce = False, st_done = False,
                                    st_reaped = False, st_migrated = False\<rparr>, d1))))))"

text \<open>Building a session around a transferred master (\<open>master\<close>) or an exited one; \<open>pipe\<close> is the fault of \<^verbatim>\<open>os.Pipe\<close>, \<open>fd\<close> the descriptor.\<close>

definition adoptStateWithTerminal ::
  "go_error option \<Rightarrow> int \<Rightarrow> bytes \<Rightarrow> bool \<Rightarrow> 't vtTerminal \<Rightarrow> outputLog \<Rightarrow> size \<Rightarrow> int \<Rightarrow> int \<Rightarrow>
   exitError option \<Rightarrow> u64 \<Rightarrow> go_error + 't sessionState" where
  "adoptStateWithTerminal pipe fd name master vt l sz createdAt pid exit scrollback =
     (case (if master then pipe else None) of
        Some e \<Rightarrow> Inl (Wrap ''create migration wake pipe: '' e [])
      | None \<Rightarrow>
          (let st = \<lparr>st_name = name, st_command = False, st_pid = pid, st_masterFD = - 1, st_size = sz,
                     st_master = master, st_output = l, st_vt = vt, st_scrollback = scrollback,
                     st_createdAt = createdAt, st_waitErr = None, st_closeOnce = False, st_done = False,
                     st_reaped = False, st_migrated = False\<rparr> in
           Inr (if \<not> master then
                  st\<lparr>st_waitErr := Some (ExitErr (case exit of Some e \<Rightarrow> e
                       | None \<Rightarrow> \<lparr>Code = - 1, Signal = [], Unknown = True\<rparr>)),
                     st_output := log_close None l, st_done := True, st_reaped := True\<rparr>
                else st\<lparr>st_masterFD := fd, st_output := log_markSize l sz\<rparr>)))"

definition adoptStateWithOutput ::
  "'t platform \<Rightarrow> go_error option \<Rightarrow> int \<Rightarrow> bytes \<Rightarrow> bool \<Rightarrow> bytes \<Rightarrow> size \<Rightarrow> outputLog \<Rightarrow> int \<Rightarrow> int \<Rightarrow>
   exitError option \<Rightarrow> u64 \<Rightarrow> go_error + 't sessionState" where
  "adoptStateWithOutput P pipe fd name master snapshot sz l createdAt pid exit scrollback =
     (case newVTTerminalWithOptions (vtlib P) (Columns sz) (Rows sz) scrollback of
        Inl e \<Rightarrow> Inl (Wrap ''create vt: '' e [])
      | Inr vt \<Rightarrow>
          (case RestoreState (vtlib P) (sha256 P) (lowercase P) (hostName P) snapshot vt of
             (Some e, _) \<Rightarrow> Inl (Wrap ''restore vt state: '' e [])
           | (None, vt') \<Rightarrow> adoptStateWithTerminal pipe fd name master vt' l sz createdAt pid exit scrollback))"

definition adoptState ::
  "'t platform \<Rightarrow> open_env \<Rightarrow> go_error option \<Rightarrow> int \<Rightarrow> bytes \<Rightarrow> bool \<Rightarrow> bytes \<Rightarrow> size \<Rightarrow> bytes \<Rightarrow> u64 \<Rightarrow>
   int \<Rightarrow> int \<Rightarrow> exitError option \<Rightarrow> u64 \<Rightarrow> disk \<Rightarrow> (go_error + 't sessionState) \<times> disk" where
  "adoptState P env pipe fd name master snapshot sz dir g createdAt pid exit scrollback d =
     (case adoptOutputLog env dir g d of
        (Inl e, d1) \<Rightarrow> (Inl e, d1)
      | (Inr l, d1) \<Rightarrow>
          (adoptStateWithOutput P pipe fd name master snapshot sz l createdAt pid exit scrollback, d1))"

definition adoptLossyState ::
  "'t platform \<Rightarrow> open_env \<Rightarrow> go_error + bytes \<Rightarrow> open_env \<Rightarrow> go_error option \<Rightarrow> int \<Rightarrow> int \<Rightarrow> bytes \<Rightarrow> bool \<Rightarrow>
   bytes \<Rightarrow> size \<Rightarrow> bytes \<Rightarrow> u64 \<Rightarrow> int \<Rightarrow> int \<Rightarrow> exitError option \<Rightarrow> u64 \<Rightarrow> disk \<Rightarrow>
   (go_error + 't sessionState) \<times> disk" where
  "adoptLossyState P env mk env' pipe fd now name master replay sz dir g createdAt pid exit scrollback d =
     (let (opened, freshOutput, d1) =
        (case adoptOutputLog env dir g d of
           (Inr l, d1) \<Rightarrow> (Inr l, False, d1)
         | (Inl _, d1) \<Rightarrow> (case createOutputLog mk env' d1 of (r, d2) \<Rightarrow> (r, True, d2))) in
      case opened of
        Inl e \<Rightarrow> (Inl (Wrap ''create lossy output log: '' e []), d1)
      | Inr l \<Rightarrow>
          (let cleanup = (if freshOutput then snd (log_discard l d1) else d1) in
           case newVTTerminalWithOptions (vtlib P) (Columns sz) (Rows sz) scrollback of
             Inl e \<Rightarrow> (Inl (Wrap ''create lossy vt: '' e []), cleanup)
           | Inr vt \<Rightarrow>
               (let vt' = (if replay \<noteq> [] then terminal_Feed (vtlib P) (lowercase P) (hostName P) now replay vt else vt) in
                case adoptStateWithTerminal pipe fd name master vt' l sz createdAt pid exit scrollback of
                  Inl e \<Rightarrow> (Inl e, cleanup)
                | Inr st \<Rightarrow> (Inr st, d1))))"

section \<open>Recording output\<close>

text \<open>Append a chunk to the log and feed it to the emulator if that succeeded.\<close>

definition record_chunk ::
  "'t platform \<Rightarrow> int \<Rightarrow> write_outcome \<Rightarrow> bytes \<Rightarrow> 't sessionState \<Rightarrow> disk \<Rightarrow> go_error option \<times> 't sessionState \<times> disk" where
  "record_chunk P now oc chunk st d =
     (case log_append oc (st_output st) d chunk of
        (Some e, l, d1) \<Rightarrow> (Some e, st\<lparr>st_output := l\<rparr>, d1)
      | (None, l, d1) \<Rightarrow>
          (None, st\<lparr>st_output := l,
                   st_vt := terminal_Feed (vtlib P) (lowercase P) (hostName P) now chunk (st_vt st)\<rparr>, d1))"

text \<open>
  What one turn of a loop over the PTY meets: the deadline, a failing or empty poll, or a
  read with its bytes and its error, the outcome of storing them, and the time.
\<close>

datatype pty_event =
    Late
  | PollErr go_error
  | NotReady
  | ReadGot bytes "go_error option" write_outcome int

definition migrationDrainBudget :: nat where
  "migrationDrainBudget = 8388608"

definition resizeDrainBudget :: nat where
  "resizeDrainBudget = 1048576"

fun drainOutput ::
  "'t platform \<Rightarrow> nat \<Rightarrow> pty_event list \<Rightarrow> 't sessionState \<Rightarrow> disk \<Rightarrow> go_error option \<times> 't sessionState \<times> disk" where
  "drainOutput P drained [] st d = (None, st, d)"
| "drainOutput P drained (ev # evs) st d =
     (if drained \<ge> migrationDrainBudget \<or> ev = Late then (None, st, d)
      else case ev of
        PollErr e \<Rightarrow> (Some e, st, d)
      | ReadGot chunk readErr oc now \<Rightarrow>
          (case (if chunk \<noteq> [] then record_chunk P now oc chunk st d else (None, st, d)) of
             (Some e, st1, d1) \<Rightarrow> (Some e, st1, d1)
           | (None, st1, d1) \<Rightarrow>
               if readErr \<noteq> None then (readErr, st1, d1) else drainOutput P (drained + length chunk) evs st1 d1)
      | _ \<Rightarrow> (None, st, d))"

fun drain_resize_loop ::
  "'t platform \<Rightarrow> nat \<Rightarrow> pty_event list \<Rightarrow> 't sessionState \<Rightarrow> disk \<Rightarrow> go_error option \<times> 't sessionState \<times> disk" where
  "drain_resize_loop P drained [] st d = (None, st, d)"
| "drain_resize_loop P drained (ev # evs) st d =
     (if drained \<ge> resizeDrainBudget \<or> ev = Late then (None, st, d)
      else case ev of
        ReadGot chunk readErr oc now \<Rightarrow>
          (case (if chunk \<noteq> [] then record_chunk P now oc chunk st d else (None, st, d)) of
             (Some e, st1, d1) \<Rightarrow> (Some e, st1, d1)
           | (None, st1, d1) \<Rightarrow>
               if readErr \<noteq> None \<or> chunk = [] then (None, st1, d1)
               else drain_resize_loop P (drained + length chunk) evs st1 d1)
      | _ \<Rightarrow> (None, st, d))"

definition drainResizeOutput ::
  "'t platform \<Rightarrow> pty_event list \<Rightarrow> 't sessionState \<Rightarrow> disk \<Rightarrow> go_error option \<times> 't sessionState \<times> disk" where
  "drainResizeOutput P evs st d = (if \<not> st_master st then (None, st, d) else drain_resize_loop P 0 evs st d)"

text \<open>The locked part of a turn of \<^verbatim>\<open>copyOutputLoop\<close>: whether the loop goes on.\<close>

definition copy_turn ::
  "'t platform \<Rightarrow> pty_event \<Rightarrow> 't sessionState \<Rightarrow> disk \<Rightarrow> bool \<times> 't sessionState \<times> disk" where
  "copy_turn P ev st d =
     (case ev of
        PollErr e \<Rightarrow> (False, st, d)
      | ReadGot chunk readErr oc now \<Rightarrow>
          (case (if chunk \<noteq> [] then record_chunk P now oc chunk st d else (None, st, d)) of
             (appendErr, st1, d1) \<Rightarrow> (appendErr = None \<and> readErr = None, st1, d1))
      | _ \<Rightarrow> (True, st, d))"

text \<open>
  The end of \<^verbatim>\<open>copyOutput\<close>: \<open>waited\<close> is what \<^verbatim>\<open>waitSessionCommand\<close> returned. The deferred
  calls close the log and then announce that the session is done.
\<close>

definition unknownExit :: go_error where
  "unknownExit = ExitErr \<lparr>Code = - 1, Signal = [], Unknown = True\<rparr>"

definition copy_finish :: "go_error option \<Rightarrow> 't sessionState \<Rightarrow> 't sessionState" where
  "copy_finish waited st =
     (let err = (if st_migrated st then Some unknownExit
                 else if st_command st then waited
                 else if st_master st then Some unknownExit
                 else st_waitErr st) in
      st\<lparr>st_waitErr := err, st_reaped := True, st_output := log_close None (st_output st), st_done := True\<rparr>)"

definition state_close :: "'t sessionState \<Rightarrow> 't sessionState" where
  "state_close st =
     (if st_closeOnce st then st
      else st\<lparr>st_closeOnce := True, st_output := log_close None (st_output st), st_vt := terminal_Close (st_vt st)\<rparr>)"

text \<open>\<^verbatim>\<open>terminate\<close>: the process groups signalled, with the answers of the two waits for the reaper.\<close>

definition SIGHUP :: int where "SIGHUP = 1"
definition SIGKILL :: int where "SIGKILL = 9"

definition terminate ::
  "bool \<Rightarrow> bool \<Rightarrow> 't sessionState \<Rightarrow> go_error option \<times> (int \<times> int) list \<times> 't sessionState" where
  "terminate reapedInGrace reapedAfterKill st =
     (if st_done st then (None, [], state_close st)
      else
        (let group = (if st_command st \<or> st_pid st > 0 then [- st_pid st] else []);
             hup = map (\<lambda>g. (g, SIGHUP)) group; kill = map (\<lambda>g. (g, SIGKILL)) group in
         if reapedInGrace then (None, hup, state_close st)
         else if reapedAfterKill then (None, hup @ kill, state_close st)
         else (Some (Plain (''session '' @ st_name st @ '' did not reap'')), hup @ kill, state_close st)))"

section \<open>Operations of a session handle\<close>

record sessionStatus =
  Alive :: bool
  Exit :: "exitError option"

record sessionMetadata =
  md_Process :: bytes
  md_CommandLine :: bytes
  md_Directory :: bytes
  md_Shell :: "shellMetadata option"

text \<open>\<open>None\<close> is waiting; \<open>ctxFirst\<close> is which ready case the \<^verbatim>\<open>select\<close> takes.\<close>

definition session_wait :: "bool \<Rightarrow> go_error option \<Rightarrow> 't sessionState \<Rightarrow> go_error option option" where
  "session_wait ctxFirst ctx st =
     (if ctx \<noteq> None \<and> (ctxFirst \<or> \<not> st_done st) then Some ctx
      else if st_done st then
        Some (errors_Join [terminalError (st_output st), convertExit (st_waitErr st)])
      else None)"

definition session_alive :: "bool \<Rightarrow> 't sessionState \<Rightarrow> bool" where
  "session_alive cur st \<longleftrightarrow> cur \<and> \<not> st_done st"

definition session_status :: "go_error option \<Rightarrow> bool \<Rightarrow> 't sessionState \<Rightarrow> go_error + sessionStatus" where
  "session_status ctx cur st =
     (case ctx of Some e \<Rightarrow> Inl e
      | None \<Rightarrow>
          (case terminalError (st_output st) of Some e \<Rightarrow> Inl e
           | None \<Rightarrow>
               if session_alive cur st then Inr \<lparr>Alive = True, Exit = None\<rparr>
               else Inr \<lparr>Alive = False,
                         Exit = (case convertExit (st_waitErr st) of Some (ExitErr e) \<Rightarrow> Some e | _ \<Rightarrow> None)\<rparr>))"

text \<open>\<open>dup\<close> and \<open>probe\<close> are the answers of the two system-dependent calls.\<close>

definition session_metadata ::
  "go_error option \<Rightarrow> bool \<Rightarrow> go_error option \<Rightarrow> go_error + bytes \<times> bytes \<Rightarrow> 't sessionState \<Rightarrow> go_error + sessionMetadata" where
  "session_metadata ctx probeForeground dup probe st =
     (case ctx of Some e \<Rightarrow> Inl e
      | None \<Rightarrow>
          (let md = \<lparr>md_Process = [], md_CommandLine = [], md_Directory = reportedPwd (st_vt st),
                     md_Shell = ShellMetadata (st_vt st)\<rparr> in
           if \<not> probeForeground \<or> st_masterFD st < 0 \<or> dup \<noteq> None then Inr md
           else (case probe of
             Inl e \<Rightarrow> Inr md
           | Inr (process, commandLine) \<Rightarrow> Inr (md\<lparr>md_Process := process, md_CommandLine := commandLine\<rparr>))))"

definition session_size :: "go_error option \<Rightarrow> bool \<Rightarrow> 't sessionState \<Rightarrow> go_error + size" where
  "session_size ctx cur st =
     (case ctx of Some e \<Rightarrow> Inl e
      | None \<Rightarrow> if \<not> cur then Inl (Sentinel ErrSessionClosed) else Inr (st_size st))"

text \<open>The system calls that delivering a signal makes.\<close>

datatype signal_call = TIOCSIG int int | KillGroup int int

definition session_signal ::
  "go_error option \<Rightarrow> bool \<Rightarrow> go_error option \<Rightarrow> go_error + int \<Rightarrow> go_error option \<Rightarrow> int \<Rightarrow> 't sessionState \<Rightarrow>
   go_error option \<times> signal_call list" where
  "session_signal ctx cur ioctl getpgid kill sig st =
     (case ctx of Some e \<Rightarrow> (Some e, [])
      | None \<Rightarrow>
          if \<not> cur then (Some (Sentinel ErrSessionClosed), [])
          else if st_done st \<or> st_pid st \<le> 0 then (Some (Sentinel ErrProcessDone), [])
          else
            (let tried = [TIOCSIG (st_masterFD st) sig];
                 fallback =
                   (case getpgid of
                      Inl e \<Rightarrow>
                        (Some (if errors_Is e ESRCH then Sentinel ErrProcessDone
                               else Wrap ''get session process group: '' e []), tried)
                    | Inr pgid \<Rightarrow>
                        if pgid \<le> 0 then (Some (Sentinel ErrProcessDone), tried)
                        else
                          (case kill of
                             None \<Rightarrow> (None, tried @ [KillGroup (- pgid) sig])
                           | Some e \<Rightarrow>
                               (Some (if errors_Is e ESRCH then Sentinel ErrProcessDone
                                      else Wrap ''signal session process group: '' e []),
                                tried @ [KillGroup (- pgid) sig]))) in
             case ioctl of
               None \<Rightarrow> (None, tried)
             | Some e \<Rightarrow>
                 if \<not> errors_Is e ENOTTY \<and> \<not> errors_Is e EINVAL then
                   (Some (if errors_Is e ESRCH \<or> errors_Is e EIO then Sentinel ErrProcessDone
                          else Wrap ''signal PTY foreground process group: '' e []), tried)
                 else fallback))"

text \<open>\<open>w\<close> is the writer of the PTY master over its state.\<close>

definition session_writeInput ::
  "go_error option \<Rightarrow> bool \<Rightarrow> ('w \<Rightarrow> bytes \<Rightarrow> (nat \<times> go_error option) \<times> 'w) \<Rightarrow> 'w \<Rightarrow> bytes \<Rightarrow> go_error option \<times> 'w" where
  "session_writeInput ctx cur w pty data =
     (case ctx of Some e \<Rightarrow> (Some e, pty)
      | None \<Rightarrow>
          if \<not> cur then (Some (Sentinel ErrSessionClosed), pty)
          else if data = [] then (None, pty)
          else (case writeFull w pty data of
            (Some e, pty') \<Rightarrow> (Some (Wrap ''write pty input: '' e []), pty')
          | (None, pty') \<Rightarrow> (None, pty')))"

definition session_resize ::
  "'t platform \<Rightarrow> go_error option \<Rightarrow> bool \<Rightarrow> pty_event list \<Rightarrow> go_error option \<Rightarrow> size \<Rightarrow> 't sessionState \<Rightarrow> disk \<Rightarrow>
   go_error option \<times> 't sessionState \<times> disk" where
  "session_resize P ctx cur evs setsize sz st d =
     (case ctx of Some e \<Rightarrow> (Some e, st, d)
      | None \<Rightarrow>
          (case Size_resolve sz zero_size of Inl e \<Rightarrow> (Some e, st, d)
           | Inr _ \<Rightarrow>
               if \<not> cur then (Some (Sentinel ErrSessionClosed), st, d)
               else (case drainResizeOutput P evs st d of
                 (Some e, st1, d1) \<Rightarrow> (Some e, st1, d1)
               | (None, st1, d1) \<Rightarrow>
                   (let st2 = st1\<lparr>st_vt := terminal_Resize (vtlib P) (Columns sz) (Rows sz) (st_vt st1)\<rparr> in
                    case setsize of
                      Some e \<Rightarrow> (Some e, st2, d1)
                    | None \<Rightarrow> (None, st2\<lparr>st_size := sz, st_output := log_markSize (st_output st2) sz\<rparr>, d1)))))"

definition clearScreen :: bytes where
  "clearScreen = ESC # ''[3J'' @ ESC # ''[2J'' @ ESC # ''[H''"

definition captureLocked :: "'t platform \<Rightarrow> 't sessionState \<Rightarrow> go_error + bytes" where
  "captureLocked P st =
     (case Snapshot (vtlib P) (st_vt st) of Inl e \<Rightarrow> Inl e | Inr snapshot \<Rightarrow> Inr (clearScreen @ snapshot))"

text \<open>The guard that most operations share.\<close>

definition guarded :: "go_error option \<Rightarrow> bool \<Rightarrow> go_error + 'a \<Rightarrow> go_error + 'a" where
  "guarded ctx cur result =
     (case ctx of Some e \<Rightarrow> Inl e | None \<Rightarrow> if \<not> cur then Inl (Sentinel ErrSessionClosed) else result)"

definition session_replay :: "'t platform \<Rightarrow> go_error option \<Rightarrow> bool \<Rightarrow> 't sessionState \<Rightarrow> go_error + bytes" where
  "session_replay P ctx cur st = guarded ctx cur (captureLocked P st)"

definition session_checkpoint ::
  "'t platform \<Rightarrow> go_error option \<Rightarrow> bool \<Rightarrow> 't sessionState \<Rightarrow> go_error + bytes \<times> cursor" where
  "session_checkpoint P ctx cur st =
     guarded ctx cur
       (case captureLocked P st of Inl e \<Rightarrow> Inl e
        | Inr replay \<Rightarrow> (case log_cursor (st_output st) of Inl e \<Rightarrow> Inl e | Inr c \<Rightarrow> Inr (replay, c)))"

definition AtomicStateFormat :: bytes where
  "AtomicStateFormat = ''ghostty-vt-snapshot-v1''"

definition session_atomicState ::
  "'t platform \<Rightarrow> go_error option \<Rightarrow> bool \<Rightarrow> 't sessionState \<Rightarrow>
   (go_error + bytes \<times> bytes \<times> cursor \<times> size) \<times> 't sessionState" where
  "session_atomicState P ctx cur st =
     (case ctx of Some e \<Rightarrow> (Inl e, st)
      | None \<Rightarrow>
          if \<not> cur then (Inl (Sentinel ErrSessionClosed), st)
          else (case encodeAtomicState (vtlib P) (st_vt st) of
            (Inl e, vt) \<Rightarrow> (Inl e, st\<lparr>st_vt := vt\<rparr>)
          | (Inr payload, vt) \<Rightarrow>
              (case log_cursor (st_output st) of
                 Inl e \<Rightarrow> (Inl e, st\<lparr>st_vt := vt\<rparr>)
               | Inr c \<Rightarrow> (Inr (AtomicStateFormat, payload, c, st_size st), st\<lparr>st_vt := vt\<rparr>))))"

definition session_output ::
  "go_error option \<Rightarrow> go_error option \<Rightarrow> u64 list \<Rightarrow> cursor \<Rightarrow> 't sessionState \<Rightarrow> disk \<Rightarrow> go_error + outputSource" where
  "session_output ctx fault order from st d =
     (case ctx of Some e \<Rightarrow> Inl e | None \<Rightarrow> log_reader ctx fault order (st_output st) d from)"

definition session_outputCursor :: "go_error option \<Rightarrow> bool \<Rightarrow> 't sessionState \<Rightarrow> go_error + cursor" where
  "session_outputCursor ctx cur st = guarded ctx cur (log_cursor (st_output st))"

definition session_rotateOutput ::
  "go_error option \<Rightarrow> go_error option \<Rightarrow> 't sessionState \<Rightarrow> disk \<Rightarrow> (go_error + cursor) \<times> 't sessionState \<times> disk" where
  "session_rotateOutput ctx fault st d =
     (case ctx of Some e \<Rightarrow> (Inl e, st, d)
      | None \<Rightarrow> (case log_rotate fault (st_output st) d of (r, l, d1) \<Rightarrow> (r, st\<lparr>st_output := l\<rparr>, d1)))"

definition session_pruneOutput ::
  "go_error option \<Rightarrow> (bytes \<Rightarrow> go_error option) \<Rightarrow> u64 list \<Rightarrow> cursor \<Rightarrow> 't sessionState \<Rightarrow> disk \<Rightarrow>
   go_error option \<times> 't sessionState \<times> disk" where
  "session_pruneOutput ctx faults order before st d =
     (case ctx of Some e \<Rightarrow> (Some e, st, d)
      | None \<Rightarrow>
          (case log_prune faults order (st_output st) d before of (r, l, d1) \<Rightarrow> (r, st\<lparr>st_output := l\<rparr>, d1)))"

definition session_terminate ::
  "go_error option \<Rightarrow> bool \<Rightarrow> bool \<Rightarrow> bool \<Rightarrow> 't sessionState \<Rightarrow> go_error option \<times> (int \<times> int) list \<times> 't sessionState" where
  "session_terminate ctx cur reap1 reap2 st =
     (case ctx of Some e \<Rightarrow> (Some e, [], st)
      | None \<Rightarrow> if \<not> cur then (None, [], st) else terminate reap1 reap2 st)"

text \<open>\<open>removed\<close> in the answer: whether the hub drops the name.\<close>

definition session_delete ::
  "go_error option \<Rightarrow> bool \<Rightarrow> bool \<Rightarrow> bool \<Rightarrow> 't sessionState \<Rightarrow> disk \<Rightarrow>
   go_error option \<times> bool \<times> (int \<times> int) list \<times> 't sessionState \<times> disk" where
  "session_delete ctx cur reap1 reap2 st d =
     (case ctx of Some e \<Rightarrow> (Some e, False, [], st, d)
      | None \<Rightarrow>
          if \<not> cur then (None, False, [], st, d)
          else (case terminate reap1 reap2 st of (err, kills, st1) \<Rightarrow>
            (case log_discard (st_output st1) d of (l, d1) \<Rightarrow> (err, True, kills, st1\<lparr>st_output := l\<rparr>, d1))))"

end
