(* ===== verification/Hub.thy ===== *)
theory Hub
  imports Session
begin

text \<open>
  The hub that owns the sessions of a process (\<^verbatim>\<open>hub.go\<close>): creation with its reservation of
  the name, lookup, the ordered listing, closing, and the freeze for a migration. Sessions are
  shared objects: the hub maps names to addresses of session states, and a handle holds the
  address of its state. The threads of a process are interleaved at the points where they
  take the locks: \<^verbatim>\<open>lifecycleMu\<close> is a count of readers (the starts in flight) and a writer.
\<close>

section \<open>Keys of the listing\<close>

datatype session_key = Key (key_created: int) (key_name: bytes)

instantiation session_key :: linorder
begin

definition less_session_key :: "session_key \<Rightarrow> session_key \<Rightarrow> bool" where
  "less_session_key left right \<longleftrightarrow>
     (if key_created left = key_created right then key_name left < key_name right
      else key_created left < key_created right)"

definition less_eq_session_key :: "session_key \<Rightarrow> session_key \<Rightarrow> bool" where
  "less_eq_session_key left right \<longleftrightarrow> left = right \<or> left < right"

instance
proof
  fix x y z :: session_key
  show "x < y \<longleftrightarrow> x \<le> y \<and> \<not> y \<le> x"
    by (auto simp: less_session_key_def less_eq_session_key_def split: if_splits)
  show "x \<le> x" by (simp add: less_eq_session_key_def)
  show "x \<le> y \<Longrightarrow> y \<le> z \<Longrightarrow> x \<le> z"
    by (auto simp: less_session_key_def less_eq_session_key_def split: if_splits)
  show "x \<le> y \<Longrightarrow> y \<le> x \<Longrightarrow> x = y"
    by (auto simp: less_session_key_def less_eq_session_key_def split: if_splits)
  show "x \<le> y \<or> y \<le> x"
    by (cases x; cases y) (auto simp: less_session_key_def less_eq_session_key_def)
qed

end

section \<open>State\<close>

record options =
  OutputDir :: bytes
  DefaultSize :: size
  DefaultTerm :: bytes
  VTScrollback :: u64
  ProbeForeground :: bool

record sessionOptions =
  so_Name :: bytes
  so_Process :: processSpec
  so_Size :: size
  so_Scrollback :: u64

record 't hub =
  h_outputDir :: bytes
  h_defaultSize :: size
  h_defaultTerm :: bytes
  h_scrollback :: u64
  h_probe :: bool
  h_sessions :: "bytes \<rightharpoonup> nat"
  h_pending :: "bytes set"
  h_closed :: bool
  h_states :: "'t sessionState list"

definition New :: "bytes \<Rightarrow> options \<Rightarrow> go_error + 't hub" where
  "New defaultOutputDirectory opts =
     (case Size_resolve (DefaultSize opts) (Size defaultColumns defaultRows) of
        Inl e \<Rightarrow> Inl e
      | Inr sz \<Rightarrow>
          Inr \<lparr>h_outputDir = (if OutputDir opts = [] then defaultOutputDirectory else OutputDir opts),
               h_defaultSize = sz, h_defaultTerm = DefaultTerm opts,
               h_scrollback = resolveVTScrollbackMaxBytes (VTScrollback opts) DefaultVTScrollbackMaxBytes,
               h_probe = ProbeForeground opts, h_sessions = Map.empty, h_pending = {}, h_closed = False,
               h_states = []\<rparr>)"

section \<open>Starting a session\<close>

text \<open>The checks and the reservation of the name, up to the first release of the hub's lock.\<close>

definition start_reserve :: "go_error option \<Rightarrow> sessionOptions \<Rightarrow> 't hub \<Rightarrow> (go_error + size \<times> u64) \<times> 't hub" where
  "start_reserve ctx opts h =
     (case validateName (so_Name opts) of Some e \<Rightarrow> (Inl e, h)
      | None \<Rightarrow> (case ProcessSpec_validate (so_Process opts) of Some e \<Rightarrow> (Inl e, h)
      | None \<Rightarrow> (case ctx of Some e \<Rightarrow> (Inl e, h)
      | None \<Rightarrow> (case Size_resolve (so_Size opts) (h_defaultSize h) of Inl e \<Rightarrow> (Inl e, h)
      | Inr sz \<Rightarrow>
          if h_closed h then (Inl (Sentinel ErrClosed), h)
          else if so_Name opts \<in> h_pending h \<or> h_sessions h (so_Name opts) \<noteq> None then
            (Inl (Wrap [] (Sentinel ErrSessionExists) ('': '' @ so_Name opts)), h)
          else (Inr (sz, resolveVTScrollbackMaxBytes (so_Scrollback opts) (h_scrollback h)),
                h\<lparr>h_pending := insert (so_Name opts) (h_pending h)\<rparr>)))))"

definition start_release :: "bytes \<Rightarrow> 't hub \<Rightarrow> 't hub" where
  "start_release name h = h\<lparr>h_pending := h_pending h - {name}\<rparr>"

text \<open>
  The second locked region: the new state enters the table, or is given up and must be
  terminated.
\<close>

definition start_publish :: "bytes \<Rightarrow> 't sessionState \<Rightarrow> 't hub \<Rightarrow> (go_error + nat) \<times> 't hub" where
  "start_publish name st h =
     (let h1 = start_release name h; a = length (h_states h) in
      if h_closed h then (Inl (Sentinel ErrClosed), h1)
      else if h_sessions h name \<noteq> None then (Inl (Wrap [] (Sentinel ErrSessionExists) ('': '' @ name)), h1)
      else (Inr a, h1\<lparr>h_sessions := (h_sessions h)(name \<mapsto> a), h_states := h_states h @ [st]\<rparr>))"

text \<open>
  \<^verbatim>\<open>Start\<close> run through without another thread in between; \<open>mkdirAll\<close> is the fault of creating
  the output directory, \<open>reap\<close> what \<^verbatim>\<open>terminate\<close> would meet.
\<close>

definition hub_Start ::
  "'t platform \<Rightarrow> go_error option \<Rightarrow> go_error option \<Rightarrow> start_env \<Rightarrow> sessionOptions \<Rightarrow> 't hub \<Rightarrow> disk \<Rightarrow>
   (go_error + nat) \<times> 't hub \<times> disk" where
  "hub_Start P ctx mkdirAll env opts h d =
     (case start_reserve ctx opts h of
        (Inl e, h1) \<Rightarrow> (Inl e, h1, d)
      | (Inr (sz, scrollback), h1) \<Rightarrow>
          (case mkdirAll of
             Some e \<Rightarrow> (Inl (Wrap ''create output dir: '' e []), start_release (so_Name opts) h1, d)
           | None \<Rightarrow>
               (case startSession P ctx env (so_Name opts) (so_Process opts) sz (h_defaultTerm h1) scrollback d of
                  (Inl e, d1) \<Rightarrow> (Inl e, start_release (so_Name opts) h1, d1)
                | (Inr st, d1) \<Rightarrow> (case start_publish (so_Name opts) st h1 of (r, h2) \<Rightarrow> (r, h2, d1)))))"

section \<open>Lookup and listing\<close>

definition hub_session :: "bytes \<Rightarrow> 't hub \<Rightarrow> nat option" where
  "hub_session name h = h_sessions h name"

definition hub_Get :: "go_error option \<Rightarrow> bytes \<Rightarrow> 't hub \<Rightarrow> go_error + nat" where
  "hub_Get ctx name h =
     (case ctx of Some e \<Rightarrow> Inl e
      | None \<Rightarrow> (case hub_session name h of
          None \<Rightarrow> Inl (Wrap [] (Sentinel ErrSessionNotFound) ('': '' @ name))
        | Some a \<Rightarrow> Inr a))"

text \<open>Whether the handle of the state at an address is still the one its hub lists.\<close>

definition hub_current :: "nat \<Rightarrow> 't hub \<Rightarrow> bool" where
  "hub_current a h \<longleftrightarrow> h_sessions h (st_name (h_states h ! a)) = Some a"

definition state_key :: "'t sessionState \<Rightarrow> session_key" where
  "state_key st = Key (st_createdAt st) (st_name st)"

text \<open>\<open>order\<close> is the order in which Go iterates over the table.\<close>

definition sessionStates :: "nat list \<Rightarrow> 't hub \<Rightarrow> 't sessionState list" where
  "sessionStates order h = sort_key state_key (map (\<lambda>a. h_states h ! a) order)"

definition hub_List :: "go_error option \<Rightarrow> nat list \<Rightarrow> 't hub \<Rightarrow> go_error + (bytes \<times> int) list" where
  "hub_List ctx order h =
     (case ctx of Some e \<Rightarrow> Inl e
      | None \<Rightarrow> Inr (map (\<lambda>st. (st_name st, st_createdAt st)) (sessionStates order h)))"

section \<open>Removing and closing\<close>

definition hub_remove :: "bytes \<Rightarrow> 't hub \<Rightarrow> 't hub" where
  "hub_remove name h = h\<lparr>h_sessions := (h_sessions h)(name := None)\<rparr>"

text \<open>Terminating the states at some addresses; \<open>reap\<close> are the answers of the waits for each.\<close>

fun terminate_all ::
  "(nat \<Rightarrow> bool \<times> bool) \<Rightarrow> nat list \<Rightarrow> 't sessionState list \<Rightarrow> go_error list \<times> 't sessionState list" where
  "terminate_all reap [] sts = ([], sts)"
| "terminate_all reap (a # as) sts =
     (case terminate (fst (reap a)) (snd (reap a)) (sts ! a) of (err, _, st) \<Rightarrow>
      (case terminate_all reap as (sts[a := st]) of (errs, sts') \<Rightarrow>
        (case err of None \<Rightarrow> (errs, sts') | Some e \<Rightarrow> (e # errs, sts'))))"

definition hub_Close ::
  "(nat \<Rightarrow> bool \<times> bool) \<Rightarrow> nat list \<Rightarrow> 't hub \<Rightarrow> go_error option \<times> 't hub" where
  "hub_Close reap order h =
     (if h_closed h then (None, h)
      else (case terminate_all reap order (h_states h) of (errs, sts) \<Rightarrow>
        (errors_Join (map Some errs), h\<lparr>h_closed := True, h_sessions := Map.empty, h_states := sts\<rparr>)))"

definition beginMigrationBatch :: "'t hub \<Rightarrow> bool" where
  "beginMigrationBatch h \<longleftrightarrow> \<not> h_closed h"

end
