(* ===== verification/Rpc.thy ===== *)
theory Rpc
  imports Errors
begin

text \<open>
  The framing of the RPC protocol (\<^verbatim>\<open>rpc.go\<close>, and its client half in \<^verbatim>\<open>client.go\<close>): a
  JSON line of bounded length, followed by a raw payload of the length the line declares.
  A connection is the bytes that arrive on it and the error at their end; \<open>B\<close> is the size
  of the \<^verbatim>\<open>bufio\<close> buffer. \<^verbatim>\<open>encoding/json\<close> is a parameter: a pair of functions, of which the
  round trip needs that a marshalled envelope has no newline and is read back.
\<close>

section \<open>Constants and envelopes\<close>

definition maxRPCFrame :: nat where
  "maxRPCFrame = 1048576"

definition maxRPCPayload :: nat where
  "maxRPCPayload = 1048576"

definition maxRPCChunk :: nat where
  "maxRPCChunk = 65536"

definition wireVersion :: int where
  "wireVersion = 1"

definition ProtocolVersion :: bytes where
  "ProtocolVersion = ''1.0.0''"

abbreviation newline :: byte where
  "newline \<equiv> CHR 0x0A"

record request =
  req_wire :: int
  req_id :: int
  req_method :: bytes
  req_params :: bytes
  req_payloadBytes :: int

record response =
  resp_wire :: int
  resp_id :: int
  resp_result :: bytes
  resp_error :: "rpcError option"
  resp_payloadBytes :: int

section \<open>Reading from a connection\<close>

text \<open>\<^verbatim>\<open>bufio.Reader.ReadSlice('\n')\<close>: the bytes up to the delimiter, a full buffer, or what is left.\<close>

datatype slice_result = GotLine | BufferFull | StreamEnd

definition ReadSlice :: "nat \<Rightarrow> bytes \<Rightarrow> bytes \<times> slice_result \<times> bytes" where
  "ReadSlice B s =
     (case IndexByte (take B s) newline of
        Some i \<Rightarrow> (take (i + 1) s, GotLine, drop (i + 1) s)
      | None \<Rightarrow> if B \<le> length s then (take B s, BufferFull, drop B s) else (s, StreamEnd, []))"

function readLine_loop ::
  "nat \<Rightarrow> go_error \<Rightarrow> nat \<Rightarrow> bytes \<Rightarrow> bytes \<Rightarrow> (go_error + bytes) \<times> bytes" where
  "readLine_loop B endErr limit line s =
     (case ReadSlice B s of (chunk, st, rest) \<Rightarrow>
        let line = line @ chunk in
        if length line > limit then (Inl (Sentinel ErrFrameTooLarge), rest)
        else case st of
          GotLine \<Rightarrow> (Inr line, rest)
        | StreamEnd \<Rightarrow> (Inl endErr, rest)
        | BufferFull \<Rightarrow> if B = 0 then (Inl endErr, rest) else readLine_loop B endErr limit line rest)"
  by pat_completeness auto
termination
  by (relation "measure (\<lambda>(B, e, limit, line, s). length s)")
    (auto simp: ReadSlice_def split: option.splits if_splits)

declare readLine_loop.simps [simp del]

definition readLine :: "nat \<Rightarrow> go_error \<Rightarrow> nat \<Rightarrow> bytes \<Rightarrow> (go_error + bytes) \<times> bytes" where
  "readLine B endErr limit s = readLine_loop B endErr limit [] s"

text \<open>\<^verbatim>\<open>io.ReadFull\<close>.\<close>

definition ReadFull :: "go_error \<Rightarrow> nat \<Rightarrow> bytes \<Rightarrow> (go_error + bytes) \<times> bytes" where
  "ReadFull endErr n s =
     (if n \<le> length s then (Inr (take n s), drop n s)
      else if s \<noteq> [] \<and> endErr = Sentinel EOF then (Inl (Sentinel ErrUnexpectedEOF), [])
      else (Inl endErr, []))"

section \<open>Requests\<close>

text \<open>
  What is written: all of the frame, or with a fault of the connection a part of it and the
  error.
\<close>

definition send :: "(nat \<times> go_error) option \<Rightarrow> bytes \<Rightarrow> go_error option \<times> bytes" where
  "send fault data = (case fault of None \<Rightarrow> (None, data) | Some (n, e) \<Rightarrow> (Some e, take n data))"

definition writeRequestPayload ::
  "(request \<Rightarrow> go_error + bytes) \<Rightarrow> (nat \<times> go_error) option \<Rightarrow> request \<Rightarrow> bytes \<Rightarrow>
   go_error option \<times> bytes" where
  "writeRequestPayload marshal fault req payload =
     (if length payload > maxRPCPayload then (Some (Sentinel ErrFrameTooLarge), [])
      else case marshal (req\<lparr>req_wire := wireVersion, req_payloadBytes := int (length payload)\<rparr>) of
        Inl e \<Rightarrow> (Some e, [])
      | Inr encoded \<Rightarrow>
          if length encoded + 1 > maxRPCFrame then (Some (Sentinel ErrFrameTooLarge), [])
          else send fault (encoded @ [newline] @ payload))"

definition writeRequest ::
  "(request \<Rightarrow> go_error + bytes) \<Rightarrow> (nat \<times> go_error) option \<Rightarrow> request \<Rightarrow> go_error option \<times> bytes" where
  "writeRequest marshal fault req = writeRequestPayload marshal fault req []"

definition readRequest ::
  "(bytes \<Rightarrow> go_error + request) \<Rightarrow> nat \<Rightarrow> go_error \<Rightarrow> bytes \<Rightarrow>
   (go_error + request \<times> bytes) \<times> bytes" where
  "readRequest unmarshal B endErr s =
     (case readLine B endErr maxRPCFrame s of
        (Inl e, rest) \<Rightarrow> (Inl e, rest)
      | (Inr line, rest) \<Rightarrow>
          (case unmarshal line of
             Inl e \<Rightarrow> (Inl (Wrap ''invalid request: '' e []), rest)
           | Inr req \<Rightarrow>
               if req_wire req \<noteq> wireVersion then
                 (Inl (Wrap [] (Sentinel ErrProtocolMismatch) ('': wire '' @ Itoa (req_wire req))), rest)
               else if req_id req \<le> 0 \<or> req_method req = [] then
                 (Inl (Plain ''invalid request envelope''), rest)
               else if req_payloadBytes req < 0 \<or> req_payloadBytes req > int maxRPCPayload then
                 (Inl (Sentinel ErrFrameTooLarge), rest)
               else if req_payloadBytes req > 0 then
                 (case ReadFull endErr (nat (req_payloadBytes req)) rest of
                    (Inl e, rest') \<Rightarrow> (Inl (Wrap ''read request payload: '' e []), rest')
                  | (Inr payload, rest') \<Rightarrow> (Inr (req, payload), rest'))
               else (Inr (req, []), rest)))"

section \<open>Responses\<close>

text \<open>\<open>result\<close> is \<open>None\<close> for a nil result, else the answer of \<^verbatim>\<open>json.Marshal(result)\<close>.\<close>

definition encodeResponse ::
  "(response \<Rightarrow> go_error + bytes) \<Rightarrow> int \<Rightarrow> (go_error + bytes) option \<Rightarrow> nat \<Rightarrow> go_error option \<Rightarrow>
   go_error + bytes" where
  "encodeResponse marshal i result payloadBytes err =
     (let base = \<lparr>resp_wire = wireVersion, resp_id = i, resp_result = [], resp_error = None,
                  resp_payloadBytes = int payloadBytes\<rparr>;
          value = (case err of
             Some e \<Rightarrow> base\<lparr>resp_error := Some (newRPCError e)\<rparr>
           | None \<Rightarrow> (case result of
               None \<Rightarrow> base
             | Some (Inl e) \<Rightarrow> base\<lparr>resp_error := Some \<lparr>rCode = ''internal'', rMessage = Error e\<rparr>\<rparr>
             | Some (Inr encoded) \<Rightarrow> base\<lparr>resp_result := encoded\<rparr>)) in
      case marshal value of
        Inl e \<Rightarrow> Inl e
      | Inr encoded \<Rightarrow>
          if length encoded + 1 > maxRPCFrame then
            marshal \<lparr>resp_wire = wireVersion, resp_id = i, resp_result = [],
                     resp_error = Some (newRPCError (Sentinel ErrFrameTooLarge)), resp_payloadBytes = 0\<rparr>
          else Inr encoded)"

definition writeResponse ::
  "(response \<Rightarrow> go_error + bytes) \<Rightarrow> (nat \<times> go_error) option \<Rightarrow> int \<Rightarrow> (go_error + bytes) option \<Rightarrow>
   go_error option \<Rightarrow> go_error option \<times> bytes" where
  "writeResponse marshal fault i result err =
     (case encodeResponse marshal i result 0 err of
        Inl e \<Rightarrow> (Some e, [])
      | Inr encoded \<Rightarrow> send fault (encoded @ [newline]))"

definition writeRawResponse ::
  "(response \<Rightarrow> go_error + bytes) \<Rightarrow> (nat \<times> go_error) option \<Rightarrow> int \<Rightarrow> (go_error + bytes) option \<Rightarrow>
   bytes \<Rightarrow> go_error option \<Rightarrow> go_error option \<times> bytes" where
  "writeRawResponse marshal fault i result data err =
     (if length data > maxRPCChunk then (Some (Sentinel ErrFrameTooLarge), [])
      else
        (let data = (if err \<noteq> None then [] else data) in
         case encodeResponse marshal i result (length data) err of
           Inl e \<Rightarrow> (Some e, [])
         | Inr encoded \<Rightarrow> send fault (encoded @ [newline] @ data)))"

definition readResponse ::
  "(bytes \<Rightarrow> go_error + response) \<Rightarrow> nat \<Rightarrow> go_error \<Rightarrow> bytes \<Rightarrow> (go_error + response) \<times> bytes" where
  "readResponse unmarshal B endErr s =
     (case readLine B endErr maxRPCFrame s of
        (Inl e, rest) \<Rightarrow> (Inl e, rest)
      | (Inr line, rest) \<Rightarrow>
          (case unmarshal line of
             Inl e \<Rightarrow> (Inl e, rest)
           | Inr resp \<Rightarrow>
               (if resp_wire resp \<noteq> wireVersion then
                  Inl (Wrap [] (Sentinel ErrProtocolMismatch) ('': wire '' @ Itoa (resp_wire resp)))
                else if resp_id resp \<le> 0 \<and> resp_id resp \<noteq> - 1 then
                  Inl (Plain ''ghostline: invalid RPC response ID'')
                else if resp_payloadBytes resp < 0 \<or> resp_payloadBytes resp > int maxRPCPayload then
                  Inl (Sentinel ErrFrameTooLarge)
                else if resp_error resp \<noteq> None \<and> (resp_result resp \<noteq> [] \<or> resp_payloadBytes resp \<noteq> 0) then
                  Inl (Plain ''ghostline: invalid RPC error response'')
                else Inr resp, rest)))"

section \<open>Reading a line does not depend on the buffer\<close>

definition line_answer :: "go_error \<Rightarrow> nat \<Rightarrow> nat \<Rightarrow> bytes \<Rightarrow> go_error + nat" where
  "line_answer endErr limit have s = (case IndexByte s newline of
      Some i \<Rightarrow> if have + i + 1 \<le> limit then Inr (i + 1) else Inl (Sentinel ErrFrameTooLarge)
    | None \<Rightarrow> if have + length s \<le> limit then Inl endErr else Inl (Sentinel ErrFrameTooLarge))"

lemma IndexByte_take_Some: "IndexByte (take B s) c = Some i \<Longrightarrow> IndexByte s c = Some i"
  by (auto simp: IndexByte_Some min_def split: if_splits)

lemma IndexByte_drop:
  assumes "IndexByte (take B s) c = None"
  shows "IndexByte s c = map_option (\<lambda>i. min B (length s) + i) (IndexByte (drop B s) c)"
proof -
  have "c \<notin> set (take B s)" using assms by (simp add: IndexByte_None)
  then have "find_index (\<lambda>x. x = c) (take B s) = None" by (auto simp: find_index_None)
  then show ?thesis
    unfolding IndexByte_def using find_index_append [of "\<lambda>x. x = c" "take B s" "drop B s"] by (simp add: min.commute)
qed

lemma line_answer_full:
  assumes "IndexByte (take B s) newline = None" and "B \<le> length s"
  shows "line_answer endErr limit have s =
    (if limit < have + B then Inl (Sentinel ErrFrameTooLarge)
     else map_sum id (\<lambda>n. B + n) (line_answer endErr limit (have + B) (drop B s)))"
  using IndexByte_drop [OF assms(1)] assms(2)
  by (cases "IndexByte (drop B s) newline") (auto simp: line_answer_def)

lemma readLine_loop_answer:
  assumes "0 < B" and "length line \<le> limit"
  shows "(case line_answer endErr limit (length line) s of
      Inl e \<Rightarrow> fst (readLine_loop B endErr limit line s) = Inl e
    | Inr n \<Rightarrow> readLine_loop B endErr limit line s = (Inr (line @ take n s), drop n s))"
  using assms(2)
proof (induction "length s" arbitrary: line s rule: less_induct)
  case less
  note step = readLine_loop.simps [of B endErr limit line s]
  show ?case
  proof (cases "IndexByte (take B s) newline")
    case (Some i)
    then have "ReadSlice B s = (take (i + 1) s, GotLine, drop (i + 1) s)" by (simp add: ReadSlice_def)
    moreover have i: "IndexByte s newline = Some i" "i < length s"
      using IndexByte_take_Some [OF Some] by (auto simp: IndexByte_Some)
    ultimately show ?thesis by (auto simp: step line_answer_def)
  next
    case None
    show ?thesis
    proof (cases "B \<le> length s")
      case True
      then have rs: "ReadSlice B s = (take B s, BufferFull, drop B s)" using None by (simp add: ReadSlice_def)
      note ans = line_answer_full [OF None True, of endErr limit "length line"]
      show ?thesis
      proof (cases "limit < length line + B")
        case over: True
        then show ?thesis using rs True ans by (simp add: step Let_def)
      next
        case False
        then have "readLine_loop B endErr limit line s = readLine_loop B endErr limit (line @ take B s) (drop B s)"
          using rs True assms(1) by (simp add: step Let_def)
        moreover have len: "length (line @ take B s) = length line + B" using True by simp
        ultimately show ?thesis
          using less(1) [of "drop B s" "line @ take B s"] ans False assms(1) True
          by (cases "line_answer endErr limit (length line + B) (drop B s)") (auto simp: take_add, metis add.commute)
      qed
    next
      case False
      then have "ReadSlice B s = (s, StreamEnd, [])" using None by (simp add: ReadSlice_def)
      moreover have "IndexByte s newline = None" using None False by simp
      ultimately show ?thesis by (simp add: step line_answer_def Let_def)
    qed
  qed
qed

text \<open>
  Reading a line: whatever the size of the read buffer, \<^verbatim>\<open>readLine\<close> returns exactly the
  bytes up to and including the first newline and leaves the rest, when the line fits the
  limit; it reports a frame that is too large exactly when more than the limit has arrived
  before a newline; and otherwise the error that ended the connection.
\<close>

lemma readLine_exact:
  assumes "0 < B"
  shows "case IndexByte s newline of
      Some i \<Rightarrow>
        if i + 1 \<le> limit then readLine B endErr limit s = (Inr (take (i + 1) s), drop (i + 1) s)
        else fst (readLine B endErr limit s) = Inl (Sentinel ErrFrameTooLarge)
    | None \<Rightarrow> fst (readLine B endErr limit s) =
        Inl (if length s \<le> limit then endErr else Sentinel ErrFrameTooLarge)"
  using readLine_loop_answer [OF assms, of "[]" limit endErr s]
  by (auto simp: readLine_def line_answer_def split: option.split)

section \<open>Round trips\<close>

text \<open>
  What the protocol needs of \<^verbatim>\<open>encoding/json\<close>: an envelope is one line, and it is read back
  as it was written when it is \<open>good\<close>, that is, one that JSON can represent (its strings
  are UTF-8, its raw messages are themselves output of the encoder).
\<close>

definition codec_ok :: "('a \<Rightarrow> bool) \<Rightarrow> ('a \<Rightarrow> go_error + bytes) \<Rightarrow> (bytes \<Rightarrow> go_error + 'a) \<Rightarrow> bool" where
  "codec_ok good marshal unmarshal \<longleftrightarrow>
     (\<forall>x s. good x \<and> marshal x = Inr s \<longrightarrow> newline \<notin> set s \<and> unmarshal (s @ [newline]) = Inr x)"

lemma codec_okD:
  "codec_ok good marshal unmarshal \<Longrightarrow> good x \<Longrightarrow> marshal x = Inr s \<Longrightarrow>
     newline \<notin> set s \<and> unmarshal (s @ [newline]) = Inr x"
  by (simp add: codec_ok_def)

lemma readLine_frame:
  assumes "0 < B" and "newline \<notin> set enc" and "length enc < limit"
  shows "readLine B endErr limit (enc @ newline # rest) = (Inr (enc @ [newline]), rest)"
  using readLine_loop_answer [OF assms(1), of "[]" limit endErr "enc @ newline # rest"] assms(2,3)
  by (simp add: readLine_def line_answer_def IndexByte_append_notin)

lemma readLine_Inr:
  assumes "0 < B" and "readLine B endErr limit s = (Inr line, rest)"
  obtains enc where "newline \<notin> set enc" "length enc < limit" "line = enc @ [newline]" "s = enc @ newline # rest"
proof (cases "IndexByte s newline")
  case None
  then show thesis
    using readLine_loop_answer [OF assms(1), of "[]" limit endErr s] assms(2)
    by (simp add: readLine_def line_answer_def split: if_splits)
next
  case (Some i)
  then have i: "i + 1 \<le> limit" "line = take (i + 1) s" "rest = drop (i + 1) s"
    using readLine_loop_answer [OF assms(1), of "[]" limit endErr s] assms(2)
    by (simp_all add: readLine_def line_answer_def split: if_splits)
  moreover have "s ! i = newline" "i < length s" "newline \<notin> set (take i s)"
    using Some by (auto simp: IndexByte_Some)
  moreover have "s = take i s @ newline # drop (Suc i) s"
    using calculation id_take_nth_drop [of i s] by simp
  ultimately show thesis
    by (intro that [of "take i s"]) (auto simp: take_Suc_conv_app_nth)
qed

text \<open>More bytes behind a frame change nothing about how it is read.\<close>

lemma readLine_extend:
  assumes "0 < B" and "readLine B endErr limit s = (Inr line, rest)"
  shows "readLine B endErr' limit (s @ t) = (Inr line, rest @ t)"
  using readLine_Inr [OF assms] readLine_frame [OF assms(1)] by (metis append.assoc append_Cons)

lemma readResponse_extend:
  assumes "0 < B" and "readResponse unmarshal B endErr s = (Inr resp, rest)"
  shows "readResponse unmarshal B endErr' (s @ t) = (Inr resp, rest @ t)"
proof -
  obtain line where "readLine B endErr maxRPCFrame s = (Inr line, rest)"
    using assms(2) by (auto simp: readResponse_def split: sum.splits prod.splits)
  with readLine_extend [OF assms(1) this, of endErr' t] assms(2) show ?thesis
    by (auto simp: readResponse_def split: sum.splits if_splits)
qed

lemma ReadFull_extend:
  "ReadFull endErr n s = (Inr data, rest) \<Longrightarrow> ReadFull endErr' n (s @ t) = (Inr data, rest @ t)"
  by (auto simp: ReadFull_def split: if_splits)

lemma request_frame:
  assumes "codec_ok good marshal unmarshal" and "0 < B" and "0 < req_id req" and "req_method req \<noteq> []"
    and "good (req\<lparr>req_wire := wireVersion, req_payloadBytes := int (length payload)\<rparr>)"
    and "writeRequestPayload marshal None req payload = (None, wire)"
  shows "readRequest unmarshal B endErr (wire @ rest) =
    (Inr (req\<lparr>req_wire := wireVersion, req_payloadBytes := int (length payload)\<rparr>, payload), rest)"
proof -
  let ?req = "req\<lparr>req_wire := wireVersion, req_payloadBytes := int (length payload)\<rparr>"
  obtain enc where enc: "marshal ?req = Inr enc" "length enc < maxRPCFrame"
      "wire = enc @ newline # payload" "length payload \<le> maxRPCPayload"
    using assms(6) by (auto simp: writeRequestPayload_def send_def split: sum.splits if_splits)
  have codec: "newline \<notin> set enc" "unmarshal (enc @ [newline]) = Inr ?req"
    using codec_okD [OF assms(1,5) enc(1)] by auto
  have "readLine B endErr maxRPCFrame (wire @ rest) = (Inr (enc @ [newline]), payload @ rest)"
    using readLine_frame [OF assms(2) codec(1) enc(2), of endErr "payload @ rest"] enc(3) by simp
  with codec(2) enc(4) assms(3,4) show ?thesis
    by (simp add: readRequest_def ReadFull_def)
qed

text \<open>A response, and the raw payload behind it, for the envelope the encoder produces.\<close>

lemma response_frame:
  assumes "codec_ok good marshal unmarshal" and "0 < B" and "good resp"
    and "marshal resp = Inr enc" and "length enc < maxRPCFrame"
    and "resp_wire resp = wireVersion" and "0 < resp_id resp \<or> resp_id resp = - 1"
    and "0 \<le> resp_payloadBytes resp" and "resp_payloadBytes resp \<le> int maxRPCPayload"
    and "resp_error resp \<noteq> None \<longrightarrow> resp_result resp = [] \<and> resp_payloadBytes resp = 0"
  shows "readResponse unmarshal B endErr (enc @ newline # rest) = (Inr resp, rest)"
  using codec_okD [OF assms(1,3,4)] readLine_frame [OF assms(2) _ assms(5), of endErr rest] assms(6-10)
  by (auto simp: readResponse_def)

text \<open>
  Requests arrive as they were sent: when a client writes a request with a payload and
  the connection takes all of it, the server reads, whatever its buffer size and whatever
  follows on the connection, the same method and parameters and exactly the payload, and
  the next request starts right behind it.
\<close>

lemma request_roundtrip:
  assumes "codec_ok good marshal unmarshal" and "0 < B" and "0 < req_id req" and "req_method req \<noteq> []"
    and "good (req\<lparr>req_wire := wireVersion, req_payloadBytes := int (length payload)\<rparr>)"
    and "writeRequestPayload marshal None req payload = (None, wire)"
  shows "readRequest unmarshal B endErr (wire @ rest) =
    (Inr (req\<lparr>req_wire := wireVersion, req_payloadBytes := int (length payload)\<rparr>, payload), rest)"
  using request_frame [OF assms] .

definition one_codec :: "'a \<Rightarrow> 'a \<Rightarrow> go_error + bytes" where
  "one_codec x y = (if y = x then Inr ''{}'' else Inl (Plain ''unsupported''))"

lemma one_codec_ok: "codec_ok (\<lambda>_. True) (one_codec x) (\<lambda>_. Inr x)"
  by (auto simp: codec_ok_def one_codec_def split: if_splits)

end
