(* ===== verification/Admin.thy ===== *)
theory Admin
  imports Hub Rpc
begin

text \<open>
  The server's side of a rolling upgrade (\<^verbatim>\<open>handleAdmin\<close> in \<^verbatim>\<open>server.go\<close>, with the records of
  \<^verbatim>\<open>migrate.go\<close>): one connection on the admin socket lists the sessions, prepares them one by
  one, hands out their snapshots, and commits or aborts them. The handler keeps a table of
  prepared sessions and whether it has frozen the hub. What the tickets of the sessions answer
  (\<open>Migration\<close>) and whether a write succeeds are inputs of each turn; what the handler does
  to them is recorded as a list of actions.
\<close>

section \<open>Records of the protocol\<close>

record sessionMeta =
  sm_Name :: bytes
  sm_Cols :: int
  sm_Rows :: int
  sm_CreatedAt :: int
  sm_PID :: int
  sm_Alive :: bool
  sm_Scrollback :: u64
  sm_OutputDirectory :: bytes
  sm_OutputGeneration :: u64
  sm_SpoolPath :: bytes
  sm_SpoolSize :: int
  sm_SpoolFormat :: bytes
  sm_Exit :: "exitMeta option"

record adminListResult =
  al_Version :: bytes
  al_HandoffVersion :: bytes
  al_Sessions :: "sessionMeta list"

record adminSnapshotResult =
  sn_Snapshot :: bytes
  sn_Replay :: bytes
  sn_Pwd :: bytes
  sn_Shell :: "shellMetadata option"
  sn_Lossy :: bool
  sn_Reason :: bytes

record adminRequest =
  aq_ID :: int
  aq_Method :: bytes
  aq_Params :: bytes

record adminResponse =
  ar_ID :: int
  ar_Result :: bytes
  ar_Error :: bytes

text \<open>The encodings that the protocol takes from the standard library.\<close>

record admin_codec =
  dec_adopt :: "bytes \<Rightarrow> go_error + bytes"
  dec_batch :: "bytes \<Rightarrow> go_error + bytes list"
  enc_list :: "adminListResult \<Rightarrow> go_error + bytes"
  enc_meta :: "sessionMeta \<Rightarrow> go_error + bytes"
  enc_snapshot :: "adminSnapshotResult \<Rightarrow> go_error + bytes"
  enc_count :: "nat \<Rightarrow> go_error + bytes"
  enc_struct :: "go_error + bytes"
  enc_response :: "adminResponse \<Rightarrow> go_error + bytes"
  base64 :: "bytes \<Rightarrow> bytes"

definition adminMaxFrame :: nat where
  "adminMaxFrame = 67108864"

definition adminMaxReplayBytes :: nat where
  "adminMaxReplayBytes = 8388608"

section \<open>Describing a session\<close>

text \<open>Creation times are nanoseconds here; \<^verbatim>\<open>Unix()\<close> keeps the seconds.\<close>

definition time_Unix :: "int \<Rightarrow> int" where
  "time_Unix t = t div 1000000000"

definition sessionMetaLocked :: "'t sessionState \<Rightarrow> go_error + sessionMeta" where
  "sessionMetaLocked st =
     (case terminalError (st_output st) of Some e \<Rightarrow> Inl e
      | None \<Rightarrow>
          (let (dir, g) = log_metadata (st_output st) in
           Inr \<lparr>sm_Name = st_name st, sm_Cols = Columns (st_size st), sm_Rows = Rows (st_size st),
                sm_CreatedAt = time_Unix (st_createdAt st), sm_PID = st_pid st, sm_Alive = (\<not> st_done st),
                sm_Scrollback = st_scrollback st, sm_OutputDirectory = dir, sm_OutputGeneration = g,
                sm_SpoolPath = [], sm_SpoolSize = 0, sm_SpoolFormat = [],
                sm_Exit = (if st_done st then exitMetaOf (st_waitErr st) else None)\<rparr>))"

fun metas :: "'t sessionState list \<Rightarrow> go_error + sessionMeta list" where
  "metas [] = Inr []"
| "metas (st # sts) =
     (case sessionMetaLocked st of Inl e \<Rightarrow> Inl e
      | Inr m \<Rightarrow> (case metas sts of Inl e \<Rightarrow> Inl e | Inr ms \<Rightarrow> Inr (m # ms)))"

section \<open>Fitting a snapshot into a frame\<close>

definition migrationSnapshotFits :: "admin_codec \<Rightarrow> int \<Rightarrow> adminSnapshotResult \<Rightarrow> bool" where
  "migrationSnapshotFits K i result =
     (case enc_snapshot K result of Inl _ \<Rightarrow> False
      | Inr encoded \<Rightarrow>
          (case enc_response K \<lparr>ar_ID = i, ar_Result = encoded, ar_Error = []\<rparr> of
             Inl _ \<Rightarrow> False | Inr frame \<Rightarrow> length frame + 1 \<le> adminMaxFrame))"

definition drop_snapshot :: "adminSnapshotResult \<Rightarrow> adminSnapshotResult" where
  "drop_snapshot r = r\<lparr>sn_Snapshot := [], sn_Lossy := True,
     sn_Reason := (if sn_Reason r = [] then ''native snapshot exceeds migration limit'' else sn_Reason r)\<rparr>"

definition trimMigrationReplayForFrame :: "admin_codec \<Rightarrow> int \<Rightarrow> adminSnapshotResult \<Rightarrow> adminSnapshotResult" where
  "trimMigrationReplayForFrame K i r =
     (if migrationSnapshotFits K i r then r
      else if sn_Replay r = [] then drop_snapshot r
      else (let r1 = r\<lparr>sn_Replay := []\<rparr> in
            if migrationSnapshotFits K i r1 then r1 else drop_snapshot r1))"

text \<open>The answer to a snapshot request, before it is trimmed.\<close>

definition snapshot_result ::
  "admin_codec \<Rightarrow> go_error + bytes \<Rightarrow> go_error + bytes \<Rightarrow> bytes \<Rightarrow> shellMetadata option \<Rightarrow> adminSnapshotResult" where
  "snapshot_result K snapshot replay pwd shell =
     (let r0 = \<lparr>sn_Snapshot = [], sn_Replay = [], sn_Pwd = pwd, sn_Shell = shell, sn_Lossy = False, sn_Reason = []\<rparr>;
          r1 = (case snapshot of
                  Inr s \<Rightarrow> r0\<lparr>sn_Snapshot := base64 K s\<rparr>
                | Inl e \<Rightarrow> r0\<lparr>sn_Lossy := True, sn_Reason := Error e\<rparr>) in
      case replay of
        Inr p \<Rightarrow>
          if length p \<le> adminMaxReplayBytes then r1\<lparr>sn_Replay := base64 K p\<rparr>
          else if isl snapshot then r1\<lparr>sn_Reason := sn_Reason r1 @ ''; ANSI replay exceeds migration limit''\<rparr>
          else r1
      | Inl e \<Rightarrow>
          if isl snapshot then r1\<lparr>sn_Reason := sn_Reason r1 @ ''; ANSI replay failed: '' @ Error e\<rparr> else r1)"

section \<open>The handler\<close>

datatype ticket_answer = TimedOut | Unstable go_error | Stable bool

text \<open>
  One turn's environment: the order of Go's map iteration, the tickets' answers by the name of
  their session, and the result of writing a response. \<open>ae_current\<close> is whether the ticket is
  still the session's, asked before the sessions are resolved, \<open>ae_left\<close> the same asked after.
\<close>

record admin_env =
  ae_order :: "nat list"
  ae_begin :: "bytes \<Rightarrow> go_error option"
  ae_wait :: "bytes \<Rightarrow> ticket_answer"
  ae_error :: "bytes \<Rightarrow> go_error option"
  ae_current :: "bytes \<Rightarrow> bool"
  ae_finish :: "bytes \<Rightarrow> bool \<Rightarrow> go_error option"
  ae_left :: "bytes \<Rightarrow> bool"
  ae_migrated :: "bytes \<Rightarrow> bool"
  ae_write :: "adminResponse \<Rightarrow> int \<Rightarrow> go_error option"

datatype admin_action =
    Froze
  | Thawed
  | Began bytes
  | Resolved bytes bool
  | Removed bytes
  | Sent adminResponse int
  | ExitRequested

record 't admin_state =
  as_hub :: "'t hub"
  as_pending :: "(bytes \<times> nat) list"
  as_frozen :: bool

type_synonym 't admin_turn = "bool \<times> admin_action list \<times> 't admin_state"

definition admin_error :: "int \<Rightarrow> bytes \<Rightarrow> admin_action" where
  "admin_error i msg = Sent \<lparr>ar_ID = i, ar_Result = [], ar_Error = msg\<rparr> (- 1)"

definition writeAdminResult ::
  "admin_env \<Rightarrow> int \<Rightarrow> go_error + bytes \<Rightarrow> int \<Rightarrow> go_error option \<times> admin_action list" where
  "writeAdminResult E i encoded fd =
     (case encoded of
        Inl e \<Rightarrow> (ae_write E \<lparr>ar_ID = i, ar_Result = [], ar_Error = Error e\<rparr> (- 1), [admin_error i (Error e)])
      | Inr r \<Rightarrow>
          (let resp = \<lparr>ar_ID = i, ar_Result = r, ar_Error = []\<rparr> in (ae_write E resp fd, [Sent resp fd])))"

definition resolveAdoption :: "admin_env \<Rightarrow> bytes \<Rightarrow> bool \<Rightarrow> go_error option" where
  "resolveAdoption E n commit = (if commit then ae_finish E n True else None)"

definition endBatchIfIdle :: "'t admin_state \<Rightarrow> admin_action list \<times> 't admin_state" where
  "endBatchIfIdle s = (if as_frozen s \<and> as_pending s = [] then ([Thawed], s\<lparr>as_frozen := False\<rparr>) else ([], s))"

definition forget :: "bytes \<Rightarrow> 't admin_state \<Rightarrow> 't admin_state" where
  "forget n s = s\<lparr>as_pending := filter (\<lambda>p. fst p \<noteq> n) (as_pending s)\<rparr>"

definition admin_list :: "admin_codec \<Rightarrow> admin_env \<Rightarrow> adminRequest \<Rightarrow> 't admin_state \<Rightarrow> 't admin_turn" where
  "admin_list K E q s =
     (if as_frozen s \<or> \<not> beginMigrationBatch (as_hub s) then
        (True, [admin_error (aq_ID q) ''migration batch already active''], s)
      else
        (case metas (sessionStates (ae_order E) (as_hub s)) of
           Inl e \<Rightarrow> (True, [Froze, Thawed, admin_error (aq_ID q) (Error e)], s)
         | Inr ms \<Rightarrow>
             (case writeAdminResult E (aq_ID q)
                 (enc_list K \<lparr>al_Version = ProtocolVersion, al_HandoffVersion = [], al_Sessions = ms\<rparr>) (- 1) of
                (err, acts) \<Rightarrow> (err = None, Froze # acts, s\<lparr>as_frozen := True\<rparr>))))"

definition admin_adopt :: "admin_codec \<Rightarrow> admin_env \<Rightarrow> adminRequest \<Rightarrow> 't admin_state \<Rightarrow> 't admin_turn" where
  "admin_adopt K E q s =
     (let refuse = (\<lambda>acts msg. (True, acts @ [admin_error (aq_ID q) msg], s)) in
      case dec_adopt K (aq_Params q) of Inl e \<Rightarrow> refuse [] (Error e)
      | Inr n \<Rightarrow>
          if \<not> as_frozen s then refuse [] ''send list before adopt''
          else if map_of (as_pending s) n \<noteq> None then refuse [] ''session already prepared''
          else (case hub_session n (as_hub s) of
            None \<Rightarrow> refuse [] (sentinel_text ErrSessionNotFound)
          | Some a \<Rightarrow>
              (case ae_begin E n of Some e \<Rightarrow> refuse [] (Error e)
               | None \<Rightarrow>
                   (case ae_wait E n of
                      TimedOut \<Rightarrow> refuse [Began n, Resolved n False] ''migration timed out''
                    | Unstable e \<Rightarrow> refuse [Began n, Resolved n False] (Error e)
                    | Stable alive \<Rightarrow>
                        (case sessionMetaLocked (h_states (as_hub s) ! a) of
                           Inl e \<Rightarrow> refuse [Began n, Resolved n False] (Error e)
                         | Inr m \<Rightarrow>
                             (case writeAdminResult E (aq_ID q) (enc_meta K m)
                                 (if alive then st_masterFD (h_states (as_hub s) ! a) else - 1) of
                                (err, acts) \<Rightarrow>
                                  (err = None, Began n # acts, s\<lparr>as_pending := as_pending s @ [(n, a)]\<rparr>)))))))"

definition admin_snapshot ::
  "'t platform \<Rightarrow> admin_codec \<Rightarrow> admin_env \<Rightarrow> adminRequest \<Rightarrow> 't admin_state \<Rightarrow> 't admin_turn" where
  "admin_snapshot P K E q s =
     (case dec_adopt K (aq_Params q) of
        Inl e \<Rightarrow> (True, [admin_error (aq_ID q) (Error e)], s)
      | Inr n \<Rightarrow>
          (case map_of (as_pending s) n of
             None \<Rightarrow> (True, [admin_error (aq_ID q) ''session not prepared for adoption''], s)
           | Some a \<Rightarrow>
               (let st = h_states (as_hub s) ! a;
                    (snapshot, vt) = EncodeState (vtlib P) (sha256 P) (st_vt st);
                    h = (as_hub s)\<lparr>h_states := (h_states (as_hub s))[a := st\<lparr>st_vt := vt\<rparr>]\<rparr>;
                    r = snapshot_result K snapshot (Snapshot (vtlib P) vt) (reportedPwd vt) (ShellMetadata vt);
                    (err, acts) = writeAdminResult E (aq_ID q)
                      (enc_snapshot K (trimMigrationReplayForFrame K (aq_ID q) r)) (- 1) in
                (err = None, acts, s\<lparr>as_hub := h\<rparr>))))"

text \<open>The sessions a commit or an abort names: \<open>None\<close> if one is not prepared or named twice.\<close>

fun named_adoptions :: "(bytes \<times> nat) list \<Rightarrow> bytes list \<Rightarrow> bytes list \<Rightarrow> (bytes \<times> nat) list option" where
  "named_adoptions pending seen [] = Some []"
| "named_adoptions pending seen (n # ns) =
     (if n \<in> set seen then None
      else (case map_of pending n of None \<Rightarrow> None
        | Some a \<Rightarrow> (case named_adoptions pending (n # seen) ns of None \<Rightarrow> None | Some as \<Rightarrow> Some ((n, a) # as))))"

fun preflight :: "admin_env \<Rightarrow> bytes list \<Rightarrow> go_error option" where
  "preflight E [] = None"
| "preflight E (n # ns) =
     (case ae_error E n of Some e \<Rightarrow> Some e
      | None \<Rightarrow> if \<not> ae_current E n then Some (Sentinel ErrMigrationStale) else preflight E ns)"

fun first_error :: "go_error option list \<Rightarrow> go_error option" where
  "first_error [] = None"
| "first_error (e # es) = (case e of Some x \<Rightarrow> Some x | None \<Rightarrow> first_error es)"

definition admin_batch :: "admin_codec \<Rightarrow> admin_env \<Rightarrow> adminRequest \<Rightarrow> 't admin_state \<Rightarrow> 't admin_turn" where
  "admin_batch K E q s =
     (case dec_batch K (aq_Params q) of
        Inl e \<Rightarrow> (True, [admin_error (aq_ID q) (Error e)], s)
      | Inr names \<Rightarrow>
          (case named_adoptions (as_pending s) [] names of
             None \<Rightarrow> (True, [admin_error (aq_ID q) ''one or more sessions not prepared''], s)
           | Some adoptions \<Rightarrow>
               (let commit = (aq_Method q = ''commit''); ns = map fst adoptions; s1 = fold forget ns s in
                case (if commit then preflight E ns else None) of
                  Some e \<Rightarrow>
                    (let (thaw, s2) = endBatchIfIdle s1 in
                     (True, map (\<lambda>n. Resolved n False) (filter (ae_current E) ns) @ thaw @
                        [admin_error (aq_ID q) (Error e)], s2))
                | None \<Rightarrow>
                    (let resolved = map (\<lambda>n. Resolved n commit) ns;
                         resolveErr = first_error (map (\<lambda>n. resolveAdoption E n commit) ns) in
                     case resolveErr of
                       Some e \<Rightarrow>
                         (let gone = filter (ae_migrated E) ns;
                              (thaw, s2) = endBatchIfIdle (s1\<lparr>as_hub := fold hub_remove gone (as_hub s1)\<rparr>) in
                          (False, resolved @ map (\<lambda>n. Resolved n False) (filter (ae_left E) ns) @
                             map Removed gone @ thaw @ [admin_error (aq_ID q) (Error e)], s2))
                     | None \<Rightarrow>
                         (let gone = (if commit then ns else []);
                              s2 = s1\<lparr>as_hub := fold hub_remove gone (as_hub s1)\<rparr>;
                              (err, acts) = writeAdminResult E (aq_ID q) (enc_count K (length adoptions)) (- 1);
                              (thaw, s3) = (if commit \<and> err = None then endBatchIfIdle s2 else ([], s2)) in
                          (err = None, resolved @ map Removed gone @ acts @ thaw, s3))))))"

definition admin_exit :: "admin_codec \<Rightarrow> admin_env \<Rightarrow> adminRequest \<Rightarrow> 't admin_state \<Rightarrow> 't admin_turn" where
  "admin_exit K E q s =
     (if as_pending s \<noteq> [] then (True, [admin_error (aq_ID q) ''migration batch is not committed''], s)
      else (case writeAdminResult E (aq_ID q) (enc_struct K) (- 1) of
        (err, acts) \<Rightarrow> (False, acts @ (if err = None then [ExitRequested] else []), s)))"

definition admin_turn ::
  "'t platform \<Rightarrow> admin_codec \<Rightarrow> admin_env \<Rightarrow> adminRequest \<Rightarrow> 't admin_state \<Rightarrow> 't admin_turn" where
  "admin_turn P K E q s =
     (let m = aq_Method q in
      if m = ''list'' then admin_list K E q s
      else if m = ''adopt'' then admin_adopt K E q s
      else if m = ''snapshot'' then admin_snapshot P K E q s
      else if m = ''commit'' \<or> m = ''abort'' then admin_batch K E q s
      else if m = ''exit'' then admin_exit K E q s
      else (True, [admin_error (aq_ID q) (''unknown admin method: '' @ m)], s))"

text \<open>The deferred end of the connection: what is still prepared is aborted, and the hub released.\<close>

definition admin_close :: "'t admin_state \<Rightarrow> admin_action list \<times> 't admin_state" where
  "admin_close s =
     (map (\<lambda>p. Resolved (fst p) False) (as_pending s) @ (if as_frozen s then [Thawed] else []),
      s\<lparr>as_pending := [], as_frozen := False\<rparr>)"

text \<open>The requests that arrive; when no further one can be read, the connection ends.\<close>

fun handleAdmin ::
  "'t platform \<Rightarrow> admin_codec \<Rightarrow> (admin_env \<times> adminRequest) list \<Rightarrow> 't admin_state \<Rightarrow> admin_action list \<times> 't admin_state" where
  "handleAdmin P K [] s = admin_close s"
| "handleAdmin P K ((E, q) # qs) s =
     (case admin_turn P K E q s of (goes_on, acts, s1) \<Rightarrow>
      (case (if goes_on then handleAdmin P K qs s1 else admin_close s1) of
         (acts', s2) \<Rightarrow> (acts @ acts', s2)))"

end
