(* ===== verification/Adoption.thy ===== *)
theory Adoption
  imports Admin
begin

text \<open>
  The target's side of a rolling upgrade (\<^verbatim>\<open>migrate.go\<close>, \<^verbatim>\<open>migrate_v0.go\<close>): a new server asks the old
  one for its sessions, rebuilds each around the transferred PTY master, commits the batch and
  only then enters the sessions into its hub. The admin connection is a record of functions
  over a state of its own: a request with its response, the next transferred descriptor, and
  the descriptors that have arrived and were not taken.
  The outcomes of system calls are fields of a record.
\<close>

section \<open>Calls on the admin socket\<close>

record 's transport =
  tr_ask :: "adminRequest \<Rightarrow> 's \<Rightarrow> (go_error + adminResponse) \<times> 's"
  tr_takeFD :: "'s \<Rightarrow> (go_error + int) \<times> 's"
  tr_received :: "'s \<Rightarrow> int list"

record adopt_codec =
  enc_adoptParams :: "bytes \<Rightarrow> go_error + bytes"
  enc_batchParams :: "bytes list \<Rightarrow> go_error + bytes"
  dec_listResult :: "bytes \<Rightarrow> go_error + adminListResult"
  dec_metaResult :: "bytes \<Rightarrow> go_error + sessionMeta"
  dec_snapshotResult :: "bytes \<Rightarrow> go_error + adminSnapshotResult"
  dec_countResult :: "bytes \<Rightarrow> go_error + int"
  unbase64 :: "bytes \<Rightarrow> go_error + bytes"

text \<open>
  The client, with the disk it shares with the old server and the descriptors it has closed.
  \<open>ctx\<close> is the context when a call begins, \<open>late\<close> when it fails.
\<close>

record 's adopting =
  ac_nextID :: int
  ac_peer :: 's
  ac_disk :: disk
  ac_closed :: "int list"

definition admin_call ::
  "'s transport \<Rightarrow> go_error option \<Rightarrow> go_error option \<Rightarrow> bytes \<Rightarrow> go_error + bytes \<Rightarrow> (bytes \<Rightarrow> go_error + 'r) \<Rightarrow>
   's adopting \<Rightarrow> (go_error + 'r option) \<times> 's adopting" where
  "admin_call T ctx late meth params decoder c =
     (case ctx of Some e \<Rightarrow> (Inl e, c)
      | None \<Rightarrow>
          (let i = ac_nextID c; c1 = c\<lparr>ac_nextID := i + 1\<rparr> in
           case params of Inl e \<Rightarrow> (Inl e, c1)
           | Inr p \<Rightarrow>
               (case tr_ask T \<lparr>aq_ID = i, aq_Method = meth, aq_Params = p\<rparr> (ac_peer c) of
                  (Inl e, s) \<Rightarrow> (Inl (case late of Some l \<Rightarrow> l | None \<Rightarrow> e), c1\<lparr>ac_peer := s\<rparr>)
                | (Inr resp, s) \<Rightarrow>
                    (if ar_ID resp \<noteq> i then
                       Inl (Plain (''admin response id '' @ Itoa (ar_ID resp) @ '', want '' @ Itoa i))
                     else if ar_Error resp \<noteq> [] then Inl (Plain (ar_Error resp))
                     else if ar_Result resp \<noteq> [] then map_sum id Some (decoder (ar_Result resp))
                     else Inr None, c1\<lparr>ac_peer := s\<rparr>))))"

definition zero_meta :: sessionMeta where
  "zero_meta = \<lparr>sm_Name = [], sm_Cols = 0, sm_Rows = 0, sm_CreatedAt = 0, sm_PID = 0, sm_Alive = False, sm_Scrollback = 0,
     sm_OutputDirectory = [], sm_OutputGeneration = 0, sm_SpoolPath = [], sm_SpoolSize = 0, sm_SpoolFormat = [], sm_Exit = None\<rparr>"

definition zero_snapshot :: adminSnapshotResult where
  "zero_snapshot = \<lparr>sn_Snapshot = [], sn_Replay = [], sn_Pwd = [], sn_Shell = None, sn_Lossy = False, sn_Reason = []\<rparr>"

definition zero_list :: adminListResult where
  "zero_list = \<lparr>al_Version = [], al_HandoffVersion = [], al_Sessions = []\<rparr>"

definition or_zero :: "'r \<Rightarrow> 'r option \<Rightarrow> 'r" where
  "or_zero zero v = (case v of Some x \<Rightarrow> x | None \<Rightarrow> zero)"

section \<open>The environment of an adoption\<close>

text \<open>
  System calls, by the name of the session; \<open>av_log\<close> is for opening the transferred log, the
  first time and again for the recovery. A read of a v0 spool file has the context, the bytes,
  the error of the read, and the outcome and time of storing them.
\<close>

datatype spool_read = SpoolRead "go_error option" bytes "go_error option" write_outcome int

record adopt_env =
  av_ctx :: "int \<Rightarrow> go_error option"
  av_late :: "int \<Rightarrow> go_error option"
  av_mkdirAll :: "go_error option"
  av_dial :: "go_error option"
  av_log :: "bool \<Rightarrow> bytes \<Rightarrow> open_env"
  av_mkdirTemp :: "bytes \<Rightarrow> go_error + bytes"
  av_new :: "bytes \<Rightarrow> open_env"
  av_pipe :: "bytes \<Rightarrow> go_error option"
  av_now :: "bytes \<Rightarrow> int"
  av_glob :: "bytes \<Rightarrow> go_error + bytes list"
  av_stat :: "bytes \<Rightarrow> go_error option"
  av_open :: "bytes \<Rightarrow> go_error option"
  av_gzip :: "bytes \<Rightarrow> go_error option"
  av_spool :: "bytes \<Rightarrow> spool_read list"

definition receiveAdoptedSession ::
  "'s transport \<Rightarrow> adopt_codec \<Rightarrow> adopt_env \<Rightarrow> bytes \<Rightarrow> 's adopting \<Rightarrow> (go_error + sessionMeta \<times> int option) \<times> 's adopting" where
  "receiveAdoptedSession T Q A name c =
     (let i = ac_nextID c in
      case admin_call T (av_ctx A i) (av_late A i) ''adopt'' (enc_adoptParams Q name) (dec_metaResult Q) c of
        (Inl e, c1) \<Rightarrow> (Inl e, c1)
      | (Inr r, c1) \<Rightarrow>
          (let adopted = or_zero zero_meta r in
           if \<not> sm_Alive adopted then (Inr (adopted, None), c1)
           else (case tr_takeFD T (ac_peer c1) of
             (Inl e, s) \<Rightarrow> (Inl e, c1\<lparr>ac_peer := s\<rparr>)
           | (Inr fd, s) \<Rightarrow> (Inr (adopted, Some fd), c1\<lparr>ac_peer := s\<rparr>))))"

definition decodeMigrationBlob :: "adopt_codec \<Rightarrow> bytes \<Rightarrow> bytes \<Rightarrow> go_error + bytes" where
  "decodeMigrationBlob Q v label =
     (if v = [] then Inr []
      else (case unbase64 Q v of Inl e \<Rightarrow> Inl (Wrap (''decode '' @ label @ '': '') e []) | Inr b \<Rightarrow> Inr b))"

text \<open>\<^verbatim>\<open>time.Unix(sec, 0)\<close>, in nanoseconds.\<close>

definition unix_time :: "int \<Rightarrow> int" where
  "unix_time sec = sec * 1000000000"

definition master_fd :: "int option \<Rightarrow> int" where
  "master_fd master = (case master of Some fd \<Rightarrow> fd | None \<Rightarrow> - 1)"

definition adopt_lossy ::
  "'t platform \<Rightarrow> adopt_env \<Rightarrow> sessionMeta \<Rightarrow> int option \<Rightarrow> bytes \<Rightarrow> u64 \<Rightarrow> disk \<Rightarrow> (go_error + 't sessionState) \<times> disk" where
  "adopt_lossy P A m master replay scrollback d =
     (let n = sm_Name m in
      adoptLossyState P (av_log A True n) (av_mkdirTemp A n) (av_new A n) (av_pipe A n) (master_fd master) (av_now A n) n
        (master \<noteq> None) replay (Size (sm_Cols m) (sm_Rows m)) (sm_OutputDirectory m) (sm_OutputGeneration m)
        (unix_time (sm_CreatedAt m)) (sm_PID m) (exitMeta_error (sm_Exit m)) scrollback d)"

definition with_presentation :: "adminSnapshotResult \<Rightarrow> 't sessionState \<Rightarrow> 't sessionState" where
  "with_presentation sn st = st\<lparr>st_vt := SetShellMetadata (sn_Shell sn) (SetReportedPwd (sn_Pwd sn) (st_vt st))\<rparr>"

text \<open>The state or the error, whether the recovery was lossy, and why.\<close>

definition adoptNativeOrLossyState ::
  "'t platform \<Rightarrow> adopt_codec \<Rightarrow> adopt_env \<Rightarrow> sessionMeta \<Rightarrow> int option \<Rightarrow> adminSnapshotResult \<Rightarrow> u64 \<Rightarrow> disk \<Rightarrow>
   ((go_error + 't sessionState) \<times> bool \<times> bytes) \<times> disk" where
  "adoptNativeOrLossyState P Q A m master sn scrollback d =
     (let replayed = decodeMigrationBlob Q (sn_Replay sn) ''ANSI replay'';
          replay = (case replayed of Inl _ \<Rightarrow> [] | Inr b \<Rightarrow> b);
          (tried, d1) =
            (case decodeMigrationBlob Q (sn_Snapshot sn) ''native snapshot'' of
               Inl e \<Rightarrow> (Inl e, d)
             | Inr native \<Rightarrow>
                 if native = [] then (Inl (Plain ''native snapshot is unavailable''), d)
                 else adoptState P (av_log A False (sm_Name m)) (av_pipe A (sm_Name m)) (master_fd master) (sm_Name m)
                   (master \<noteq> None) native (Size (sm_Cols m) (sm_Rows m)) (sm_OutputDirectory m) (sm_OutputGeneration m)
                   (unix_time (sm_CreatedAt m)) (sm_PID m) (exitMeta_error (sm_Exit m)) scrollback d) in
      case tried of
        Inr st \<Rightarrow> ((Inr (with_presentation sn st), False, []), d1)
      | Inl nativeErr \<Rightarrow>
          (case adopt_lossy P A m master replay scrollback d1 of
             (Inl e, d2) \<Rightarrow> ((Inl (Wrap (Error nativeErr @ ''; lossy recovery: '') e []), True, Error nativeErr), d2)
           | (Inr st, d2) \<Rightarrow>
               ((Inr (with_presentation sn st), True,
                 (if sn_Reason sn \<noteq> [] then sn_Reason sn @ ''; '' else []) @ Error nativeErr @
                 (case replayed of Inl e \<Rightarrow> ''; '' @ Error e | Inr _ \<Rightarrow> [])), d2)))"

section \<open>Rebuilding a v0 session\<close>

text \<open>The reads of one spool file: each is fed to the terminal and appended to the log. The end of the list is the end of the file.\<close>

fun replayV0SpoolFile ::
  "'t platform \<Rightarrow> bytes \<Rightarrow> spool_read list \<Rightarrow> 't vtTerminal \<Rightarrow> outputLog \<Rightarrow> disk \<Rightarrow>
   go_error option \<times> 't vtTerminal \<times> outputLog \<times> disk" where
  "replayV0SpoolFile P path [] vt l d = (None, vt, l, d)"
| "replayV0SpoolFile P path (SpoolRead ctx chunk readErr oc now # reads) vt l d =
     (case ctx of Some e \<Rightarrow> (Some e, vt, l, d)
      | None \<Rightarrow>
          (let vt1 = (if chunk \<noteq> [] then terminal_Feed (vtlib P) (lowercase P) (hostName P) now chunk vt else vt) in
           case (if chunk \<noteq> [] then log_append oc l d chunk else (None, l, d)) of
             (Some e, l1, d1) \<Rightarrow> (Some (Wrap (''append v0 spool replay '' @ path @ '': '') e []), vt1, l1, d1)
           | (None, l1, d1) \<Rightarrow>
               (case readErr of
                  None \<Rightarrow> replayV0SpoolFile P path reads vt1 l1 d1
                | Some e \<Rightarrow>
                    if e = Sentinel EOF then (None, vt1, l1, d1)
                    else (Some (Wrap (''read v0 spool replay '' @ path @ '': '') e []), vt1, l1, d1))))"

definition replay_spool_file ::
  "'t platform \<Rightarrow> adopt_env \<Rightarrow> bytes \<Rightarrow> bool \<Rightarrow> 't vtTerminal \<Rightarrow> outputLog \<Rightarrow> disk \<Rightarrow>
   go_error option \<times> 't vtTerminal \<times> outputLog \<times> disk" where
  "replay_spool_file P A path compressed vt l d =
     (case av_open A path of
        Some e \<Rightarrow> (Some (Wrap (''open v0 spool replay '' @ path @ '': '') e []), vt, l, d)
      | None \<Rightarrow>
          (case (if compressed then av_gzip A path else None) of
             Some e \<Rightarrow> (Some (Wrap (''open compressed v0 spool replay '' @ path @ '': '') e []), vt, l, d)
           | None \<Rightarrow> replayV0SpoolFile P path (av_spool A path) vt l d))"

fun replay_paths ::
  "'t platform \<Rightarrow> adopt_env \<Rightarrow> (bytes \<times> bool) list \<Rightarrow> 't vtTerminal \<Rightarrow> outputLog \<Rightarrow> disk \<Rightarrow>
   go_error option \<times> 't vtTerminal \<times> outputLog \<times> disk" where
  "replay_paths P A [] vt l d = (None, vt, l, d)"
| "replay_paths P A ((path, compressed) # ps) vt l d =
     (case replay_spool_file P A path compressed vt l d of
        (Some e, vt1, l1, d1) \<Rightarrow> (Some e, vt1, l1, d1)
      | (None, vt1, l1, d1) \<Rightarrow> replay_paths P A ps vt1 l1 d1)"

definition replayV0Spool ::
  "'t platform \<Rightarrow> adopt_env \<Rightarrow> bytes \<Rightarrow> 't vtTerminal \<Rightarrow> outputLog \<Rightarrow> disk \<Rightarrow>
   go_error option \<times> 't vtTerminal \<times> outputLog \<times> disk" where
  "replayV0Spool P A spoolPath vt l d =
     (case av_glob A spoolPath of
        Inl e \<Rightarrow> (Some (Wrap ''find v0 spool archives: '' e []), vt, l, d)
      | Inr archives \<Rightarrow>
          (let paths = map (\<lambda>p. (p, True)) (sort archives) in
           case av_stat A spoolPath of
             None \<Rightarrow> replay_paths P A (paths @ [(spoolPath, False)]) vt l d
           | Some e \<Rightarrow>
               if \<not> errors_Is e ErrNotExist \<or> paths = [] then (Some (Wrap ''stat v0 spool: '' e []), vt, l, d)
               else replay_paths P A paths vt l d))"

definition adoptV0State ::
  "'t platform \<Rightarrow> adopt_env \<Rightarrow> sessionMeta \<Rightarrow> int option \<Rightarrow> u64 \<Rightarrow> disk \<Rightarrow> (go_error + 't sessionState) \<times> disk" where
  "adoptV0State P A m master scrollback d =
     (let n = sm_Name m; sz = Size (sm_Cols m) (sm_Rows m) in
      case createOutputLog (av_mkdirTemp A n) (av_new A n) d of
        (Inl e, d1) \<Rightarrow> (Inl e, d1)
      | (Inr l, d1) \<Rightarrow>
          (case newVTTerminalWithOptions (vtlib P) (Columns sz) (Rows sz) scrollback of
             Inl e \<Rightarrow> (Inl (Wrap ''create v0 handoff vt: '' e []), snd (log_discard l d1))
           | Inr vt \<Rightarrow>
               (case replayV0Spool P A (sm_SpoolPath m) vt l d1 of
                  (Some e, _, l1, d2) \<Rightarrow> (Inl e, snd (log_discard l1 d2))
                | (None, vt1, l1, d2) \<Rightarrow>
                    (case adoptStateWithTerminal (av_pipe A n) (master_fd master) n (master \<noteq> None) vt1 l1 sz
                        (unix_time (sm_CreatedAt m)) (sm_PID m) (exitMeta_error (sm_Exit m)) scrollback of
                       Inl e \<Rightarrow> (Inl e, snd (log_discard l1 d2))
                     | Inr st \<Rightarrow> (Inr st, d2)))))"

section \<open>One session of the batch\<close>

definition v0CompatibilityProtocolVersion :: bytes where
  "v0CompatibilityProtocolVersion = ''0.8.0''"

definition V0HandoffProtocolVersion :: bytes where
  "V0HandoffProtocolVersion = ''ghostline-v0-to-v1-1''"

definition v0SpoolFormat :: bytes where
  "v0SpoolFormat = ''ghostline-v0-spool-1''"

definition closeFile :: "int option \<Rightarrow> 's adopting \<Rightarrow> 's adopting" where
  "closeFile master c = (case master of Some fd \<Rightarrow> c\<lparr>ac_closed := ac_closed c @ [fd]\<rparr> | None \<Rightarrow> c)"

definition abortSingle :: "'s transport \<Rightarrow> adopt_codec \<Rightarrow> bytes \<Rightarrow> 's adopting \<Rightarrow> 's adopting" where
  "abortSingle T Q name c = snd (admin_call T None None ''abort'' (enc_batchParams Q [name]) (\<lambda>_. Inr ()) c)"

text \<open>In what follows the first name is the one the old server listed; a failure is the message for the report.\<close>

definition adopt_v0 ::
  "'s transport \<Rightarrow> adopt_codec \<Rightarrow> 't platform \<Rightarrow> adopt_env \<Rightarrow> bytes \<Rightarrow> sessionMeta \<Rightarrow> int option \<Rightarrow> u64 \<Rightarrow> 's adopting \<Rightarrow>
   (bytes + 't sessionState \<times> bytes) \<times> 's adopting" where
  "adopt_v0 T Q P A listed m master scrollback c =
     (let bad = (sm_SpoolFormat m \<noteq> v0SpoolFormat \<or> sm_SpoolPath m = []);
          (tried, d1) = (if bad then (Inl (Plain []), ac_disk c) else adoptV0State P A m master scrollback (ac_disk c)) in
      case tried of
        Inr st \<Rightarrow> (Inr (st, sm_Name m), c\<lparr>ac_disk := d1\<rparr>)
      | Inl _ \<Rightarrow>
          (case adopt_lossy P A m master [] scrollback d1 of
             (Inr st, d2) \<Rightarrow> (Inr (st, sm_Name m), c\<lparr>ac_disk := d2\<rparr>)
           | (Inl e, d2) \<Rightarrow>
               (Inl ((if bad then ''invalid v0 handoff metadata for '' else ''restore v0 '') @ listed @ '': '' @ Error e),
                abortSingle T Q listed (closeFile master (c\<lparr>ac_disk := d2\<rparr>)))))"

definition adopt_v1 ::
  "'s transport \<Rightarrow> adopt_codec \<Rightarrow> 't platform \<Rightarrow> adopt_env \<Rightarrow> u64 \<Rightarrow> bytes \<Rightarrow> sessionMeta \<Rightarrow> int option \<Rightarrow> u64 \<Rightarrow> 's adopting \<Rightarrow>
   (bytes + 't sessionState \<times> bytes) \<times> 's adopting" where
  "adopt_v1 T Q P A fallback listed m master scrollback c =
     (let i = ac_nextID c in
      case admin_call T (av_ctx A i) (av_late A i) ''snapshot'' (enc_adoptParams Q (sm_Name m)) (dec_snapshotResult Q) c of
        (Inl snapshotErr, c1) \<Rightarrow>
          (case receiveAdoptedSession T Q A listed (closeFile master c1) of
             (Inl retryErr, c2) \<Rightarrow>
               (Inl (''snapshot '' @ listed @ '': '' @ Error snapshotErr @ ''; retry adopt: '' @ Error retryErr),
                abortSingle T Q (sm_Name m) c2)
           | (Inr (m', master'), c2) \<Rightarrow>
               (case adopt_lossy P A m' master' [] (resolveVTScrollbackMaxBytes (sm_Scrollback m') fallback) (ac_disk c2) of
                  (Inl e, d) \<Rightarrow>
                    (Inl (''snapshot '' @ listed @ '': '' @ Error snapshotErr @ ''; lossy recovery: '' @ Error e),
                     abortSingle T Q (sm_Name m') (closeFile master' (c2\<lparr>ac_disk := d\<rparr>)))
                | (Inr st, d) \<Rightarrow> (Inr (st, sm_Name m'), c2\<lparr>ac_disk := d\<rparr>)))
      | (Inr r, c1) \<Rightarrow>
          (case adoptNativeOrLossyState P Q A m master (or_zero zero_snapshot r) scrollback (ac_disk c1) of
             ((Inl e, _, _), d) \<Rightarrow>
               (Inl (''restore snapshot for '' @ listed @ '': '' @ Error e),
                abortSingle T Q (sm_Name m) (closeFile master (c1\<lparr>ac_disk := d\<rparr>)))
           | ((Inr st, _, _), d) \<Rightarrow> (Inr (st, sm_Name m), c1\<lparr>ac_disk := d\<rparr>)))"

definition adopt_one ::
  "'s transport \<Rightarrow> adopt_codec \<Rightarrow> 't platform \<Rightarrow> adopt_env \<Rightarrow> bool \<Rightarrow> u64 \<Rightarrow> bytes \<Rightarrow> 's adopting \<Rightarrow>
   (bytes + 't sessionState \<times> bytes) \<times> 's adopting" where
  "adopt_one T Q P A v0 fallback listed c =
     (case receiveAdoptedSession T Q A listed c of
        (Inl e, c1) \<Rightarrow> (Inl (''adopt '' @ listed @ '': '' @ Error e), abortSingle T Q listed c1)
      | (Inr (m, master), c1) \<Rightarrow>
          (let scrollback = resolveVTScrollbackMaxBytes (sm_Scrollback m) fallback in
           if v0 then adopt_v0 T Q P A listed m master scrollback c1
           else adopt_v1 T Q P A fallback listed m master scrollback c1))"

section \<open>The batch\<close>

text \<open>The states and names that are prepared, and the report of the others (a map: one entry per name).\<close>

type_synonym 't batch = "'t sessionState list \<times> bytes list \<times> (bytes \<times> bytes) list"

definition skip :: "bytes \<Rightarrow> bytes \<Rightarrow> (bytes \<times> bytes) list \<Rightarrow> (bytes \<times> bytes) list" where
  "skip name msg skipped = (name, msg) # filter (\<lambda>p. fst p \<noteq> name) skipped"

fun adopt_all ::
  "'s transport \<Rightarrow> adopt_codec \<Rightarrow> 't platform \<Rightarrow> adopt_env \<Rightarrow> bool \<Rightarrow> u64 \<Rightarrow> sessionMeta list \<Rightarrow> 't batch \<Rightarrow> 's adopting \<Rightarrow>
   't batch \<times> 's adopting" where
  "adopt_all T Q P A v0 fallback [] batch c = (batch, c)"
| "adopt_all T Q P A v0 fallback (m # ms) (prepared, names, skipped) c =
     (case adopt_one T Q P A v0 fallback (sm_Name m) c of
        (Inl msg, c1) \<Rightarrow> adopt_all T Q P A v0 fallback ms (prepared, names, skip (sm_Name m) msg skipped) c1
      | (Inr (st, n), c1) \<Rightarrow> adopt_all T Q P A v0 fallback ms (prepared @ [st], names @ [n], skipped) c1)"

definition closed_master :: "'t sessionState \<Rightarrow> int list" where
  "closed_master st = (if st_master st \<and> \<not> st_closeOnce st then [st_masterFD st] else [])"

definition rollback :: "'s transport \<Rightarrow> adopt_codec \<Rightarrow> 't sessionState list \<Rightarrow> bytes list \<Rightarrow> 's adopting \<Rightarrow> 's adopting" where
  "rollback T Q prepared names c =
     (if names = [] then c
      else
        (let c1 = snd (admin_call T None None ''abort'' (enc_batchParams Q names) (\<lambda>_. Inr ()) c) in
         c1\<lparr>ac_closed := ac_closed c1 @ concat (map closed_master prepared)\<rparr>))"

definition hub_adopt :: "'t sessionState list \<Rightarrow> 't hub \<Rightarrow> 't hub" where
  "hub_adopt sts h =
     fold (\<lambda>st h. h\<lparr>h_sessions := (h_sessions h)(st_name st \<mapsto> length (h_states h)), h_states := h_states h @ [st]\<rparr>) sts h"

text \<open>\<^verbatim>\<open>%v\<close> of a map: its entries in the order of their keys.\<close>

definition map_text :: "(bytes \<times> bytes) list \<Rightarrow> bytes" where
  "map_text kvs = ''map['' @ Join (map (\<lambda>(k, v). k @ '':'' @ v) (sort_key fst kvs)) '' '' @ '']''"

text \<open>The polls of the old socket: whether it still answers, and the context.\<close>

fun waitOldServerGone :: "(bool \<times> go_error option) list \<Rightarrow> go_error option option" where
  "waitOldServerGone [] = None"
| "waitOldServerGone ((ready, ctx) # polls) =
     (if \<not> ready then Some None
      else (case ctx of Some e \<Rightarrow> Some (Some e) | None \<Rightarrow> waitOldServerGone polls))"

type_synonym report = "nat \<times> (bytes \<times> bytes) list option \<times> go_error option"

text \<open>
  The batch once the sessions are listed. A return before the commit rolls back what is
  prepared; the descriptors that were not taken are closed at the end.
\<close>

definition adopt_batch ::
  "'s transport \<Rightarrow> adopt_codec \<Rightarrow> 't platform \<Rightarrow> adopt_env \<Rightarrow> bool \<Rightarrow> sessionMeta list \<Rightarrow> 't hub \<Rightarrow> 's adopting \<Rightarrow>
   report \<times> 't hub \<times> 's adopting" where
  "adopt_batch T Q P A v0 listed h c =
     (case adopt_all T Q P A v0 (h_scrollback h) listed ([], [], []) c of
        ((prepared, names, skipped), c1) \<Rightarrow>
          if skipped \<noteq> [] then
            ((0, Some skipped,
              Some (Plain (Itoa (int (length skipped)) @ '' session(s) could not be recovered: '' @ map_text skipped))),
             h, rollback T Q prepared names c1)
          else
            (let i = ac_nextID c1 in
             case admin_call T (av_ctx A i) (av_late A i) ''commit'' (enc_batchParams Q names) (dec_countResult Q) c1 of
               (Inl e, c2) \<Rightarrow> ((0, Some [], Some e), h, rollback T Q prepared names c2)
             | (Inr r, c2) \<Rightarrow>
                 if or_zero 0 r \<noteq> int (length prepared) then
                   ((0, Some [],
                     Some (Plain (''admin committed '' @ Itoa (or_zero 0 r) @ '' sessions, want '' @ Itoa (int (length prepared))))),
                    h, rollback T Q prepared names c2)
                 else
                   ((length prepared, None, None), hub_adopt prepared h,
                    snd (admin_call T None None ''exit'' (Inr []) (\<lambda>_. Inr ()) c2))))"

definition adoptSessionsWithReport ::
  "'s transport \<Rightarrow> adopt_codec \<Rightarrow> 't platform \<Rightarrow> adopt_env \<Rightarrow> 't hub \<Rightarrow> 's adopting \<Rightarrow> report \<times> 't hub \<times> 's adopting" where
  "adoptSessionsWithReport T Q P A h c =
     (let fail = (\<lambda>e. ((0, None, Some e), h, c)) in
      if h_closed h then fail (Sentinel ErrClosed)
      else if dom (h_sessions h) \<noteq> {} \<or> h_pending h \<noteq> {} then fail (Plain ''adopt target hub is not empty'')
      else (case av_mkdirAll A of Some e \<Rightarrow> fail (Wrap ''create output dir: '' e [])
      | None \<Rightarrow> (case av_dial A of Some e \<Rightarrow> fail (Wrap ''connect admin socket: '' e [])
      | None \<Rightarrow>
          (let i = ac_nextID c;
               (rep, h1, c2) =
                 (case admin_call T (av_ctx A i) (av_late A i) ''list'' (Inr []) (dec_listResult Q) c of
                    (Inl e, c1) \<Rightarrow> ((0, None, Some e), h, c1)
                  | (Inr r, c1) \<Rightarrow>
                      (let listed = or_zero zero_list r in
                       if al_Version listed = ProtocolVersion then adopt_batch T Q P A False (al_Sessions listed) h c1
                       else if al_Version listed = v0CompatibilityProtocolVersion then
                         (if al_HandoffVersion listed \<noteq> V0HandoffProtocolVersion then
                            ((0, None, Some (Plain (''rolling upgrade handoff '' @ Quote (al_HandoffVersion listed) @ '' is not '' @
                               Quote V0HandoffProtocolVersion))), h, c1)
                          else adopt_batch T Q P A True (al_Sessions listed) h c1)
                       else
                         ((0, None, Some (Plain (''rolling upgrade protocol '' @ Quote (al_Version listed) @ '' is not '' @
                            Quote ProtocolVersion))), h, c1))) in
           (rep, h1, c2\<lparr>ac_closed := ac_closed c2 @ tr_received T (ac_peer c2)\<rparr>)))))"

definition adoptSessions ::
  "'s transport \<Rightarrow> adopt_codec \<Rightarrow> 't platform \<Rightarrow> adopt_env \<Rightarrow> 't hub \<Rightarrow> 's adopting \<Rightarrow>
   (nat \<times> go_error option) \<times> 't hub \<times> 's adopting" where
  "adoptSessions T Q P A h c =
     (case adoptSessionsWithReport T Q P A h c of ((n, _, err), h1, c1) \<Rightarrow> ((n, err), h1, c1))"

end
