(* ===== verification/Admin_Transport.thy ===== *)
theory Admin_Transport
  imports Adoption "HOL-Library.Multiset"
begin

text \<open>
  The transport of the admin socket (\<^verbatim>\<open>adminTransport\<close> in \<^verbatim>\<open>migrate.go\<close>): JSON lines over a Unix
  stream whose messages may carry file descriptors. What the socket delivers is a list of
  messages, cut anywhere and with the descriptors on any of them; a message can also be one
  whose control data was truncated or cannot be parsed. Reading keeps the bytes and the
  descriptors of the other messages apart and loses neither. When control data is truncated,
  the kernel has still installed the descriptors that fitted; \<open>ControlTruncated\<close> carries them,
  and the code returns its error without looking at them.
\<close>

section \<open>The connection\<close>

datatype admin_message =
    Message (msg_bytes: bytes) (msg_fds: "int list") (msg_err: "go_error option")
  | ControlTruncated (installed_fds: "int list")
  | BadControl (msg_bytes: bytes) go_error

record adminTransport =
  tp_readBuf :: bytes
  tp_received :: "int list"
  tp_in :: "admin_message list"
  tp_out :: "(bytes \<times> int list) list"

text \<open>What a write meets: setting the deadline, the first message, and the writes of the rest of the frame.\<close>

record write_env =
  we_deadline :: "go_error option"
  we_message :: "nat \<times> go_error option"
  we_rest :: "(nat \<times> go_error option) list"

text \<open>When the list of outcomes ends, the socket takes all of the rest.\<close>

fun write_rest :: "(nat \<times> go_error option) list \<Rightarrow> bytes \<Rightarrow> adminTransport \<Rightarrow> go_error option \<times> adminTransport" where
  "write_rest [] rest tp = (None, if rest = [] then tp else tp\<lparr>tp_out := tp_out tp @ [(rest, [])]\<rparr>)"
| "write_rest ((n, err) # ws) rest tp =
     (if rest = [] then (None, tp)
      else
        (let tp1 = tp\<lparr>tp_out := tp_out tp @ [(take n rest, [])]\<rparr> in
         if err \<noteq> None then (err, tp1)
         else if n = 0 then (Some (Sentinel ErrShortWrite), tp1)
         else write_rest ws (drop n rest) tp1))"

definition transport_write ::
  "write_env \<Rightarrow> go_error + bytes \<Rightarrow> int \<Rightarrow> adminTransport \<Rightarrow> go_error option \<times> adminTransport" where
  "transport_write W encoded fd tp =
     (case encoded of Inl e \<Rightarrow> (Some e, tp)
      | Inr b \<Rightarrow>
          (let frame = b @ [newline] in
           if length frame > adminMaxFrame then (Some (Plain ''admin message too large''), tp)
           else (case we_deadline W of Some e \<Rightarrow> (Some e, tp)
             | None \<Rightarrow>
                 (case we_message W of (n, err) \<Rightarrow>
                   (let tp1 = tp\<lparr>tp_out := tp_out tp @ [(take n frame, if fd \<ge> 0 then [fd] else [])]\<rparr> in
                    if err \<noteq> None then (err, tp1) else write_rest (we_rest W) (drop n frame) tp1)))))"

section \<open>Reading a frame\<close>

text \<open>The padding that the descriptors came with is dropped in front of a frame.\<close>

definition trim :: "bytes \<Rightarrow> bytes" where
  "trim buf = dropWhile (\<lambda>c. c = NUL) buf"

definition next_frame :: "bytes \<Rightarrow> (go_error + bytes \<times> bytes) option" where
  "next_frame buf =
     (case IndexByte buf newline of
        Some i \<Rightarrow>
          if i > adminMaxFrame then Some (Inl (Plain ''admin message too large''))
          else Some (Inr (take i buf, drop (i + 1) buf))
      | None \<Rightarrow> if length buf > adminMaxFrame then Some (Inl (Plain ''admin message too large'')) else None)"

text \<open>The frame, or the error, with the buffer, the descriptors and the messages that are left.\<close>

fun read_frame ::
  "bytes \<Rightarrow> int list \<Rightarrow> admin_message list \<Rightarrow> (go_error + bytes) \<times> bytes \<times> int list \<times> admin_message list" where
  "read_frame buf recv msgs =
     (case next_frame (trim buf) of
        Some (Inl e) \<Rightarrow> (Inl e, trim buf, recv, msgs)
      | Some (Inr (frame, rest)) \<Rightarrow> (Inr frame, rest, recv, msgs)
      | None \<Rightarrow>
          (case msgs of
             [] \<Rightarrow> (Inl (Sentinel EOF), trim buf, recv, [])
           | ControlTruncated _ # ms \<Rightarrow> (Inl (Plain ''admin control message truncated''), trim buf, recv, ms)
           | BadControl b e # ms \<Rightarrow> (Inl e, trim buf @ b, recv, ms)
           | Message b fds err # ms \<Rightarrow>
               (case err of
                  Some e \<Rightarrow> (Inl e, trim buf @ b, recv @ fds, ms)
                | None \<Rightarrow>
                    if b = [] then (Inl (Sentinel ErrUnexpectedEOF), trim buf, recv @ fds, ms)
                    else read_frame (trim buf @ b) (recv @ fds) ms)))"

declare read_frame.simps [simp del]

definition transport_read ::
  "(bytes \<Rightarrow> go_error + 'r) \<Rightarrow> adminTransport \<Rightarrow> (go_error + 'r) \<times> adminTransport" where
  "transport_read decoder tp =
     (case read_frame (tp_readBuf tp) (tp_received tp) (tp_in tp) of
        (r, buf, recv, msgs) \<Rightarrow>
          (case r of Inl e \<Rightarrow> Inl e | Inr frame \<Rightarrow> decoder frame,
           tp\<lparr>tp_readBuf := buf, tp_received := recv, tp_in := msgs\<rparr>))"

section \<open>Taking a descriptor\<close>

fun await_fd :: "bytes \<Rightarrow> admin_message list \<Rightarrow> (go_error + int list) \<times> bytes \<times> admin_message list" where
  "await_fd buf [] = (Inl (Sentinel EOF), buf, [])"
| "await_fd buf (ControlTruncated lost # ms) = (Inl (Plain ''admin control message truncated''), buf, ms)"
| "await_fd buf (BadControl b e # ms) = (Inl e, buf, ms)"
| "await_fd buf (Message b fds err # ms) =
     (let buf1 = buf @ trim b in
      if fds \<noteq> [] then (Inr fds, buf1, ms)
      else (case err of Some e \<Rightarrow> (Inl e, buf1, ms)
        | None \<Rightarrow> if b = [] then (Inl (Sentinel ErrUnexpectedEOF), buf1, ms) else await_fd buf1 ms))"

definition takeFD :: "adminTransport \<Rightarrow> (go_error + int) \<times> adminTransport" where
  "takeFD tp =
     (case tp_received tp of
        fd # fds \<Rightarrow> (Inr fd, tp\<lparr>tp_received := fds\<rparr>)
      | [] \<Rightarrow>
          (case await_fd (tp_readBuf tp) (tp_in tp) of
             (Inl e, buf, ms) \<Rightarrow> (Inl e, tp\<lparr>tp_readBuf := buf, tp_in := ms\<rparr>)
           | (Inr fds, buf, ms) \<Rightarrow> (Inr (hd fds), tp\<lparr>tp_readBuf := buf, tp_received := tl fds, tp_in := ms\<rparr>)))"

text \<open>\<^verbatim>\<open>closeReceived\<close>: the descriptors closed.\<close>

definition closeReceived :: "adminTransport \<Rightarrow> int list \<times> adminTransport" where
  "closeReceived tp = (tp_received tp, tp\<lparr>tp_received := []\<rparr>)"

text \<open>The connection as the client of an adoption uses it; \<open>W i\<close> is for the write of request \<open>i\<close>.\<close>

definition wire_transport ::
  "(adminRequest \<Rightarrow> go_error + bytes) \<Rightarrow> (bytes \<Rightarrow> go_error + adminResponse) \<Rightarrow> (int \<Rightarrow> write_env) \<Rightarrow> adminTransport transport" where
  "wire_transport marshal unmarshal W =
     \<lparr>tr_ask = (\<lambda>req tp.
        (case transport_write (W (aq_ID req)) (marshal req) (- 1) tp of
           (Some e, tp1) \<Rightarrow> (Inl e, tp1)
         | (None, tp1) \<Rightarrow> transport_read unmarshal tp1)),
      tr_takeFD = takeFD, tr_received = (\<lambda>tp. fst (closeReceived tp))\<rparr>"

end
