(* ===== verification/Adoption_Facts.thy ===== *)
theory Adoption_Facts
  imports Admin_Transport
begin

text \<open>
  What an adoption guarantees whatever the other side sends: the target hub gets all the listed
  sessions or none, and every descriptor that arrives ends up closed or as the master of an
  adopted session. The second is proved in a locale for transports that hand out descriptors,
  which the transport of the admin socket is.
\<close>

section \<open>The transport keeps descriptors\<close>

text \<open>The descriptors of a message whose control data arrived intact.\<close>

fun message_fds :: "admin_message \<Rightarrow> int list" where
  "message_fds (Message b fds err) = fds"
| "message_fds _ = []"

abbreviation all_fds :: "admin_message list \<Rightarrow> int list" where
  "all_fds msgs \<equiv> concat (map message_fds msgs)"

definition held :: "adminTransport \<Rightarrow> int multiset" where
  "held tp = mset (tp_received tp) + mset (all_fds (tp_in tp))"

lemma read_frame_fds:
  "read_frame buf recv msgs = (r, buf', recv', msgs') \<Longrightarrow> recv' @ all_fds msgs' = recv @ all_fds msgs"
proof (induction buf recv msgs rule: read_frame.induct)
  case (1 buf recv msgs)
  show ?case
    using 1 by (subst (asm) (2) read_frame.simps)
      (auto split: option.splits sum.splits prod.splits list.splits admin_message.splits if_splits)
qed

lemma await_fd_fds:
  "await_fd buf msgs = (Inl e, buf', msgs') \<Longrightarrow> all_fds msgs' = all_fds msgs"
  "await_fd buf msgs = (Inr fds, buf', msgs') \<Longrightarrow> fds \<noteq> [] \<and> fds @ all_fds msgs' = all_fds msgs"
  by (induction buf msgs rule: await_fd.induct) (auto simp: Let_def split: if_splits option.splits)

lemma write_rest_in: "write_rest ws rest tp = (err, tp') \<Longrightarrow> held tp' = held tp"
  by (induction ws rest tp rule: write_rest.induct) (auto simp: held_def Let_def split: if_splits)

lemma transport_write_held: "transport_write W encoded fd tp = (err, tp') \<Longrightarrow> held tp' = held tp"
  using write_rest_in
  by (fastforce simp: transport_write_def Let_def held_def split: sum.splits option.splits prod.splits if_splits)

lemma transport_read_held: "transport_read decoder tp = (r, tp') \<Longrightarrow> held tp' = held tp"
  using read_frame_fds [of "tp_readBuf tp" "tp_received tp" "tp_in tp"]
  by (auto simp: transport_read_def held_def simp flip: mset_append split: prod.splits)

lemma takeFD_held:
  "takeFD tp = (r, tp') \<Longrightarrow> (case r of Inr fd \<Rightarrow> held tp = add_mset fd (held tp') | Inl e \<Rightarrow> held tp' = held tp)"
proof (cases "tp_received tp")
  case Nil
  obtain r' buf ms where await: "await_fd (tp_readBuf tp) (tp_in tp) = (r', buf, ms)" by (metis prod_cases3)
  assume "takeFD tp = (r, tp')"
  with Nil await show ?thesis
  proof (cases r')
    case (Inr fds)
    with await await_fd_fds(2) have "fds \<noteq> []" "fds @ all_fds ms = all_fds (tp_in tp)" by auto
    moreover from this(1) obtain fd fds' where "fds = fd # fds'" by (cases fds) auto
    ultimately have "mset (all_fds (tp_in tp)) = add_mset fd (mset fds' + mset (all_fds ms))"
      by (metis append_Cons mset.simps(2) mset_append)
    with \<open>takeFD tp = (r, tp')\<close> Nil await Inr \<open>fds = fd # fds'\<close> show ?thesis
      by (auto simp: takeFD_def held_def)
  qed (auto simp: takeFD_def held_def dest: await_fd_fds(1))
qed (auto simp: takeFD_def held_def)

section \<open>Adoption keeps descriptors\<close>

text \<open>The master that a state holds is the one that it was built around.\<close>

definition built_around :: "int option \<Rightarrow> bytes \<Rightarrow> 't sessionState \<Rightarrow> bool" where
  "built_around master name st \<longleftrightarrow>
     closed_master st = (case master of Some fd \<Rightarrow> [fd] | None \<Rightarrow> []) \<and> st_name st = name"

lemma adoptStateWithTerminal_master:
  assumes "adoptStateWithTerminal pipe fd name (master \<noteq> None) vt l sz createdAt pid ex scrollback = Inr st"
    and "fd = master_fd master"
  shows "built_around master name st"
  using assms by (auto simp: built_around_def adoptStateWithTerminal_def closed_master_def master_fd_def Let_def split: option.splits if_splits)

lemma adopt_lossy_master:
  assumes "adopt_lossy P A m master replay scrollback d = (Inr st, d')"
  shows "built_around master (sm_Name m) st"
  using assms
  by (auto dest!: adoptStateWithTerminal_master [OF _ refl] simp del: not_None_eq simp: adopt_lossy_def adoptLossyState_def Let_def split: prod.splits sum.splits)

lemma adoptState_master:
  assumes "adoptState P env pipe (master_fd master) name (master \<noteq> None) snapshot sz dir g createdAt pid ex scrollback d = (Inr st, d')"
  shows "built_around master name st"
  using assms
  by (auto dest!: adoptStateWithTerminal_master [OF _ refl] simp del: not_None_eq simp: adoptState_def adoptStateWithOutput_def split: prod.splits sum.splits option.splits)

lemma adoptV0State_master:
  assumes "adoptV0State P A m master scrollback d = (Inr st, d')"
  shows "built_around master (sm_Name m) st"
  using assms
  by (auto dest!: adoptStateWithTerminal_master [OF _ refl] simp del: not_None_eq simp: adoptV0State_def Let_def split: prod.splits sum.splits option.splits)

lemma with_presentation_master [simp]:
  "built_around master name (with_presentation sn st) = built_around master name st"
  by (simp add: built_around_def with_presentation_def closed_master_def)

lemma adoptNativeOrLossyState_master:
  assumes "adoptNativeOrLossyState P Q A m master sn scrollback d = ((Inr st, lossy, reason), d')"
  shows "built_around master (sm_Name m) st"
  using assms
  by (auto dest!: adopt_lossy_master adoptState_master simp del: not_None_eq simp: adoptNativeOrLossyState_def Let_def split: prod.splits sum.splits if_splits)

definition master_set :: "int option \<Rightarrow> int multiset" where
  "master_set master = (case master of Some fd \<Rightarrow> {#fd#} | None \<Rightarrow> {#})"

definition masters :: "'t sessionState list \<Rightarrow> int multiset" where
  "masters sts = mset (concat (map closed_master sts))"

definition total :: "('s \<Rightarrow> int multiset) \<Rightarrow> 's adopting \<Rightarrow> int multiset" where
  "total owned c = mset (ac_closed c) + owned (ac_peer c)"

lemma masters_simps [simp]:
  "masters [] = {#}" "masters (sts @ [st]) = masters sts + mset (closed_master st)"
  by (simp_all add: masters_def)

lemma built_around_masters: "built_around master n st \<Longrightarrow> mset (closed_master st) = master_set master \<and> st_name st = n"
  by (auto simp: built_around_def master_set_def split: option.splits)

lemma total_simps [simp]:
  "total owned (c\<lparr>ac_disk := d\<rparr>) = total owned c" "total owned (c\<lparr>ac_nextID := i\<rparr>) = total owned c"
  "total owned (closeFile master c) = master_set master + total owned c"
  "total owned (c\<lparr>ac_closed := ac_closed c @ fds\<rparr>) = mset fds + total owned c"
  by (simp_all add: total_def closeFile_def master_set_def split: option.split)

text \<open>
  The interface between an adoption and its transport, as far as descriptors go: \<open>owned\<close> are
  the descriptors that the transport has received or will receive and has not handed out.
\<close>

locale descriptor_source =
  fixes T :: "'s transport" and owned :: "'s \<Rightarrow> int multiset"
  assumes ask: "tr_ask T q s = (r, s') \<Longrightarrow> owned s' = owned s"
    and take_fd: "tr_takeFD T s = (Inr fd, s') \<Longrightarrow> owned s = add_mset fd (owned s')"
    and take_none: "tr_takeFD T s = (Inl e, s') \<Longrightarrow> owned s' = owned s"
begin

lemma call_total: "admin_call T ctx late meth params decoder c = (r, c') \<Longrightarrow> total owned c' = total owned c"
  by (auto simp: admin_call_def Let_def total_def dest: ask split: option.splits sum.splits prod.splits if_splits)

lemma abort_total [simp]: "total owned (abortSingle T Q name c) = total owned c"
  using call_total [of None None "''abort''" "enc_batchParams Q [name]" "\<lambda>_. Inr ()" c]
  by (metis abortSingle_def prod.collapse)

lemma receive_total:
  assumes "receiveAdoptedSession T Q A name c = (r, c')"
  shows "total owned c = (case r of Inl e \<Rightarrow> {#} | Inr (m, master) \<Rightarrow> master_set master) + total owned c'"
  using assms
  by (auto simp: receiveAdoptedSession_def Let_def master_set_def total_def dest!: call_total take_fd take_none
      split: sum.splits prod.splits if_splits)

text \<open>What is built of one session accounts for the master that came with it.\<close>

lemma adopt_v0_total:
  assumes "adopt_v0 T Q P A listed m master scrollback c = (r, c')"
  shows "case r of Inl e \<Rightarrow> total owned c' = master_set master + total owned c
    | Inr (st, n) \<Rightarrow> mset (closed_master st) + total owned c' = master_set master + total owned c \<and> st_name st = n"
  using assms
  by (auto simp: adopt_v0_def Let_def dest!: adoptV0State_master adopt_lossy_master built_around_masters
      split: sum.splits prod.splits if_splits)

lemma adopt_v1_total:
  assumes "adopt_v1 T Q P A fallback listed m master scrollback c = (r, c')"
  shows "case r of Inl e \<Rightarrow> total owned c' = master_set master + total owned c
    | Inr (st, n) \<Rightarrow> mset (closed_master st) + total owned c' = master_set master + total owned c \<and> st_name st = n"
  using assms
  by (auto simp: adopt_v1_def Let_def dest!: call_total receive_total adoptNativeOrLossyState_master adopt_lossy_master built_around_masters
      split: sum.splits prod.splits if_splits)

lemma adopt_one_total:
  assumes "adopt_one T Q P A v0 fallback listed c = (r, c')"
  shows "case r of Inl e \<Rightarrow> total owned c' = total owned c
    | Inr (st, n) \<Rightarrow> mset (closed_master st) + total owned c' = total owned c \<and> st_name st = n"
  using assms
  by (auto simp: adopt_one_def Let_def dest!: receive_total adopt_v0_total adopt_v1_total split: sum.splits prod.splits if_splits)

lemma adopt_all_total:
  assumes "adopt_all T Q P A v0 fallback ms (prepared, names, skipped) c = ((prepared', names', skipped'), c')"
    and "names = map st_name prepared"
  shows "masters prepared' + total owned c' = masters prepared + total owned c \<and> names' = map st_name prepared'"
  using assms
proof (induction ms arbitrary: prepared names skipped c)
  case (Cons m ms)
  obtain r c1 where one: "adopt_one T Q P A v0 fallback (sm_Name m) c = (r, c1)" by (metis surj_pair)
  show ?case
  proof (cases r)
    case (Inl msg)
    then show ?thesis using Cons one adopt_one_total [OF one] by simp
  next
    case (Inr x)
    then obtain st n where x: "r = Inr (st, n)" by (cases x) auto
    then have "masters prepared' + total owned c' = masters (prepared @ [st]) + total owned c1 \<and> names' = map st_name prepared'"
      using Cons one adopt_one_total [OF one] by (intro Cons.IH) simp_all
    then show ?thesis using x adopt_one_total [OF one] by simp
  qed
qed simp

lemma rollback_total:
  assumes "names = map st_name prepared"
  shows "total owned (rollback T Q prepared names c) = masters prepared + total owned c"
proof (cases "prepared = []")
  case False
  obtain r c1 where "admin_call T None None ''abort'' (enc_batchParams Q names) (\<lambda>_. Inr ()) c = (r, c1)" by (metis surj_pair)
  with call_total [OF this] False assms show ?thesis by (simp add: rollback_def masters_def)
qed (simp add: rollback_def assms)

lemma adopt_batch_total:
  assumes "adopt_batch T Q P A v0 listed h c = ((n, skipped, err), h', c')"
  shows "\<exists>sts. h' = hub_adopt sts h \<and> n = length sts \<and> masters sts + total owned c' = total owned c"
proof -
  obtain prepared names sk c1 where all: "adopt_all T Q P A v0 (h_scrollback h) listed ([], [], []) c = ((prepared, names, sk), c1)"
    by (metis prod_cases3 surj_pair)
  have tot: "masters prepared + total owned c1 = total owned c" and names: "names = map st_name prepared"
    using adopt_all_total [OF all] by auto
  let ?call = "admin_call T (av_ctx A (ac_nextID c1)) (av_late A (ac_nextID c1)) ''commit'' (enc_batchParams Q names) (dec_countResult Q) c1"
  obtain r c2 where commit: "?call = (r, c2)" by (metis surj_pair)
  obtain x c3 where ex: "admin_call T None None ''exit'' (Inr []) (\<lambda>_. Inr ()) c2 = (x, c3)" by (metis surj_pair)
  consider "h' = h" "n = 0" "c' = rollback T Q prepared names c1" | "h' = h" "n = 0" "c' = rollback T Q prepared names c2"
    | "h' = hub_adopt prepared h" "n = length prepared" "c' = c3"
    using assms all commit ex by (auto simp: adopt_batch_def Let_def split: if_splits sum.splits)
  then show ?thesis
  proof cases
    case 1
    then show ?thesis using tot rollback_total [OF names] by (intro exI [of _ "[]"]) (simp add: hub_adopt_def)
  next
    case 2
    then show ?thesis using tot rollback_total [OF names] call_total [OF commit]
      by (intro exI [of _ "[]"]) (simp add: hub_adopt_def)
  next
    case 3
    then show ?thesis using tot call_total [OF commit] call_total [OF ex] by auto
  qed
qed

lemma adoption_total:
  assumes "adoptSessionsWithReport T Q P A h c = ((n, skipped, err), h', c')" and "tr_received T (ac_peer c) = []"
  shows "\<exists>sts. h' = hub_adopt sts h \<and> n = length sts \<and>
    masters sts + total owned c' = mset (tr_received T (ac_peer c')) + total owned c"
proof -
  let ?call = "admin_call T (av_ctx A (ac_nextID c)) (av_late A (ac_nextID c)) ''list'' (Inr []) (dec_listResult Q) c"
  obtain r c1 where call: "?call = (r, c1)" by (metis surj_pair)
  consider "h' = h" "n = 0" "c' = c"
    | "h' = h" "n = 0" "c' = c1\<lparr>ac_closed := ac_closed c1 @ tr_received T (ac_peer c1)\<rparr>"
    | v0 listed c2 where "adopt_batch T Q P A v0 listed h c1 = ((n, skipped, err), h', c2)"
        "c' = c2\<lparr>ac_closed := ac_closed c2 @ tr_received T (ac_peer c2)\<rparr>"
    using assms(1) call
    by (auto simp: adoptSessionsWithReport_def Let_def split: if_splits sum.splits option.splits prod.splits)
  then show ?thesis
  proof cases
    case 1
    then show ?thesis using assms(2) by (intro exI [of _ "[]"]) (simp add: hub_adopt_def)
  next
    case 2
    then show ?thesis using call_total [OF call] by (intro exI [of _ "[]"]) (simp add: hub_adopt_def)
  next
    case 3
    then show ?thesis using call_total [OF call] adopt_batch_total [OF 3(1)] by (auto simp: ac_simps)
  qed
qed

end

text \<open>The transport of the admin socket hands out what the socket delivers.\<close>

interpretation wire: descriptor_source "wire_transport marshal unmarshal W" held
proof
  fix q s r s'
  assume "tr_ask (wire_transport marshal unmarshal W) q s = (r, s')"
  then show "held s' = held s"
    using transport_write_held transport_read_held
    by (fastforce simp: wire_transport_def split: prod.splits option.splits)
next
  fix s s' fd
  assume "tr_takeFD (wire_transport marshal unmarshal W) s = (Inr fd, s')"
  then show "held s = add_mset fd (held s')" using takeFD_held [of s "Inr fd" s'] by (simp add: wire_transport_def)
next
  fix s s' e
  assume "tr_takeFD (wire_transport marshal unmarshal W) s = (Inl e, s')"
  then show "held s' = held s" using takeFD_held [of s "Inl e" s'] by (simp add: wire_transport_def)
qed

text \<open>
  C14. No descriptor is lost or closed twice. Whatever messages the admin socket delivers, in any
  cut and with descriptors on any of them, and however the adoption ends: the descriptors that
  it closed, the masters of the sessions in the hub of the target, and those that the socket has
  not delivered are together exactly the descriptors that the other side sent, in messages whose
  control data was not truncated.
\<close>

theorem descriptors_conserved:
  assumes "adoptSessionsWithReport (wire_transport marshal unmarshal W) Q P A h c = ((n, skipped, err), h', c')"
    and "tp_received (ac_peer c) = []" and "ac_closed c = []"
  shows "\<exists>sts. h' = hub_adopt sts h \<and> n = length sts \<and>
    mset (ac_closed c') + masters sts + mset (all_fds (tp_in (ac_peer c'))) = mset (all_fds (tp_in (ac_peer c)))"
proof -
  have "tr_received (wire_transport marshal unmarshal W) (ac_peer c) = []"
    using assms(2) by (simp add: wire_transport_def closeReceived_def)
  from wire.adoption_total [OF assms(1) this] obtain sts where sts: "h' = hub_adopt sts h" "n = length sts"
    and "masters sts + total held c' = mset (tr_received (wire_transport marshal unmarshal W) (ac_peer c')) + total held c"
    by blast
  then have "masters sts + (mset (ac_closed c') + mset (all_fds (tp_in (ac_peer c')))) = mset (all_fds (tp_in (ac_peer c)))"
    using assms(2,3) by (simp add: wire_transport_def closeReceived_def total_def held_def)
  with sts show ?thesis by (auto simp: ac_simps)
qed

text \<open>
  The descriptors that the kernel installed from truncated control data are not kept anywhere:
  the call that meets the message fails, and they stay open in the process.
\<close>

lemma truncated_descriptors_lost:
  "transport_read decoder \<lparr>tp_readBuf = [], tp_received = [], tp_in = [ControlTruncated fds], tp_out = []\<rparr> =
     (Inl (Plain ''admin control message truncated''), \<lparr>tp_readBuf = [], tp_received = [], tp_in = [], tp_out = []\<rparr>) \<and>
   takeFD \<lparr>tp_readBuf = [], tp_received = [], tp_in = [ControlTruncated fds], tp_out = []\<rparr> =
     (Inl (Plain ''admin control message truncated''), \<lparr>tp_readBuf = [], tp_received = [], tp_in = [], tp_out = []\<rparr>)"
  by (simp add: transport_read_def takeFD_def read_frame.simps trim_def next_frame_def IndexByte_def)

definition demo_tp :: "admin_message list \<Rightarrow> adminTransport" where
  "demo_tp msgs = \<lparr>tp_readBuf = [], tp_received = [], tp_in = msgs, tp_out = []\<rparr>"

definition demo_write :: write_env where
  "demo_write = \<lparr>we_deadline = None, we_message = (1, None), we_rest = []\<rparr>"

definition demo_adopting :: "disk \<Rightarrow> adminTransport adopting" where
  "demo_adopting d = \<lparr>ac_nextID = 1, ac_peer = demo_tp [Message (''{}'' @ [newline]) [7] None], ac_disk = d, ac_closed = []\<rparr>"

theorem descriptors_conserved_witness:
  "\<forall>marshal unmarshal Q (P :: bytes platform) A h d. \<exists>n skipped err h' c' sts.
     adoptSessionsWithReport (wire_transport marshal unmarshal (\<lambda>_. demo_write)) Q P A h (demo_adopting d) = ((n, skipped, err), h', c') \<and>
     h' = hub_adopt sts h \<and> n = length sts \<and>
     mset (ac_closed c') + masters sts + mset (all_fds (tp_in (ac_peer c'))) = {#7#}"
proof (intro allI)
  fix marshal unmarshal Q and P :: "bytes platform" and A h d
  let ?T = "wire_transport marshal unmarshal (\<lambda>_. demo_write)"
  obtain n skipped err h' c' where run: "adoptSessionsWithReport ?T Q P A h (demo_adopting d) = ((n, skipped, err), h', c')"
    by (metis prod_cases3 surj_pair)
  have fds: "tp_received (ac_peer (demo_adopting d)) = []" "ac_closed (demo_adopting d) = []"
      "all_fds (tp_in (ac_peer (demo_adopting d))) = [7]"
    by (simp_all add: demo_adopting_def demo_tp_def)
  from descriptors_conserved [OF run fds(1,2)] obtain sts where
    "h' = hub_adopt sts h" "n = length sts" "mset (ac_closed c') + masters sts + mset (all_fds (tp_in (ac_peer c'))) = {#7#}"
    unfolding fds(3) by auto
  with run show "\<exists>n skipped err h' c' sts. adoptSessionsWithReport ?T Q P A h (demo_adopting d) = ((n, skipped, err), h', c') \<and>
     h' = hub_adopt sts h \<and> n = length sts \<and>
     mset (ac_closed c') + masters sts + mset (all_fds (tp_in (ac_peer c'))) = {#7#}"
    by metis
qed

section \<open>All sessions or none\<close>

lemma adopt_all_count:
  "adopt_all T Q P A v0 fallback ms (prepared, names, skipped) c = ((prepared', names', skipped'), c') \<Longrightarrow>
     skipped' = [] \<Longrightarrow> skipped = [] \<and> length prepared' = length prepared + length ms"
proof (induction ms arbitrary: prepared names skipped c)
  case (Cons m ms)
  obtain r c1 where one: "adopt_one T Q P A v0 fallback (sm_Name m) c = (r, c1)" by (metis surj_pair)
  show ?case
  proof (cases r)
    case (Inl msg)
    then show ?thesis using Cons.IH [of prepared names "skip (sm_Name m) msg skipped" c1] Cons.prems one by (simp add: skip_def)
  next
    case (Inr x)
    then show ?thesis using Cons.IH [of "prepared @ [fst x]" "names @ [snd x]" skipped c1] Cons.prems one
      by (simp split: prod.splits)
  qed
qed simp

text \<open>A call that the other side answered without an error.\<close>

definition answered :: "'s transport \<Rightarrow> adopt_env \<Rightarrow> bytes \<Rightarrow> go_error + bytes \<Rightarrow> (bytes \<Rightarrow> go_error + 'r) \<Rightarrow> 's adopting \<Rightarrow> 'r option \<Rightarrow> bool" where
  "answered T A meth params decoder c r \<longleftrightarrow>
     (\<exists>c'. admin_call T (av_ctx A (ac_nextID c)) (av_late A (ac_nextID c)) meth params decoder c = (Inr r, c'))"

lemma adopt_batch_atomic:
  assumes "adopt_batch T Q P A v0 listed h c = ((n, skipped, err), h', c')"
  shows "case err of Some e \<Rightarrow> n = 0 \<and> h' = h
    | None \<Rightarrow> \<exists>sts names c1 r. h' = hub_adopt sts h \<and> n = length sts \<and> n = length listed \<and>
        answered T A ''commit'' (enc_batchParams Q names) (dec_countResult Q) c1 r \<and> or_zero 0 r = int n"
proof -
  obtain prepared names sk c1 where all: "adopt_all T Q P A v0 (h_scrollback h) listed ([], [], []) c = ((prepared, names, sk), c1)"
    by (metis prod_cases3 surj_pair)
  obtain r c2 where commit: "admin_call T (av_ctx A (ac_nextID c1)) (av_late A (ac_nextID c1)) ''commit'' (enc_batchParams Q names)
      (dec_countResult Q) c1 = (r, c2)" by (metis surj_pair)
  show ?thesis
  proof (cases "sk = [] \<and> (\<exists>x. r = Inr x \<and> or_zero 0 x = int (length prepared))")
    case True
    then obtain x where "r = Inr x" "or_zero 0 x = int (length prepared)" "sk = []" by blast
    then show ?thesis
      using assms all commit adopt_all_count [OF all] by (fastforce simp: adopt_batch_def answered_def Let_def)
  next
    case False
    then show ?thesis using assms all commit by (auto simp: adopt_batch_def Let_def split: if_splits sum.splits)
  qed
qed

text \<open>
  C13. A rolling upgrade takes over all sessions or none, whatever the old server answers. With an
  error the hub of the new server is as it was and the count is zero. Without an error the hub
  was open and empty before, and it holds one new session for every session that the old server
  listed, after the old server answered the commit with exactly that number.
\<close>

theorem adoption_atomic:
  assumes "adoptSessionsWithReport T Q P A h c = ((n, skipped, err), h', c')"
  shows "case err of Some e \<Rightarrow> n = 0 \<and> h' = h
    | None \<Rightarrow> \<not> h_closed h \<and> h_sessions h = Map.empty \<and>
        (\<exists>listed sts names c1 r. answered T A ''list'' (Inr []) (dec_listResult Q) c listed \<and>
           h' = hub_adopt sts h \<and> n = length sts \<and> n = length (al_Sessions (or_zero zero_list listed)) \<and>
           answered T A ''commit'' (enc_batchParams Q names) (dec_countResult Q) c1 r \<and> or_zero 0 r = int n)"
proof -
  obtain r c1 where call: "admin_call T (av_ctx A (ac_nextID c)) (av_late A (ac_nextID c)) ''list'' (Inr []) (dec_listResult Q) c = (r, c1)"
    by (metis surj_pair)
  consider e where "err = Some e" "n = 0" "h' = h"
    | x v0 c2 where "r = Inr x" "\<not> h_closed h" "dom (h_sessions h) = {}"
        "adopt_batch T Q P A v0 (al_Sessions (or_zero zero_list x)) h c1 = ((n, skipped, err), h', c2)"
    using assms call
    by (auto simp: adoptSessionsWithReport_def Let_def split: if_splits sum.splits option.splits prod.splits)
  then show ?thesis
  proof cases
    case 2
    then show ?thesis using call adopt_batch_atomic [OF 2(4)] by (cases err) (auto simp: answered_def)
  qed simp
qed

text \<open>An old server without sessions.\<close>

definition demo_idle :: "unit transport" where
  "demo_idle = \<lparr>tr_ask = (\<lambda>q s. (Inr \<lparr>ar_ID = aq_ID q, ar_Result = aq_Method q, ar_Error = []\<rparr>, s)),
     tr_takeFD = (\<lambda>s. (Inl (Sentinel EOF), s)), tr_received = (\<lambda>s. [])\<rparr>"

definition demo_adopt_codec :: adopt_codec where
  "demo_adopt_codec = \<lparr>enc_adoptParams = Inr, enc_batchParams = (\<lambda>_. Inr ''n''),
     dec_listResult = (\<lambda>_. Inr \<lparr>al_Version = ProtocolVersion, al_HandoffVersion = [], al_Sessions = []\<rparr>),
     dec_metaResult = (\<lambda>_. Inr zero_meta), dec_snapshotResult = (\<lambda>_. Inr zero_snapshot),
     dec_countResult = (\<lambda>_. Inr 0), unbase64 = Inr\<rparr>"

definition demo_adopt_env :: "open_env \<Rightarrow> adopt_env" where
  "demo_adopt_env oe = \<lparr>av_ctx = (\<lambda>_. None), av_late = (\<lambda>_. None), av_mkdirAll = None, av_dial = None,
     av_log = (\<lambda>_ _. oe), av_mkdirTemp = (\<lambda>_. Inl (Plain [])), av_new = (\<lambda>_. oe), av_pipe = (\<lambda>_. None), av_now = (\<lambda>_. 0),
     av_glob = (\<lambda>_. Inr []), av_stat = (\<lambda>_. None), av_open = (\<lambda>_. None), av_gzip = (\<lambda>_. None), av_spool = (\<lambda>_. [])\<rparr>"

definition empty_hub :: "'t hub \<Rightarrow> 't hub" where
  "empty_hub h = h\<lparr>h_sessions := Map.empty, h_pending := {}, h_closed := False\<rparr>"

theorem adoption_atomic_witness:
  "\<forall>(P :: bytes platform) oe h d. \<exists>c'.
     adoptSessionsWithReport demo_idle demo_adopt_codec P (demo_adopt_env oe) (empty_hub h)
       \<lparr>ac_nextID = 1, ac_peer = (), ac_disk = d, ac_closed = []\<rparr> = ((0, None, None), empty_hub h, c') \<and>
     (\<exists>names c1 r. answered demo_idle (demo_adopt_env oe) ''commit'' (enc_batchParams demo_adopt_codec names)
        (dec_countResult demo_adopt_codec) c1 r \<and> or_zero 0 r = 0)"
proof (intro allI)
  fix P :: "bytes platform" and oe h d
  let ?c = "\<lparr>ac_nextID = 1, ac_peer = (), ac_disk = d, ac_closed = []\<rparr>"
  have "\<exists>c'. adoptSessionsWithReport demo_idle demo_adopt_codec P (demo_adopt_env oe) (empty_hub h) ?c = ((0, None, None), empty_hub h, c')"
    by (simp add: adoptSessionsWithReport_def adopt_batch_def admin_call_def demo_idle_def demo_adopt_codec_def demo_adopt_env_def
        empty_hub_def or_zero_def hub_adopt_def)
  then obtain c' where run: "adoptSessionsWithReport demo_idle demo_adopt_codec P (demo_adopt_env oe) (empty_hub h) ?c = ((0, None, None), empty_hub h, c')"
    by blast
  from adoption_atomic [OF run] run show "\<exists>c'.
     adoptSessionsWithReport demo_idle demo_adopt_codec P (demo_adopt_env oe) (empty_hub h) ?c = ((0, None, None), empty_hub h, c') \<and>
     (\<exists>names c1 r. answered demo_idle (demo_adopt_env oe) ''commit'' (enc_batchParams demo_adopt_codec names)
        (dec_countResult demo_adopt_codec) c1 r \<and> or_zero 0 r = 0)"
    by auto
qed

section \<open>Frames and descriptors arrive as sent\<close>

definition sent_bytes :: "adminTransport \<Rightarrow> bytes" where
  "sent_bytes tp = concat (map fst (tp_out tp))"

definition sent_fds :: "adminTransport \<Rightarrow> int list" where
  "sent_fds tp = concat (map snd (tp_out tp))"

abbreviation all_bytes :: "admin_message list \<Rightarrow> bytes" where
  "all_bytes msgs \<equiv> concat (map msg_bytes msgs)"

text \<open>A socket that works: every message has bytes, and none an error.\<close>

definition intact :: "admin_message list \<Rightarrow> bool" where
  "intact msgs \<longleftrightarrow> (\<forall>m \<in> set msgs. \<exists>b fds. m = Message b fds None \<and> b \<noteq> [])"

lemma intact_Cons: "intact (m # ms) \<longleftrightarrow> (\<exists>b fds. m = Message b fds None \<and> b \<noteq> []) \<and> intact ms"
  by (simp add: intact_def)

lemma write_rest_sent:
  "write_rest ws rest tp = (None, tp') \<Longrightarrow> sent_bytes tp' = sent_bytes tp @ rest \<and> sent_fds tp' = sent_fds tp"
  by (induction ws rest tp rule: write_rest.induct) (auto simp: sent_bytes_def sent_fds_def Let_def split: if_splits)

lemma transport_write_sent:
  assumes "transport_write W (Inr b) fd tp = (None, tp')"
  shows "sent_bytes tp' = sent_bytes tp @ b @ [newline]" and "sent_fds tp' = sent_fds tp @ (if fd \<ge> 0 then [fd] else [])"
    and "length b < adminMaxFrame"
  using assms by (auto simp: transport_write_def Let_def sent_bytes_def sent_fds_def dest!: write_rest_sent
      simp del: take_append drop_append split: option.splits prod.splits if_splits)

lemma trim_trim: "trim (trim buf @ x) = trim (buf @ x)"
  unfolding trim_def by (induction buf) auto

lemma trim_append: "trim buf \<noteq> [] \<Longrightarrow> trim (buf @ x) = trim buf @ x"
  unfolding trim_def by (metis dropWhile_append dropWhile_eq_Nil_conv)

lemma first_line:
  assumes "a @ c # b = a' @ (c :: char) # b'" and "c \<notin> set a" and "c \<notin> set a'"
  shows "a = a' \<and> b = b'"
  using assms IndexByte_append_notin [of c a b] IndexByte_append_notin [of c a' b'] by (simp add: append_eq_append_conv)

lemma read_frame_exact:
  assumes "intact msgs" and "trim (buf @ all_bytes msgs) = frame @ newline # tail" and "newline \<notin> set frame"
    and "length frame \<le> adminMaxFrame"
  shows "\<exists>buf' recv' msgs'. read_frame buf recv msgs = (Inr frame, buf', recv', msgs') \<and> intact msgs' \<and> buf' @ all_bytes msgs' = tail"
  using assms(1,2)
proof (induction msgs arbitrary: buf recv)
  case Nil
  then have "trim buf = frame @ newline # tail" by simp
  moreover from this assms(3) have "IndexByte (trim buf) newline = Some (length frame)" by (simp add: IndexByte_append_notin)
  ultimately show ?case using assms(4) by (simp add: read_frame.simps next_frame_def intact_def)
next
  case (Cons m ms)
  show ?case
  proof (cases "newline \<in> set (trim buf)")
    case True
    then obtain a b where ab: "trim buf = a @ newline # b" "newline \<notin> set a" by (metis split_list_first)
    then have "a @ newline # (b @ all_bytes (m # ms)) = frame @ newline # tail"
      using Cons.prems(2) trim_append [of buf "all_bytes (m # ms)"] by simp
    with first_line [OF this ab(2) assms(3)] have "a = frame" "b @ all_bytes (m # ms) = tail" by auto
    moreover have "IndexByte (trim buf) newline = Some (length a)" using ab by (simp add: IndexByte_append_notin)
    ultimately show ?thesis using ab assms(4) Cons.prems(1) by (simp add: read_frame.simps next_frame_def)
  next
    case False
    obtain b fds where m: "m = Message b fds None" "b \<noteq> []" using Cons.prems(1) by (auto simp: intact_Cons)
    have "length (trim buf) \<le> length frame"
    proof (rule ccontr)
      assume "\<not> length (trim buf) \<le> length frame"
      moreover from this have "trim buf @ all_bytes (m # ms) = frame @ newline # tail"
        using Cons.prems(2) trim_append [of buf "all_bytes (m # ms)"] by fastforce
      ultimately have "(trim buf) ! length frame = newline" by (metis not_le nth_append nth_append_length)
      with False \<open>\<not> length (trim buf) \<le> length frame\<close> show False by (metis not_le nth_mem)
    qed
    moreover have "IndexByte (trim buf) newline = None" using False by (simp add: IndexByte_None)
    ultimately have "next_frame (trim buf) = None" using assms(4) by (simp add: next_frame_def)
    moreover have "trim ((trim buf @ b) @ all_bytes ms) = frame @ newline # tail"
      using Cons.prems(2) m trim_trim [of buf "b @ all_bytes ms"] by simp
    ultimately show ?thesis
      using Cons.IH [of "trim buf @ b" "recv @ fds"] Cons.prems(1) m
      by (simp add: read_frame.simps [of buf recv "Message b fds None # ms"] intact_Cons)
  qed
qed

lemma await_fd_finds:
  "intact msgs \<Longrightarrow> all_fds msgs = fd # fds \<Longrightarrow> \<exists>fds' buf' msgs'. await_fd buf msgs = (Inr (fd # fds'), buf', msgs')"
proof (induction buf msgs rule: await_fd.induct)
  case (4 buf b fs err ms)
  then show ?case by (cases fs) (auto simp: intact_Cons)
qed (auto simp: intact_Cons)

lemma takeFD_finds:
  assumes "intact (tp_in tp)" and "tp_received tp @ all_fds (tp_in tp) = fd # fds"
  shows "\<exists>tp'. takeFD tp = (Inr fd, tp')"
  using assms await_fd_finds [of "tp_in tp" fd fds "tp_readBuf tp"]
  by (cases "tp_received tp") (auto simp: takeFD_def)

text \<open>
  C23. A response and its descriptor arrive together. When one side writes a message with a
  descriptor and the socket takes it, then the other side, behind any padding and however the
  socket cuts the bytes and wherever it delivers the descriptor, reads exactly that message,
  leaves the bytes behind it for the next one, and takes exactly that descriptor.
\<close>

theorem transport_roundtrip:
  assumes "transport_write W (Inr b) fd tp = (None, tp')" and "tp_out tp = []" and "0 \<le> fd"
    and "newline \<notin> set b" and "b \<noteq> []" and "hd b \<noteq> NUL" and "decoder b = Inr v"
    and "intact (tp_in tr)" and "tp_readBuf tr @ all_bytes (tp_in tr) = replicate k NUL @ sent_bytes tp' @ tail"
    and "tp_received tr = []" and "all_fds (tp_in tr) = sent_fds tp' @ fds"
  shows "\<exists>tr1 tr2. transport_read decoder tr = (Inr v, tr1) \<and> tp_readBuf tr1 @ all_bytes (tp_in tr1) = tail \<and>
    takeFD tr1 = (Inr fd, tr2)"
proof -
  note sent = transport_write_sent [OF assms(1)]
  have "trim (replicate k NUL @ x) = trim x" for x by (induction k) (simp_all add: trim_def)
  moreover have "trim (b @ x) = b @ x" for x using assms(5,6) by (cases b) (simp_all add: trim_def)
  ultimately have "trim (tp_readBuf tr @ all_bytes (tp_in tr)) = b @ newline # tail"
    using assms(2,9) sent(1) by (simp add: sent_bytes_def)
  from read_frame_exact [OF assms(8) this assms(4)] sent(3) obtain buf' recv' msgs' where
    read: "read_frame (tp_readBuf tr) (tp_received tr) (tp_in tr) = (Inr b, buf', recv', msgs')" "intact msgs'" "buf' @ all_bytes msgs' = tail"
    by (metis less_imp_le_nat)
  let ?tr1 = "tr\<lparr>tp_readBuf := buf', tp_received := recv', tp_in := msgs'\<rparr>"
  have "recv' @ all_fds msgs' = fd # fds"
    using read_frame_fds [OF read(1)] assms(2,3,10,11) sent(2) by (simp add: sent_fds_def)
  with read(2) have "\<exists>tr2. takeFD ?tr1 = (Inr fd, tr2)" using takeFD_finds [of ?tr1 fd fds] by simp
  then show ?thesis using read assms(7) by (auto simp: transport_read_def)
qed

definition demo_cut :: "admin_message list" where
  "demo_cut = [Message [NUL, CHR ''{''] [] None, Message [CHR ''}'', newline, CHR ''x''] [7] None]"

theorem transport_roundtrip_witness:
  "\<exists>tr1 tr2. transport_read (\<lambda>_. Inr ()) (demo_tp demo_cut) = (Inr (), tr1) \<and> tp_readBuf tr1 @ all_bytes (tp_in tr1) = ''x'' \<and>
     takeFD tr1 = (Inr 7, tr2)"
proof (rule transport_roundtrip [where b = "''{}''" and W = demo_write and tp = "demo_tp []" and k = 1 and fds = "[]"])
  show "transport_write demo_write (Inr ''{}'') 7 (demo_tp []) =
      (None, (demo_tp [])\<lparr>tp_out := [(''{'', [7]), (''}'' @ [newline], [])]\<rparr>)"
    by (simp add: transport_write_def demo_write_def demo_tp_def adminMaxFrame_def)
  show "intact (tp_in (demo_tp demo_cut))" by (simp add: demo_tp_def demo_cut_def intact_def)
qed (simp_all add: demo_tp_def demo_cut_def sent_bytes_def sent_fds_def)

end
