(* ===== verification/Hub_Facts.thy ===== *)
theory Hub_Facts
  imports Hub "HOL-Library.Multiset"
begin

text \<open>
  The hub under concurrent use: threads that start, delete, list and close, and a migration
  that freezes it. The names in use stay unique, the second check of \<^verbatim>\<open>Start\<close> never has to
  give up a session that was already created, a frozen inventory does not change, and the
  listing does not depend on the iteration order of the table.
\<close>

section \<open>Threads\<close>

text \<open>
  \<open>hs_starts\<close>: the threads between the two locked regions of \<^verbatim>\<open>Start\<close> and the names they reserved.
  \<open>hs_deletes\<close>: the threads between the two locked regions of \<^verbatim>\<open>delete\<close>, the check that the session
  is current and the removal, and the names they are about to remove. Both hold the lifecycle
  lock for reading meanwhile, which a freeze and \<^verbatim>\<open>Close\<close> take for writing.
\<close>

record 't hub_sys =
  hs_hub :: "'t hub"
  hs_starts :: "nat \<rightharpoonup> bytes"
  hs_deletes :: "nat \<rightharpoonup> bytes"
  hs_frozen :: bool

datatype 't hub_event =
    Reserve nat "go_error option" sessionOptions
  | GiveUp nat
  | Publish nat "'t sessionState"
  | DeleteCheck nat nat
  | DeleteRemove nat
  | Touch nat "'t sessionState"
  | Freeze
  | Unfreeze
  | Migrated bytes
  | CloseHub "nat \<Rightarrow> bool \<times> bool" "nat list"

text \<open>\<open>None\<close>: the thread waits for a lock, or is not at that point.\<close>

fun hub_step :: "'t hub_event \<Rightarrow> 't hub_sys \<Rightarrow> 't hub_sys option" where
  "hub_step (Reserve t ctx opts) s =
     (if hs_frozen s \<or> hs_starts s t \<noteq> None then None
      else (case start_reserve ctx opts (hs_hub s) of
        (Inl e, h) \<Rightarrow> Some (s\<lparr>hs_hub := h\<rparr>)
      | (Inr _, h) \<Rightarrow> Some (s\<lparr>hs_hub := h, hs_starts := (hs_starts s)(t \<mapsto> so_Name opts)\<rparr>)))"
| "hub_step (GiveUp t) s =
     (case hs_starts s t of None \<Rightarrow> None
      | Some n \<Rightarrow> Some (s\<lparr>hs_hub := start_release n (hs_hub s), hs_starts := (hs_starts s)(t := None)\<rparr>))"
| "hub_step (Publish t st) s =
     (case hs_starts s t of None \<Rightarrow> None
      | Some n \<Rightarrow>
          if st_name st \<noteq> n then None
          else Some (s\<lparr>hs_hub := snd (start_publish n st (hs_hub s)), hs_starts := (hs_starts s)(t := None)\<rparr>))"
| "hub_step (DeleteCheck t a) s =
     (if hs_frozen s \<or> hs_deletes s t \<noteq> None then None
      else if hub_current a (hs_hub s) then
        Some (s\<lparr>hs_deletes := (hs_deletes s)(t \<mapsto> st_name (h_states (hs_hub s) ! a))\<rparr>)
      else Some s)"
| "hub_step (DeleteRemove t) s =
     (case hs_deletes s t of None \<Rightarrow> None
      | Some n \<Rightarrow> Some (s\<lparr>hs_hub := hub_remove n (hs_hub s), hs_deletes := (hs_deletes s)(t := None)\<rparr>))"
| "hub_step (Touch a st) s =
     (if a < length (h_states (hs_hub s)) \<and> state_key st = state_key (h_states (hs_hub s) ! a) then
        Some (s\<lparr>hs_hub := (hs_hub s)\<lparr>h_states := (h_states (hs_hub s))[a := st]\<rparr>\<rparr>)
      else None)"
| "hub_step Freeze s =
     (if hs_frozen s \<or> hs_starts s \<noteq> Map.empty \<or> hs_deletes s \<noteq> Map.empty \<or> \<not> beginMigrationBatch (hs_hub s) then None
      else Some (s\<lparr>hs_frozen := True\<rparr>))"
| "hub_step Unfreeze s = (if hs_frozen s then Some (s\<lparr>hs_frozen := False\<rparr>) else None)"
| "hub_step (Migrated n) s = (if hs_frozen s then Some (s\<lparr>hs_hub := hub_remove n (hs_hub s)\<rparr>) else None)"
| "hub_step (CloseHub reap order) s =
     (if hs_frozen s \<or> hs_starts s \<noteq> Map.empty \<or> hs_deletes s \<noteq> Map.empty then None
      else if distinct order \<and> set order = ran (h_sessions (hs_hub s)) then
        Some (s\<lparr>hs_hub := snd (hub_Close reap order (hs_hub s))\<rparr>)
      else None)"

fun hub_run :: "'t hub_event list \<Rightarrow> 't hub_sys \<Rightarrow> 't hub_sys" where
  "hub_run [] s = s"
| "hub_run (ev # evs) s = hub_run evs (case hub_step ev s of None \<Rightarrow> s | Some s' \<Rightarrow> s')"

section \<open>The table stays consistent\<close>

definition table_ok :: "'t hub \<Rightarrow> bool" where
  "table_ok h \<longleftrightarrow> (\<forall>n a. h_sessions h n = Some a \<longrightarrow> a < length (h_states h) \<and> st_name (h_states h ! a) = n)"

definition hub_inv :: "'t hub_sys \<Rightarrow> bool" where
  "hub_inv s \<longleftrightarrow> table_ok (hs_hub s) \<and>
     h_pending (hs_hub s) = ran (hs_starts s) \<and> inj_on (hs_starts s) (dom (hs_starts s)) \<and>
     (\<forall>n \<in> h_pending (hs_hub s). h_sessions (hs_hub s) n = None) \<and>
     (h_closed (hs_hub s) \<longrightarrow> h_sessions (hs_hub s) = Map.empty \<and> hs_starts s = Map.empty) \<and>
     (hs_frozen s \<longrightarrow> hs_starts s = Map.empty \<and> hs_deletes s = Map.empty)"

lemma start_reserve_cases:
  assumes "start_reserve ctx opts h = (r, h')"
  obtains (refused) e where "r = Inl e" "h' = h"
  | (reserved) x where "r = Inr x" "h' = h\<lparr>h_pending := insert (so_Name opts) (h_pending h)\<rparr>"
      "\<not> h_closed h" "so_Name opts \<notin> h_pending h" "h_sessions h (so_Name opts) = None"
proof -
  have "(\<exists>e. r = Inl e \<and> h' = h) \<or>
      (\<exists>x. r = Inr x \<and> h' = h\<lparr>h_pending := insert (so_Name opts) (h_pending h)\<rparr> \<and> \<not> h_closed h \<and>
        so_Name opts \<notin> h_pending h \<and> h_sessions h (so_Name opts) = None)"
    using assms by (auto simp: start_reserve_def split: option.splits sum.splits if_splits)
  with that show thesis by blast
qed

lemma ran_remove:
  "inj_on m (dom m) \<Longrightarrow> m t = Some n \<Longrightarrow> ran (m(t := None)) = ran m - {n}"
  by (auto simp: ran_def inj_on_def dom_def) (metis option.inject)

lemma inj_on_remove: "inj_on m (dom m) \<Longrightarrow> inj_on (m(t := None)) (dom (m(t := None)))"
  by (auto simp: inj_on_def)

lemma inj_on_add: "inj_on m (dom m) \<Longrightarrow> n \<notin> ran m \<Longrightarrow> m t = None \<Longrightarrow> inj_on (m(t \<mapsto> n)) (dom (m(t \<mapsto> n)))"
  by (auto simp: inj_on_def ran_def dom_def)

lemma terminate_name [simp]: "st_name (snd (snd (terminate r1 r2 st))) = st_name st"
  by (simp add: terminate_def state_close_def Let_def)

lemma terminate_all_length [simp]: "length (snd (terminate_all reap as sts)) = length sts"
  by (induction as arbitrary: sts) (auto split: prod.splits option.splits dest: arg_cong [of _ _ "length \<circ> snd"])

lemma publish_succeeds:
  assumes "hub_inv s" and "hs_starts s t = Some n"
  shows "start_publish n st (hs_hub s) = (Inr (length (h_states (hs_hub s))),
     (start_release n (hs_hub s))\<lparr>h_sessions := (h_sessions (hs_hub s))(n \<mapsto> length (h_states (hs_hub s))),
        h_states := h_states (hs_hub s) @ [st]\<rparr>)"
proof -
  have "n \<in> h_pending (hs_hub s)" "\<not> h_closed (hs_hub s)"
    using assms by (auto simp: hub_inv_def ran_def)
  then show ?thesis using assms(1) by (auto simp: hub_inv_def start_publish_def Let_def dom_def)
qed

lemma hub_inv_step:
  assumes "hub_inv s" and "hub_step ev s = Some s'"
  shows "hub_inv s'"
proof (cases ev)
  case (Reserve t ctx opts)
  then have t: "\<not> hs_frozen s" "hs_starts s t = None" using assms(2) by (auto split: if_splits)
  obtain r h where res: "start_reserve ctx opts (hs_hub s) = (r, h)" by fastforce
  then show ?thesis
  proof (cases rule: start_reserve_cases)
    case (refused e)
    then show ?thesis using Reserve assms t res by simp
  next
    case (reserved x)
    then show ?thesis
      using Reserve assms t res inj_on_add [of "hs_starts s" "so_Name opts" t]
      by (auto simp: hub_inv_def table_ok_def)
  qed
next
  case (GiveUp t)
  then show ?thesis
    using assms inj_on_remove [of "hs_starts s" t]
    by (auto simp: hub_inv_def table_ok_def start_release_def ran_remove split: option.splits)
next
  case (Publish t st)
  then obtain n where n: "hs_starts s t = Some n" "st_name st = n"
    and s': "s' = s\<lparr>hs_hub := snd (start_publish n st (hs_hub s)), hs_starts := (hs_starts s)(t := None)\<rparr>"
    using assms(2) by (auto split: option.splits if_splits)
  have "hs_starts s \<noteq> Map.empty" using n(1) by auto
  then show ?thesis
    using assms(1) n s' publish_succeeds [OF assms(1) n(1), of st] inj_on_remove [of "hs_starts s" t]
    by (auto simp: hub_inv_def table_ok_def start_release_def ran_remove nth_append less_Suc_eq)
next
  case (Touch a st)
  then show ?thesis
    using assms by (auto simp: hub_inv_def table_ok_def state_key_def nth_list_update split: if_splits)
next
  case (CloseHub reap order)
  then show ?thesis
    using assms by (auto simp: hub_inv_def table_ok_def hub_Close_def split: if_splits prod.splits)
qed (use assms in \<open>auto simp: hub_inv_def table_ok_def hub_remove_def beginMigrationBatch_def split: if_splits option.splits\<close>)

lemma hub_inv_run: "hub_inv s \<Longrightarrow> hub_inv (hub_run evs s)"
  by (induction evs arbitrary: s) (auto split: option.splits intro: hub_inv_step)

definition hub_begin :: "'t hub \<Rightarrow> 't hub_sys" where
  "hub_begin h = \<lparr>hs_hub = h, hs_starts = Map.empty, hs_deletes = Map.empty, hs_frozen = False\<rparr>"

lemma hub_inv_begin: "New dir opts = Inr h \<Longrightarrow> hub_inv (hub_begin h)"
  by (auto simp: New_def hub_begin_def hub_inv_def table_ok_def split: sum.splits)

text \<open>
  C18. A session that was created is never given up for its name: for every interleaving of
  threads that start, delete, list, close and migrate on a new hub, a thread that has reserved
  a name is the only one, and when it publishes its session neither of the two checks under
  the lock refuses it; the session is then found under its name, and every other name leads
  where it led before.
\<close>

theorem start_exclusive:
  assumes "New dir opts = Inr h" and "s = hub_run evs (hub_begin h)" and "hs_starts s t = Some n"
  shows "\<exists>a h'. start_publish n st (hs_hub s) = (Inr a, h') \<and> hub_Get None n h' = Inr a \<and> h_states h' ! a = st \<and>
    (\<forall>m. m \<noteq> n \<longrightarrow> hub_Get None m h' = hub_Get None m (hs_hub s)) \<and>
    (\<forall>u. hs_starts s u = Some n \<longrightarrow> u = t)"
proof -
  have inv: "hub_inv s" using hub_inv_run [OF hub_inv_begin [OF assms(1)]] assms(2) by simp
  have "u = t" if "hs_starts s u = Some n" for u
    using inv assms(3) that by (auto simp: hub_inv_def inj_on_def dom_def)
  with publish_succeeds [OF inv assms(3), of st] show ?thesis
    by (auto simp: hub_Get_def hub_session_def start_release_def)
qed

definition demo_hub :: "bytes hub" where
  "demo_hub = \<lparr>h_outputDir = ''/o'', h_defaultSize = Size 120 36, h_defaultTerm = [], h_scrollback = 2 * 2 ^ 20,
     h_probe = False, h_sessions = Map.empty, h_pending = {}, h_closed = False, h_states = []\<rparr>"

definition demo_options :: options where
  "demo_options = \<lparr>OutputDir = ''/o'', DefaultSize = zero_size, DefaultTerm = [], VTScrollback = 0, ProbeForeground = False\<rparr>"

definition demo_so :: "bytes \<Rightarrow> sessionOptions" where
  "demo_so n = \<lparr>so_Name = n, so_Process = Shell ''ls'', so_Size = zero_size, so_Scrollback = 0\<rparr>"

lemma demo_hub_New: "New [] demo_options = Inr demo_hub"
  by (simp add: New_def demo_options_def demo_hub_def Size_resolve_def Size_validate_def maxTerminalDimension_def
      defaultColumns_def defaultRows_def resolveVTScrollbackMaxBytes_def DefaultVTScrollbackMaxBytes_def)

lemma demo_reserve:
  assumes "validateName n = None" and "\<not> h_closed h" and "n \<notin> h_pending h" and "h_sessions h n = None"
    and "h_defaultSize h = Size 120 36"
  shows "\<exists>x. start_reserve None (demo_so n) h = (Inr x, h\<lparr>h_pending := insert n (h_pending h)\<rparr>)"
proof -
  have "ProcessSpec_validate (Shell ''ls'') = None" by code_simp
  then show ?thesis
    using assms by (simp add: start_reserve_def demo_so_def Size_resolve_def Size_validate_def maxTerminalDimension_def)
qed

lemma demo_names: "validateName ''s'' = None" "validateName ''z'' = None" "validateName ''a'' = None"
  by code_simp+

lemma demo_reserved: "hs_starts (hub_run [Reserve 1 None (demo_so ''s'')] (hub_begin demo_hub)) 1 = Some ''s''"
  using demo_reserve [OF demo_names(1), of demo_hub]
  by (auto simp: hub_begin_def demo_hub_def) (auto simp: demo_so_def)

theorem start_exclusive_witness:
  "\<forall>st. \<exists>a h'. start_publish ''s'' st (hs_hub (hub_run [Reserve 1 None (demo_so ''s'')] (hub_begin demo_hub))) = (Inr a, h') \<and>
     hub_Get None ''s'' h' = Inr a"
  using start_exclusive [OF demo_hub_New refl demo_reserved] by blast

section \<open>Overlapping deletes\<close>

definition demo_state :: "bytes \<Rightarrow> int \<Rightarrow> bytes sessionState" where
  "demo_state n created = \<lparr>st_name = n, st_command = True, st_pid = 7, st_masterFD = 3, st_size = Size 80 24,
     st_master = True, st_output = \<lparr>directory = [], log_generation = 1, segments = Map.empty, active = None,
       changed = 0, closed = False, log_err = None, sizes = []\<rparr>,
     st_vt = \<lparr>vt_terminal = None, scrollbackMaxBytes = 1, reportedPwd = [], semanticSeen = False, atPrompt = False,
       runningCommand = [], lastCommand = [], lastExitCode = 0, lastExitKnown = False, lastExitAt = None\<rparr>,
     st_scrollback = 1, st_createdAt = created, st_waitErr = None, st_closeOnce = False, st_done = False,
     st_reaped = False, st_migrated = False\<rparr>"

text \<open>
  The two locked regions of a delete let a stale removal through. Two threads that delete the
  same session both find it current; after the first has removed it, a new session is started
  under the name, and the second thread removes that one: it runs on, but no name leads to it.
\<close>

lemma stale_delete_unlists:
  "\<exists>s. s = hub_run [Reserve 1 None (demo_so ''s''), Publish 1 (demo_state ''s'' 5), DeleteCheck 2 0, DeleteCheck 3 0,
       DeleteRemove 2, Reserve 1 None (demo_so ''s''), Publish 1 (demo_state ''s'' 6), DeleteRemove 3] (hub_begin demo_hub) \<and>
     h_states (hs_hub s) = [demo_state ''s'' 5, demo_state ''s'' 6] \<and> h_sessions (hs_hub s) = Map.empty"
proof -
  let ?st = "demo_state ''s''"
  have name: "st_name (?st i) = ''s''" for i by (simp add: demo_state_def)
  obtain x where 1: "start_reserve None (demo_so ''s'') demo_hub = (Inr x, demo_hub\<lparr>h_pending := {''s''}\<rparr>)"
    using demo_reserve [OF demo_names(1), of demo_hub] by (auto simp: demo_hub_def)
  let ?h = "demo_hub\<lparr>h_states := [?st 5]\<rparr>"
  obtain y where 2: "start_reserve None (demo_so ''s'') ?h = (Inr y, ?h\<lparr>h_pending := {''s''}\<rparr>)"
    using demo_reserve [OF demo_names(1), of ?h] by (auto simp: demo_hub_def)
  have so: "so_Name (demo_so ''s'') = ''s''" by (simp add: demo_so_def)
  have start: "hub_run [Reserve 1 None (demo_so ''s''), Publish 1 (?st 5)] (hub_begin demo_hub) =
      hub_begin (demo_hub\<lparr>h_sessions := [''s'' \<mapsto> 0], h_states := [?st 5]\<rparr>)"
    using 1 so name by (simp add: hub_begin_def start_publish_def start_release_def demo_hub_def Let_def)
  have deletes: "hub_run [DeleteCheck 2 0, DeleteCheck 3 0, DeleteRemove 2]
      (hub_begin (demo_hub\<lparr>h_sessions := [''s'' \<mapsto> 0], h_states := [?st 5]\<rparr>)) = (hub_begin ?h)\<lparr>hs_deletes := [3 \<mapsto> ''s'']\<rparr>"
    using name by (simp add: hub_begin_def hub_current_def hub_remove_def demo_hub_def fun_eq_iff)
  have again: "hub_run [Reserve 1 None (demo_so ''s''), Publish 1 (?st 6), DeleteRemove 3] ((hub_begin ?h)\<lparr>hs_deletes := [3 \<mapsto> ''s'']\<rparr>) =
      hub_begin (demo_hub\<lparr>h_states := [?st 5, ?st 6]\<rparr>)"
    using 2 so name by (simp add: hub_begin_def start_publish_def start_release_def hub_remove_def demo_hub_def Let_def)
  have split: "hub_run (as @ bs) s = hub_run bs (hub_run as s)" for as bs and s :: "bytes hub_sys"
    by (induction as arbitrary: s) auto
  show ?thesis
    using start deletes again
      split [of "[Reserve 1 None (demo_so ''s''), Publish 1 (?st 5)]" "[DeleteCheck 2 0, DeleteCheck 3 0, DeleteRemove 2] @
        [Reserve 1 None (demo_so ''s''), Publish 1 (?st 6), DeleteRemove 3]" "hub_begin demo_hub"]
      split [of "[DeleteCheck 2 0, DeleteCheck 3 0, DeleteRemove 2]" "[Reserve 1 None (demo_so ''s''), Publish 1 (?st 6), DeleteRemove 3]"
        "hub_begin (demo_hub\<lparr>h_sessions := [''s'' \<mapsto> 0], h_states := [?st 5]\<rparr>)"]
    by (simp del: hub_run.simps) (simp add: hub_begin_def demo_hub_def)
qed

section \<open>A frozen hub\<close>

definition inventory :: "'t hub_sys \<Rightarrow> bytes \<rightharpoonup> session_key" where
  "inventory s n = map_option (\<lambda>a. state_key (h_states (hs_hub s) ! a)) (h_sessions (hs_hub s) n)"

fun migration_event :: "'t hub_event \<Rightarrow> bool" where
  "migration_event Unfreeze = True"
| "migration_event (Migrated n) = True"
| "migration_event ev = False"

lemma frozen_step:
  assumes "hub_inv s" and "hs_frozen s" and "hub_step ev s = Some s'" and "\<not> migration_event ev"
  shows "hs_frozen s' \<and> inventory s' = inventory s"
proof (cases ev)
  case (Touch a st)
  then have "state_key ((h_states (hs_hub s))[a := st] ! b) = state_key (h_states (hs_hub s) ! b)" for b
    using assms(3) by (cases "b = a") (auto split: if_splits)
  then show ?thesis using Touch assms(2,3) by (auto simp: inventory_def split: if_splits)
qed (use assms in \<open>auto simp: hub_inv_def split: if_splits option.splits\<close>)

text \<open>
  C30. The inventory of a migration is closed: from the moment the admin protocol freezes the
  hub until it ends the batch or removes a migrated session itself, no thread that starts,
  deletes, changes or closes sessions can add, remove or replace one.
\<close>

theorem frozen_inventory:
  assumes "New dir opts = Inr h" and "s = hub_run evs (hub_begin h)" and "hub_step Freeze s = Some s'"
    and "\<forall>ev \<in> set rest. \<not> migration_event ev"
  shows "inventory (hub_run rest s') = inventory s \<and> hs_frozen (hub_run rest s')"
proof -
  have "hub_inv s" using hub_inv_run [OF hub_inv_begin [OF assms(1)]] assms(2) by simp
  then have "hub_inv s'" by (rule hub_inv_step [OF _ assms(3)])
  moreover have "hs_frozen s'" "inventory s' = inventory s"
    using assms(3) by (auto simp: inventory_def split: if_splits)
  moreover have "inventory (hub_run rest u) = inventory u \<and> hs_frozen (hub_run rest u)"
    if "hub_inv u" "hs_frozen u" for u
    using that assms(4)
  proof (induction rest arbitrary: u)
    case (Cons ev rest)
    then show ?case
      using frozen_step [of u ev] hub_inv_step [of u ev] by (cases "hub_step ev u") auto
  qed simp
  ultimately show ?thesis by simp
qed

theorem frozen_inventory_witness:
  "inventory (hub_run [Reserve 1 None (demo_so ''s'')] ((hub_begin demo_hub)\<lparr>hs_frozen := True\<rparr>)) = Map.empty"
proof -
  have "hub_step Freeze (hub_begin demo_hub) = Some ((hub_begin demo_hub)\<lparr>hs_frozen := True\<rparr>)"
    by (simp add: hub_begin_def beginMigrationBatch_def demo_hub_def)
  from frozen_inventory [OF demo_hub_New, of "hub_begin demo_hub" "[]", OF _ this, of "[Reserve 1 None (demo_so ''s'')]"]
  show ?thesis by (simp add: inventory_def hub_begin_def demo_hub_def fun_eq_iff)
qed

section \<open>The listing\<close>

lemma table_inj:
  assumes "table_ok h" and "h_sessions h m = Some a" and "h_sessions h n = Some b"
    and "state_key (h_states h ! a) = state_key (h_states h ! b)"
  shows "m = n"
  using assms by (auto simp: table_ok_def state_key_def)

lemma listed_keys_distinct:
  assumes "table_ok h" and "distinct order" and "set order = ran (h_sessions h)"
  shows "distinct (map (\<lambda>a. state_key (h_states h ! a)) order)"
proof -
  have "inj_on (\<lambda>a. state_key (h_states h ! a)) (set order)"
    unfolding assms(3) using table_inj [OF assms(1)] by (fastforce simp: inj_on_def ran_def)
  then show ?thesis using assms(2) by (simp add: distinct_map)
qed

text \<open>
  Whatever threads did on the hub and in whatever order Go iterates over its table, the
  listing contains exactly the sessions of the table, each once, strictly ordered by creation
  time and then by name; two listings of the same table are the same.
\<close>

lemma list_exact:
  assumes "New dir opts = Inr h" and "s = hub_run evs (hub_begin h)"
    and "distinct order" and "set order = ran (h_sessions (hs_hub s))"
    and "distinct order'" and "set order' = ran (h_sessions (hs_hub s))"
  shows "sorted_wrt (\<lambda>x y. state_key x < state_key y) (sessionStates order (hs_hub s)) \<and>
    set (sessionStates order (hs_hub s)) = (\<lambda>a. h_states (hs_hub s) ! a) ` ran (h_sessions (hs_hub s)) \<and>
    sessionStates order' (hs_hub s) = sessionStates order (hs_hub s)"
proof -
  let ?f = "\<lambda>a. h_states (hs_hub s) ! a"
  have ok: "table_ok (hs_hub s)"
    using hub_inv_run [OF hub_inv_begin [OF assms(1)]] assms(2) by (simp add: hub_inv_def)
  note keys = listed_keys_distinct [OF ok]
  have "distinct (map state_key (sessionStates order (hs_hub s)))"
    using keys [OF assms(3,4)] by (auto simp: sessionStates_def distinct_map inj_on_def)
  then have "sorted_wrt (<) (map state_key (sessionStates order (hs_hub s)))"
    by (simp add: strict_sorted_iff sessionStates_def)
  moreover have "sessionStates order' (hs_hub s) = sessionStates order (hs_hub s)"
    unfolding sessionStates_def
  proof (rule sort_key_eq_sort_key)
    have "mset order' = mset order" using assms(3-6) by (metis set_eq_iff_mset_eq_distinct)
    then show "mset (map ?f order') = mset (map ?f order)" by simp
    show "inj_on state_key (set (map ?f order'))"
      using keys [OF assms(5,6)] by (auto simp: distinct_map inj_on_def)
  qed
  ultimately show ?thesis using assms(4) by (simp add: sorted_wrt_map sessionStates_def)
qed

definition demo_events :: "bytes hub_event list" where
  "demo_events = [Reserve 0 None (demo_so ''z''), Publish 0 (demo_state ''z'' 5),
     Reserve 0 None (demo_so ''a''), Publish 0 (demo_state ''a'' 5)]"

lemma hub_run_start:
  assumes "hs_starts s = Map.empty" "\<not> hs_frozen s" "validateName n = None" "\<not> h_closed (hs_hub s)"
    "h_pending (hs_hub s) = {}" "h_sessions (hs_hub s) n = None" "h_defaultSize (hs_hub s) = Size 120 36" "st_name st = n"
  shows "hub_run (Reserve 0 None (demo_so n) # Publish 0 st # evs) s =
    hub_run evs (s\<lparr>hs_hub := (hs_hub s)\<lparr>h_pending := {}, h_sessions := (h_sessions (hs_hub s))(n \<mapsto> length (h_states (hs_hub s))),
      h_states := h_states (hs_hub s) @ [st]\<rparr>, hs_starts := Map.empty\<rparr>)"
proof -
  obtain x where "start_reserve None (demo_so n) (hs_hub s) = (Inr x, (hs_hub s)\<lparr>h_pending := {n}\<rparr>)"
    using demo_reserve [OF assms(3), of "hs_hub s"] assms by auto
  moreover have "so_Name (demo_so n) = n" by (simp add: demo_so_def)
  ultimately show ?thesis using assms by (simp add: start_publish_def start_release_def Let_def)
qed

end
