(* ===== verification/Migration.thy ===== *)
theory Migration
  imports Errors Go_Strings
begin

text \<open>
  The handoff of one session to another server (\<^verbatim>\<open>process.go\<close>): the migration ticket, its
  life in \<^verbatim>\<open>beginMigration\<close> and \<^verbatim>\<open>finishMigration\<close>, the copy loop that observes it and the
  deferred settlement of \<^verbatim>\<open>copyOutput\<close>, as a step relation over the interleavings of the
  copy loop, the admin handler, the child, other users of the session and the next owner.
  Bytes are counted through: what the child wrote and is still in the PTY, what this server
  recorded, and what the next owner recorded.
\<close>

section \<open>Tickets\<close>

record migrationTicket =
  t_alive :: bool
  t_stable :: bool
  t_decide :: "bool option"
  t_stopped :: bool
  t_decided :: bool
  t_err :: "go_error option"

definition errMigrationBusy :: go_error where
  "errMigrationBusy = Sentinel ErrMigrationBusy"

definition errSessionStopped :: go_error where
  "errSessionStopped = Sentinel ErrSessionStopped"

definition errMigrationStale :: go_error where
  "errMigrationStale = Sentinel ErrMigrationStale"

definition newMigrationTicket :: "bool \<Rightarrow> migrationTicket" where
  "newMigrationTicket alive =
     \<lparr>t_alive = alive, t_stable = False, t_decide = None, t_stopped = False, t_decided = False, t_err = None\<rparr>"

definition markStable :: "go_error option \<Rightarrow> migrationTicket \<Rightarrow> migrationTicket" where
  "markStable err t = t\<lparr>t_err := (if t_err t = None then err else t_err t), t_stable := True\<rparr>"

definition ticket_choose :: "bool \<Rightarrow> migrationTicket \<Rightarrow> migrationTicket" where
  "ticket_choose commit t = (if t_decided t then t else t\<lparr>t_decided := True, t_decide := Some commit\<rparr>)"

definition markStopped :: "migrationTicket \<Rightarrow> migrationTicket" where
  "markStopped t = t\<lparr>t_stopped := True\<rparr>"

section \<open>The session under migration\<close>

text \<open>
  Where the copy loop stands: at the top of \<^verbatim>\<open>copyOutputLoop\<close>, in the poll, before the read that the poll announced, draining for a
  ticket, waiting for the decision on it (with the error of the drain), past the loop, in
  \<^verbatim>\<open>waitSessionCommand\<close> for the child, and in the deferred settlement of \<^verbatim>\<open>copyOutput\<close>.
\<close>

datatype copy_pc =
    AtTop
  | Polling
  | Ready
  | Draining nat
  | Deciding nat "go_error option"
  | Reaping
  | WaitChild
  | Settling
  | SettleStable nat
  | SettleChoose nat
  | SettleStopped nat
  | Closing
  | Gone

text \<open>
  Where the admin handler stands: idle, waiting for the ticket to be stable, prepared, and in
  \<^verbatim>\<open>finishMigration\<close> before the choice, before the wait for the loop and in that wait.
\<close>

datatype admin_pc =
    Idle
  | Waiting nat
  | Prepared nat
  | Finish nat bool
  | Choosing nat bool
  | Awaiting nat bool

text \<open>
  \<open>m_owned\<close> says that the child was started by this server (\<^verbatim>\<open>state.command\<close> is not nil, as it is
  for an adopted session) and \<open>m_exited\<close> that it has exited; processes it left behind may still
  write to the PTY then. \<open>m_failed\<close> says that the log could not store a chunk.
\<close>

record mstate =
  m_owned :: bool
  m_exited :: bool
  m_tickets :: "migrationTicket list"
  m_migration :: "nat option"
  m_gate :: bool
  m_wake :: nat
  m_migrated :: bool
  m_done :: bool
  m_master :: bool
  m_failed :: bool
  m_copy :: copy_pc
  m_admin :: admin_pc
  m_produced :: bytes
  m_pty :: bytes
  m_recorded :: bytes
  m_snapshot :: bytes
  m_handed :: bool
  m_passed :: bool
  m_received :: bytes

definition on_ticket :: "nat \<Rightarrow> (migrationTicket \<Rightarrow> migrationTicket) \<Rightarrow> mstate \<Rightarrow> mstate" where
  "on_ticket i f s = s\<lparr>m_tickets := (m_tickets s)[i := f (m_tickets s ! i)]\<rparr>"

text \<open>
  \<^verbatim>\<open>beginMigration\<close> once the gate \<^verbatim>\<open>operationMu\<close> is free: the ticket of a stopped session is
  settled from the start, the ticket of a running one wakes the copy loop.
\<close>

definition beginMigration :: "mstate \<Rightarrow> (go_error + nat) \<times> mstate" where
  "beginMigration s =
     (if m_migration s \<noteq> None then (Inl errMigrationBusy, s)
      else
        (let i = length (m_tickets s) in
         if m_done s then
           (Inr i, s\<lparr>m_tickets := m_tickets s @ [markStopped (markStable None (newMigrationTicket False))],
                    m_migration := Some i, m_gate := True\<rparr>)
         else
           (Inr i, s\<lparr>m_tickets := m_tickets s @ [newMigrationTicket True], m_migration := Some i,
                    m_gate := True, m_wake := m_wake s + 1\<rparr>)))"

text \<open>
  The end of \<^verbatim>\<open>finishMigration\<close>, after the copy loop has stopped for the ticket or is gone.
\<close>

definition endMigration :: "nat \<Rightarrow> bool \<Rightarrow> mstate \<Rightarrow> go_error option \<times> mstate" where
  "endMigration i commit s =
     (if m_migration s \<noteq> Some i then (Some errMigrationStale, s\<lparr>m_gate := False\<rparr>)
      else (t_err (m_tickets s ! i),
            s\<lparr>m_migration := None, m_gate := False, m_master := (m_master s \<and> \<not> commit)\<rparr>))"

text \<open>Whether the top of \<^verbatim>\<open>copyOutputLoop\<close> takes up a ticket.\<close>

definition observed :: "mstate \<Rightarrow> nat option" where
  "observed s = (case m_migration s of None \<Rightarrow> None
     | Some i \<Rightarrow> if t_alive (m_tickets s ! i) \<and> \<not> t_decided (m_tickets s ! i) then Some i else None)"

text \<open>
  What the deferred function of \<^verbatim>\<open>copyOutput\<close> does with the current ticket.
\<close>

definition unsettled :: "mstate \<Rightarrow> nat option" where
  "unsettled s = (case m_migration s of None \<Rightarrow> None
     | Some i \<Rightarrow> if \<not> t_decided (m_tickets s ! i) then Some i else None)"

definition record_bytes :: "bytes \<Rightarrow> bytes \<Rightarrow> mstate \<Rightarrow> mstate" where
  "record_bytes chunk rest s = s\<lparr>m_pty := rest, m_recorded := m_recorded s @ chunk\<rparr>"

section \<open>Steps\<close>

text \<open>
  \<open>Ends\<close> marks the steps with which the copy loop gives up: a failing poll or read (the child
  is gone) and a log that cannot store a chunk.
\<close>

datatype actor = Child | Copy | Ends | Admin | Users | Successor

text \<open>
  Past its loop \<^verbatim>\<open>copyOutput\<close> goes on at once when the session was handed over or the child is
  not its own; otherwise it waits until the child has exited. Only when the log has failed
  does it see to that itself, with a hang-up and then a kill (\<open>child_killed\<close>).
\<close>

inductive mstep :: "actor \<Rightarrow> mstate \<Rightarrow> mstate \<Rightarrow> bool" where
  child_writes: "mstep Child s (s\<lparr>m_produced := m_produced s @ bs, m_pty := m_pty s @ bs\<rparr>)"
| child_exits: "mstep Child s (s\<lparr>m_exited := True\<rparr>)"
| top_ticket: "m_copy s = AtTop \<Longrightarrow> observed s = Some i \<Longrightarrow> mstep Copy s (s\<lparr>m_copy := Draining i\<rparr>)"
| top_poll: "m_copy s = AtTop \<Longrightarrow> observed s = None \<Longrightarrow> mstep Copy s (s\<lparr>m_copy := Polling\<rparr>)"
| poll_woken: "m_copy s = Polling \<Longrightarrow> m_wake s > 0 \<Longrightarrow>
    mstep Copy s (s\<lparr>m_copy := AtTop, m_wake := m_wake s - 1\<rparr>)"
| poll_ready: "m_copy s = Polling \<Longrightarrow> m_wake s = 0 \<Longrightarrow> m_pty s \<noteq> [] \<Longrightarrow> mstep Copy s (s\<lparr>m_copy := Ready\<rparr>)"
| ready_read: "m_copy s = Ready \<Longrightarrow> m_pty s = chunk @ rest \<Longrightarrow> chunk \<noteq> [] \<Longrightarrow>
    mstep Copy s ((record_bytes chunk rest s)\<lparr>m_copy := AtTop\<rparr>)"
| ready_overtaken: "m_copy s = Ready \<Longrightarrow> m_pty s = [] \<Longrightarrow> mstep Copy s (s\<lparr>m_copy := AtTop\<rparr>)"
| poll_fails: "m_copy s = Polling \<or> m_copy s = Ready \<Longrightarrow> mstep Ends s (s\<lparr>m_copy := Reaping\<rparr>)"
| ready_last: "m_copy s = Ready \<Longrightarrow> m_pty s = chunk @ rest \<Longrightarrow>
    mstep Ends s ((record_bytes chunk rest s)\<lparr>m_copy := Reaping\<rparr>)"
| ready_unstored: "m_copy s = Ready \<Longrightarrow> m_pty s = chunk @ rest \<Longrightarrow> chunk \<noteq> [] \<Longrightarrow>
    mstep Ends s (s\<lparr>m_pty := rest, m_failed := True, m_copy := Reaping\<rparr>)"
| drain_read: "m_copy s = Draining i \<Longrightarrow> m_pty s = chunk @ rest \<Longrightarrow> chunk \<noteq> [] \<Longrightarrow>
    mstep Copy s (record_bytes chunk rest s)"
| drain_ends: "m_copy s = Draining i \<Longrightarrow>
    mstep Copy s ((on_ticket i (markStable None) s)\<lparr>m_copy := Deciding i None\<rparr>)"
| drain_fails: "m_copy s = Draining i \<Longrightarrow>
    mstep Ends s ((on_ticket i (markStable (Some e)) s)\<lparr>m_copy := Deciding i (Some e)\<rparr>)"
| drain_unstored: "m_copy s = Draining i \<Longrightarrow> m_pty s = chunk @ rest \<Longrightarrow> chunk \<noteq> [] \<Longrightarrow>
    mstep Ends s ((on_ticket i (markStable (Some e)) s)\<lparr>m_pty := rest, m_failed := True, m_copy := Deciding i (Some e)\<rparr>)"
| decide: "m_copy s = Deciding i err \<Longrightarrow> t_decide (m_tickets s ! i) = Some commit \<Longrightarrow>
    mstep Copy s ((on_ticket i (\<lambda>t. markStopped (t\<lparr>t_decide := None\<rparr>)) s)
      \<lparr>m_copy := (if err \<noteq> None \<or> commit then Reaping else AtTop)\<rparr>)"
| reap_none: "m_copy s = Reaping \<Longrightarrow> m_migrated s \<or> \<not> m_owned s \<Longrightarrow> mstep Copy s (s\<lparr>m_copy := Settling\<rparr>)"
| reap_waits: "m_copy s = Reaping \<Longrightarrow> \<not> m_migrated s \<Longrightarrow> m_owned s \<Longrightarrow> mstep Copy s (s\<lparr>m_copy := WaitChild\<rparr>)"
| child_killed: "m_copy s = WaitChild \<Longrightarrow> m_failed s \<Longrightarrow> mstep Copy s (s\<lparr>m_exited := True\<rparr>)"
| reaped: "m_copy s = WaitChild \<Longrightarrow> m_exited s \<Longrightarrow> mstep Copy s (s\<lparr>m_copy := Settling\<rparr>)"
| settle_none: "m_copy s = Settling \<Longrightarrow> unsettled s = None \<Longrightarrow> mstep Copy s (s\<lparr>m_copy := Closing\<rparr>)"
| settle_ticket: "m_copy s = Settling \<Longrightarrow> unsettled s = Some i \<Longrightarrow> mstep Copy s (s\<lparr>m_copy := SettleStable i\<rparr>)"
| settle_stable: "m_copy s = SettleStable i \<Longrightarrow>
    mstep Copy s ((on_ticket i (markStable (Some errSessionStopped)) s)\<lparr>m_copy := SettleChoose i\<rparr>)"
| settle_choose: "m_copy s = SettleChoose i \<Longrightarrow>
    mstep Copy s ((on_ticket i (ticket_choose False) s)\<lparr>m_copy := SettleStopped i\<rparr>)"
| settle_stopped: "m_copy s = SettleStopped i \<Longrightarrow>
    mstep Copy s ((on_ticket i markStopped s)\<lparr>m_copy := Closing\<rparr>)"
| copy_done: "m_copy s = Closing \<Longrightarrow>
    mstep Copy s (s\<lparr>m_done := True, m_master := (m_master s \<and> m_migrated s), m_copy := Gone\<rparr>)"
| admin_begins: "m_admin s = Idle \<Longrightarrow> \<not> m_handed s \<Longrightarrow> \<not> m_gate s \<Longrightarrow> beginMigration s = (Inr i, s') \<Longrightarrow>
    mstep Admin s (s'\<lparr>m_admin := Waiting i\<rparr>)"
| admin_stable: "m_admin s = Waiting i \<Longrightarrow> t_stable (m_tickets s ! i) \<Longrightarrow> t_err (m_tickets s ! i) = None \<Longrightarrow>
    mstep Admin s (s\<lparr>m_admin := Prepared i, m_snapshot := m_recorded s\<rparr>)"
| admin_unstable: "m_admin s = Waiting i \<Longrightarrow> t_stable (m_tickets s ! i) \<Longrightarrow> t_err (m_tickets s ! i) \<noteq> None \<Longrightarrow>
    mstep Admin s (s\<lparr>m_admin := Finish i False\<rparr>)"
| admin_timeout: "m_admin s = Waiting i \<Longrightarrow> mstep Admin s (s\<lparr>m_admin := Finish i False\<rparr>)"
| admin_snapshot: "m_admin s = Prepared i \<Longrightarrow> mstep Admin s (s\<lparr>m_snapshot := m_recorded s\<rparr>)"
| admin_abort: "m_admin s = Prepared i \<Longrightarrow> mstep Admin s (s\<lparr>m_admin := Finish i False\<rparr>)"
| admin_commit: "m_admin s = Prepared i \<Longrightarrow> t_err (m_tickets s ! i) = None \<Longrightarrow> m_migration s = Some i \<Longrightarrow>
    mstep Admin s (s\<lparr>m_admin := Finish i True\<rparr>)"
| finish_begins: "m_admin s = Finish i commit \<Longrightarrow> c = (commit \<and> t_err (m_tickets s ! i) = None) \<Longrightarrow>
    mstep Admin s (s\<lparr>m_migrated := (m_migrated s \<or> c), m_admin := Choosing i c\<rparr>)"
| finish_chooses: "m_admin s = Choosing i c \<Longrightarrow>
    mstep Admin s ((on_ticket i (ticket_choose c) s)\<lparr>m_admin := Awaiting i c\<rparr>)"
| finish_ends: "m_admin s = Awaiting i c \<Longrightarrow> t_stopped (m_tickets s ! i) \<or> m_done s \<Longrightarrow>
    endMigration i c s = (err, s') \<Longrightarrow>
    mstep Admin s (s'\<lparr>m_admin := Idle, m_handed := (m_handed s \<or> c \<and> err = None),
      m_passed := (m_passed s \<or> c \<and> err = None \<and> t_alive (m_tickets s ! i))\<rparr>)"
| resize_drains: "\<not> m_gate s \<Longrightarrow> m_pty s = chunk @ rest \<Longrightarrow> \<not> m_handed s \<Longrightarrow>
    mstep Users s (record_bytes chunk rest s)"
| successor_reads: "m_passed s \<Longrightarrow> m_pty s = chunk @ rest \<Longrightarrow>
    mstep Successor s (s\<lparr>m_pty := rest, m_received := m_received s @ chunk\<rparr>)"

inductive_cases mstepE: "mstep a s s'"

definition m_start :: mstate where
  "m_start = \<lparr>m_owned = True, m_exited = False, m_tickets = [], m_migration = None, m_gate = False, m_wake = 0, m_migrated = False,
     m_done = False, m_master = True, m_failed = False, m_copy = AtTop, m_admin = Idle,
     m_produced = [], m_pty = [], m_recorded = [], m_snapshot = [], m_handed = False,
     m_passed = False, m_received = []\<rparr>"

inductive reach :: "mstate \<Rightarrow> bool" where
  start: "reach m_start"
| start_adopted: "reach (m_start\<lparr>m_owned := False\<rparr>)"
| step: "reach s \<Longrightarrow> mstep a s s' \<Longrightarrow> reach s'"

section \<open>The invariant\<close>

fun past :: "copy_pc \<Rightarrow> bool" where
  "past Reaping = True"
| "past WaitChild = True"
| "past Settling = True"
| "past (SettleStable i) = True"
| "past (SettleChoose i) = True"
| "past (SettleStopped i) = True"
| "past Closing = True"
| "past Gone = True"
| "past pc = False"

abbreviation ticket :: "mstate \<Rightarrow> nat \<Rightarrow> migrationTicket" where
  "ticket s i \<equiv> m_tickets s ! i"

text \<open>The ticket that the admin handler works on.\<close>

definition held :: "mstate \<Rightarrow> nat \<Rightarrow> bool" where
  "held s i \<longleftrightarrow> m_migration s = Some i \<and> m_gate s \<and> i < length (m_tickets s) \<and> \<not> m_handed s \<and>
     (t_alive (ticket s i) \<or> m_copy s = Gone \<and> t_stopped (ticket s i) \<and> t_err (ticket s i) = None)"

text \<open>A prepared session: its copy loop is paused, and what was captured of it is all it recorded.\<close>

definition paused :: "mstate \<Rightarrow> nat \<Rightarrow> bool" where
  "paused s i \<longleftrightarrow> t_err (ticket s i) = None \<and> \<not> t_decided (ticket s i) \<and> m_snapshot s = m_recorded s \<and>
     (t_alive (ticket s i) \<longrightarrow> m_copy s = Deciding i None)"

definition committed :: "mstate \<Rightarrow> nat \<Rightarrow> bool" where
  "committed s i \<longleftrightarrow> t_err (ticket s i) = None \<and> m_snapshot s = m_recorded s \<and>
     (t_alive (ticket s i) \<longrightarrow>
        m_copy s = Deciding i None \<and> t_decide (ticket s i) = Some True \<or> past (m_copy s) \<and> t_stopped (ticket s i))"

fun admin_inv :: "admin_pc \<Rightarrow> mstate \<Rightarrow> bool" where
  "admin_inv Idle s \<longleftrightarrow> m_migration s = None \<and> \<not> m_gate s"
| "admin_inv (Waiting i) s \<longleftrightarrow> held s i"
| "admin_inv (Prepared i) s \<longleftrightarrow> held s i \<and> paused s i"
| "admin_inv (Finish i c) s \<longleftrightarrow> held s i \<and> (c \<longrightarrow> paused s i)"
| "admin_inv (Choosing i c) s \<longleftrightarrow> held s i \<and> (c \<longrightarrow> paused s i)"
| "admin_inv (Awaiting i c) s \<longleftrightarrow> held s i \<and> t_decided (ticket s i) \<and> (c \<longrightarrow> committed s i)"

text \<open>The ticket that the copy loop works on stays the current one.\<close>

definition mine :: "mstate \<Rightarrow> nat \<Rightarrow> bool" where
  "mine s i \<longleftrightarrow> m_migration s = Some i \<and> t_alive (ticket s i) \<and> \<not> t_stopped (ticket s i)"

definition answerable :: "mstate \<Rightarrow> nat \<Rightarrow> bool" where
  "answerable s i \<longleftrightarrow> (t_decided (ticket s i) \<longleftrightarrow> t_decide (ticket s i) \<noteq> None)"

fun copy_inv :: "copy_pc \<Rightarrow> mstate \<Rightarrow> bool" where
  "copy_inv (Draining i) s \<longleftrightarrow> mine s i \<and> answerable s i \<and> t_err (ticket s i) = None"
| "copy_inv (Deciding i err) s \<longleftrightarrow> mine s i \<and> answerable s i \<and> t_err (ticket s i) = err \<and> t_stable (ticket s i)"
| "copy_inv (SettleStable i) s \<longleftrightarrow> mine s i"
| "copy_inv (SettleChoose i) s \<longleftrightarrow> mine s i \<and> t_err (ticket s i) \<noteq> None"
| "copy_inv (SettleStopped i) s \<longleftrightarrow> mine s i \<and> t_err (ticket s i) \<noteq> None"
| "copy_inv WaitChild s \<longleftrightarrow> m_owned s"
| "copy_inv pc s \<longleftrightarrow> True"

definition ticket_ok :: "mstate \<Rightarrow> nat \<Rightarrow> bool" where
  "ticket_ok s i \<longleftrightarrow>
     (t_alive (ticket s i) \<and> (t_stable (ticket s i) \<or> t_err (ticket s i) \<noteq> None) \<and> \<not> t_decided (ticket s i) \<longrightarrow>
        m_copy s = Deciding i (t_err (ticket s i)) \<or> m_copy s = SettleChoose i) \<and>
     (t_decided (ticket s i) \<and> t_err (ticket s i) = None \<longrightarrow> (\<exists>c. m_admin s = Awaiting i c)) \<and>
     (t_alive (ticket s i) \<and> t_stopped (ticket s i) \<longrightarrow> t_decided (ticket s i)) \<and>
     (t_decide (ticket s i) \<noteq> None \<longrightarrow> t_decided (ticket s i)) \<and>
     (t_err (ticket s i) \<noteq> None \<longrightarrow> t_stable (ticket s i))"

definition ticket_inv :: "mstate \<Rightarrow> bool" where
  "ticket_inv s \<longleftrightarrow> (case m_migration s of None \<Rightarrow> True | Some i \<Rightarrow> ticket_ok s i)"

definition flow_inv :: "mstate \<Rightarrow> bool" where
  "flow_inv s \<longleftrightarrow>
     (m_done s \<longleftrightarrow> m_copy s = Gone) \<and>
     (m_handed s \<longrightarrow> past (m_copy s) \<and> m_snapshot s = m_recorded s \<and> m_admin s = Idle) \<and>
     (m_passed s \<longrightarrow> m_handed s) \<and> (\<not> m_handed s \<longrightarrow> m_received s = []) \<and>
     (\<not> m_failed s \<longrightarrow> m_produced s = m_recorded s @ m_received s @ m_pty s)"

definition minv :: "mstate \<Rightarrow> bool" where
  "minv s \<longleftrightarrow> admin_inv (m_admin s) s \<and> copy_inv (m_copy s) s \<and> ticket_inv s \<and> flow_inv s"

lemmas pc_defs = held_def paused_def committed_def mine_def answerable_def
lemmas code_defs = on_ticket_def record_bytes_def markStable_def ticket_choose_def markStopped_def newMigrationTicket_def
  beginMigration_def endMigration_def Let_def

lemma observed_Some [simp]:
  "observed s = Some i \<longleftrightarrow> m_migration s = Some i \<and> t_alive (ticket s i) \<and> \<not> t_decided (ticket s i)"
  by (auto simp: observed_def split: option.splits)

lemma unsettled_Some [simp]:
  "unsettled s = Some i \<longleftrightarrow> m_migration s = Some i \<and> \<not> t_decided (ticket s i)"
  by (auto simp: unsettled_def split: option.splits)

lemma minvD:
  assumes "minv s"
  shows "admin_inv (m_admin s) s" "copy_inv (m_copy s) s" "ticket_inv s" "flow_inv s"
  using assms by (simp_all add: minv_def)

lemma admin_inv_others:
  assumes step: "mstep a s s'" and "a \<noteq> Admin" and inv: "minv s"
  shows "admin_inv (m_admin s') s'"
proof -
  note invs = minvD(1,2) [OF inv]
  have same: "m_admin s' = m_admin s" using step assms(2) by (cases rule: mstep.cases) (auto simp: code_defs)
  show ?thesis
  proof (cases "m_admin s")
    case Idle
    with step assms(2) invs show ?thesis by (cases rule: mstep.cases) (auto simp: code_defs)
  next
    case (Waiting i)
    with step assms(2) invs show ?thesis by (cases rule: mstep.cases) (auto simp: pc_defs code_defs)
  next
    case (Prepared i)
    with step assms(2) invs show ?thesis by (cases rule: mstep.cases) (auto simp: pc_defs code_defs)
  next
    case (Finish i c)
    with step assms(2) invs show ?thesis by (cases rule: mstep.cases) (auto simp: pc_defs code_defs)
  next
    case (Choosing i c)
    with step assms(2) invs show ?thesis by (cases rule: mstep.cases) (auto simp: pc_defs code_defs)
  next
    case (Awaiting i c)
    with step assms(2) invs show ?thesis by (cases rule: mstep.cases) (auto simp: pc_defs code_defs)
  qed
qed

lemma admin_inv_own:
  assumes "mstep Admin s s'" and "minv s"
  shows "admin_inv (m_admin s') s'"
  using assms(1) minvD [OF assms(2)]
  by (cases rule: mstep.cases)
    (auto simp: pc_defs code_defs flow_inv_def ticket_inv_def ticket_ok_def split: if_splits)

lemma copy_inv_keep:
  assumes "copy_inv pc s" and "m_tickets s' = m_tickets s" and "m_migration s' = m_migration s"
    and "m_owned s' = m_owned s"
  shows "copy_inv pc s'"
  using assms by (cases pc) (simp_all add: pc_defs)

lemma copy_inv_not_mine:
  assumes "copy_inv pc s" and "\<And>i. \<not> mine s i" and "m_owned s' = m_owned s"
  shows "copy_inv pc s'"
  using assms by (cases pc) auto

lemma copy_inv_chosen: "copy_inv pc s \<Longrightarrow> m_migration s = Some i \<Longrightarrow> i < length (m_tickets s) \<Longrightarrow>
    copy_inv pc (on_ticket i (ticket_choose c) s)"
  by (cases pc) (auto simp: pc_defs on_ticket_def ticket_choose_def)

lemma copy_inv_others:
  assumes step: "mstep a s s'" and "a \<noteq> Copy" and "a \<noteq> Ends" and inv: "minv s"
  shows "copy_inv (m_copy s') s'"
  using step assms(2,3)
proof (cases rule: mstep.cases)
  case (admin_begins i s1)
  then have "\<not> mine s j" for j using minvD(1) [OF inv] by (simp add: mine_def)
  with admin_begins minvD(2) [OF inv] show ?thesis
    by (auto simp: code_defs split: if_splits intro: copy_inv_not_mine)
next
  case (finish_chooses i c)
  then have "copy_inv (m_copy s) (on_ticket i (ticket_choose c) s)"
    using minvD(1,2) [OF inv] by (intro copy_inv_chosen) (simp_all add: held_def)
  then show ?thesis
    using finish_chooses by (auto simp: on_ticket_def intro: copy_inv_keep)
next
  case (finish_ends i c err s1)
  then have "\<not> mine s j \<or> past (m_copy s) \<and> m_done s" for j
    using minvD(1,4) [OF inv] by (auto simp: pc_defs flow_inv_def)
  with finish_ends minvD(2,4) [OF inv] show ?thesis
    by (auto simp: code_defs flow_inv_def split: if_splits intro: copy_inv_not_mine)
qed (auto simp: code_defs intro!: copy_inv_keep [OF minvD(2) [OF inv]])

lemma held_alive: "held s i \<Longrightarrow> m_copy s \<noteq> Gone \<Longrightarrow> t_alive (ticket s i)"
  by (simp add: held_def)

lemma minv_current:
  assumes "minv s" and "m_migration s = Some i"
  shows "held s i" and "ticket_ok s i"
  using minvD(1,3) [OF assms(1)] assms(2) by (cases "m_admin s"; auto simp: ticket_inv_def held_def)+

lemma copy_inv_own:
  assumes step: "mstep a s s'" and "a = Copy \<or> a = Ends" and inv: "minv s"
  shows "copy_inv (m_copy s') s'"
  using step assms(2) minvD(2) [OF inv]
proof (cases rule: mstep.cases)
  case (top_ticket i)
  with minv_current [OF inv, of i] show ?thesis by (auto simp: pc_defs ticket_ok_def)
next
  case (settle_ticket i)
  with minv_current [OF inv, of i] show ?thesis by (auto simp: pc_defs ticket_ok_def)
qed (auto simp: pc_defs code_defs dest: minv_current(1) [OF inv])

lemma ticket_ok_step:
  assumes step: "mstep a s s'" and inv: "minv s" and cur: "m_migration s = Some i" "m_migration s' = Some i"
  shows "ticket_ok s' i"
proof -
  have ok: "ticket_ok s i" and lt: "i < length (m_tickets s)"
    using minv_current [OF inv cur(1)] by (simp_all add: held_def)
  note copy = minvD(2) [OF inv] and adm = minvD(1) [OF inv]
  from step show ?thesis
  proof (cases rule: mstep.cases)
    case (drain_ends j)
    with ok lt copy cur show ?thesis by (auto simp: ticket_ok_def mine_def code_defs)
  next
    case (drain_fails j e)
    with ok lt copy cur show ?thesis by (auto simp: ticket_ok_def mine_def code_defs)
  next
    case (drain_unstored j chunk rest e)
    with ok lt copy cur show ?thesis by (auto simp: ticket_ok_def mine_def code_defs)
  next
    case (decide j err commit)
    from copy decide(3) cur(1) have j: "j = i" by (simp add: mine_def)
    have "t_decided (ticket s i)" using ok decide(4) j by (simp add: ticket_ok_def)
    with j ok lt decide(2) show ?thesis by (simp add: ticket_ok_def on_ticket_def markStopped_def)
  next
    case (settle_stable j)
    with ok lt copy cur show ?thesis by (auto simp: ticket_ok_def mine_def code_defs)
  next
    case (settle_choose j)
    from copy settle_choose(3) cur(1) have j: "j = i" "t_err (ticket s i) \<noteq> None" by (simp_all add: mine_def)
    moreover have "t_stable (ticket s i)" using j ok by (simp add: ticket_ok_def)
    ultimately show ?thesis using lt settle_choose(2) by (auto simp: ticket_ok_def code_defs)
  next
    case (settle_stopped j)
    from copy settle_stopped(3) cur(1) have j: "j = i" "t_err (ticket s i) \<noteq> None" by (simp_all add: mine_def)
    with ok settle_stopped(3) have "t_decided (ticket s i) \<or> \<not> t_alive (ticket s i)" by (auto simp: ticket_ok_def)
    then show ?thesis using j ok lt settle_stopped(2) by (auto simp: ticket_ok_def on_ticket_def markStopped_def)
  next
    case (admin_begins j s1)
    with adm cur show ?thesis by simp
  next
    case (finish_chooses j c)
    from adm finish_chooses(3) cur(1) have j: "j = i" by (simp add: held_def)
    then show ?thesis using ok lt finish_chooses(2) by (simp add: ticket_ok_def code_defs)
  next
    case (finish_ends j c err s1)
    with adm cur show ?thesis by (auto simp: held_def endMigration_def)
  qed (use ok in \<open>auto simp: ticket_ok_def code_defs\<close>)
qed

lemma ticket_inv_step:
  assumes step: "mstep a s s'" and inv: "minv s"
  shows "ticket_inv s'"
proof (cases "m_migration s'")
  case (Some i)
  have "m_migration s = Some i \<or> ticket_ok s' i"
    using step Some by (cases rule: mstep.cases) (auto simp: code_defs ticket_ok_def split: if_splits)
  with ticket_ok_step [OF step inv _ Some] Some show ?thesis by (auto simp: ticket_inv_def)
qed (simp add: ticket_inv_def)

lemma flow_inv_step:
  assumes step: "mstep a s s'" and inv: "minv s"
  shows "flow_inv s'"
  using step minvD(4) [OF inv]
proof (cases rule: mstep.cases)
  case (finish_ends i c err s1)
  then have "c \<Longrightarrow> past (m_copy s) \<and> m_snapshot s = m_recorded s" "m_migration s = Some i" "\<not> m_handed s"
    using minvD(1,2,4) [OF inv] by (auto simp: pc_defs flow_inv_def)
  with finish_ends minvD(4) [OF inv] show ?thesis by (auto simp: code_defs flow_inv_def)
next
  case (admin_stable i)
  with minvD(1,4) [OF inv] show ?thesis by (auto simp: flow_inv_def pc_defs)
next
  case (admin_snapshot i)
  with minvD(1,4) [OF inv] show ?thesis by (auto simp: flow_inv_def pc_defs)
next
  case (decide i err commit)
  with minvD(1,2,4) [OF inv] minv_current(1) [OF inv, of i] show ?thesis by (auto simp: flow_inv_def pc_defs code_defs)
qed (auto simp: flow_inv_def code_defs split: if_splits)

lemma minv_step: "mstep a s s' \<Longrightarrow> minv s \<Longrightarrow> minv s'"
  unfolding minv_def [of s']
  using admin_inv_others admin_inv_own copy_inv_others copy_inv_own ticket_inv_step flow_inv_step by blast

lemma reach_minv: "reach s \<Longrightarrow> minv s"
proof (induction rule: reach.induct)
  case (step s a s')
  then show ?case using minv_step by blast
qed (simp_all add: minv_def m_start_def ticket_inv_def flow_inv_def)

end
