(* ===== verification/Migration_Facts.thy ===== *)
theory Migration_Facts
  imports Migration
begin

text \<open>
  What the handoff protocol of a session guarantees: no byte of the child is lost or
  recorded twice, a commit that passed its preflight completes, a ticket wakes the copy loop;
  and one thing that it does not guarantee: that an abort after a timeout completes.
\<close>

section \<open>Handed over exactly\<close>

text \<open>
  C3. Ownership moves without losing or repeating a byte. In every reachable state the bytes
  that the child has written are, in order, those this server recorded, those the next owner
  recorded, and those still waiting in the PTY, as long as the log could store what was read.
  Once a session is handed over, the snapshot that was sent for it covers exactly what this
  server recorded, and whatever any thread does from then on, this server records nothing more.
\<close>

theorem handoff_exact:
  assumes "reach s"
  shows "(\<not> m_failed s \<longrightarrow> m_produced s = m_recorded s @ m_received s @ m_pty s) \<and>
    (m_handed s \<longrightarrow> m_snapshot s = m_recorded s \<and>
       (\<forall>a s'. mstep a s s' \<longrightarrow> m_recorded s' = m_recorded s \<and> m_handed s'))"
proof -
  note flow = minvD(4) [OF reach_minv [OF assms]]
  have "m_recorded s' = m_recorded s \<and> m_handed s'" if "m_handed s" "mstep a s s'" for a s'
    using that(2,1) flow by (cases rule: mstep.cases) (auto simp: flow_inv_def code_defs split: if_splits)
  with flow show ?thesis by (auto simp: flow_inv_def)
qed

text \<open>A child writes two bytes, one is read, the session is handed over, and the next owner reads on.\<close>

definition demo_handed :: mstate where
  "demo_handed = m_start\<lparr>m_tickets := [\<lparr>t_alive = True, t_stable = True, t_decide = None, t_stopped = True,
      t_decided = True, t_err = None\<rparr>], m_wake := 1, m_migrated := True, m_copy := Reaping, m_master := False,
    m_produced := ''abc'', m_recorded := ''ab'', m_snapshot := ''ab'', m_handed := True, m_passed := True,
    m_received := ''c''\<rparr>"

definition demo_waiting :: mstate where
  "demo_waiting = m_start\<lparr>m_tickets := [newMigrationTicket True], m_migration := Some 0, m_gate := True, m_wake := 1,
     m_produced := ''ab'', m_pty := ''b'', m_recorded := ''a'', m_admin := Waiting 0\<rparr>"

lemma reach_waiting: "reach demo_waiting"
proof -
  let ?s1 = "m_start\<lparr>m_produced := ''ab'', m_pty := ''ab''\<rparr>"
  have "mstep Child m_start ?s1" using child_writes [of m_start "''ab''"] by (simp add: m_start_def)
  note r1 = reach.step [OF reach.start this]
  have "mstep Copy ?s1 (?s1\<lparr>m_copy := Polling\<rparr>)"
    by (rule top_poll) (simp_all add: m_start_def observed_def)
  note r2 = reach.step [OF r1 this]
  have "mstep Copy (?s1\<lparr>m_copy := Polling\<rparr>) (?s1\<lparr>m_copy := Ready\<rparr>)"
    using poll_ready [of "?s1\<lparr>m_copy := Polling\<rparr>"] by (simp add: m_start_def)
  note r3 = reach.step [OF r2 this]
  let ?s4 = "m_start\<lparr>m_produced := ''ab'', m_pty := ''b'', m_recorded := ''a''\<rparr>"
  have "mstep Copy (?s1\<lparr>m_copy := Ready\<rparr>) ?s4"
    using ready_read [of "?s1\<lparr>m_copy := Ready\<rparr>" "''a''" "''b''"] by (simp add: m_start_def record_bytes_def)
  note r4 = reach.step [OF r3 this]
  have "mstep Admin ?s4 demo_waiting"
    using admin_begins [of ?s4 0] by (simp add: beginMigration_def m_start_def demo_waiting_def)
  from reach.step [OF r4 this] show ?thesis .
qed

definition demo_prepared :: mstate where
  "demo_prepared = demo_waiting\<lparr>m_tickets := [markStable None (newMigrationTicket True)], m_pty := [],
     m_recorded := ''ab'', m_snapshot := ''ab'', m_copy := Deciding 0 None, m_admin := Prepared 0\<rparr>"

lemmas demo_defs = demo_waiting_def demo_prepared_def demo_handed_def m_start_def code_defs

lemma reach_prepared: "reach demo_prepared"
proof -
  let ?s1 = "demo_waiting\<lparr>m_copy := Draining 0\<rparr>"
  have "mstep Copy demo_waiting ?s1" by (rule top_ticket) (simp_all add: demo_defs)
  note r1 = reach.step [OF reach_waiting this]
  let ?s2 = "?s1\<lparr>m_pty := [], m_recorded := ''ab''\<rparr>"
  have "mstep Copy ?s1 ?s2" using drain_read [of ?s1 0 "''b''" "[]"] by (simp add: demo_defs)
  note r2 = reach.step [OF r1 this]
  let ?s3 = "?s2\<lparr>m_tickets := [markStable None (newMigrationTicket True)], m_copy := Deciding 0 None\<rparr>"
  have "mstep Copy ?s2 ?s3" using drain_ends [of ?s2 0] by (simp add: demo_defs)
  note r3 = reach.step [OF r2 this]
  have "mstep Admin ?s3 demo_prepared" using admin_stable [of ?s3 0] by (simp add: demo_defs)
  from reach.step [OF r3 this] show ?thesis .
qed

definition demo_awaiting :: mstate where
  "demo_awaiting = demo_prepared\<lparr>m_tickets := [ticket_choose True (markStable None (newMigrationTicket True))],
     m_migrated := True, m_admin := Awaiting 0 True\<rparr>"

lemma reach_awaiting: "reach demo_awaiting"
proof -
  let ?s1 = "demo_prepared\<lparr>m_admin := Finish 0 True\<rparr>"
  have "mstep Admin demo_prepared ?s1" by (rule admin_commit) (simp_all add: demo_defs)
  note r1 = reach.step [OF reach_prepared this]
  let ?s2 = "demo_prepared\<lparr>m_migrated := True, m_admin := Choosing 0 True\<rparr>"
  have "mstep Admin ?s1 ?s2" using finish_begins [of ?s1 0 True True] by (simp add: demo_defs)
  note r2 = reach.step [OF r1 this]
  have "mstep Admin ?s2 demo_awaiting" using finish_chooses [of ?s2 0 True] by (simp add: demo_awaiting_def demo_defs)
  from reach.step [OF r2 this] show ?thesis .
qed

lemma reach_handed: "reach demo_handed"
proof -
  let ?t = "\<lparr>t_alive = True, t_stable = True, t_decide = None, t_stopped = True, t_decided = True, t_err = None\<rparr>"
  let ?s1 = "demo_awaiting\<lparr>m_tickets := [?t], m_copy := Reaping\<rparr>"
  have "mstep Copy demo_awaiting ?s1"
    using decide [of demo_awaiting 0 None True] by (simp add: demo_awaiting_def demo_defs)
  note r1 = reach.step [OF reach_awaiting this]
  let ?s2 = "?s1\<lparr>m_migration := None, m_gate := False, m_master := False, m_admin := Idle, m_handed := True, m_passed := True\<rparr>"
  have "mstep Admin ?s1 ?s2" using finish_ends [of ?s1 0 True] by (simp add: demo_awaiting_def demo_defs)
  note r2 = reach.step [OF r1 this]
  let ?s3 = "?s2\<lparr>m_produced := ''abc'', m_pty := ''c''\<rparr>"
  have "mstep Child ?s2 ?s3" using child_writes [of ?s2 "''c''"] by (simp add: demo_awaiting_def demo_defs)
  note r3 = reach.step [OF r2 this]
  have "mstep Successor ?s3 demo_handed"
    using successor_reads [of ?s3 "''c''" "[]"] by (simp add: demo_awaiting_def demo_defs)
  from reach.step [OF r3 this] show ?thesis .
qed

theorem handoff_exact_witness:
  "m_produced demo_handed = m_recorded demo_handed @ m_received demo_handed @ m_pty demo_handed \<and>
   m_snapshot demo_handed = m_recorded demo_handed \<and> m_received demo_handed = ''c''"
  using handoff_exact [OF reach_handed] by (simp add: demo_defs)

section \<open>Progress\<close>

text \<open>
  C8. A commit completes. When the admin handler has prepared a session, its preflight finds
  the ticket current and without error: the copy loop marked the ticket stable without an
  error and stands still until the decision, so not even the exit of the child, which the
  comment on the preflight expects to make the ticket unstable, can change that. When it waits for the copy loop after it chose to
  commit, the loop has stopped or takes the decision with its next step, and then the handler
  finishes: the session is handed over without an error and the gate is released. No step of
  any other thread, nor the end of the child, takes the handler out of this position.
\<close>

theorem commit_completes:
  assumes "reach s"
  shows "(m_admin s = Prepared i \<longrightarrow> t_err (ticket s i) = None \<and> m_migration s = Some i) \<and>
    (m_admin s = Awaiting i True \<longrightarrow>
       (\<exists>s1 s2. (s1 = s \<or> mstep Copy s s1) \<and> mstep Admin s1 s2 \<and>
          m_admin s2 = Idle \<and> m_handed s2 \<and> \<not> m_gate s2) \<and>
       (\<forall>a s'. mstep a s s' \<longrightarrow> m_admin s' = Awaiting i True \<or> a = Admin \<and> m_handed s'))"
proof (intro conjI impI allI)
  note inv = reach_minv [OF assms]
  show "t_err (ticket s i) = None" "m_migration s = Some i" if "m_admin s = Prepared i"
    using minvD(1) [OF inv] that by (simp_all add: pc_defs)
  assume adm: "m_admin s = Awaiting i True"
  then have com: "held s i" "committed s i" using minvD(1) [OF inv] by simp_all
  have finished: "\<exists>s2. mstep Admin u s2 \<and> m_admin s2 = Idle \<and> m_handed s2 \<and> \<not> m_gate s2"
    if "m_admin u = Awaiting i True" "held u i" "t_err (ticket u i) = None" "t_stopped (ticket u i)" for u
    using that finish_ends [of u i True, OF _ _ surjective_pairing]
    by (fastforce simp: endMigration_def held_def)
  show "\<exists>s1 s2. (s1 = s \<or> mstep Copy s s1) \<and> mstep Admin s1 s2 \<and> m_admin s2 = Idle \<and> m_handed s2 \<and> \<not> m_gate s2"
  proof (cases "t_stopped (ticket s i)")
    case True
    with finished [OF adm] com show ?thesis by (auto simp: committed_def)
  next
    case False
    then have at: "m_copy s = Deciding i None" "t_decide (ticket s i) = Some True"
      using com by (auto simp: pc_defs)
    let ?u = "(on_ticket i (\<lambda>t. markStopped (t\<lparr>t_decide := None\<rparr>)) s)\<lparr>m_copy := Reaping\<rparr>"
    have "mstep Copy s ?u" using decide [OF at] by simp
    moreover have "\<exists>s2. mstep Admin ?u s2 \<and> m_admin s2 = Idle \<and> m_handed s2 \<and> \<not> m_gate s2"
      using adm com at by (intro finished) (auto simp: pc_defs on_ticket_def markStopped_def)
    ultimately show ?thesis by blast
  qed
  fix a s'
  assume "mstep a s s'"
  then show "m_admin s' = Awaiting i True \<or> a = Admin \<and> m_handed s'"
    using adm com by (cases rule: mstep.cases) (auto simp: code_defs pc_defs split: if_splits)
qed

theorem commit_completes_witness:
  "\<exists>s1 s2. (s1 = demo_awaiting \<or> mstep Copy demo_awaiting s1) \<and> mstep Admin s1 s2 \<and> m_handed s2"
proof -
  have "m_admin demo_awaiting = Awaiting 0 True" by (simp add: demo_awaiting_def)
  with commit_completes [OF reach_awaiting, of 0] show ?thesis by blast
qed

text \<open>A pending ticket has left a byte in the wake pipe.\<close>

definition wake_inv :: "mstate \<Rightarrow> bool" where
  "wake_inv s \<longleftrightarrow> (m_copy s = Polling \<longrightarrow> (\<forall>i. m_migration s = Some i \<and> t_alive (ticket s i) \<and>
     \<not> t_decided (ticket s i) \<longrightarrow> m_wake s > 0))"

lemma observed_None:
  "observed s = None \<longleftrightarrow> (\<forall>i. m_migration s = Some i \<longrightarrow> t_alive (ticket s i) \<longrightarrow> t_decided (ticket s i))"
  by (auto simp: observed_def split: option.splits)

lemma wake_inv_step:
  assumes step: "mstep a s s'" and wake: "wake_inv s" and inv: "minv s"
  shows "wake_inv s'"
  using step wake
proof (cases rule: mstep.cases)
  case (finish_chooses i c)
  with wake minvD(1) [OF inv] show ?thesis by (auto simp: wake_inv_def on_ticket_def ticket_choose_def held_def split: if_splits)
next
  case (admin_begins i s1)
  with wake show ?thesis by (auto simp: wake_inv_def code_defs split: if_splits)
next
  case (finish_ends i c err s1)
  with wake show ?thesis by (auto simp: wake_inv_def endMigration_def split: if_splits)
next
  case top_poll
  then show ?thesis by (auto simp: wake_inv_def observed_None)
qed (auto simp: wake_inv_def record_bytes_def on_ticket_def split: if_splits)

lemma reach_wake: "reach s \<Longrightarrow> wake_inv s"
proof (induction rule: reach.induct)
  case (step s a s')
  with wake_inv_step reach_minv show ?case by blast
qed (simp_all add: wake_inv_def m_start_def)

definition settles :: "nat \<Rightarrow> mstate \<Rightarrow> bool" where
  "settles i s \<longleftrightarrow> (\<exists>s'. rtranclp (mstep Copy) s s' \<and> (t_stable (ticket s' i) \<or> m_done s'))"

lemma settles_step: "mstep Copy s s' \<Longrightarrow> settles i s' \<Longrightarrow> settles i s"
  unfolding settles_def by (blast intro: converse_rtranclp_into_rtranclp)

lemma settles_now: "t_stable (ticket s i) \<or> m_done s \<Longrightarrow> settles i s"
  unfolding settles_def by blast

lemma settles_draining: "m_copy s = Draining i \<Longrightarrow> i < length (m_tickets s) \<Longrightarrow> settles i s"
  by (rule settles_step [OF drain_ends]) (auto intro: settles_now simp: on_ticket_def markStable_def)

lemma settles_top:
  "m_copy s = AtTop \<Longrightarrow> observed s = Some i \<Longrightarrow> i < length (m_tickets s) \<Longrightarrow> settles i s"
  by (rule settles_step [OF top_ticket]) (auto intro: settles_draining)

lemma settles_ready:
  assumes "m_copy s = Ready" and "observed s = Some i" and "i < length (m_tickets s)"
  shows "settles i s"
proof (cases "m_pty s = []")
  case True
  then show ?thesis using assms settles_step [OF ready_overtaken settles_top] by simp
next
  case False
  then show ?thesis
    using assms settles_step [OF ready_read [of s "m_pty s" "[]"] settles_top] by (simp add: record_bytes_def)
qed

lemma settles_settling:
  assumes "m_copy s = Settling" and "observed s = Some i" and "i < length (m_tickets s)"
  shows "settles i s"
proof -
  have "settles i (s\<lparr>m_copy := SettleStable i\<rparr>)"
    using assms(3) settles_step [OF settle_stable settles_now] by (simp add: on_ticket_def markStable_def)
  then show ?thesis using assms settles_step [OF settle_ticket [of s i]] by simp
qed

lemma settles_exited:
  assumes "m_copy s = WaitChild" and "m_exited s" and "observed s = Some i" and "i < length (m_tickets s)"
  shows "settles i s"
proof -
  have "settles i (s\<lparr>m_copy := Settling\<rparr>)"
    using assms by (intro settles_settling) simp_all
  then show ?thesis using settles_step [OF reaped [OF assms(1,2)]] by blast
qed

lemma settles_failed:
  assumes "m_copy s = WaitChild" and "m_failed s" and "observed s = Some i" and "i < length (m_tickets s)"
  shows "settles i s"
proof -
  have "settles i (s\<lparr>m_exited := True\<rparr>)"
    using assms by (intro settles_exited) simp_all
  then show ?thesis using settles_step [OF child_killed [OF assms(1,2)]] by blast
qed

lemma settles_reaping:
  assumes "m_copy s = Reaping" and "m_owned s \<longrightarrow> m_exited s \<or> m_failed s" and "observed s = Some i"
    and "i < length (m_tickets s)"
  shows "settles i s"
proof (cases "m_migrated s \<or> \<not> m_owned s")
  case True
  have "settles i (s\<lparr>m_copy := Settling\<rparr>)"
    using assms by (intro settles_settling) simp_all
  then show ?thesis using settles_step [OF reap_none [OF assms(1) True]] by blast
next
  case False
  then have "settles i (s\<lparr>m_copy := WaitChild\<rparr>)"
    using assms settles_exited [of "s\<lparr>m_copy := WaitChild\<rparr>" i] settles_failed [of "s\<lparr>m_copy := WaitChild\<rparr>" i]
    by auto
  then show ?thesis using settles_step [OF reap_waits [of s]] assms(1) False by simp
qed

text \<open>The copy loop is over and waits for a child of this server that has not exited.\<close>

definition awaits_child :: "mstate \<Rightarrow> bool" where
  "awaits_child s \<longleftrightarrow> m_copy s \<in> {Reaping, WaitChild} \<and> m_owned s \<and> \<not> m_exited s \<and> \<not> m_failed s"

text \<open>
  C31. A ticket is noticed. While the admin handler waits for a session to become stable, the
  copy loop can always go on by itself to the point where the ticket is marked stable or the
  session is done: the wake pipe ends its poll, a drain that is under way ends, and when the
  loop is already over, its deferred settlement answers the ticket. There is one position in
  which it cannot: its PTY has ended but the child it started has not exited, and it waits
  for that in \<^verbatim>\<open>command.Wait\<close>. Then it can go on, to the same point, once the child exits.
\<close>

theorem ticket_noticed:
  assumes "reach s" and "m_admin s = Waiting i"
  shows "settles i s \<or> awaits_child s \<and> mstep Child s (s\<lparr>m_exited := True\<rparr>) \<and> settles i (s\<lparr>m_exited := True\<rparr>)"
proof -
  note inv = reach_minv [OF assms(1)]
  have held: "held s i" and cur: "m_migration s = Some i" and lt: "i < length (m_tickets s)"
    using minvD(1) [OF inv] assms(2) by (simp_all add: held_def)
  note ok = minv_current(2) [OF inv cur]
  show ?thesis
  proof (cases "t_stable (ticket s i) \<or> m_done s")
    case True
    then show ?thesis using settles_now by blast
  next
    case False
    then have alive: "t_alive (ticket s i)" and und: "\<not> t_decided (ticket s i)" and err: "t_err (ticket s i) = None"
      using held minvD(4) [OF inv] ok assms(2) by (auto simp: held_def flow_inv_def ticket_ok_def)
    then have obs: "observed s = Some i" using cur by simp
    have copy: "copy_inv (m_copy s) s" using minvD(2) [OF inv] .
    show ?thesis
    proof (cases "m_copy s")
      case Polling
      then have "m_wake s > 0" using reach_wake [OF assms(1)] cur alive und by (simp add: wake_inv_def)
      then show ?thesis using Polling obs lt settles_step [OF poll_woken settles_top] by simp
    next
      case (Draining j)
      then show ?thesis using copy cur lt settles_draining by (simp add: mine_def)
    next
      case (SettleStable j)
      then show ?thesis using copy cur lt settles_step [OF settle_stable settles_now]
        by (simp add: mine_def on_ticket_def markStable_def)
    next
      case Reaping
      then have "settles i s \<or> awaits_child s" "settles i (s\<lparr>m_exited := True\<rparr>)"
        using obs lt settles_reaping [of s i] settles_reaping [of "s\<lparr>m_exited := True\<rparr>" i]
        by (auto simp: awaits_child_def)
      then show ?thesis using child_exits by blast
    next
      case WaitChild
      then have "settles i s \<or> \<not> m_exited s \<and> \<not> m_failed s" "settles i (s\<lparr>m_exited := True\<rparr>)"
        using obs lt settles_exited [of s i] settles_failed [of s i] settles_exited [of "s\<lparr>m_exited := True\<rparr>" i]
        by auto
      then show ?thesis using child_exits WaitChild copy by (auto simp: awaits_child_def)
    next
      case Closing
      then show ?thesis using settles_step [OF copy_done settles_now] by simp
    qed (use copy cur False obs lt err minvD(4) [OF inv] in
        \<open>auto simp: mine_def flow_inv_def intro: settles_top settles_ready settles_settling\<close>)
  qed
qed

theorem ticket_noticed_witness: "settles 0 demo_waiting"
  using ticket_noticed [OF reach_waiting, of 0] by (simp add: awaits_child_def demo_waiting_def m_start_def)

text \<open>
  The position exists: the copy loop of a session whose child lives on without its PTY stays
  where it is, so that a ticket is answered only by the timeout of the handler.
\<close>

lemma waits_for_child:
  assumes "awaits_child s" and "m_copy s = WaitChild"
  shows "\<not> mstep Copy s s'"
proof
  assume "mstep Copy s s'"
  then show False using assms by (cases rule: mstep.cases) (auto simp: awaits_child_def)
qed

section \<open>An abort that waits for the end of the session\<close>

text \<open>The steps in which the copy loop does not give up: the child lives and its output can be stored.\<close>

definition quiet :: "mstate \<Rightarrow> mstate \<Rightarrow> bool" where
  "quiet s s' \<longleftrightarrow> (\<exists>a. a \<noteq> Ends \<and> mstep a s s')"

definition hung :: "nat \<Rightarrow> mstate \<Rightarrow> bool" where
  "hung i s \<longleftrightarrow> m_admin s = Awaiting i False \<and> m_migration s = Some i \<and> m_gate s \<and> i < length (m_tickets s) \<and>
     t_decided (ticket s i) \<and> \<not> t_stopped (ticket s i) \<and> \<not> m_done s \<and>
     (m_copy s = AtTop \<or> m_copy s = Polling \<or> m_copy s = Ready)"

lemma hung_step:
  assumes "quiet s s'" and "hung i s"
  shows "hung i s'"
proof -
  obtain a where "mstep a s s'" "a \<noteq> Ends" using assms(1) by (auto simp: quiet_def)
  then show ?thesis
    using assms(2) by (cases rule: mstep.cases) (auto simp: hung_def record_bytes_def)
qed

lemma hung_forever: "rtranclp quiet s s' \<Longrightarrow> hung i s \<Longrightarrow> hung i s'"
  by (induction rule: rtranclp_induct) (auto intro: hung_step)

text \<open>
  C36. An abort can wait for as long as the session lives. If the wait of the admin handler
  times out before the copy loop has looked at the ticket, the abort marks the ticket decided;
  the loop then passes over it and never reports that it stopped. There is a reachable state
  in which the handler waits in \<^verbatim>\<open>finishMigration\<close> for an abort, and whatever happens, as long
  as the child lives and its output can be stored, the handler keeps waiting there and keeps
  the gate, so that every operation on the session is blocked.
\<close>

theorem abort_can_hang:
  "\<exists>s i. reach s \<and> m_admin s = Awaiting i False \<and>
     {s'. rtranclp quiet s s'} \<subseteq> {s'. m_admin s' = Awaiting i False \<and> m_gate s'}"
proof -
  let ?s1 = "demo_waiting\<lparr>m_admin := Finish 0 False\<rparr>"
  let ?s2 = "demo_waiting\<lparr>m_admin := Choosing 0 False\<rparr>"
  let ?s3 = "demo_waiting\<lparr>m_tickets := [ticket_choose False (newMigrationTicket True)], m_admin := Awaiting 0 False\<rparr>"
  have "mstep Admin demo_waiting ?s1" by (rule admin_timeout) (simp add: demo_waiting_def)
  note r1 = reach.step [OF reach_waiting this]
  have "mstep Admin ?s1 ?s2" using finish_begins [of ?s1 0 False False] by (simp add: demo_defs)
  note r2 = reach.step [OF r1 this]
  have "mstep Admin ?s2 ?s3" using finish_chooses [of ?s2 0 False] by (simp add: demo_defs)
  note r3 = reach.step [OF r2 this]
  have "hung 0 ?s3" by (simp add: hung_def demo_defs)
  then show ?thesis
    using r3 hung_forever [of ?s3 _ 0] by (intro exI [of _ ?s3] exI [of _ 0]) (auto simp: hung_def)
qed

end
