(* ===== verification/Admin_Facts.thy ===== *)
theory Admin_Facts
  imports Admin Hub_Facts Migration_Facts
begin

text \<open>
  The admin handler as a transaction: whatever requests arrive and wherever the connection
  breaks, every ticket that was opened is resolved exactly once, the hub is frozen while there
  are tickets and is released in the end, and a commit moves all the sessions it names or none.
\<close>

section \<open>A monitor for the actions\<close>

text \<open>The state of the monitor: whether the hub is frozen, and the sessions with an open ticket.\<close>

fun mon :: "admin_action \<Rightarrow> bool \<times> bytes list \<Rightarrow> (bool \<times> bytes list) option" where
  "mon Froze (f, ts) = (if f then None else Some (True, ts))"
| "mon Thawed (f, ts) = (if f \<and> ts = [] then Some (False, []) else None)"
| "mon (Began n) (f, ts) = (if f \<and> n \<notin> set ts then Some (f, ts @ [n]) else None)"
| "mon (Resolved n c) (f, ts) = (if f \<and> n \<in> set ts then Some (f, filter (\<lambda>m. m \<noteq> n) ts) else None)"
| "mon (Removed n) (f, ts) = (if f \<and> n \<notin> set ts then Some (f, ts) else None)"
| "mon (Sent r fd) (f, ts) = Some (f, ts)"
| "mon ExitRequested (f, ts) = (if ts = [] then Some (f, ts) else None)"

fun mons :: "admin_action list \<Rightarrow> bool \<times> bytes list \<Rightarrow> (bool \<times> bytes list) option" where
  "mons [] m = Some m"
| "mons (a # as) m = (case mon a m of None \<Rightarrow> None | Some m' \<Rightarrow> mons as m')"

lemma mons_append: "mons (a @ b) m = (case mons a m of None \<Rightarrow> None | Some m' \<Rightarrow> mons b m')"
  by (induction a m rule: mons.induct) (auto split: option.splits)

lemma mon_error [simp]: "mon (admin_error i msg) m = Some m"
  by (cases m) (simp add: admin_error_def)

lemma mons_written: "writeAdminResult E i enc fd = (err, acts) \<Longrightarrow> mons acts m = Some m"
  by (cases m) (auto simp: writeAdminResult_def admin_error_def Let_def split: sum.splits)

lemma mons_reported: "mons (a @ b @ c @ [admin_error i msg]) m = mons (a @ b @ c) m"
  by (simp add: mons_append split: option.splits)

text \<open>Resolving a list of sessions, and forgetting them, one after the other.\<close>

definition without :: "bytes list \<Rightarrow> bytes list \<Rightarrow> bytes list" where
  "without ns ts = filter (\<lambda>m. m \<notin> set ns) ts"

lemma mons_resolve:
  assumes "distinct ns" and "set ns \<subseteq> set ts"
  shows "mons (map (\<lambda>n. Resolved n c) ns) (True, ts) = Some (True, without ns ts)"
  using assms
proof (induction ns arbitrary: ts)
  case (Cons n ns)
  then have "set ns \<subseteq> set (filter (\<lambda>m. m \<noteq> n) ts)" by auto
  with Cons show ?case by (simp add: without_def conj_commute)
qed (simp add: without_def)

lemma mons_removed: "set ns \<inter> set ts = {} \<Longrightarrow> mons (map Removed ns) (True, ts) = Some (True, ts)"
  by (induction ns) auto

definition tickets :: "'t admin_state \<Rightarrow> bytes list" where
  "tickets s = map fst (as_pending s)"

lemma tickets_forget [simp]: "tickets (forget n s) = filter (\<lambda>m. m \<noteq> n) (tickets s)"
  by (simp add: tickets_def forget_def filter_map comp_def)

lemma forget_same [simp]: "as_hub (forget n s) = as_hub s" "as_frozen (forget n s) = as_frozen s"
  by (simp_all add: forget_def)

lemma fold_forget:
  "tickets (fold forget ns s) = without ns (tickets s)"
  "as_hub (fold forget ns s) = as_hub s" "as_frozen (fold forget ns s) = as_frozen s"
  by (induction ns arbitrary: s) (simp_all add: without_def conj_commute)

lemma named_adoptions_Some:
  assumes "named_adoptions pending seen ns = Some as"
  shows "map fst as = ns \<and> distinct ns \<and> set ns \<inter> set seen = {} \<and> set ns \<subseteq> set (map fst pending)"
  using assms
proof (induction pending seen ns arbitrary: as rule: named_adoptions.induct)
  case (2 pending seen n ns)
  obtain a as' where a: "n \<notin> set seen" "map_of pending n = Some a" "as = (n, a) # as'"
      "named_adoptions pending (n # seen) ns = Some as'"
    using 2(2) by (auto split: if_splits option.splits)
  have "n \<in> set (map fst pending)" using a(2) by (force dest: map_of_SomeD)
  with 2(1) [OF a(1,2,4)] a(1,3) show ?case by simp
qed simp

section \<open>Every turn keeps the books\<close>

text \<open>
  What the tickets promise the handler: a prepared ticket is current until it is resolved, and
  is not current afterwards.
\<close>

definition tickets_ok :: "admin_env \<Rightarrow> bool" where
  "tickets_ok E \<longleftrightarrow> (\<forall>n. ae_current E n \<and> \<not> ae_left E n)"

text \<open>The migration protocol keeps the promise: a ticket that the handler works on is the current
  one of its session, and after \<^verbatim>\<open>finishMigration\<close> it is not.\<close>

lemma ticket_promise:
  "reach s \<Longrightarrow> m_admin s = Prepared i \<or> m_admin s = Finish i c \<or> m_admin s = Choosing i c \<or> m_admin s = Awaiting i c \<Longrightarrow>
     m_migration s = Some i"
  "m_migration (snd (endMigration i c s)) \<noteq> Some i"
  using minvD(1) [OF reach_minv, of s] by (auto simp: held_def endMigration_def)

definition books :: "'t admin_state \<Rightarrow> bool \<times> bytes list" where
  "books s = (as_frozen s, tickets s)"

definition handler_inv :: "'t admin_state \<Rightarrow> bool" where
  "handler_inv s \<longleftrightarrow> distinct (tickets s) \<and> (tickets s \<noteq> [] \<longrightarrow> as_frozen s)"

lemma filter_tickets_ok: "tickets_ok E \<Longrightarrow> filter (ae_current E) ns = ns" "tickets_ok E \<Longrightarrow> filter (ae_left E) ns = []"
  by (simp_all add: tickets_ok_def)

lemma endBatchIfIdle_books:
  assumes "endBatchIfIdle s = (acts, s')"
  shows "mons acts (books s) = Some (books s')" and "handler_inv s \<Longrightarrow> handler_inv s'" and "as_hub s' = as_hub s"
  using assms by (auto simp: endBatchIfIdle_def books_def tickets_def handler_inv_def split: if_splits)

lemma admin_list_books:
  assumes "admin_list K E q s = (g, acts, s')" and "handler_inv s"
  shows "mons acts (books s) = Some (books s') \<and> handler_inv s'"
proof (cases "as_frozen s \<or> \<not> beginMigrationBatch (as_hub s)")
  case False
  then have idle: "books s = (False, [])" using assms(2) by (auto simp: books_def handler_inv_def)
  from assms(1) False show ?thesis
    using idle assms(2)
    by (auto simp: admin_list_def books_def tickets_def handler_inv_def mons_written split: sum.splits prod.splits)
qed (use assms in \<open>auto simp: admin_list_def\<close>)

lemma admin_adopt_cases:
  assumes "admin_adopt K E q s = (g, acts, s')"
  obtains (refused) msg where "acts = [admin_error (aq_ID q) msg]" "s' = s"
  | (failed) n msg where "as_frozen s" "n \<notin> set (tickets s)"
      "acts = [Began n, Resolved n False, admin_error (aq_ID q) msg]" "s' = s"
  | (prepared) n a enc fd err sent where "as_frozen s" "n \<notin> set (tickets s)"
      "writeAdminResult E (aq_ID q) enc fd = (err, sent)" "acts = Began n # sent"
      "s' = s\<lparr>as_pending := as_pending s @ [(n, a)]\<rparr>"
proof -
  have "(\<exists>msg. acts = [admin_error (aq_ID q) msg] \<and> s' = s) \<or>
      (\<exists>n msg. as_frozen s \<and> n \<notin> set (tickets s) \<and>
        acts = [Began n, Resolved n False, admin_error (aq_ID q) msg] \<and> s' = s) \<or>
      (\<exists>n a enc fd err sent. as_frozen s \<and> n \<notin> set (tickets s) \<and>
        writeAdminResult E (aq_ID q) enc fd = (err, sent) \<and> acts = Began n # sent \<and>
        s' = s\<lparr>as_pending := as_pending s @ [(n, a)]\<rparr>)"
    using assms
    apply (simp add: admin_adopt_def Let_def tickets_def split: sum.splits if_splits option.splits)
    apply (auto simp: map_of_eq_None_iff split: sum.splits prod.splits option.splits ticket_answer.splits)
    done
  with that show thesis by blast
qed

lemma admin_adopt_books:
  assumes "admin_adopt K E q s = (g, acts, s')" and "handler_inv s"
  shows "mons acts (books s) = Some (books s') \<and> handler_inv s'"
  using assms(1)
proof (cases rule: admin_adopt_cases)
  case (failed n msg)
  then have "filter (\<lambda>m. m \<noteq> n) (tickets s) = tickets s" by (intro filter_True) auto
  with failed assms(2) show ?thesis by (simp add: books_def)
next
  case (prepared n a enc fd err sent)
  then show ?thesis
    using assms(2) mons_written [OF prepared(3)] by (auto simp: books_def tickets_def handler_inv_def)
qed (use assms(2) in simp)

lemma admin_snapshot_books:
  assumes "admin_snapshot P K E q s = (g, acts, s')" and "handler_inv s"
  shows "mons acts (books s) = Some (books s') \<and> handler_inv s'"
  using assms
  by (auto simp: admin_snapshot_def Let_def books_def tickets_def handler_inv_def mons_written
      split: sum.splits prod.splits option.splits)

lemma admin_exit_books:
  assumes "admin_exit K E q s = (g, acts, s')" and "handler_inv s"
  shows "mons acts (books s) = Some (books s') \<and> handler_inv s'"
  using assms
  by (auto simp: admin_exit_def books_def tickets_def mons_append mons_written split: prod.splits if_splits)

text \<open>The outcomes of a commit or an abort, for tickets that keep their promise.\<close>

lemma admin_batch_cases:
  assumes "admin_batch K E q s = (g, acts, s')" and "tickets_ok E"
  obtains (refused) msg where "acts = [admin_error (aq_ID q) msg]" "s' = s"
  | (unstable) ns thaw msg where "distinct ns" "set ns \<subseteq> set (tickets s)" "aq_Method q = ''commit''"
      "preflight E ns \<noteq> None"
      "endBatchIfIdle (fold forget ns s) = (thaw, s')"
      "acts = map (\<lambda>n. Resolved n False) ns @ thaw @ [admin_error (aq_ID q) msg]"
  | (broken) ns thaw msg gone where "distinct ns" "set ns \<subseteq> set (tickets s)" "aq_Method q = ''commit''"
      "preflight E ns = None" "first_error (map (\<lambda>n. ae_finish E n True) ns) \<noteq> None" "set gone \<subseteq> set ns"
      "endBatchIfIdle ((fold forget ns s)\<lparr>as_hub := fold hub_remove gone (as_hub s)\<rparr>) = (thaw, s')"
      "acts = map (\<lambda>n. Resolved n True) ns @ map Removed gone @ thaw @ [admin_error (aq_ID q) msg]"
  | (resolved) ns gone s2 enc err sent thaw where "distinct ns" "set ns \<subseteq> set (tickets s)"
      "dec_batch K (aq_Params q) = Inr ns"
      "gone = (if aq_Method q = ''commit'' then ns else [])"
      "s2 = (fold forget ns s)\<lparr>as_hub := fold hub_remove gone (as_hub s)\<rparr>"
      "writeAdminResult E (aq_ID q) enc (- 1) = (err, sent)"
      "endBatchIfIdle s2 = (thaw, s') \<or> thaw = [] \<and> s' = s2"
      "acts = map (\<lambda>n. Resolved n (aq_Method q = ''commit'')) ns @ map Removed gone @ sent @ thaw"
proof (cases "dec_batch K (aq_Params q)")
  case (Inl e)
  with assms(1) show thesis by (intro refused) (auto simp: admin_batch_def)
next
  case (Inr names)
  show thesis
  proof (cases "named_adoptions (as_pending s) [] names")
    case None
    with Inr assms(1) show thesis by (intro refused) (auto simp: admin_batch_def)
  next
    case (Some as)
    note named = named_adoptions_Some [OF Some]
    then have ns: "map fst as = names" "distinct names" "set names \<subseteq> set (tickets s)" by (auto simp: tickets_def)
    note run = assms(1) [unfolded admin_batch_def Inr sum.case Some option.case Let_def ns(1)]
    show thesis
    proof (cases "if aq_Method q = ''commit'' then preflight E names else None")
      case (Some e)
      then show thesis
        using run unstable [OF ns(2,3)] filter_tickets_ok(1) [OF assms(2)]
        by (auto split: if_splits prod.splits)
    next
      case clean: None
      show thesis
      proof (cases "first_error (map (\<lambda>n. resolveAdoption E n (aq_Method q = ''commit'')) names)")
        case (Some e)
        have commit: "aq_Method q = ''commit''"
        proof (rule ccontr)
          assume "aq_Method q \<noteq> ''commit''"
          then have "first_error (map (\<lambda>n. resolveAdoption E n False) names) = Some e" using Some by simp
          moreover have "first_error (map (\<lambda>n. resolveAdoption E n False) names) = None"
            by (induction names) (simp_all add: resolveAdoption_def)
          ultimately show False by simp
        qed
        then show thesis
          using run clean Some broken [OF ns(2,3) commit, of "filter (ae_migrated E) names"] filter_tickets_ok(2) [OF assms(2)]
          by (auto simp: resolveAdoption_def fold_forget split: prod.splits)
      next
        case None
        then show thesis
          using run clean resolved [OF ns(2,3) Inr refl refl] by (auto simp: fold_forget split: prod.splits if_splits)
      qed
    qed
  qed
qed

lemma batch_books:
  assumes "handler_inv s" and "distinct ns" and "set ns \<subseteq> set (tickets s)" and "set gone \<subseteq> set ns"
    and s2: "s2 = (fold forget ns s)\<lparr>as_hub := h\<rparr>"
    and "endBatchIfIdle s2 = (thaw, s') \<or> thaw = [] \<and> s' = s2" and "\<And>m. mons sent m = Some m"
  shows "mons (map (\<lambda>n. Resolved n c) ns @ map Removed gone @ sent @ thaw) (books s) = Some (books s') \<and> handler_inv s'"
proof -
  have s2': "tickets s2 = without ns (tickets s)" "as_frozen s2 = as_frozen s"
    using fold_forget [of ns s] by (simp_all add: s2 tickets_def)
  then have inv2: "handler_inv s2" using assms(1) by (auto simp: handler_inv_def without_def filter_empty_conv)
  have thaw: "mons thaw (books s2) = Some (books s') \<and> handler_inv s'"
    using assms(6) endBatchIfIdle_books(1,2) [of s2 thaw s'] inv2 by auto
  show ?thesis
  proof (cases "ns = []")
    case True
    then have "books s2 = books s" using s2' by (simp add: books_def without_def)
    then show ?thesis using True assms(4,7) thaw by (simp add: mons_append)
  next
    case False
    then have "as_frozen s" using assms(1,3) by (cases ns) (auto simp: handler_inv_def)
    then have "books s = (True, tickets s)" "books s2 = (True, without ns (tickets s))" using s2' by (simp_all add: books_def)
    moreover have "set gone \<inter> set (without ns (tickets s)) = {}" using assms(4) by (auto simp: without_def)
    ultimately show ?thesis
      using mons_resolve [OF assms(2,3), of c] mons_removed [of gone] assms(7) thaw by (simp add: mons_append)
  qed
qed

lemma admin_batch_books:
  assumes "admin_batch K E q s = (g, acts, s')" and "handler_inv s" and "tickets_ok E"
  shows "mons acts (books s) = Some (books s') \<and> handler_inv s'"
  using assms(1,3)
proof (cases rule: admin_batch_cases)
  case (unstable ns thaw msg)
  let ?s2 = "(fold forget ns s)\<lparr>as_hub := as_hub s\<rparr>"
  have "?s2 = fold forget ns s" using fold_forget(2) [of ns s] by (metis admin_state.surjective admin_state.update_convs(1))
  then have "mons (map (\<lambda>n. Resolved n False) ns @ map Removed [] @ [] @ thaw) (books s) = Some (books s') \<and> handler_inv s'"
    using unstable by (intro batch_books [OF assms(2) _ _ _ refl, of ns "[]" "as_hub s"]) auto
  with unstable(6) mons_reported [of "map (\<lambda>n. Resolved n False) ns" "[]" thaw] show ?thesis by simp
next
  case (broken ns thaw msg gone)
  then have "mons (map (\<lambda>n. Resolved n True) ns @ map Removed gone @ [] @ thaw) (books s) = Some (books s') \<and> handler_inv s'"
    by (intro batch_books [OF assms(2) _ _ _ refl]) auto
  with broken(8) mons_reported [of "map (\<lambda>n. Resolved n True) ns" "map Removed gone" thaw] show ?thesis by simp
next
  case (resolved ns gone s2 enc err sent thaw)
  have "set gone \<subseteq> set ns" using resolved(4) by auto
  from batch_books [OF assms(2) resolved(1,2) this resolved(5,7) mons_written [OF resolved(6)]]
  show ?thesis using resolved(8) by simp
qed (use assms(2) in simp)

lemma admin_turn_books:
  assumes "admin_turn P K E q s = (g, acts, s')" and "handler_inv s" and "tickets_ok E"
  shows "mons acts (books s) = Some (books s') \<and> handler_inv s'"
proof -
  consider "admin_list K E q s = (g, acts, s')" | "admin_adopt K E q s = (g, acts, s')"
    | "admin_snapshot P K E q s = (g, acts, s')" | "admin_batch K E q s = (g, acts, s')"
    | "admin_exit K E q s = (g, acts, s')" | "acts = [admin_error (aq_ID q) (''unknown admin method: '' @ aq_Method q)]" "s' = s"
    using assms(1) by (auto simp: admin_turn_def Let_def split: if_splits)
  then show ?thesis
  proof cases
    case 1
    then show ?thesis using assms(2) by (rule admin_list_books)
  next
    case 2
    then show ?thesis using assms(2) by (rule admin_adopt_books)
  next
    case 3
    then show ?thesis using assms(2) by (rule admin_snapshot_books)
  next
    case 4
    then show ?thesis using assms(2,3) by (rule admin_batch_books)
  next
    case 5
    then show ?thesis using assms(2) by (rule admin_exit_books)
  qed (use assms(2) in simp)
qed

lemma admin_close_books:
  assumes "handler_inv s" and "admin_close s = (acts, s')"
  shows "mons acts (books s) = Some (False, []) \<and> books s' = (False, [])"
proof -
  have acts: "acts = map (\<lambda>n. Resolved n False) (tickets s) @ (if as_frozen s then [Thawed] else [])"
    and s': "books s' = (False, [])"
    using assms(2) by (auto simp: admin_close_def tickets_def books_def)
  have "without (tickets s) (tickets s) = []" by (simp add: without_def filter_empty_conv)
  then show ?thesis
    using s' assms(1) mons_resolve [of "tickets s" "tickets s" False]
    by (cases "as_frozen s") (auto simp: acts books_def handler_inv_def mons_append)
qed

section \<open>Nothing stays open\<close>

text \<open>
  C12. The admin connection is a transaction. For every sequence of requests, every answer of
  the tickets (each of which is current until it is resolved and not afterwards, as
  \<open>ticket_promise\<close> has it) and every write that fails, and also when the connection breaks, the actions of
  the handler pass the monitor: a ticket is opened only while the hub is frozen and not twice,
  every ticket is resolved exactly once, a session leaves the hub only when its ticket is
  resolved, the hub is released only when no ticket is open, the server exits only then; and
  in the end no ticket is open and the hub is released.
\<close>

theorem admin_balanced:
  assumes "\<forall>(E, q) \<in> set qs. tickets_ok E" and "as_pending s = []" and "\<not> as_frozen s"
    and "handleAdmin P K qs s = (acts, s')"
  shows "mons acts (False, []) = Some (False, []) \<and> as_pending s' = [] \<and> \<not> as_frozen s'"
proof -
  have "mons acts (books s) = Some (False, []) \<and> books s' = (False, [])" if "handler_inv s"
    using that assms(1,4)
  proof (induction P K qs s arbitrary: acts s' rule: handleAdmin.induct)
    case (1 P K s)
    then show ?case using admin_close_books by simp
  next
    case (2 P K E q qs s)
    obtain g acts1 s1 where turn: "admin_turn P K E q s = (g, acts1, s1)" by (metis prod_cases3)
    have ok: "mons acts1 (books s) = Some (books s1)" "handler_inv s1"
      using admin_turn_books [OF turn 2(2)] 2(3) by auto
    obtain acts2 where rest: "(if g then handleAdmin P K qs s1 else admin_close s1) = (acts2, s')" "acts = acts1 @ acts2"
      using 2(4) turn by (auto split: prod.splits)
    have "mons acts2 (books s1) = Some (False, []) \<and> books s' = (False, [])"
      using 2(1) [OF turn [symmetric] refl, of acts2 s'] 2(3) rest(1) ok(2) admin_close_books by (cases g) auto
    then show ?case using rest(2) ok(1) by (simp add: mons_append)
  qed
  then show ?thesis using assms(2,3) by (simp add: books_def handler_inv_def tickets_def)
qed

definition demo_codec :: admin_codec where
  "demo_codec = \<lparr>dec_adopt = Inr, dec_batch = (\<lambda>b. Inr [b]), enc_list = (\<lambda>_. Inr []), enc_meta = (\<lambda>_. Inr []),
     enc_snapshot = (\<lambda>_. Inr []), enc_count = (\<lambda>_. Inr []), enc_struct = Inr [], enc_response = (\<lambda>_. Inr []),
     base64 = id\<rparr>"

definition demo_env :: admin_env where
  "demo_env = \<lparr>ae_order = [0], ae_begin = (\<lambda>_. None), ae_wait = (\<lambda>_. Stable True), ae_error = (\<lambda>_. None),
     ae_current = (\<lambda>_. True), ae_finish = (\<lambda>_ _. None), ae_left = (\<lambda>_. False), ae_migrated = (\<lambda>_. True),
     ae_write = (\<lambda>_ _. None)\<rparr>"

definition demo_request :: "bytes \<Rightarrow> bytes \<Rightarrow> adminRequest" where
  "demo_request m p = \<lparr>aq_ID = 1, aq_Method = m, aq_Params = p\<rparr>"

definition demo_handler :: "bytes admin_state" where
  "demo_handler = \<lparr>as_hub = demo_hub\<lparr>h_sessions := [''s'' \<mapsto> 0], h_states := [demo_state ''s'' 5]\<rparr>,
     as_pending = [], as_frozen = False\<rparr>"

lemma demo_tickets_ok: "tickets_ok demo_env"
  by (simp add: tickets_ok_def demo_env_def)

theorem admin_balanced_witness:
  "\<forall>P. mons (fst (handleAdmin P demo_codec [(demo_env, demo_request ''list'' []), (demo_env, demo_request ''adopt'' ''s'')] demo_handler))
     (False, []) = Some (False, [])"
proof
  fix P :: "bytes platform"
  let ?qs = "[(demo_env, demo_request ''list'' []), (demo_env, demo_request ''adopt'' ''s'')]"
  have "\<forall>(E, q) \<in> set ?qs. tickets_ok E" using demo_tickets_ok by simp
  from admin_balanced [OF this _ _ surjective_pairing, of demo_handler P demo_codec]
  show "mons (fst (handleAdmin P demo_codec ?qs demo_handler)) (False, []) = Some (False, [])"
    by (simp add: demo_handler_def)
qed

section \<open>Commit\<close>

text \<open>
  What the handler relies on when it commits: the tickets of prepared sessions have no error
  and are current, and a handoff that was chosen ends without an error.
\<close>

locale ticket_protocol =
  fixes prepared :: "'s \<Rightarrow> nat \<Rightarrow> bool"
    and failure :: "'s \<Rightarrow> nat \<Rightarrow> go_error option"
    and current :: "'s \<Rightarrow> nat \<Rightarrow> bool"
    and ending :: "'s \<Rightarrow> nat \<Rightarrow> bool"
    and ended :: "'s \<Rightarrow> nat \<Rightarrow> go_error option"
  assumes prepared_clean: "prepared s i \<Longrightarrow> failure s i = None"
    and prepared_current: "prepared s i \<Longrightarrow> current s i"
    and ending_clean: "ending s i \<Longrightarrow> ended s i = None"
begin

lemma preflight_passes:
  assumes "\<forall>n \<in> set ns. \<exists>s i. prepared s i \<and> ae_error E n = failure s i \<and> ae_current E n = current s i"
  shows "preflight E ns = None"
  using assms by (induction ns) (auto simp: prepared_clean prepared_current)

lemma resolve_succeeds:
  assumes "\<forall>n \<in> set ns. \<exists>s i. ending s i \<and> ae_finish E n True = ended s i"
  shows "first_error (map (\<lambda>n. resolveAdoption E n True) ns) = None"
  using assms by (induction ns) (auto simp: resolveAdoption_def ending_clean)

end

lemma prepared_reach: "reach s \<Longrightarrow> m_admin s = Prepared i \<Longrightarrow> t_err (ticket s i) = None \<and> m_migration s = Some i"
  using minvD(1) [OF reach_minv] by (fastforce simp: pc_defs)

lemma ending_reach: "reach s \<Longrightarrow> m_admin s = Awaiting i True \<Longrightarrow> fst (endMigration i True s) = None"
  using minvD(1) [OF reach_minv] by (fastforce simp: pc_defs endMigration_def)

interpretation mig: ticket_protocol "\<lambda>s i. reach s \<and> m_admin s = Prepared i" "\<lambda>s i. t_err (ticket s i)"
  "\<lambda>s i. m_migration s = Some i" "\<lambda>s i. reach s \<and> m_admin s = Awaiting i True" "\<lambda>s i. fst (endMigration i True s)"
  by unfold_locales (simp_all add: prepared_reach ending_reach)

text \<open>
  The answers to a commit of some names: a ticket may have an error or be stale when the
  handler looks at it, but one that has no error and is current is resolved as the handoff
  protocol of its session resolves it.
\<close>

definition protocol_answers :: "admin_env \<Rightarrow> bytes list \<Rightarrow> bool" where
  "protocol_answers E ns \<longleftrightarrow> (\<forall>n \<in> set ns. ae_error E n = None \<longrightarrow> ae_current E n \<longrightarrow>
     (\<exists>s i. (reach s \<and> m_admin s = Awaiting i True) \<and> ae_finish E n True = fst (endMigration i True s)))"

lemma preflight_None: "preflight E ns = None \<longleftrightarrow> (\<forall>n \<in> set ns. ae_error E n = None \<and> ae_current E n)"
  by (induction ns) (auto split: option.splits)

lemma named_adoptions_iff:
  "(\<exists>as. named_adoptions pending seen ns = Some as) \<longleftrightarrow>
     distinct ns \<and> set ns \<inter> set seen = {} \<and> set ns \<subseteq> set (map fst pending)"
proof (induction pending seen ns rule: named_adoptions.induct)
  case (2 pending seen n ns)
  show ?case
  proof (cases "n \<in> set seen \<or> map_of pending n = None")
    case True
    then have "n \<in> set seen \<or> n \<notin> set (map fst pending) \<and> map_of pending n = None" by (simp add: map_of_eq_None_iff)
    then show ?thesis by auto
  next
    case False
    then obtain a where "n \<notin> set seen" "map_of pending n = Some a" by auto
    moreover from this have "n \<in> set (map fst pending)" by (force dest: map_of_SomeD)
    ultimately show ?thesis using 2 by (auto split: option.splits)
  qed
qed simp

lemma fold_hub_remove: "h_sessions (fold hub_remove ns h) = h_sessions h |` (- set ns)"
  by (induction ns arbitrary: h) (auto simp: hub_remove_def restrict_map_def fun_eq_iff)

text \<open>
  A commit, with the answers of the protocol: refused without any effect, called off for all
  its names because of one ticket, or carried out for all its names.
\<close>

lemma commit_turn:
  assumes "aq_Method q = ''commit''" and "dec_batch K (aq_Params q) = Inr ns" and "protocol_answers E ns"
    and "admin_turn P K E q s = (g, acts, s')"
  shows "case named_adoptions (as_pending s) [] ns of
      None \<Rightarrow> s' = s \<and> acts = [admin_error (aq_ID q) ''one or more sessions not prepared'']
    | Some as \<Rightarrow> (case preflight E ns of
        Some e \<Rightarrow> \<exists>thaw. acts = map (\<lambda>n. Resolved n False) (filter (ae_current E) ns) @ thaw @ [admin_error (aq_ID q) (Error e)] \<and>
          set thaw \<subseteq> {Thawed} \<and> as_hub s' = as_hub s \<and> tickets s' = without ns (tickets s)
      | None \<Rightarrow> \<exists>thaw err sent. writeAdminResult E (aq_ID q) (enc_count K (length ns)) (- 1) = (err, sent) \<and>
          acts = map (\<lambda>n. Resolved n True) ns @ map Removed ns @ sent @ thaw \<and> set thaw \<subseteq> {Thawed} \<and>
          as_hub s' = fold hub_remove ns (as_hub s) \<and> tickets s' = without ns (tickets s))"
proof (cases "named_adoptions (as_pending s) [] ns")
  case None
  then show ?thesis using assms(1,2,4) by (simp add: admin_turn_def admin_batch_def)
next
  case (Some as)
  have ns: "map fst as = ns" using named_adoptions_Some [OF Some] by blast
  then have len: "length as = length ns" by (metis length_map)
  have "admin_batch K E q s = (g, acts, s')" using assms(1,4) by (simp add: admin_turn_def)
  note run = this [unfolded admin_batch_def assms(1,2) sum.case Some option.case Let_def ns]
  show ?thesis
  proof (cases "preflight E ns")
    case (Some e)
    obtain thaw s2 where idle: "endBatchIfIdle (fold forget ns s) = (thaw, s2)" by (metis surj_pair)
    then have "as_hub s2 = as_hub s" "tickets s2 = without ns (tickets s)" "set thaw \<subseteq> {Thawed}"
      using fold_forget(1,2) [of ns s] by (auto simp: endBatchIfIdle_def tickets_def split: if_splits)
    moreover have "acts = map (\<lambda>n. Resolved n False) (filter (ae_current E) ns) @ thaw @ [admin_error (aq_ID q) (Error e)]"
      "s' = s2"
      using run Some idle by simp_all
    ultimately show ?thesis using \<open>named_adoptions (as_pending s) [] ns = Some as\<close> Some by auto
  next
    case None
    then have res: "first_error (map (\<lambda>n. resolveAdoption E n True) ns) = None"
      using assms(3) by (intro mig.resolve_succeeds) (simp add: protocol_answers_def preflight_None)
    obtain err sent where wr: "writeAdminResult E (aq_ID q) (enc_count K (length ns)) (- 1) = (err, sent)" by (metis surj_pair)
    let ?s2 = "(fold forget ns s)\<lparr>as_hub := fold hub_remove ns (as_hub s)\<rparr>"
    obtain thaw s3 where idle: "(if err = None then endBatchIfIdle ?s2 else ([], ?s2)) = (thaw, s3)" by (metis surj_pair)
    have "acts = map (\<lambda>n. Resolved n True) ns @ map Removed ns @ sent @ thaw" and s': "s' = s3"
      using run None res wr idle len by (simp_all add: fold_forget split: if_splits)
    moreover have "as_hub s3 = fold hub_remove ns (as_hub s)" "tickets s3 = without ns (tickets s)" "set thaw \<subseteq> {Thawed}"
      using idle fold_forget(1) [of ns s] by (auto simp: endBatchIfIdle_def tickets_def split: if_splits)
    ultimately show ?thesis using \<open>named_adoptions (as_pending s) [] ns = Some as\<close> None wr by auto
  qed
qed

lemma writeAdminResult_sent: "writeAdminResult E i enc fd = (err, sent) \<Longrightarrow> \<exists>r fd'. sent = [Sent r fd']"
  by (auto simp: writeAdminResult_def admin_error_def Let_def split: sum.splits)

text \<open>
  C11. A commit moves all the sessions it names or none. A request that names a session which
  is not prepared, or one twice, is refused and changes nothing. If one of the tickets has an
  error or is no longer the current one of its session, whichever it is and whatever the
  others are, nothing is committed: no session leaves the hub, every ticket that is current is
  resolved as aborted, all of them are closed, and the answer is an error. Otherwise, with
  tickets that are resolved as the handoff protocol resolves them, each session is resolved as
  committed, exactly these sessions leave the hub, and their tickets are closed.
\<close>

theorem commit_exact:
  assumes "aq_Method q = ''commit''" and "dec_batch K (aq_Params q) = Inr ns" and "protocol_answers E ns"
    and "admin_turn P K E q s = (g, acts, s')"
  shows "if \<not> (distinct ns \<and> set ns \<subseteq> set (tickets s))
     then s' = s \<and> acts = [admin_error (aq_ID q) ''one or more sessions not prepared'']
     else if \<exists>n \<in> set ns. ae_error E n \<noteq> None \<or> \<not> ae_current E n
     then as_hub s' = as_hub s \<and> tickets s' = without ns (tickets s) \<and>
       (\<forall>n. Resolved n True \<notin> set acts \<and> Removed n \<notin> set acts) \<and>
       (\<forall>n \<in> set ns. ae_current E n \<longrightarrow> Resolved n False \<in> set acts) \<and>
       (\<exists>e. last acts = admin_error (aq_ID q) (Error e))
     else h_sessions (as_hub s') = h_sessions (as_hub s) |` (- set ns) \<and> tickets s' = without ns (tickets s) \<and>
       (\<forall>n \<in> set ns. Resolved n True \<in> set acts \<and> Removed n \<in> set acts \<and> Resolved n False \<notin> set acts)"
proof (cases "named_adoptions (as_pending s) [] ns")
  case None
  then have "\<not> (distinct ns \<and> set ns \<subseteq> set (tickets s))"
    using named_adoptions_iff [of "as_pending s" "[]" ns] by (simp add: tickets_def)
  then show ?thesis using commit_turn [OF assms] None by simp
next
  case (Some as)
  then have named: "distinct ns \<and> set ns \<subseteq> set (tickets s)" using named_adoptions_Some [OF Some] by (auto simp: tickets_def)
  show ?thesis
  proof (cases "preflight E ns")
    case (Some e)
    then have bad: "\<exists>n \<in> set ns. ae_error E n \<noteq> None \<or> \<not> ae_current E n" using preflight_None [of E ns] by auto
    obtain thaw where "acts = map (\<lambda>n. Resolved n False) (filter (ae_current E) ns) @ thaw @ [admin_error (aq_ID q) (Error e)]"
      "set thaw \<subseteq> {Thawed}" "as_hub s' = as_hub s" "tickets s' = without ns (tickets s)"
      using commit_turn [OF assms] \<open>named_adoptions _ _ _ = Some as\<close> Some by auto
    then show ?thesis using named bad by (auto simp: admin_error_def)
  next
    case None
    then have "\<not> (\<exists>n \<in> set ns. ae_error E n \<noteq> None \<or> \<not> ae_current E n)" using preflight_None [of E ns] by auto
    moreover obtain thaw err sent where wr: "writeAdminResult E (aq_ID q) (enc_count K (length ns)) (- 1) = (err, sent)"
      and "acts = map (\<lambda>n. Resolved n True) ns @ map Removed ns @ sent @ thaw" "as_hub s' = fold hub_remove ns (as_hub s)"
        "tickets s' = without ns (tickets s)" "set thaw \<subseteq> {Thawed}"
      using commit_turn [OF assms] \<open>named_adoptions _ _ _ = Some as\<close> None by auto
    ultimately show ?thesis
      using named writeAdminResult_sent [OF wr] by (auto simp: fold_hub_remove)
  qed
qed

text \<open>
  Sessions that the handler holds as prepared, in the sense of the migration protocol, pass
  the preflight, so that a commit of them is carried out.
\<close>

lemma prepared_commit:
  assumes "aq_Method q = ''commit''" and "dec_batch K (aq_Params q) = Inr ns" and "protocol_answers E ns"
    and "admin_turn P K E q s = (g, acts, s')" and "distinct ns" and "set ns \<subseteq> set (tickets s)"
    and "\<forall>n \<in> set ns. \<exists>s i. (reach s \<and> m_admin s = Prepared i) \<and> ae_error E n = t_err (ticket s i) \<and>
      ae_current E n = (m_migration s = Some i)"
  shows "as_hub s' = fold hub_remove ns (as_hub s)"
proof -
  have "preflight E ns = None" using assms(7) by (rule mig.preflight_passes)
  moreover obtain as where "named_adoptions (as_pending s) [] ns = Some as"
    using named_adoptions_iff [of "as_pending s" "[]" ns] assms(5,6) by (auto simp: tickets_def)
  ultimately show ?thesis using commit_turn [OF assms(1-4)] by auto
qed

definition demo_committing :: "bytes admin_state" where
  "demo_committing = demo_handler\<lparr>as_pending := [(''s'', 0)], as_frozen := True\<rparr>"

text \<open>The same batch with a ticket that passes and with one that does not.\<close>

theorem commit_exact_witness:
  "\<forall>P. h_sessions (as_hub (snd (snd (admin_turn P demo_codec demo_env (demo_request ''commit'' ''s'') demo_committing)))) = Map.empty \<and>
     h_sessions (as_hub (snd (snd (admin_turn P demo_codec (demo_env\<lparr>ae_current := (\<lambda>_. False)\<rparr>)
       (demo_request ''commit'' ''s'') demo_committing)))) = [''s'' \<mapsto> 0]"
proof
  fix P :: "bytes platform"
  let ?q = "demo_request ''commit'' ''s''" and ?bad = "demo_env\<lparr>ae_current := (\<lambda>_. False)\<rparr>"
  have "m_admin demo_awaiting = Awaiting 0 True" "ae_finish demo_env ''s'' True = fst (endMigration 0 True demo_awaiting)"
    by (simp_all add: demo_env_def demo_awaiting_def demo_defs)
  then have answers: "protocol_answers demo_env [''s'']" "protocol_answers ?bad [''s'']"
    using reach_awaiting by (auto simp: protocol_answers_def)
  have request: "dec_batch demo_codec (aq_Params ?q) = Inr [''s'']" "aq_Method ?q = ''commit''" "tickets demo_committing = [''s'']"
      "h_sessions (as_hub demo_committing) = [''s'' \<mapsto> 0]" "ae_error demo_env ''s'' = None" "ae_current demo_env ''s''"
    by (simp_all add: demo_codec_def demo_request_def demo_committing_def demo_handler_def demo_env_def tickets_def)
  obtain g acts s' where good: "admin_turn P demo_codec demo_env ?q demo_committing = (g, acts, s')" by (metis prod_cases3)
  obtain g1 acts1 s1 where bad: "admin_turn P demo_codec ?bad ?q demo_committing = (g1, acts1, s1)" by (metis prod_cases3)
  show "h_sessions (as_hub (snd (snd (admin_turn P demo_codec demo_env ?q demo_committing)))) = Map.empty \<and>
     h_sessions (as_hub (snd (snd (admin_turn P demo_codec ?bad ?q demo_committing)))) = [''s'' \<mapsto> 0]"
    using commit_exact [OF request(2,1) answers(1) good] commit_exact [OF request(2,1) answers(2) bad] good bad request by simp
qed

end
