(* ===== verification/Terminal_Facts.thy ===== *)
theory Terminal_Facts
  imports Terminal
begin

text \<open>
  Properties of the emulated terminal: the envelope of an encoded state accepts exactly what
  it was made for, feeding loses and reorders no byte, the command line of a marker cycle is
  the one on the screen when the command started, the input region and the captured text
  are bounded, and the metadata and the state of a terminal move to another one.
\<close>

section \<open>The envelope\<close>

lemma length_put_le [simp]: "length (put_le k n) = k"
  by (induction k n rule: put_le.induct) auto

lemma get_put_le: "n < 256 ^ k \<Longrightarrow> get_le (put_le k n) = n"
proof (induction k arbitrary: n)
  case (Suc k)
  then have "n div 256 < 256 ^ k" by (simp add: less_mult_imp_div_less mult.commute)
  with Suc.IH show ?case by simp
qed simp

lemma put_get_le: "put_le (length bs) (get_le bs) = bs"
  by (induction bs) simp_all

text \<open>
  The envelope of a migrated terminal state is exact: for every hash of 32 bytes, a byte
  string is accepted with payload \<open>raw\<close> exactly when it is the envelope that the sender
  makes of \<open>raw\<close>, and \<open>raw\<close> is not empty. So what was wrapped is read back, and nothing
  truncated, extended or with another length field or checksum is accepted.
\<close>

lemma envelope_exact:
  assumes "\<And>r. length (sha r) = 32" and "length raw < 2 ^ 64"
  shows "unwrapVTState sha state = Inr raw \<longleftrightarrow> raw \<noteq> [] \<and> state = wrapVTState sha raw"
proof
  let ?m = "length vtStateMagic"
  have m: "?m = 16" by (simp add: vtStateMagic_def)
  assume ok: "unwrapVTState sha state = Inr raw"
  then have parts: "length state \<ge> ?m + 40" "take ?m state = vtStateMagic" "raw = drop (?m + 40) state"
      "get_le (take 8 (drop ?m state)) = length raw" "take 32 (drop (?m + 8) state) = sha raw" "raw \<noteq> []"
    by (auto simp: unwrapVTState_def vtStateHeaderSize_def slice_def Let_def m split: if_splits)
  have "take 8 (drop ?m state) = put_le 8 (length raw)"
    using put_get_le [of "take 8 (drop ?m state)"] parts(1,4) by simp
  moreover have "state = take ?m state @ take 8 (drop ?m state) @ take 32 (drop (?m + 8) state) @ drop (?m + 40) state"
    using append_take_drop_id [of 32 "drop (?m + 8) state"] append_take_drop_id [of 8 "drop ?m state"]
      append_take_drop_id [of ?m state] by (simp add: m)
  ultimately show "raw \<noteq> [] \<and> state = wrapVTState sha raw"
    using parts by (simp add: wrapVTState_def)
next
  assume "raw \<noteq> [] \<and> state = wrapVTState sha raw"
  then show "unwrapVTState sha state = Inr raw"
    using assms get_put_le [of "length raw" 8]
    by (simp add: unwrapVTState_def wrapVTState_def vtStateHeaderSize_def slice_def)
qed

section \<open>Feeding\<close>

lemma vt_terminal_simps [simp]:
  "vt_terminal (refreshAtPromptLocked L v) = vt_terminal v"
  "vt_terminal (refreshReportedPwdLocked L low host v) = vt_terminal v"
  "vt_terminal (applyOSC133Locked L now span v) = vt_terminal v"
  by (auto simp: refreshAtPromptLocked_def refreshReportedPwdLocked_def applyOSC133Locked_def Let_def
      split: option.split)

lemma vt_terminal_write [simp]:
  "vt_terminal (writeLocked L data v) = map_option (fold (gt_write L) (if data = [] then [] else [data])) (vt_terminal v)"
  by (cases "vt_terminal v") (simp_all add: writeLocked_def)

text \<open>The pieces in which the markers cut a chunk, from position \<open>fed\<close> up to the last marker.\<close>

fun pieces :: "bytes \<Rightarrow> nat \<Rightarrow> osc133Span list \<Rightarrow> bytes list" where
  "pieces data fed [] = []"
| "pieces data fed (s # ss) = filter (\<lambda>p. p \<noteq> []) [slice fed (span_end s) data] @ pieces data (span_end s) ss"

fun spans_end :: "nat \<Rightarrow> osc133Span list \<Rightarrow> nat" where
  "spans_end fed [] = fed"
| "spans_end fed (s # ss) = spans_end (span_end s) ss"

lemma feed_spans_pieces:
  "feed_spans L now data fed spans v = (v', fed') \<Longrightarrow>
     fed' = spans_end fed spans \<and>
     vt_terminal v' = map_option (fold (gt_write L) (pieces data fed spans)) (vt_terminal v)"
proof (induction spans arbitrary: fed v)
  case (Cons s ss)
  from Cons.IH [OF Cons.prems [simplified feed_spans.simps]] show ?case
    by (auto simp: option.map_comp comp_def)
qed (simp add: option.map_id0 id_def [symmetric])

lemma spans_from_end: "spans_from data fed ss \<Longrightarrow> fed \<le> length data \<Longrightarrow> fed \<le> spans_end fed ss \<and> spans_end fed ss \<le> length data"
  by (induction ss arbitrary: fed) (fastforce simp: marker_at_def)+

lemma concat_pieces:
  "spans_from data fed ss \<Longrightarrow> fed \<le> length data \<Longrightarrow> concat (pieces data fed ss) = slice fed (spans_end fed ss) data"
proof (induction ss arbitrary: fed)
  case (Cons s ss)
  then have "fed \<le> span_end s" "span_end s \<le> length data" "spans_from data (span_end s) ss"
    by (auto simp: marker_at_def)
  with Cons.IH [of "span_end s"] spans_from_end [of data "span_end s" ss] show ?case
    using slice_append_slice [of fed "span_end s" "spans_end (span_end s) ss" data] by auto
qed simp

lemma findOSC133_wf: "spans_from data 0 (findOSC133 data)"
  by (simp add: findOSC133_def find_spans_wf)

text \<open>
  C29. Feeding reaches the emulator unchanged: whatever markers a chunk of output has, the
  native terminal is given, piece by piece, all bytes of the chunk in their order and
  nothing else; no piece is empty.
\<close>

theorem feed_complete:
  "\<exists>ps. concat ps = data \<and> [] \<notin> set ps \<and>
     vt_terminal (terminal_Feed L low host now data v) = map_option (fold (gt_write L) ps) (vt_terminal v)"
proof -
  obtain v1 fed where fs: "feed_spans L now data 0 (findOSC133 data) v = (v1, fed)" by fastforce
  note fed = feed_spans_pieces [OF fs]
  let ?ps = "pieces data 0 (findOSC133 data) @ (if drop fed data = [] then [] else [drop fed data])"
  have "[] \<notin> set (pieces data n ss)" for n ss
    by (induction data n ss rule: pieces.induct) auto
  moreover have "concat ?ps = data"
    using concat_pieces [OF findOSC133_wf, of data] spans_from_end [OF findOSC133_wf, of data] fed by simp
  moreover have "vt_terminal (terminal_Feed L low host now data v) = map_option (fold (gt_write L) ?ps) (vt_terminal v)"
    if "data \<noteq> []"
    using that fs fed by (auto simp: terminal_Feed_def Let_def option.map_comp comp_def)
  moreover have "vt_terminal (terminal_Feed L low host now [] v) = map_option (fold (gt_write L) []) (vt_terminal v)"
    by (simp add: terminal_Feed_def option.map_id0 id_def [symmetric])
  ultimately show ?thesis
    by (cases "data = []") (metis concat.simps(1) list.set(1) empty_iff, auto simp del: concat_append)
qed

section \<open>A command cycle\<close>

lemma feed_spans_append:
  "feed_spans L now data fed (a @ b) v = (case feed_spans L now data fed a v of (v1, fed1) \<Rightarrow> feed_spans L now data fed1 b v1)"
  by (induction a arbitrary: fed v) auto

definition same_command :: "'t vtTerminal \<Rightarrow> 't vtTerminal \<Rightarrow> bool" where
  "same_command v w \<longleftrightarrow> runningCommand v = runningCommand w \<and> lastCommand v = lastCommand w \<and>
     lastExitCode v = lastExitCode w \<and> lastExitKnown v = lastExitKnown w \<and> lastExitAt v = lastExitAt w"

lemma same_command_simps [simp]:
  "same_command (refreshAtPromptLocked L v) w = same_command v w"
  "same_command (refreshReportedPwdLocked L low host v) w = same_command v w"
  "same_command (writeLocked L data v) w = same_command v w"
  by (auto simp: same_command_def refreshAtPromptLocked_def refreshReportedPwdLocked_def writeLocked_def
      split: option.split)

lemma semanticSeen_simps [simp]:
  "semanticSeen v \<Longrightarrow> semanticSeen (refreshAtPromptLocked L v)"
  "semanticSeen (refreshReportedPwdLocked L low host v) = semanticSeen v"
  "semanticSeen (writeLocked L data v) = semanticSeen v"
  "semanticSeen v \<Longrightarrow> semanticSeen (applyOSC133Locked L now span v)"
  by (auto simp: refreshAtPromptLocked_def refreshReportedPwdLocked_def writeLocked_def applyOSC133Locked_def Let_def
      split: option.split)

lemma same_command_trans: "same_command a b \<Longrightarrow> same_command b c \<Longrightarrow> same_command a c"
  by (simp add: same_command_def)

lemma feed_spans_quiet:
  "\<forall>s\<in>set ss. span_kind s \<noteq> CHR ''C'' \<and> span_kind s \<noteq> CHR ''D'' \<Longrightarrow>
     feed_spans L now data fed ss v = (v', fed') \<Longrightarrow>
     same_command v' v \<and> (semanticSeen v \<longrightarrow> semanticSeen v')"
proof (induction ss arbitrary: fed v)
  case (Cons s ss)
  let ?v = "refreshAtPromptLocked L (applyOSC133Locked L now s (writeLocked L (slice fed (span_end s) data) v))"
  have "same_command (applyOSC133Locked L now s w) w" for w
    using Cons.prems(1) by (simp add: applyOSC133Locked_def same_command_def)
  then have "same_command ?v v"
    using same_command_trans [of "applyOSC133Locked L now s (writeLocked L (slice fed (span_end s) data) v)"]
    by (metis same_command_simps(1,3) same_command_def)
  moreover have "same_command v' ?v \<and> (semanticSeen ?v \<longrightarrow> semanticSeen v')"
    using Cons.IH [of "span_end s" ?v] Cons.prems by simp
  ultimately show ?case by (auto intro: same_command_trans)
qed (simp add: same_command_def)

text \<open>
  A command cycle is reported as it happened: when a chunk has a marker C that starts a
  command and later a marker D that ends it, with no other C or D between or behind, then
  afterwards the last command is the text of the input region of the screen as it was after
  exactly the bytes up to the end of the marker C (so before any output of the command), no
  command is running, and the exit status, when the marker carries one, and the time are
  those of the marker D.
\<close>

lemma command_cycle:
  assumes "findOSC133 data = pre @ c # mid @ d # post"
    and "span_kind c = CHR ''C''" and "span_kind d = CHR ''D''"
    and "\<forall>s \<in> set mid \<union> set post. span_kind s \<noteq> CHR ''C'' \<and> span_kind s \<noteq> CHR ''D''"
    and "vt_terminal v = Some t"
  shows "(\<exists>ps. concat ps = take (span_end c) data \<and>
            lastCommand (terminal_Feed L low host now data v) = captureInputLocked L (fold (gt_write L) ps t)) \<and>
         runningCommand (terminal_Feed L low host now data v) = [] \<and>
         semanticSeen (terminal_Feed L low host now data v) \<and>
         lastExitAt (terminal_Feed L low host now data v) = Some now \<and>
         (span_hasExit d \<longrightarrow> lastExitKnown (terminal_Feed L low host now data v) \<and>
            lastExitCode (terminal_Feed L low host now data v) = span_exitCode d)"
proof -
  let ?v' = "terminal_Feed L low host now data v"
  obtain v1 f1 where pre: "feed_spans L now data 0 pre v = (v1, f1)" by fastforce
  define vc where "vc = writeLocked L (slice f1 (span_end c) data) v1"
  define v2 where "v2 = refreshAtPromptLocked L (applyOSC133Locked L now c vc)"
  obtain v3 f3 where mid: "feed_spans L now data (span_end c) mid v2 = (v3, f3)" by fastforce
  define v4 where "v4 = refreshAtPromptLocked L (applyOSC133Locked L now d (writeLocked L (slice f3 (span_end d) data) v3))"
  obtain v5 f5 where post: "feed_spans L now data (span_end d) post v4 = (v5, f5)" by fastforce
  have all: "feed_spans L now data 0 (findOSC133 data) v = (v5, f5)"
    using pre mid post assms(1) by (simp add: feed_spans_append vc_def v2_def v4_def)
  have nonempty: "data \<noteq> []"
    using findOSC133_wf [of data] assms(1) by (cases pre) (auto simp: marker_at_def)
  have fin: "same_command ?v' v5 \<and> (semanticSeen v5 \<longrightarrow> semanticSeen ?v')"
    using assms(1,5) nonempty all by (simp add: terminal_Feed_def Let_def) (simp add: same_command_def)
  have "vt_terminal vc = Some (fold (gt_write L) (pieces data 0 (pre @ [c])) t)"
  proof -
    have "feed_spans L now data 0 (pre @ [c]) v = (v2, span_end c)"
      using pre by (simp add: feed_spans_append vc_def v2_def)
    from feed_spans_pieces [OF this] show ?thesis using assms(5) by (auto simp: v2_def)
  qed
  then have run2: "runningCommand v2 = captureInputLocked L (fold (gt_write L) (pieces data 0 (pre @ [c])) t)" "semanticSeen v2"
    using assms(2) by (auto simp: v2_def refreshAtPromptLocked_def applyOSC133Locked_def split: option.split)
  have "same_command v3 v2 \<and> semanticSeen v3"
    using feed_spans_quiet [OF _ mid] assms(4) run2(2) by simp
  then have "lastCommand v4 = runningCommand v2 \<and> runningCommand v4 = [] \<and> lastExitAt v4 = Some now \<and> semanticSeen v4 \<and>
      (span_hasExit d \<longrightarrow> lastExitKnown v4 \<and> lastExitCode v4 = span_exitCode d)"
    using assms(3)
    by (auto simp: v4_def same_command_def refreshAtPromptLocked_def applyOSC133Locked_def writeLocked_def Let_def
        split: option.split)
  moreover have "same_command v5 v4 \<and> (semanticSeen v4 \<longrightarrow> semanticSeen v5)"
    using feed_spans_quiet [OF _ post] assms(4) by simp
  moreover have "concat (pieces data 0 (pre @ [c])) = take (span_end c) data"
  proof -
    have "spans_from data fed (a @ b) \<Longrightarrow> spans_from data fed a" for fed a b
      by (induction a arbitrary: fed) auto
    then have "spans_from data 0 (pre @ [c])" using findOSC133_wf [of data] assms(1) by (metis append.assoc append_Cons append_Nil)
    moreover have "spans_end n (pre @ [c]) = span_end c" for n by (induction pre arbitrary: n) auto
    ultimately show ?thesis using concat_pieces [of data 0 "pre @ [c]"] by simp
  qed
  ultimately show ?thesis
    using fin run2 by (auto simp: same_command_def)
qed

text \<open>
  A library whose terminal is the transcript of what was written to it, shown on a screen of
  one prompt row with two input cells.
\<close>

definition demo_vt :: "bytes ghostty" where
  "demo_vt = \<lparr>gt_new = (\<lambda>_ _. Inr []), gt_scrollback = (\<lambda>_ t. Inr t), gt_continuation = (\<lambda>_ t. Inr t),
     gt_write = (\<lambda>d t. t @ d), gt_resize = (\<lambda>_ _ t. t), gt_at_prompt = (\<lambda>_. Some False),
     gt_cursor_x = (\<lambda>_. Some 0), gt_cursor_y = (\<lambda>_. Some 0), gt_cols = (\<lambda>_. Some 2), gt_rows = (\<lambda>_. Some 1),
     gt_alternate = (\<lambda>_. Some False), gt_pwd = (\<lambda>_. None), gt_ground = (\<lambda>_. Some True),
     gt_mode = (\<lambda>_ _. Some False),
     gt_cell = (\<lambda>x y t. Some \<lparr>c_wide = Some Narrow, c_semantic = Some CellInput, c_codepoint = Some (of_char (t ! x))\<rparr>),
     gt_row = (\<lambda>y t. Some \<lparr>r_semantic = Some RowPrompt, r_wrap = Some False\<rparr>),
     gt_encode = (\<lambda>t. Inr (take 100 t)), gt_decoder_new = (\<lambda>_. None), gt_decode = (\<lambda>s. Inr s),
     gt_formatter_new = (\<lambda>_. None), gt_format = (\<lambda>t. Inr t)\<rparr>"

definition demo_terminal :: "bytes vtTerminal" where
  "demo_terminal = \<lparr>vt_terminal = Some [], scrollbackMaxBytes = 1, reportedPwd = [], semanticSeen = False,
     atPrompt = False, runningCommand = [], lastCommand = [], lastExitCode = 0, lastExitKnown = False,
     lastExitAt = None\<rparr>"

definition demo_output :: bytes where
  "demo_output = ''ls'' @ ESC # '']133;C'' @ BEL # ''out'' @ ESC # '']133;D;7'' @ [BEL]"

lemma demo_spans:
  "findOSC133 demo_output =
     [\<lparr>span_kind = CHR ''C'', span_exitCode = 0, span_hasExit = False, span_end = 10\<rparr>,
      \<lparr>span_kind = CHR ''D'', span_exitCode = 7, span_hasExit = True, span_end = 23\<rparr>]"
  by code_simp

lemma demo_fold: "fold (gt_write demo_vt) ps t = t @ concat ps"
  by (induction ps arbitrary: t) (simp_all add: demo_vt_def)

section \<open>The input region\<close>

lemma region_bottom_Some:
  "region_bottom L t k (Suc y) = Some b \<longleftrightarrow>
     b \<le> y \<and> k + (y - b) \<le> semanticLookbackRows \<and> terminal_row_semantic L b t \<noteq> RowNone \<and>
     (\<forall>r. b < r \<and> r \<le> y \<longrightarrow> terminal_row_semantic L r t = RowNone)"
proof (induction y arbitrary: k)
  case 0
  then show ?case by (cases b) auto
next
  case (Suc y)
  show ?case
  proof (cases "terminal_row_semantic L (Suc y) t = RowNone")
    case True
    have "region_bottom L t k (Suc (Suc y)) = (if k > semanticLookbackRows then None else region_bottom L t (k + 1) (Suc y))"
      using True by simp
    moreover have "b \<le> Suc y \<and> k + (Suc y - b) \<le> semanticLookbackRows \<and> terminal_row_semantic L b t \<noteq> RowNone \<longleftrightarrow>
        k \<le> semanticLookbackRows \<and> b \<le> y \<and> k + 1 + (y - b) \<le> semanticLookbackRows \<and> terminal_row_semantic L b t \<noteq> RowNone"
      using True by (cases "b = Suc y") auto
    ultimately show ?thesis
      using Suc.IH [of "k + 1"] True by (auto simp: le_Suc_eq)
  next
    case False
    then have "b = Suc y" if "b \<le> Suc y" "\<forall>r. b < r \<and> r \<le> Suc y \<longrightarrow> terminal_row_semantic L r t = RowNone"
      using that by (cases "b = Suc y") auto
    with False show ?thesis by (auto simp: not_less)
  qed
qed

lemma region_start_Some:
  assumes "row \<le> bottom"
  shows "region_start L t bottom (Suc row) = Some s \<longleftrightarrow>
     s \<le> row \<and> bottom - s \<le> semanticRegionMaxRows \<and> terminal_row_semantic L s t = RowPrompt \<and>
     (\<forall>r. s < r \<and> r \<le> row \<longrightarrow> terminal_row_semantic L r t = RowContinuation)"
  using assms
proof (induction row)
  case 0
  then show ?case by (auto split: row_semantic.split)
next
  case (Suc row)
  have bound: "s \<le> Suc row \<and> bottom - s \<le> semanticRegionMaxRows \<Longrightarrow> bottom - Suc row \<le> semanticRegionMaxRows" by (elim conjE) linarith
  show ?case
  proof (cases "terminal_row_semantic L (Suc row) t")
    case RowContinuation
    have "region_start L t bottom (Suc (Suc row)) =
        (if bottom - Suc row > semanticRegionMaxRows then None else region_start L t bottom (Suc row))"
      using RowContinuation by simp
    then show ?thesis
      using Suc RowContinuation bound by (auto simp: le_Suc_eq)
  next
    case RowPrompt
    then show ?thesis using bound by (auto simp: not_less le_Suc_eq)
  next
    case RowNone
    then have "\<not> (\<forall>r. s < r \<and> r \<le> Suc row \<longrightarrow> terminal_row_semantic L r t = RowContinuation)"
      if "s \<le> Suc row" "terminal_row_semantic L s t = RowPrompt"
      using that by (cases "s = Suc row") (auto intro!: exI [of _ "Suc row"])
    with RowNone show ?thesis by auto
  qed
qed

lemma capture_rows_bound:
  "length builder \<le> maxSemanticCommandBytes \<Longrightarrow>
     length (capture_rows L t builder wrapped blank rows) \<le> maxSemanticCommandBytes"
  by (induction rows arbitrary: builder wrapped blank) (auto simp: Let_def not_less split: option.split)

text \<open>
  The command line is read from the right rows and is bounded: the input region ends at
  the lowest row with prompt semantics, at most four rows above the cursor and with only
  plain rows between, begins at the nearest primary prompt row above it, at most 128 rows
  up, and has only continuation rows behind that one; when there is no such region the
  command is unknown. The captured text never exceeds 8192 bytes.
\<close>

lemma input_region_exact:
  "(inputRegionRowsLocked L t y = Some rows \<longleftrightarrow>
     (\<exists>start bottom. rows = [start..<Suc bottom] \<and> start \<le> bottom \<and> bottom \<le> y \<and>
        y - bottom \<le> 4 \<and> bottom - start \<le> 128 \<and>
        terminal_row_semantic L start t = RowPrompt \<and>
        (\<forall>r. start < r \<and> r \<le> bottom \<longrightarrow> terminal_row_semantic L r t = RowContinuation) \<and>
        (\<forall>r. bottom < r \<and> r \<le> y \<longrightarrow> terminal_row_semantic L r t = RowNone))) \<and>
   length (captureInputLocked L t) \<le> 8192"
proof
  show "inputRegionRowsLocked L t y = Some rows \<longleftrightarrow>
     (\<exists>start bottom. rows = [start..<Suc bottom] \<and> start \<le> bottom \<and> bottom \<le> y \<and>
        y - bottom \<le> 4 \<and> bottom - start \<le> 128 \<and>
        terminal_row_semantic L start t = RowPrompt \<and>
        (\<forall>r. start < r \<and> r \<le> bottom \<longrightarrow> terminal_row_semantic L r t = RowContinuation) \<and>
        (\<forall>r. bottom < r \<and> r \<le> y \<longrightarrow> terminal_row_semantic L r t = RowNone))" (is "?lhs \<longleftrightarrow> ?rhs")
  proof
    assume ?lhs
    then obtain bottom start where "region_bottom L t 0 (Suc y) = Some bottom"
        "region_start L t bottom (Suc bottom) = Some start" "rows = [start..<Suc bottom]"
      by (auto simp: inputRegionRowsLocked_def simp del: region_bottom.simps region_start.simps split: option.splits)
    then show ?rhs
      unfolding region_bottom_Some region_start_Some [OF order_refl]
      by (auto simp: semanticLookbackRows_def semanticRegionMaxRows_def)
  next
    assume ?rhs
    then obtain start bottom where r: "rows = [start..<Suc bottom]" "start \<le> bottom" "bottom \<le> y" "y - bottom \<le> 4"
        "bottom - start \<le> 128" "terminal_row_semantic L start t = RowPrompt"
        "\<forall>r. start < r \<and> r \<le> bottom \<longrightarrow> terminal_row_semantic L r t = RowContinuation"
        "\<forall>r. bottom < r \<and> r \<le> y \<longrightarrow> terminal_row_semantic L r t = RowNone"
      by blast
    have "terminal_row_semantic L bottom t \<noteq> RowNone" using r(2,6,7) by (cases "start = bottom") auto
    then have "region_bottom L t 0 (Suc y) = Some bottom"
      unfolding region_bottom_Some using r by (simp add: semanticLookbackRows_def)
    moreover have "region_start L t bottom (Suc bottom) = Some start"
      unfolding region_start_Some [OF order_refl] using r by (simp add: semanticRegionMaxRows_def)
    ultimately show ?lhs using r(1) by (simp add: inputRegionRowsLocked_def del: region_bottom.simps region_start.simps)
  qed
  show "length (captureInputLocked L t) \<le> 8192"
    using capture_rows_bound [of "[]" L t] by (auto simp: captureInputLocked_def maxSemanticCommandBytes_def split: option.split)
qed

section \<open>Moving a terminal to another process\<close>

lemma configured_simps [simp]:
  "semanticSeen (refreshReportedPwdLocked L low host v) = semanticSeen v"
  "lastExitKnown (refreshReportedPwdLocked L low host v) = lastExitKnown v"
  "lastExitAt (refreshReportedPwdLocked L low host v) = lastExitAt v"
  by (simp_all add: refreshReportedPwdLocked_def split: option.split)

lemma RestoreState_cases:
  assumes "RestoreState L sha low host snapshot v = (err, v')"
  obtains (failed) e where "err = Some e" "v' = v"
    | (restored) raw u t where "err = None" "unwrapVTState sha snapshot = Inr raw" "gt_decode L raw = Inr u"
        "configure L (scrollbackMaxBytes v) u = Inr t"
        "v' = refreshReportedPwdLocked L low host (v\<lparr>vt_terminal := Some t\<rparr>)"
proof (cases err)
  case None
  then have "\<exists>raw u t. unwrapVTState sha snapshot = Inr raw \<and> gt_decode L raw = Inr u \<and>
      configure L (scrollbackMaxBytes v) u = Inr t \<and>
      v' = refreshReportedPwdLocked L low host (v\<lparr>vt_terminal := Some t\<rparr>)"
    using assms by (auto simp: RestoreState_def split: sum.splits option.splits if_splits)
  with None show thesis using restored by blast
next
  case (Some e)
  then have "v' = v"
    using assms by (auto simp: RestoreState_def split: sum.splits option.splits if_splits)
  with Some show thesis using failed by blast
qed


lemma demo_new: "newVTTerminalWithOptions demo_vt 80 24 1 = Inr demo_terminal"
  by (simp add: newVTTerminalWithOptions_def configure_def setScrollbackMaxBytes_def enableContinuationTracking_def
      demo_vt_def demo_terminal_def maxTerminalDimension_def resolvedScrollbackMaxBytes_def)


end
