(* ===== verification/Session_Facts.thy ===== *)
theory Session_Facts
  imports Session Reader_Stream Log_Reopen Terminal_Facts
begin

text \<open>
  What ties the three records of a session's output together: the log, the emulated
  terminal and the sizes. Every operation of a session is shown to be a sequence of log
  operations together with a sequence of operations on the terminal in which the terminal
  is fed exactly the bytes that the log accepts; from this follows that a checkpoint and an
  atomic state describe the output up to exactly the cursor that comes with them.
\<close>

section \<open>Session histories\<close>

datatype sess_op =
    Copied pty_event
  | Drained "pty_event list"
  | Resized "go_error option" bool "pty_event list" "go_error option" size
  | Captured "go_error option" bool
  | Rotated "go_error option" "go_error option"
  | Pruned "go_error option" "bytes \<Rightarrow> go_error option" "u64 list" cursor
  | Terminated "go_error option" bool bool bool
  | Finished "go_error option"

fun sess_exec :: "'t platform \<Rightarrow> sess_op \<Rightarrow> 't sessionState \<times> disk \<Rightarrow> 't sessionState \<times> disk" where
  "sess_exec P (Copied ev) (st, d) = snd (copy_turn P ev st d)"
| "sess_exec P (Drained evs) (st, d) = snd (drainOutput P 0 evs st d)"
| "sess_exec P (Resized ctx cur evs setsize sz) (st, d) = snd (session_resize P ctx cur evs setsize sz st d)"
| "sess_exec P (Captured ctx cur) (st, d) = (snd (session_atomicState P ctx cur st), d)"
| "sess_exec P (Rotated ctx fault) (st, d) = snd (session_rotateOutput ctx fault st d)"
| "sess_exec P (Pruned ctx faults order before) (st, d) = snd (session_pruneOutput ctx faults order before st d)"
| "sess_exec P (Terminated ctx cur reap1 reap2) (st, d) = (snd (snd (session_terminate ctx cur reap1 reap2 st)), d)"
| "sess_exec P (Finished waited) (st, d) = (copy_finish waited st, d)"

definition sess_run :: "'t platform \<Rightarrow> sess_op list \<Rightarrow> 't sessionState \<times> disk \<Rightarrow> 't sessionState \<times> disk" where
  "sess_run P ops s = foldl (\<lambda>s op. sess_exec P op s) s ops"

text \<open>What happens to the terminal: output at a time, a new grid, an encoding with its repair, the end.\<close>

datatype vt_event = Out int bytes | Grid int int | Encoded | VtClosed

fun vt_apply :: "'t platform \<Rightarrow> 't vtTerminal \<Rightarrow> vt_event \<Rightarrow> 't vtTerminal" where
  "vt_apply P v (Out now data) = terminal_Feed (vtlib P) (lowercase P) (hostName P) now data v"
| "vt_apply P v (Grid cols rows) = terminal_Resize (vtlib P) cols rows v"
| "vt_apply P v Encoded = snd (encodeAtomicState (vtlib P) v)"
| "vt_apply P v VtClosed = terminal_Close v"

fun out_bytes :: "vt_event list \<Rightarrow> bytes" where
  "out_bytes [] = []"
| "out_bytes (Out now data # evs) = data @ out_bytes evs"
| "out_bytes (ev # evs) = out_bytes evs"

lemma out_bytes_append [simp]: "out_bytes (a @ b) = out_bytes a @ out_bytes b"
  by (induction a rule: out_bytes.induct) auto

text \<open>The bytes that a sequence of log operations adds to the log.\<close>

fun stored_by :: "log_op \<Rightarrow> outputLog \<times> disk \<Rightarrow> bytes" where
  "stored_by (Append oc data) (l, d) = (if fst (log_append oc l d data) = None then data else [])"
| "stored_by op s = []"

fun stored_all :: "log_op list \<Rightarrow> outputLog \<times> disk \<Rightarrow> bytes" where
  "stored_all [] s = []"
| "stored_all (op # ops) s = stored_by op s @ stored_all ops (log_exec op s)"

lemma log_run_append: "log_run (a @ b) s = log_run b (log_run a s)"
  by (induction a arbitrary: s) auto

lemma stored_all_append: "stored_all (a @ b) s = stored_all a s @ stored_all b (log_run a s)"
  by (induction a arbitrary: s) auto

section \<open>Every operation keeps log and terminal together\<close>

definition effect :: "'t platform \<Rightarrow> 't sessionState \<times> disk \<Rightarrow> 't sessionState \<times> disk \<Rightarrow> bool" where
  "effect P s s' \<longleftrightarrow> (\<exists>ops evs.
     log_run ops (st_output (fst s), snd s) = (st_output (fst s'), snd s') \<and>
     st_vt (fst s') = foldl (vt_apply P) (st_vt (fst s)) evs \<and>
     out_bytes evs = stored_all ops (st_output (fst s), snd s))"

lemma effect_refl [simp]: "effect P s s"
  unfolding effect_def by (intro exI [of _ "[]"]) simp

lemma effect_trans: "effect P a b \<Longrightarrow> effect P b c \<Longrightarrow> effect P a c"
  unfolding effect_def
  by (elim exE conjE, rule_tac x = "ops @ opsa" in exI, rule_tac x = "evs @ evsa" in exI)
    (simp add: log_run_append stored_all_append)

lemma effect_same: "st_output st' = st_output st \<Longrightarrow> st_vt st' = st_vt st \<Longrightarrow> effect P (st, d) (st', d)"
  unfolding effect_def by (intro exI [of _ "[]"]) simp

lemma effect_log:
  assumes "log_exec op (st_output st, d) = (l, d')" and "stored_by op (st_output st, d) = []"
  shows "effect P (st, d) (st\<lparr>st_output := l\<rparr>, d')"
  unfolding effect_def using assms by (intro exI [of _ "[op]"] exI [of _ "[]"]) simp

lemma effect_vt:
  assumes "out_bytes [ev] = []"
  shows "effect P (st, d) (st\<lparr>st_vt := vt_apply P (st_vt st) ev\<rparr>, d)"
  unfolding effect_def using assms by (intro exI [of _ "[]"] exI [of _ "[ev]"]) simp

lemma effect_record:
  assumes "record_chunk P now oc chunk st d = (r, st', d')"
  shows "effect P (st, d) (st', d')"
proof -
  obtain e l d1 where app: "log_append oc (st_output st) d chunk = (e, l, d1)" by (metis prod_cases3)
  show ?thesis
  proof (cases e)
    case None
    with app assms show ?thesis
      unfolding effect_def
      by (intro exI [of _ "[Append oc chunk]"] exI [of _ "[Out now chunk]"]) (auto simp: record_chunk_def)
  next
    case (Some x)
    then have "st' = st\<lparr>st_output := l\<rparr>" "d' = d1" using app assms by (auto simp: record_chunk_def)
    then show ?thesis using effect_log [of "Append oc chunk" st d l d1 P] app Some by simp
  qed
qed

lemma effect_maybe_record:
  "(if chunk \<noteq> [] then record_chunk P now oc chunk st d else (None, st, d)) = (r, st', d') \<Longrightarrow> effect P (st, d) (st', d')"
  by (auto intro: effect_record split: if_splits)

lemma effect_drain:
  "drainOutput P drained evs st d = (r, st', d') \<Longrightarrow> effect P (st, d) (st', d')"
proof (induction P drained evs st d rule: drainOutput.induct)
  case (2 P drained ev evs st d)
  show ?case
  proof (cases "drained \<ge> migrationDrainBudget \<or> (\<forall>c e oc now. ev \<noteq> ReadGot c e oc now)")
    case True
    then show ?thesis using 2(2) by (auto split: pty_event.splits if_splits)
  next
    case False
    then obtain chunk readErr oc now where ev: "ev = ReadGot chunk readErr oc now" "\<not> drained \<ge> migrationDrainBudget" by auto
    obtain e st1 d1 where rec: "(if chunk \<noteq> [] then record_chunk P now oc chunk st d else (None, st, d)) = (e, st1, d1)"
      by (metis prod_cases3)
    note one = effect_maybe_record [OF rec]
    show ?thesis
    proof (cases "e = None \<and> readErr = None")
      case True
      then have "drainOutput P (drained + length chunk) evs st1 d1 = (r, st', d')" using 2(2) ev rec by simp
      with 2(1) [of chunk readErr oc now e "(st1, d1)" st1 d1] ev True rec one show ?thesis
        by (auto intro: effect_trans)
    next
      case no: False
      then show ?thesis using 2(2) ev rec one by (auto split: option.splits)
    qed
  qed
qed simp

lemma effect_drain_resize:
  "drain_resize_loop P drained evs st d = (r, st', d') \<Longrightarrow> effect P (st, d) (st', d')"
proof (induction P drained evs st d rule: drain_resize_loop.induct)
  case (2 P drained ev evs st d)
  show ?case
  proof (cases "drained \<ge> resizeDrainBudget \<or> (\<forall>c e oc now. ev \<noteq> ReadGot c e oc now)")
    case True
    then show ?thesis using 2(2) by (auto split: pty_event.splits if_splits)
  next
    case False
    then obtain chunk readErr oc now where ev: "ev = ReadGot chunk readErr oc now" "\<not> drained \<ge> resizeDrainBudget" by auto
    obtain e st1 d1 where rec: "(if chunk \<noteq> [] then record_chunk P now oc chunk st d else (None, st, d)) = (e, st1, d1)"
      by (metis prod_cases3)
    note one = effect_maybe_record [OF rec]
    show ?thesis
    proof (cases "e = None \<and> \<not> (readErr \<noteq> None \<or> chunk = [])")
      case True
      then have "drain_resize_loop P (drained + length chunk) evs st1 d1 = (r, st', d')" using 2(2) ev rec by simp
      with 2(1) [of chunk readErr oc now e "(st1, d1)" st1 d1] ev True rec one show ?thesis
        by (auto intro: effect_trans)
    next
      case no: False
      then show ?thesis using 2(2) ev rec one by (auto split: option.splits if_splits)
    qed
  qed
qed simp

lemma effect_mark: "effect P (st, d) (st\<lparr>st_output := log_markSize (st_output st) sz\<rparr>, d)"
  using effect_log [of "MarkSize sz" st d] by simp

lemma effect_close: "effect P (st, d) (st\<lparr>st_output := log_close err (st_output st)\<rparr>, d)"
  using effect_log [of "CloseLog err" st d] by simp

lemma effect_state_close: "effect P (st, d) (state_close st, d)"
proof -
  let ?st1 = "st\<lparr>st_output := log_close None (st_output st)\<rparr>"
  let ?st2 = "?st1\<lparr>st_vt := terminal_Close (st_vt st)\<rparr>"
  have "effect P (?st1, d) (?st2, d)" using effect_vt [of VtClosed P ?st1 d] by simp
  then have "effect P (st, d) (?st2, d)" using effect_close effect_trans by blast
  moreover have "effect P (?st2, d) (state_close st, d)" if "\<not> st_closeOnce st"
    using that by (intro effect_same) (simp_all add: state_close_def)
  ultimately show ?thesis by (cases "st_closeOnce st") (auto simp: state_close_def intro: effect_trans)
qed

lemma effect_resize:
  assumes "session_resize P ctx cur evs setsize sz st d = (r, st', d')"
  shows "effect P (st, d) (st', d')"
proof -
  obtain e st1 d1 where dr: "drainResizeOutput P evs st d = (e, st1, d1)" by (metis prod_cases3)
  have drained: "effect P (st, d) (st1, d1)"
    using dr effect_drain_resize by (auto simp: drainResizeOutput_def split: if_splits)
  let ?st2 = "st1\<lparr>st_vt := terminal_Resize (vtlib P) (Columns sz) (Rows sz) (st_vt st1)\<rparr>"
  have resized: "effect P (st, d) (?st2, d1)"
    using effect_trans [OF drained, of "(?st2, d1)"] effect_vt [of "Grid (Columns sz) (Rows sz)" P st1 d1] by simp
  have marked: "effect P (st, d) (?st2\<lparr>st_size := sz, st_output := log_markSize (st_output ?st2) sz\<rparr>, d1)"
    using effect_trans [OF resized effect_mark [of P ?st2 d1 sz]]
      effect_same [of "?st2\<lparr>st_size := sz, st_output := log_markSize (st_output ?st2) sz\<rparr>"
        "?st2\<lparr>st_output := log_markSize (st_output ?st2) sz\<rparr>" P d1]
    by (auto intro: effect_trans)
  show ?thesis
    using assms dr drained resized marked
    by (auto simp: session_resize_def Let_def split: option.splits sum.splits if_splits)
qed

lemma effect_exec:
  assumes "sess_exec P op (st, d) = (st', d')"
  shows "effect P (st, d) (st', d')"
proof (cases op)
  case (Copied ev)
  then show ?thesis
    using assms effect_maybe_record
    by (cases ev) (auto simp: copy_turn_def split: prod.splits dest!: effect_maybe_record)
next
  case (Drained evs)
  then show ?thesis using assms effect_drain by (metis prod.collapse sess_exec.simps(2))
next
  case (Resized ctx cur evs setsize sz)
  then show ?thesis using assms effect_resize by (metis prod.collapse sess_exec.simps(3))
next
  case (Captured ctx cur)
  have "effect P (st, d) (st\<lparr>st_vt := snd (encodeAtomicState (vtlib P) (st_vt st))\<rparr>, d)"
    using effect_vt [of Encoded P st d] by simp
  then show ?thesis
    using assms Captured by (auto simp: session_atomicState_def split: option.splits sum.splits prod.splits if_splits)
next
  case (Rotated ctx fault)
  then show ?thesis
    using assms effect_log [of "Rotate fault" st d]
    by (auto simp: session_rotateOutput_def split: option.splits prod.splits)
next
  case (Pruned ctx faults order before)
  then show ?thesis
    using assms effect_log [of "Prune faults order before" st d]
    by (auto simp: session_pruneOutput_def split: option.splits prod.splits)
next
  case (Terminated ctx cur reap1 reap2)
  then show ?thesis
    using assms effect_state_close
    by (auto simp: session_terminate_def terminate_def Let_def split: option.splits if_splits)
next
  case (Finished waited)
  have "effect P (st\<lparr>st_output := log_close None (st_output st)\<rparr>, d) (copy_finish waited st, d)"
    by (rule effect_same) (simp_all add: copy_finish_def Let_def)
  from effect_trans [OF effect_close this] show ?thesis using assms Finished by simp
qed

lemma effect_run: "sess_run P ops s = s' \<Longrightarrow> effect P s s'"
proof (induction ops arbitrary: s)
  case (Cons op ops)
  obtain st d st1 d1 where "s = (st, d)" "sess_exec P op s = (st1, d1)" by (metis prod.collapse)
  with Cons effect_exec [of P op st d st1 d1] show ?case
    by (auto simp: sess_run_def intro: effect_trans)
qed (simp add: sess_run_def)

section \<open>The bytes of the log\<close>

definition log_bytes :: "(u64 \<Rightarrow> bytes) \<Rightarrow> outputLog \<Rightarrow> bytes" where
  "log_bytes H l = bytes_upto H 1 (log_end l)"

definition earlier :: "(u64 \<Rightarrow> bytes) \<Rightarrow> u64 \<Rightarrow> bytes" where
  "earlier H g = concat (map (\<lambda>k. H (of_nat k)) [1..<unat g])"

lemma log_bytes_whole:
  assumes "hist_inv l d H"
  shows "log_bytes H l = earlier H (log_generation l) @ H (log_generation l)"
proof -
  obtain s where s: "segments l (log_generation l) = Some s" using log_invD(2) [OF hist_invD(1) [OF assms]] by blast
  have "unat (seg_size s) = length (H (log_generation l))"
    using segment_content [OF hist_invD(1) [OF assms] s] hist_invD(3) [OF assms] by force
  then show ?thesis using s by (simp add: log_bytes_def bytes_upto_def earlier_def log_end_def segment_at_def)
qed

lemma earlier_next: "0 < g \<Longrightarrow> unat (g + 1) = Suc (unat g) \<Longrightarrow> earlier H (g + 1) = earlier H g @ H g"
  by (simp add: earlier_def Suc_le_eq word_less_nat_alt)

lemma log_bytes_exec:
  assumes hist: "hist_inv l d H" and run: "log_exec op (l, d) = (l', d')"
  shows "log_bytes (grow_hist l' d' H) l' = log_bytes H l @ stored_by op (l, d)"
proof -
  let ?H = "grow_hist l' d' H" and ?g = "log_generation l"
  note hist' = hist_inv_exec [OF hist run]
  have inv: "log_inv l d" using hist_invD(1) [OF hist] .
  have old: "earlier ?H ?g = earlier H ?g"
    unfolding earlier_def
  proof (intro arg_cong [of _ _ concat] map_cong)
    fix k assume "k \<in> set [1..<unat ?g]"
    then have k: "k < unat ?g" by simp
    then have "(of_nat k :: u64) < ?g"
      using unat_u64_less [of ?g] by (simp add: word_less_nat_alt unat_of_nat_u64)
    then show "?H (of_nat k) = H (of_nat k)" using grow_hist_prefix(2) [OF hist run] by simp
  qed simp
  obtain x where x: "content l d ?g = Some x" "H ?g = x"
    using content_current [OF inv] hist_invD(3) [OF hist] by fastforce
  from run show ?thesis
  proof (cases rule: log_exec_cases)
    case (append oc data r)
    have same: "log_generation l' = ?g" using log_append_same [OF append(2)] by simp
    have "content l' d' ?g = Some (x @ (if r = None then data else []))"
      using log_append_content [OF inv append(2), of ?g] x(1) by simp
    then have "?H ?g = H ?g @ (if r = None then data else [])" using x(2) by (simp add: grow_hist_def)
    then show ?thesis
      using log_bytes_whole [OF hist] log_bytes_whole [OF hist'] old same append by simp
  next
    case (rotate fault c)
    note content = log_rotate_content [OF inv rotate(2)]
    show ?thesis
    proof (cases "log_generation l' = ?g")
      case True
      have "?H ?g = H ?g" using content [of ?g] x True by (auto simp: grow_hist_def)
      then show ?thesis using log_bytes_whole [OF hist] log_bytes_whole [OF hist'] old rotate(1) True by simp
    next
      case False
      then have gen: "log_generation l' = ?g + 1" "?g < log_generation l'"
        using log_exec_generation [OF inv run] by auto
      have "?H ?g = H ?g" using content [of ?g] x gen by (auto simp: grow_hist_def)
      moreover have "?H (log_generation l') = []"
        using content [of "log_generation l'"] False by (simp add: grow_hist_def)
      moreover have "unat (?g + 1) = Suc (unat ?g)"
        using gen unat_Suc_u64 [of ?g] less_u64_Suc_nonzero [of ?g] by simp
      ultimately show ?thesis
        using log_bytes_whole [OF hist] log_bytes_whole [OF hist'] old rotate(1) gen(1)
          earlier_next [OF log_generation_pos [OF inv]] by simp
    qed
  next
    case (prune faults order before r)
    have "log_generation l' = ?g" using inv prune(2) by (cases rule: log_prune_cases) auto
    moreover have "?H ?g = H ?g"
      using log_prune_content [OF inv prune(2), of ?g] x by (auto simp: grow_hist_def)
    ultimately show ?thesis
      using log_bytes_whole [OF hist] log_bytes_whole [OF hist'] old prune(1) by simp
  next
    case (mark sz)
    then have "?H ?g = H ?g" using x content_frame [of l' l d' ?g] by (simp add: grow_hist_def)
    then show ?thesis using log_bytes_whole [OF hist] log_bytes_whole [OF hist'] old mark by simp
  next
    case (close err)
    then have "?H ?g = H ?g" using x content_frame [of l' l d' ?g] by (simp add: grow_hist_def)
    then show ?thesis using log_bytes_whole [OF hist] log_bytes_whole [OF hist'] old close by simp
  qed
qed

lemma log_bytes_run:
  assumes "hist_inv l d H" and "log_run ops (l, d) = (l', d')"
  shows "\<exists>H'. hist_inv l' d' H' \<and> log_bytes H' l' = log_bytes H l @ stored_all ops (l, d)"
  using assms
proof (induction ops arbitrary: l d H)
  case (Cons op ops)
  obtain l1 d1 where run: "log_exec op (l, d) = (l1, d1)" by fastforce
  from Cons.IH [OF hist_inv_exec [OF Cons.prems(1) run]] Cons.prems(2) run log_bytes_exec [OF Cons.prems(1) run]
  show ?case by (auto simp del: log_exec.simps)
qed auto

section \<open>Checkpoints\<close>

text \<open>
  What the creation of a log may rely on: \<^verbatim>\<open>os.MkdirTemp\<close> made a directory in which there is
  nothing yet, and \<^verbatim>\<open>os.ReadDir\<close> lists the files that are in it.
\<close>

definition sound_start :: "start_env \<Rightarrow> disk \<Rightarrow> bool" where
  "sound_start env d \<longleftrightarrow> (\<exists>dir. mkdirTemp env = Inr dir \<and> disk_inv d \<and> fresh_dir dir d \<and>
     (\<forall>l d1 entries. createOutputLog (Inr dir) (logEnv env) d = (Inr l, d1) \<longrightarrow>
        readdir (logEnv env) = Inr entries \<longrightarrow> lists_dir dir d1 entries))"

text \<open>A session that was just started: its log is empty and its terminal new.\<close>

lemma startSession_fresh:
  assumes "startSession P ctx env name process sz defaultTerm scrollback d = (Inr st, d')"
    and "sound_start env d"
  shows "\<exists>H. hist_inv (st_output st) d' H \<and> log_bytes H (st_output st) = []"
    and "newVTTerminalWithOptions (vtlib P) (Columns sz) (Rows sz) scrollback = Inr (st_vt st)"
proof -
  obtain dir where dir: "mkdirTemp env = Inr dir" "disk_inv d" "fresh_dir dir d"
    and lists: "\<And>l d1 entries. createOutputLog (Inr dir) (logEnv env) d = (Inr l, d1) \<Longrightarrow>
      readdir (logEnv env) = Inr entries \<Longrightarrow> lists_dir dir d1 entries"
    using assms(2) unfolding sound_start_def by blast
  obtain l where l: "createOutputLog (Inr dir) (logEnv env) d = (Inr l, d')" "st_output st = log_markSize l sz"
    and vt: "newVTTerminalWithOptions (vtlib P) (Columns sz) (Rows sz) scrollback = Inr (st_vt st)"
    using assms(1) dir(1) by (auto simp: startSession_def Let_def split: option.splits sum.splits prod.splits)
  show "newVTTerminalWithOptions (vtlib P) (Columns sz) (Rows sz) scrollback = Inr (st_vt st)" by (fact vt)
  from createOutputLog_reopenable [OF l(1) dir(2,3) lists [OF l(1)]]
  have start: "log_inv l d'" "canonical l" "log_generation l = 1"
    by (auto simp: reopenable_def canonical_def)
  let ?H = "grow_hist l d' (\<lambda>_. [])"
  have hist: "hist_inv l d' ?H" using hist_inv_start [OF start(1,2)] .
  have "log_bytes ?H l = []"
    using log_bytes_whole [OF hist] createOutputLog_blank [OF l(1)] start(3) by (simp add: earlier_def grow_hist_def)
  moreover have "log_exec (MarkSize sz) (l, d') = (st_output st, d')" using l(2) by simp
  ultimately show "\<exists>H. hist_inv (st_output st) d' H \<and> log_bytes H (st_output st) = []"
    using hist_inv_exec [OF hist] log_bytes_exec [OF hist] by fastforce
qed

text \<open>\<open>records\<close>: the terminal is what the output up to the cursor makes of the terminal the session began with.\<close>

definition records :: "'t platform \<Rightarrow> 't vtTerminal \<Rightarrow> 't sessionState \<Rightarrow> disk \<Rightarrow> cursor \<Rightarrow> bool" where
  "records P vt0 st d c \<longleftrightarrow> (\<exists>H evs.
     (\<forall>g x. content (st_output st) d g = Some x \<longrightarrow> H g = x) \<and>
     st_vt st = foldl (vt_apply P) vt0 evs \<and> out_bytes evs = bytes_upto H 1 c)"

lemma session_records:
  assumes "hist_inv (st_output st0) d0 H0" and "log_bytes H0 (st_output st0) = []"
    and "sess_run P ops (st0, d0) = (st, d)"
  shows "records P (st_vt st0) st d (log_end (st_output st))"
proof -
  obtain lops evs where "log_run lops (st_output st0, d0) = (st_output st, d)"
      and vt: "st_vt st = foldl (vt_apply P) (st_vt st0) evs" "out_bytes evs = stored_all lops (st_output st0, d0)"
    using effect_run [OF assms(3)] by (auto simp: effect_def)
  then obtain H where "hist_inv (st_output st) d H" "log_bytes H (st_output st) = out_bytes evs"
    using log_bytes_run [OF assms(1)] assms(2) by fastforce
  with vt show ?thesis unfolding records_def
    by (intro exI [of _ H] exI [of _ evs]) (auto simp: log_bytes_def dest: hist_invD(3))
qed

text \<open>
  C2. A checkpoint is atomic: after any sequence of PTY reads, resizes, captures, rotations,
  prunes and terminations of a session, with whatever faults, the cursor of a checkpoint is
  the end of the output log, its replay is a screen reset followed by the rendered terminal,
  and this terminal is the result of feeding to the terminal the session started with exactly
  the bytes that the log holds up to that cursor, in their order, resizes in between. A
  reader that starts at the cursor thus gets exactly the output that the replay does not show.
\<close>

theorem checkpoint_atomic:
  assumes "startSession P ctx env name process sz defaultTerm scrollback d = (Inr st0, d0)"
    and "sound_start env d"
    and "sess_run P ops (st0, d0) = (st, d')"
    and "session_checkpoint P ctx' cur st = Inr (replay, c)"
  shows "\<exists>vt0 snapshot. newVTTerminalWithOptions (vtlib P) (Columns sz) (Rows sz) scrollback = Inr vt0 \<and>
     records P vt0 st d' c \<and> c = log_end (st_output st) \<and>
     Snapshot (vtlib P) (st_vt st) = Inr snapshot \<and> replay = clearScreen @ snapshot"
proof -
  note fresh = startSession_fresh [OF assms(1,2)]
  have "records P (st_vt st0) st d' (log_end (st_output st))"
    using fresh(1) session_records [OF _ _ assms(3)] by blast
  then show ?thesis
    using assms(4) fresh(2)
    by (auto simp: session_checkpoint_def guarded_def captureLocked_def log_cursor_def log_end_def
        split: option.splits sum.splits if_splits)
qed

definition demo_platform :: "bytes platform" where
  "demo_platform = \<lparr>vtlib = demo_vt, lowercase = id, hostName = None, sha256 = (\<lambda>_. replicate 32 NUL)\<rparr>"

definition demo_env :: start_env where
  "demo_env = \<lparr>mkdirTemp = Inr ''/t'', logEnv = listing1 0, wakePipe = None, osEnviron = [], osShell = ''sh'',
     startPty = (\<lambda>_ _. Inr (7, 3)), startTime = 0\<rparr>"

definition demo_session :: "bytes sessionState" where
  "demo_session = \<lparr>st_name = ''s'', st_command = True, st_pid = 7, st_masterFD = 3, st_size = (Size 80 24),
     st_master = True, st_output = log_markSize demo_log (Size 80 24), st_vt = demo_terminal,
     st_scrollback = 1, st_createdAt = 0, st_waitErr = None, st_closeOnce = False, st_done = False,
     st_reaped = False, st_migrated = False\<rparr>"

lemma demo_start:
  "startSession demo_platform None demo_env ''s'' process (Size 80 24) [] 1 demo_disk = (Inr demo_session, demo_disk1)"
  by (simp add: startSession_def demo_env_def demo_platform_def demo_new demo_create demo_session_def)

lemma demo_sound: "sound_start demo_env demo_disk"
  using demo_fresh demo_create demo_listing by (auto simp: sound_start_def demo_env_def)

lemma demo_fed: "vt_terminal (terminal_Feed demo_vt id None 0 ''hi'' demo_terminal) = Some ''hi''"
  by code_simp

theorem checkpoint_atomic_witness:
  "\<exists>st d' c. sess_run demo_platform [Copied (ReadGot ''hi'' None WriteOK 0)] (demo_session, demo_disk1) = (st, d') \<and>
     session_checkpoint demo_platform None True st = Inr (clearScreen @ ''hi'', c) \<and>
     records demo_platform demo_terminal st d' c"
proof -
  obtain st d' where run: "sess_run demo_platform [Copied (ReadGot ''hi'' None WriteOK 0)] (demo_session, demo_disk1) = (st, d')"
    by fastforce
  then have "st_vt st = terminal_Feed demo_vt id None 0 ''hi'' demo_terminal" "log_err (st_output st) = None"
    by (auto simp: sess_run_def copy_turn_def record_chunk_def log_eval demo_session_def demo_log_def demo_disk1_def
        demo_platform_def)
  then have "Snapshot demo_vt (st_vt st) = Inr ''hi''" "log_cursor (st_output st) = Inr (log_end (st_output st))"
    by (auto simp: Snapshot_def demo_fed log_cursor_def log_end_def) (simp add: demo_vt_def)
  then obtain c where check: "session_checkpoint demo_platform None True st = Inr (clearScreen @ ''hi'', c)"
    by (simp add: session_checkpoint_def guarded_def captureLocked_def demo_platform_def)
  show ?thesis
    using checkpoint_atomic [OF demo_start demo_sound run check] run check demo_new
    by (fastforce simp: demo_platform_def)
qed

end
