(* ===== verification/Upgrade.thy ===== *)
theory Upgrade
  imports Adoption_Facts Admin_Facts Session_Facts
begin

text \<open>
  Both servers of a rolling upgrade together: the adoption of the new server runs against the
  admin handler of the old one. The requests other than a commit leave the inventory of the old
  server alone, and a commit that is answered moves what it names, so that every session has
  exactly one owner in the end.
\<close>

section \<open>The old server behind the admin socket\<close>

text \<open>The handler, the descriptors on the way to the client, and whether the connection is open.\<close>

record 't old_server =
  os_admin :: "'t admin_state"
  os_fds :: "int list"
  os_open :: bool

fun sent_response :: "admin_action list \<Rightarrow> (adminResponse \<times> int) option" where
  "sent_response [] = None"
| "sent_response (Sent r fd # as) = Some (r, fd)"
| "sent_response (a # as) = sent_response as"

text \<open>\<open>Es q\<close> is the environment of the turn for request \<open>q\<close>. A response whose write fails does not arrive.\<close>

definition admin_ask ::
  "'t platform \<Rightarrow> admin_codec \<Rightarrow> (adminRequest \<Rightarrow> admin_env) \<Rightarrow> adminRequest \<Rightarrow> 't old_server \<Rightarrow>
   (go_error + adminResponse) \<times> 't old_server" where
  "admin_ask P K Es q s =
     (if \<not> os_open s then (Inl (Sentinel EOF), s)
      else (case admin_turn P K (Es q) q (os_admin s) of (g, acts, a) \<Rightarrow>
        (let s1 = (if g then s\<lparr>os_admin := a\<rparr> else s\<lparr>os_admin := snd (admin_close a), os_open := False\<rparr>) in
         case sent_response acts of
           None \<Rightarrow> (Inl (Sentinel EOF), s1)
         | Some (resp, fd) \<Rightarrow>
             (case ae_write (Es q) resp fd of
                Some e \<Rightarrow> (Inl (Sentinel EOF), s1)
              | None \<Rightarrow> (Inr resp, s1\<lparr>os_fds := os_fds s1 @ (if fd \<ge> 0 then [fd] else [])\<rparr>)))))"

definition admin_peer ::
  "'t platform \<Rightarrow> admin_codec \<Rightarrow> (adminRequest \<Rightarrow> admin_env) \<Rightarrow> 't old_server transport" where
  "admin_peer P K Es =
     \<lparr>tr_ask = admin_ask P K Es,
      tr_takeFD = (\<lambda>s. case os_fds s of [] \<Rightarrow> (Inl (Sentinel EOF), s) | fd # fds \<Rightarrow> (Inr fd, s\<lparr>os_fds := fds\<rparr>)),
      tr_received = os_fds\<rparr>"

definition os_sessions :: "'t old_server \<Rightarrow> bytes \<rightharpoonup> nat" where
  "os_sessions s = h_sessions (as_hub (os_admin s))"

section \<open>Requests that do not commit\<close>

text \<open>The interface: a peer with something that only a commit changes.\<close>

locale passive_peer =
  fixes T :: "'s transport" and seen :: "'s \<Rightarrow> 'v"
  assumes ask_seen: "tr_ask T q s = (r, s') \<Longrightarrow> aq_Method q \<noteq> ''commit'' \<Longrightarrow> seen s' = seen s"
    and take_seen: "tr_takeFD T s = (x, s') \<Longrightarrow> seen s' = seen s"
begin

lemma call_seen:
  assumes "admin_call T ctx late meth params decoder c = (r, c')" and "meth \<noteq> ''commit''"
  shows "seen (ac_peer c') = seen (ac_peer c)"
  using assms by (auto simp: admin_call_def Let_def dest: ask_seen split: option.splits sum.splits prod.splits if_splits)

lemma abort_seen [simp]: "seen (ac_peer (abortSingle T Q name c)) = seen (ac_peer c)"
proof -
  obtain r c1 where "admin_call T None None ''abort'' (enc_batchParams Q [name]) (\<lambda>_. Inr ()) c = (r, c1)" by (metis surj_pair)
  with call_seen [OF this] show ?thesis by (simp add: abortSingle_def)
qed

lemma closeFile_seen [simp]: "ac_peer (closeFile master c) = ac_peer c"
  by (simp add: closeFile_def split: option.split)

lemma receive_seen:
  assumes "receiveAdoptedSession T Q A name c = (r, c')"
  shows "seen (ac_peer c') = seen (ac_peer c)"
  using assms by (auto simp: receiveAdoptedSession_def Let_def dest!: call_seen take_seen split: sum.splits prod.splits if_splits)

lemma adopt_one_seen:
  assumes "adopt_one T Q P A v0 fallback listed c = (r, c')"
  shows "seen (ac_peer c') = seen (ac_peer c)"
  using assms
  by (auto simp: adopt_one_def adopt_v0_def adopt_v1_def Let_def dest!: call_seen receive_seen
      split: sum.splits prod.splits if_splits)

lemma adopt_all_seen:
  "adopt_all T Q P A v0 fallback ms batch c = (batch', c') \<Longrightarrow> seen (ac_peer c') = seen (ac_peer c)"
proof (induction ms arbitrary: batch c)
  case (Cons m ms)
  obtain prepared names skipped where batch: "batch = (prepared, names, skipped)" by (metis prod_cases3)
  obtain r c1 where one: "adopt_one T Q P A v0 fallback (sm_Name m) c = (r, c1)" by (metis surj_pair)
  show ?case using Cons.prems Cons.IH [of _ c1] batch one adopt_one_seen [OF one] by (auto split: sum.splits)
qed simp

lemma rollback_seen: "seen (ac_peer (rollback T Q prepared names c)) = seen (ac_peer c)"
proof -
  obtain r c1 where "admin_call T None None ''abort'' (enc_batchParams Q names) (\<lambda>_. Inr ()) c = (r, c1)" by (metis surj_pair)
  with call_seen [OF this] show ?thesis by (simp add: rollback_def)
qed

end

lemma first_error_abort: "first_error (map ((\<lambda>n. resolveAdoption E n False) \<circ> f) ns) = None"
  by (induction ns) (simp_all add: resolveAdoption_def)

lemma endBatchIfIdle_hub: "endBatchIfIdle s = (acts, s') \<Longrightarrow> as_hub s' = as_hub s"
  by (auto simp: endBatchIfIdle_def split: if_splits)

lemma admin_turn_keeps:
  assumes "admin_turn P K E q s = (g, acts, s')" and "aq_Method q \<noteq> ''commit''"
  shows "h_sessions (as_hub s') = h_sessions (as_hub s)"
proof -
  have "h_sessions (as_hub s') = h_sessions (as_hub s)" if "admin_list K E q s = (g, acts, s')"
    using that by (auto simp: admin_list_def split: if_splits sum.splits prod.splits)
  moreover have "h_sessions (as_hub s') = h_sessions (as_hub s)" if "admin_adopt K E q s = (g, acts, s')"
    using that by (cases rule: admin_adopt_cases) simp_all
  moreover have "h_sessions (as_hub s') = h_sessions (as_hub s)" if "admin_snapshot P K E q s = (g, acts, s')"
    using that by (auto simp: admin_snapshot_def Let_def split: sum.splits option.splits prod.splits)
  moreover have "h_sessions (as_hub s') = h_sessions (as_hub s)" if "admin_batch K E q s = (g, acts, s')"
    using that assms(2)
    by (auto simp: admin_batch_def Let_def first_error_abort fold_forget dest!: endBatchIfIdle_hub
        split: sum.splits option.splits prod.splits)
  moreover have "h_sessions (as_hub s') = h_sessions (as_hub s)" if "admin_exit K E q s = (g, acts, s')"
    using that by (auto simp: admin_exit_def split: if_splits prod.splits)
  ultimately show ?thesis using assms(1) by (simp add: admin_turn_def Let_def split: if_splits)
qed

interpretation peer: passive_peer "admin_peer P K Es" os_sessions
proof
  fix q s r s'
  assume "tr_ask (admin_peer P K Es) q s = (r, s')" "aq_Method q \<noteq> ''commit''"
  then show "os_sessions s' = os_sessions s"
    using admin_turn_keeps [of P K "Es q" q "os_admin s"]
    by (auto simp: admin_peer_def admin_ask_def os_sessions_def admin_close_def Let_def split: if_splits prod.splits option.splits)
next
  fix s x s'
  assume "tr_takeFD (admin_peer P K Es) s = (x, s')"
  then show "os_sessions s' = os_sessions s" by (auto simp: admin_peer_def os_sessions_def split: list.splits)
qed

section \<open>The commit\<close>

text \<open>The two codecs agree on the parameters and the result of a commit.\<close>

definition commit_codec :: "admin_codec \<Rightarrow> adopt_codec \<Rightarrow> bool" where
  "commit_codec K Q \<longleftrightarrow>
     (\<forall>ns b. enc_batchParams Q ns = Inr b \<longrightarrow> dec_batch K b = Inr ns) \<and>
     (\<forall>n. \<exists>b. enc_count K n = Inr b \<and> b \<noteq> [] \<and> dec_countResult Q b = Inr (int n))"

text \<open>The sessions answer a commit as their handoff protocol does, and the old server's answer arrives.\<close>

definition commit_env :: "(adminRequest \<Rightarrow> admin_env) \<Rightarrow> bool" where
  "commit_env Es \<longleftrightarrow> (\<forall>q. aq_Method q = ''commit'' \<longrightarrow>
     (\<forall>ns. protocol_answers (Es q) ns) \<and> (\<forall>resp fd. ae_write (Es q) resp fd = None))"

lemma sent_response_skips:
  "sent_response (map (\<lambda>n. Resolved n c) ns @ acts) = sent_response acts"
  "sent_response (map Removed ns @ acts) = sent_response acts"
  by (induction ns) simp_all

text \<open>
  A commit that is not refused at once reaches the handler: the sessions stay, and the
  response is an error, or they leave, and the response is their number.
\<close>

lemma commit_asked:
  assumes "commit_codec K Q" and "\<And>ns. protocol_answers E ns" and "enc_batchParams Q names = Inr b"
    and q: "q = \<lparr>aq_ID = i, aq_Method = ''commit'', aq_Params = b\<rparr>" and "admin_turn P K E q s = (g, acts, s')"
  shows "(\<exists>msg. sent_response acts = Some (\<lparr>ar_ID = i, ar_Result = [], ar_Error = msg\<rparr>, - 1)) \<and>
      h_sessions (as_hub s') = h_sessions (as_hub s) \<and> names \<noteq> [] \<or>
    (\<exists>x. sent_response acts = Some (\<lparr>ar_ID = i, ar_Result = x, ar_Error = []\<rparr>, - 1) \<and> x \<noteq> [] \<and>
      dec_countResult Q x = Inr (int (length names))) \<and>
      h_sessions (as_hub s') = h_sessions (as_hub s) |` (- set names)"
proof -
  have dec: "dec_batch K b = Inr names" using assms(1,3) by (auto simp: commit_codec_def)
  note turn = commit_turn [OF _ _ assms(2,5)]
  show ?thesis
  proof (cases "named_adoptions (as_pending s) [] names")
    case None
    then have "names \<noteq> []" by auto
    with None turn dec q show ?thesis by (auto simp: admin_error_def)
  next
    case (Some as)
    show ?thesis
    proof (cases "preflight E names")
      case unstable: (Some e)
      then have "names \<noteq> []" by auto
      moreover obtain thaw where "acts = map (\<lambda>n. Resolved n False) (filter (ae_current E) names) @ thaw @ [admin_error i (Error e)]"
        "set thaw \<subseteq> {Thawed}" "as_hub s' = as_hub s"
        using turn dec q Some unstable by auto
      moreover have "sent_response (thaw @ [admin_error i (Error e)]) =
          Some (\<lparr>ar_ID = i, ar_Result = [], ar_Error = Error e\<rparr>, - 1)" if "set thaw \<subseteq> {Thawed}" for thaw
        using that by (induction thaw) (auto simp: admin_error_def)
      ultimately show ?thesis by (simp add: sent_response_skips)
    next
      case None
      obtain x where x: "enc_count K (length names) = Inr x" "x \<noteq> []" "dec_countResult Q x = Inr (int (length names))"
        using assms(1) unfolding commit_codec_def by meson
      obtain thaw err sent where wr: "writeAdminResult E i (enc_count K (length names)) (- 1) = (err, sent)"
        and acts: "acts = map (\<lambda>n. Resolved n True) names @ map Removed names @ sent @ thaw"
        and hub: "as_hub s' = fold hub_remove names (as_hub s)"
        using turn dec q Some None by auto
      have "sent = [Sent \<lparr>ar_ID = i, ar_Result = x, ar_Error = []\<rparr> (- 1)]"
        using wr x(1) by (simp add: writeAdminResult_def Let_def)
      then show ?thesis using acts hub x(2,3) by (simp add: sent_response_skips fold_hub_remove)
    qed
  qed
qed

lemma admin_close_hub [simp]: "as_hub (snd (admin_close a)) = as_hub a"
  by (simp add: admin_close_def)

lemma ask_answer:
  assumes "os_open s" and "admin_turn P K (Es q) q (os_admin s) = (g, acts, a)" and "sent_response acts = Some (resp, - 1)"
  obtains s1 where "os_sessions s1 = h_sessions (as_hub a)"
    and "admin_ask P K Es q s = (case ae_write (Es q) resp (- 1) of None \<Rightarrow> Inr resp | Some e \<Rightarrow> Inl (Sentinel EOF), s1)"
proof (cases g)
  case True
  with assms that [of "s\<lparr>os_admin := a\<rparr>"] show thesis
    by (simp add: admin_ask_def os_sessions_def split: option.split)
next
  case False
  with assms that [of "s\<lparr>os_admin := snd (admin_close a), os_open := False\<rparr>"] show thesis
    by (simp add: admin_ask_def os_sessions_def split: option.split)
qed

lemma admin_call_answer:
  assumes "admin_call T None late meth (Inr p) decoder c = (r, c')"
    and "tr_ask T \<lparr>aq_ID = ac_nextID c, aq_Method = meth, aq_Params = p\<rparr> (ac_peer c) = (answer, s1)"
  shows "ac_peer c' = s1" and "answer = Inl e \<Longrightarrow> \<exists>e'. r = Inl e'"
    and "answer = Inr \<lparr>ar_ID = ac_nextID c, ar_Result = x, ar_Error = msg\<rparr> \<Longrightarrow>
      r = (if msg \<noteq> [] then Inl (Plain msg) else if x \<noteq> [] then map_sum id Some (decoder x) else Inr None)"
  using assms by (auto simp: admin_call_def Let_def split: sum.splits option.splits)

lemma commit_call:
  assumes "commit_codec K Q" and "commit_env Es"
    and "admin_call (admin_peer P K Es) ctx late ''commit'' (enc_batchParams Q names) (dec_countResult Q) c = (r, c')"
  shows "(r = Inr (Some (int (length names))) \<and> os_sessions (ac_peer c') = os_sessions (ac_peer c) |` (- set names)) \<or>
    ((r = Inr None \<and> names \<noteq> [] \<or> (\<exists>e. r = Inl e)) \<and> os_sessions (ac_peer c') = os_sessions (ac_peer c))"
proof (cases "ctx = None \<and> (\<exists>b. enc_batchParams Q names = Inr b) \<and> os_open (ac_peer c)")
  case False
  then show ?thesis
    using assms(3) by (cases "enc_batchParams Q names") (auto simp: admin_call_def admin_peer_def admin_ask_def split: option.splits)
next
  case True
  then obtain b where b: "enc_batchParams Q names = Inr b" by blast
  let ?q = "\<lparr>aq_ID = ac_nextID c, aq_Method = ''commit'', aq_Params = b\<rparr>" and ?s = "os_admin (ac_peer c)"
  obtain g acts s' where turn: "admin_turn P K (Es ?q) ?q ?s = (g, acts, s')" by (metis prod_cases3)
  have env: "\<And>ns. protocol_answers (Es ?q) ns" "\<And>resp fd. ae_write (Es ?q) resp fd = None"
    using assms(2) by (simp_all add: commit_env_def)
  note call = admin_call_answer [of "admin_peer P K Es" late "''commit''" b "dec_countResult Q" c r c']
  have run: "admin_call (admin_peer P K Es) None late ''commit'' (Inr b) (dec_countResult Q) c = (r, c')"
    using assms(3) True b by simp
  from commit_asked [OF assms(1) env(1) b refl turn] show ?thesis
  proof (elim disjE conjE exE)
    fix msg
    assume sent: "sent_response acts = Some (\<lparr>ar_ID = ac_nextID c, ar_Result = [], ar_Error = msg\<rparr>, - 1)"
      and hub: "h_sessions (as_hub s') = h_sessions (as_hub ?s)" and "names \<noteq> []"
    obtain s1 where s1: "os_sessions s1 = h_sessions (as_hub s')"
      "tr_ask (admin_peer P K Es) ?q (ac_peer c) = (Inr \<lparr>ar_ID = ac_nextID c, ar_Result = [], ar_Error = msg\<rparr>, s1)"
      using ask_answer [where Es = Es, OF _ turn sent] True env(2) by (auto simp: admin_peer_def)
    with call(1,3) [OF run s1(2)] hub \<open>names \<noteq> []\<close> show ?thesis by (simp add: os_sessions_def)
  next
    fix x
    assume hub: "h_sessions (as_hub s') = h_sessions (as_hub ?s) |` (- set names)"
      and sent: "sent_response acts = Some (\<lparr>ar_ID = ac_nextID c, ar_Result = x, ar_Error = []\<rparr>, - 1)"
      and x: "x \<noteq> []" "dec_countResult Q x = Inr (int (length names))"
    obtain s1 where s1: "os_sessions s1 = h_sessions (as_hub s')"
      "tr_ask (admin_peer P K Es) ?q (ac_peer c) = (Inr \<lparr>ar_ID = ac_nextID c, ar_Result = x, ar_Error = []\<rparr>, s1)"
      using ask_answer [where Es = Es, OF _ turn sent] True env(2) by (auto simp: admin_peer_def)
    with call(1,3) [OF run s1(2)] hub x show ?thesis by (simp add: os_sessions_def)
  qed
qed

text \<open>When no answer to a commit can be written, the client sees an error whatever happened.\<close>

definition commit_lost :: "(adminRequest \<Rightarrow> admin_env) \<Rightarrow> bool" where
  "commit_lost Es \<longleftrightarrow> (\<forall>q. aq_Method q = ''commit'' \<longrightarrow>
     (\<forall>ns. protocol_answers (Es q) ns) \<and> (\<forall>resp fd. ae_write (Es q) resp fd \<noteq> None))"

lemma lost_call:
  assumes "commit_codec K Q" and "commit_lost Es"
    and "admin_call (admin_peer P K Es) ctx late ''commit'' (enc_batchParams Q names) (dec_countResult Q) c = (r, c')"
  shows "(\<exists>e. r = Inl e) \<and> (os_sessions (ac_peer c') = os_sessions (ac_peer c) \<or>
    os_sessions (ac_peer c') = os_sessions (ac_peer c) |` (- set names))"
proof (cases "ctx = None \<and> (\<exists>b. enc_batchParams Q names = Inr b) \<and> os_open (ac_peer c)")
  case False
  then show ?thesis
    using assms(3) by (cases "enc_batchParams Q names") (auto simp: admin_call_def admin_peer_def admin_ask_def split: option.splits)
next
  case True
  then obtain b where b: "enc_batchParams Q names = Inr b" by blast
  let ?q = "\<lparr>aq_ID = ac_nextID c, aq_Method = ''commit'', aq_Params = b\<rparr>" and ?s = "os_admin (ac_peer c)"
  obtain g acts s' where turn: "admin_turn P K (Es ?q) ?q ?s = (g, acts, s')" by (metis prod_cases3)
  have env: "\<And>ns. protocol_answers (Es ?q) ns" "\<And>resp fd. ae_write (Es ?q) resp fd \<noteq> None"
    using assms(2) by (simp_all add: commit_lost_def)
  obtain resp where sent: "sent_response acts = Some (resp, - 1)"
    and hub: "h_sessions (as_hub s') = h_sessions (as_hub ?s) \<or> h_sessions (as_hub s') = h_sessions (as_hub ?s) |` (- set names)"
    using commit_asked [OF assms(1) env(1) b refl turn] by auto
  obtain e where e: "ae_write (Es ?q) resp (- 1) = Some e" using env(2) by blast
  obtain s1 where s1: "os_sessions s1 = h_sessions (as_hub s')"
    and "admin_ask P K Es ?q (ac_peer c) =
      (case ae_write (Es ?q) resp (- 1) of None \<Rightarrow> Inr resp | Some e \<Rightarrow> Inl (Sentinel EOF), s1)"
    using True by (elim conjE) (rule ask_answer [where Es = Es, OF _ turn sent])
  then have ask: "tr_ask (admin_peer P K Es) ?q (ac_peer c) = (Inl (Sentinel EOF), s1)"
    using e by (simp add: admin_peer_def)
  have "admin_call (admin_peer P K Es) None late ''commit'' (Inr b) (dec_countResult Q) c = (r, c')"
    using assms(3) True b by simp
  from admin_call_answer(1,2) [OF this ask] s1 hub show ?thesis by (simp add: os_sessions_def)
qed

section \<open>One owner\<close>

lemma adopt_one_name: "adopt_one T Q P A v0 fallback listed c = (Inr (st, n), c') \<Longrightarrow> st_name st = n"
  by (auto simp: adopt_one_def adopt_v0_def adopt_v1_def Let_def
      dest!: adoptV0State_master adopt_lossy_master adoptNativeOrLossyState_master built_around_masters
      split: sum.splits prod.splits if_splits)

lemma adopt_all_names:
  "adopt_all T Q P A v0 fallback ms (prepared, names, skipped) c = ((prepared', names', skipped'), c') \<Longrightarrow>
     names = map st_name prepared \<Longrightarrow> names' = map st_name prepared'"
proof (induction ms arbitrary: prepared names skipped c)
  case (Cons m ms)
  obtain r c1 where one: "adopt_one T Q P A v0 fallback (sm_Name m) c = (r, c1)" by (metis surj_pair)
  show ?case
  proof (cases r)
    case (Inl msg)
    then show ?thesis using Cons.IH [of prepared names "skip (sm_Name m) msg skipped" c1] Cons.prems one by simp
  next
    case (Inr x)
    then obtain st n where x: "r = Inr (st, n)" by (cases x) auto
    then show ?thesis using Cons.IH [of "prepared @ [st]" "names @ [n]" skipped c1] Cons.prems one adopt_one_name by fastforce
  qed
qed simp

lemma hub_adopt_dom: "dom (h_sessions (hub_adopt sts h)) = st_name ` set sts \<union> dom (h_sessions h)"
  unfolding hub_adopt_def by (induction sts arbitrary: h) auto

lemma adopt_batch_owner:
  assumes "commit_codec K Q" and "commit_env Es" and "adopt_batch (admin_peer P K Es) Q P' A v0 listed h c = (rep, h', c')"
    and "n \<in> dom (os_sessions (ac_peer c))" and "n \<notin> dom (h_sessions h)"
  shows "n \<in> dom (h_sessions h') \<longleftrightarrow> n \<notin> dom (os_sessions (ac_peer c'))"
proof -
  let ?T = "admin_peer P K Es"
  obtain prepared names sk c1 where all: "adopt_all ?T Q P' A v0 (h_scrollback h) listed ([], [], []) c = ((prepared, names, sk), c1)"
    by (metis prod_cases3 surj_pair)
  have names: "names = map st_name prepared" using adopt_all_names [OF all] by simp
  have inv: "os_sessions (ac_peer c1) = os_sessions (ac_peer c)" using peer.adopt_all_seen [OF all] .
  obtain r c2 where commit: "admin_call ?T (av_ctx A (ac_nextID c1)) (av_late A (ac_nextID c1)) ''commit'' (enc_batchParams Q names)
      (dec_countResult Q) c1 = (r, c2)" by (metis surj_pair)
  obtain x c3 where ex: "admin_call ?T None None ''exit'' (Inr []) (\<lambda>_. Inr ()) c2 = (x, c3)" by (metis surj_pair)
  have c3: "os_sessions (ac_peer c3) = os_sessions (ac_peer c2)" using peer.call_seen [OF ex] by simp
  consider "h' = h" "c' = rollback ?T Q prepared names c1" "sk \<noteq> []"
    | "h' = h" "c' = rollback ?T Q prepared names c2" "r \<noteq> Inr (Some (int (length names)))"
    | "h' = hub_adopt prepared h" "c' = c3" "r = Inr (Some (int (length names)))"
    using assms(3) all commit ex commit_call [OF assms(1,2) commit] names
    by (auto simp: adopt_batch_def Let_def or_zero_def split: if_splits sum.splits)
  then show ?thesis
  proof cases
    case 1
    then show ?thesis using assms(4,5) inv peer.rollback_seen [of P K Es Q prepared names c1] by simp
  next
    case 2
    then show ?thesis
      using assms(4,5) inv commit_call [OF assms(1,2) commit] peer.rollback_seen [of P K Es Q prepared names c2] by simp
  next
    case 3
    then have "os_sessions (ac_peer c') = os_sessions (ac_peer c) |` (- set names)"
      using inv c3 commit_call [OF assms(1,2) commit] by simp
    then show ?thesis using 3(1) assms(4,5) names by (auto simp: hub_adopt_dom)
  qed
qed

text \<open>
  C9. After a rolling upgrade every session of the old server has exactly one owner. The adoption
  of the new server is run against the admin handler of the old one, for any behaviour of the
  tickets before the commit, any failure of a system call or of a write, and any listing; at the
  commit tickets may turn out to have failed, those that have not are resolved as the handoff
  protocol resolves them, and the old server's answer arrives. Then a session that the old server had, and the new one had not, is listed afterwards
  by the new server or by the old one, and not by both.
\<close>

theorem upgrade_single_owner:
  assumes "commit_codec K Q" and "commit_env Es"
    and "adoptSessionsWithReport (admin_peer P K Es) Q P' A h c = (rep, h', c')"
    and "n \<in> dom (os_sessions (ac_peer c))" and "n \<notin> dom (h_sessions h)"
  shows "n \<in> dom (h_sessions h') \<longleftrightarrow> n \<notin> dom (os_sessions (ac_peer c'))"
proof -
  let ?T = "admin_peer P K Es"
  obtain r c1 where call: "admin_call ?T (av_ctx A (ac_nextID c)) (av_late A (ac_nextID c)) ''list'' (Inr []) (dec_listResult Q) c = (r, c1)"
    by (metis surj_pair)
  have c1: "os_sessions (ac_peer c1) = os_sessions (ac_peer c)" using peer.call_seen [OF call] by simp
  consider "h' = h" "ac_peer c' = ac_peer c" | "h' = h" "ac_peer c' = ac_peer c1"
    | v0 listed c2 where "adopt_batch ?T Q P' A v0 listed h c1 = (rep, h', c2)" "ac_peer c' = ac_peer c2"
    using assms(3) call
    by (auto simp: adoptSessionsWithReport_def Let_def split: if_splits sum.splits option.splits prod.splits)
  then show ?thesis
  proof cases
    case 3
    then show ?thesis using adopt_batch_owner [OF assms(1,2) 3(1)] assms(4,5) c1 by simp
  qed (use assms(4,5) c1 in simp_all)
qed

text \<open>An old server with one running session, whose PTY is descriptor 3, and codecs for its upgrade.\<close>

definition old_hub :: "bytes hub" where
  "old_hub = demo_hub\<lparr>h_sessions := [''s'' \<mapsto> 0], h_states := [demo_state ''s'' 5]\<rparr>"

definition old_meta :: sessionMeta where
  "old_meta = zero_meta\<lparr>sm_Name := ''s'', sm_Cols := 80, sm_Rows := 24, sm_PID := 7, sm_Alive := True, sm_Scrollback := 1, sm_OutputGeneration := 1\<rparr>"

definition old_codec :: admin_codec where
  "old_codec = \<lparr>dec_adopt = Inr, dec_batch = (\<lambda>b. Inr [b]), enc_list = (\<lambda>_. Inr ''L''), enc_meta = (\<lambda>_. Inr ''M''),
     enc_snapshot = (\<lambda>_. Inr ''S''), enc_count = (\<lambda>n. Inr (replicate (Suc n) CHR ''x'')), enc_struct = Inr ''E'',
     enc_response = (\<lambda>_. Inr []), base64 = id\<rparr>"

definition new_codec :: adopt_codec where
  "new_codec = \<lparr>enc_adoptParams = Inr, enc_batchParams = (\<lambda>ns. case ns of [n] \<Rightarrow> Inr n | _ \<Rightarrow> Inl (Plain [])),
     dec_listResult = (\<lambda>_. Inr \<lparr>al_Version = ProtocolVersion, al_HandoffVersion = [], al_Sessions = [old_meta]\<rparr>),
     dec_metaResult = (\<lambda>_. Inr old_meta), dec_snapshotResult = (\<lambda>_. Inr (zero_snapshot\<lparr>sn_Lossy := True\<rparr>)),
     dec_countResult = (\<lambda>b. Inr (int (length b) - 1)), unbase64 = Inr\<rparr>"

definition new_env :: adopt_env where
  "new_env = (demo_adopt_env (listing1 0))\<lparr>av_log := (\<lambda>_ _. (listing1 0)\<lparr>open_fault := Some (Sentinel ErrNotExist)\<rparr>),
     av_mkdirTemp := (\<lambda>_. Inr ''/t'')\<rparr>"

text \<open>The environment of the old server; \<open>lost\<close> is whether its answer to the commit is lost.\<close>

definition old_env :: "bool \<Rightarrow> adminRequest \<Rightarrow> admin_env" where
  "old_env lost q = Admin_Facts.demo_env\<lparr>ae_wait := (\<lambda>_. Stable True),
     ae_write := (\<lambda>_ _. if lost \<and> aq_Method q = ''commit'' then Some (Sentinel EPIPE) else None)\<rparr>"

definition old_server :: "bytes hub \<Rightarrow> (bytes \<times> nat) list \<Rightarrow> bool \<Rightarrow> bytes old_server" where
  "old_server h pending frozen = \<lparr>os_admin = \<lparr>as_hub = h, as_pending = pending, as_frozen = frozen\<rparr>, os_fds = [], os_open = True\<rparr>"

definition upgrading :: "int \<Rightarrow> disk \<Rightarrow> bytes old_server \<Rightarrow> bytes old_server adopting" where
  "upgrading i d s = \<lparr>ac_nextID = i, ac_peer = s, ac_disk = d, ac_closed = []\<rparr>"

lemma old_codecs: "commit_codec old_codec new_codec"
  by (auto simp: commit_codec_def old_codec_def new_codec_def split: list.splits)

lemma old_answers: "protocol_answers (old_env lost q) ns"
proof -
  have "m_admin demo_awaiting = Awaiting 0 True"
      "ae_finish (old_env lost q) n True = fst (endMigration 0 True demo_awaiting)" for n
    by (simp_all add: old_env_def Admin_Facts.demo_env_def demo_awaiting_def demo_defs)
  then show ?thesis using reach_awaiting by (auto simp: protocol_answers_def)
qed

theorem upgrade_single_owner_witness:
  "\<forall>P A h d. \<exists>rep h' c'.
     adoptSessionsWithReport (admin_peer demo_platform old_codec (old_env False)) new_codec (P :: bytes platform) A (empty_hub h)
       (upgrading 1 d (old_server old_hub [] False)) = (rep, h', c') \<and>
     (''s'' \<in> dom (h_sessions h') \<longleftrightarrow> ''s'' \<notin> dom (os_sessions (ac_peer c')))"
proof (intro allI)
  fix P :: "bytes platform" and A h d
  let ?c = "upgrading 1 d (old_server old_hub [] False)"
  obtain rep h' c' where run: "adoptSessionsWithReport (admin_peer demo_platform old_codec (old_env False)) new_codec P A (empty_hub h) ?c = (rep, h', c')"
    by (metis prod_cases3)
  have "commit_env (old_env False)" using old_answers by (simp add: commit_env_def) (simp add: old_env_def)
  moreover have "''s'' \<in> dom (os_sessions (ac_peer ?c))" "''s'' \<notin> dom (h_sessions (empty_hub h))"
    by (simp_all add: upgrading_def old_server_def os_sessions_def old_hub_def empty_hub_def)
  ultimately have "''s'' \<in> dom (h_sessions h') \<longleftrightarrow> ''s'' \<notin> dom (os_sessions (ac_peer c'))"
    by (intro upgrade_single_owner [OF old_codecs _ run])
  with run show "\<exists>rep h' c'.
     adoptSessionsWithReport (admin_peer demo_platform old_codec (old_env False)) new_codec P A (empty_hub h) ?c = (rep, h', c') \<and>
     (''s'' \<in> dom (h_sessions h') \<longleftrightarrow> ''s'' \<notin> dom (os_sessions (ac_peer c')))" by blast
qed

section \<open>A commit whose answer is lost\<close>

lemma adopt_batch_lost:
  assumes "commit_codec K Q" and "commit_lost Es" and "adopt_batch (admin_peer P K Es) Q P' A v0 listed h c = (rep, h', c')"
    and "n \<in> dom (os_sessions (ac_peer c))" and "n \<notin> dom (os_sessions (ac_peer c'))"
  shows "h' = h \<and> (\<exists>e. rep = (0, Some [], Some e)) \<and>
    (\<exists>prepared names c1.
       adopt_all (admin_peer P K Es) Q P' A v0 (h_scrollback h) listed ([], [], []) c = ((prepared, names, []), c1) \<and>
       n \<in> st_name ` set prepared \<and> (\<forall>st \<in> set prepared. set (closed_master st) \<subseteq> set (ac_closed c')))"
proof -
  let ?T = "admin_peer P K Es"
  obtain prepared names sk c1 where all: "adopt_all ?T Q P' A v0 (h_scrollback h) listed ([], [], []) c = ((prepared, names, sk), c1)"
    by (metis prod_cases3 surj_pair)
  have names: "names = map st_name prepared" using adopt_all_names [OF all] by simp
  have inv: "os_sessions (ac_peer c1) = os_sessions (ac_peer c)" using peer.adopt_all_seen [OF all] .
  obtain r c2 where commit: "admin_call ?T (av_ctx A (ac_nextID c1)) (av_late A (ac_nextID c1)) ''commit'' (enc_batchParams Q names)
      (dec_countResult Q) c1 = (r, c2)" by (metis surj_pair)
  obtain e where r: "r = Inl e" using lost_call [OF assms(1,2) commit] by blast
  show ?thesis
  proof (cases "sk = []")
    case False
    then have "c' = rollback ?T Q prepared names c1"
      using assms(3) all by (auto simp: adopt_batch_def)
    then show ?thesis using assms(4,5) inv peer.rollback_seen [of P K Es Q prepared names c1] by simp
  next
    case True
    then have run: "rep = (0, Some [], Some e)" "h' = h" "c' = rollback ?T Q prepared names c2"
      using assms(3) all commit r by (auto simp: adopt_batch_def Let_def)
    then have "n \<in> set names"
      using lost_call [OF assms(1,2) commit] assms(4,5) inv peer.rollback_seen [of P K Es Q prepared names c2] by auto
    then have "names \<noteq> []" and "n \<in> st_name ` set prepared" using names by auto
    then have "\<forall>st \<in> set prepared. set (closed_master st) \<subseteq> set (ac_closed c')"
      using run(3) by (auto simp: rollback_def Let_def)
    with run all True \<open>n \<in> st_name ` set prepared\<close> show ?thesis by blast
  qed
qed


lemmas upgrade_eval = admin_call_def admin_peer_def admin_ask_def admin_turn_def old_env_def Admin_Facts.demo_env_def
  old_server_def upgrading_def old_codec_def new_codec_def

lemma lost_list:
  "admin_call (admin_peer demo_platform old_codec (old_env True)) None None ''list'' (Inr []) (dec_listResult new_codec)
     (upgrading 1 d (old_server old_hub [] False)) =
   (Inr (Some \<lparr>al_Version = ProtocolVersion, al_HandoffVersion = [], al_Sessions = [old_meta]\<rparr>),
    upgrading 2 d (old_server old_hub [] True))"
  by (simp add: upgrade_eval admin_list_def beginMigrationBatch_def old_hub_def demo_hub_def sessionStates_def demo_state_def
      sessionMetaLocked_def terminalError_def log_metadata_def writeAdminResult_def exitMetaOf_def)

lemma lost_adopt:
  "receiveAdoptedSession (admin_peer demo_platform old_codec (old_env True)) new_codec new_env ''s''
     (upgrading 2 d (old_server old_hub [] True)) = (Inr (old_meta, Some 3), upgrading 3 d (old_server old_hub [(''s'', 0)] True))"
  by (simp add: upgrade_eval receiveAdoptedSession_def admin_adopt_def hub_session_def old_hub_def demo_hub_def demo_state_def
      sessionMetaLocked_def terminalError_def log_metadata_def writeAdminResult_def exitMetaOf_def new_env_def demo_adopt_env_def
      or_zero_def old_meta_def zero_meta_def)

lemma lost_snapshot:
  "admin_call (admin_peer demo_platform old_codec (old_env True)) None None ''snapshot'' (Inr ''s'') (dec_snapshotResult new_codec)
     (upgrading 3 d (old_server old_hub [(''s'', 0)] True)) =
   (Inr (Some (zero_snapshot\<lparr>sn_Lossy := True\<rparr>)), upgrading 4 d (old_server old_hub [(''s'', 0)] True))"
  by (simp add: upgrade_eval admin_snapshot_def EncodeState_def old_hub_def demo_hub_def demo_state_def writeAdminResult_def Let_def)

lemma lost_state:
  obtains st d lossy reason where "adoptNativeOrLossyState demo_platform new_codec new_env old_meta (Some 3) (zero_snapshot\<lparr>sn_Lossy := True\<rparr>) 1 demo_disk =
     ((Inr st, lossy, reason), d)" and "st_name st = ''s''" and "closed_master st = [3]"
proof -
  have "\<exists>e. adoptOutputLog (av_log new_env True ''s'') [] 1 demo_disk = (Inl e, demo_disk)"
    by (simp add: adoptOutputLog_def openOutputLog_def os_Open_def new_env_def)
  then obtain st lossy reason d where
    "adoptNativeOrLossyState demo_platform new_codec new_env old_meta (Some 3) (zero_snapshot\<lparr>sn_Lossy := True\<rparr>) 1 demo_disk =
       ((Inr st, lossy, reason), d) \<and> st_name st = ''s'' \<and> st_master st \<and> \<not> st_closeOnce st \<and> st_masterFD st = 3"
    by (auto simp: adoptNativeOrLossyState_def decodeMigrationBlob_def zero_snapshot_def adopt_lossy_def adoptLossyState_def
        old_meta_def zero_meta_def new_env_def demo_adopt_env_def demo_create demo_platform_def demo_new adoptStateWithTerminal_def
        with_presentation_def master_fd_def)
  then show thesis by (auto intro: that simp: closed_master_def)
qed

lemma lost_commit:
  "\<exists>e. admin_call (admin_peer demo_platform old_codec (old_env True)) None None ''commit'' (Inr ''s'') (dec_countResult new_codec)
     (upgrading 4 d (old_server old_hub [(''s'', 0)] True)) =
   (Inl e, upgrading 5 d ((old_server (hub_remove ''s'' old_hub) [] False)\<lparr>os_open := False\<rparr>))"
  by (simp add: upgrade_eval admin_batch_def resolveAdoption_def writeAdminResult_def forget_def admin_close_def Let_def)

text \<open>The run of the adoption up to the lost answer.\<close>

lemma lost_run:
  "\<exists>c'. snd (snd (adoptSessionsWithReport (admin_peer demo_platform old_codec (old_env True)) new_codec demo_platform new_env demo_hub
     (upgrading 1 demo_disk (old_server old_hub [] False)))) = c' \<and> os_sessions (ac_peer c') ''s'' = None \<and> 3 \<in> set (ac_closed c')"
proof -
  let ?T = "admin_peer demo_platform old_codec (old_env True)"
  obtain st d lossy reason where st: "adoptNativeOrLossyState demo_platform new_codec new_env old_meta (Some 3) (zero_snapshot\<lparr>sn_Lossy := True\<rparr>) 1 demo_disk =
      ((Inr st, lossy, reason), d)" "st_name st = ''s''" "closed_master st = [3]"
    using lost_state by metis
  have ctx: "av_ctx new_env i = None" "av_late new_env i = None" "av_mkdirAll new_env = None" "av_dial new_env = None" for i
    by (simp_all add: new_env_def demo_adopt_env_def)
  have next_id: "ac_nextID (upgrading i d s) = i" and name: "sm_Name old_meta = ''s''" for i d s
    by (simp_all add: upgrading_def old_meta_def)
  have "adopt_v1 ?T new_codec demo_platform new_env (h_scrollback demo_hub) ''s'' old_meta (Some 3) 1
      (upgrading 3 demo_disk (old_server old_hub [(''s'', 0)] True)) =
    (Inr (st, ''s''), upgrading 4 d (old_server old_hub [(''s'', 0)] True))"
    using st(1) lost_snapshot [of demo_disk]
    by (simp add: adopt_v1_def ctx) (simp add: upgrading_def old_meta_def or_zero_def new_codec_def)
  then have one: "adopt_one ?T new_codec demo_platform new_env False (h_scrollback demo_hub) ''s'' (upgrading 2 demo_disk (old_server old_hub [] True)) =
      (Inr (st, ''s''), upgrading 4 d (old_server old_hub [(''s'', 0)] True))"
    using lost_adopt [of demo_disk] by (simp add: adopt_one_def) (simp add: old_meta_def resolveVTScrollbackMaxBytes_def)
  obtain e where commit: "admin_call ?T None None ''commit'' (Inr ''s'') (dec_countResult new_codec)
      (upgrading 4 d (old_server old_hub [(''s'', 0)] True)) =
    (Inl e, upgrading 5 d ((old_server (hub_remove ''s'' old_hub) [] False)\<lparr>os_open := False\<rparr>))"
    using lost_commit by blast
  let ?c2 = "upgrading 5 d ((old_server (hub_remove ''s'' old_hub) [] False)\<lparr>os_open := False\<rparr>)"
  let ?c3 = "rollback ?T new_codec [st] [''s''] ?c2"
  have "enc_batchParams new_codec [''s''] = Inr ''s''" by (simp add: new_codec_def)
  then have batch: "adopt_batch ?T new_codec demo_platform new_env False [old_meta] demo_hub (upgrading 2 demo_disk (old_server old_hub [] True)) =
      ((0, Some [], Some e), demo_hub, ?c3)"
    using one commit by (simp add: adopt_batch_def ctx next_id name)
  have "os_sessions (ac_peer ?c3) ''s'' = None"
    using peer.rollback_seen [of demo_platform old_codec "old_env True" new_codec "[st]" "[''s'']" ?c2]
    by (simp add: upgrading_def old_server_def os_sessions_def hub_remove_def)
  moreover have "3 \<in> set (ac_closed ?c3)" using st(3) by (simp add: rollback_def Let_def)
  moreover have "adoptSessionsWithReport ?T new_codec demo_platform new_env demo_hub (upgrading 1 demo_disk (old_server old_hub [] False)) =
      ((0, Some [], Some e), demo_hub, ?c3\<lparr>ac_closed := ac_closed ?c3 @ tr_received ?T (ac_peer ?c3)\<rparr>)"
    using batch lost_list [of demo_disk] by (simp add: adoptSessionsWithReport_def ctx next_id or_zero_def) (simp add: demo_hub_def)
  ultimately show ?thesis by simp
qed


end
