(* ===== verification/Streams.thy ===== *)
theory Streams
  imports Rpc Validation
begin

text \<open>
  The pull streams of the protocol: a blob (replay, checkpoint or atomic state) sent in
  chunks by \<^verbatim>\<open>serveBlob\<close> (\<^verbatim>\<open>server.go\<close>) and collected by \<^verbatim>\<open>readBlobOnceWithMetadata\<close>
  (\<^verbatim>\<open>client.go\<close>), and the output stream of \<^verbatim>\<open>serveOutput\<close> read by \<^verbatim>\<open>remoteOutputSource\<close>.
  Both ends are functions from the bytes that arrive on the connection, with the error
  behind the last of them, to the bytes they write; the error that a write meets is an
  argument. The sessions and readers behind the server are parameters here.
\<close>

section \<open>Messages\<close>

record blobOpenResult =
  open_Size :: int
  open_Cursor :: cursor
  open_Format :: bytes
  open_Grid :: "size option"

datatype blobReadResult = BlobRead (blob_EOF: bool)

record chunkReadParams =
  MaxBytes :: int
  Sized :: bool

record outputReadResult =
  out_Cursor :: cursor
  out_EOF :: bool
  out_Size :: "size option"

text \<open>
  \<^verbatim>\<open>encoding/json\<close> on the types of the streams; \<open>req_ok\<close> and \<open>resp_ok\<close> are the envelopes
  that JSON represents.
\<close>

record codec =
  enc_request :: "request \<Rightarrow> go_error + bytes"
  dec_request :: "bytes \<Rightarrow> go_error + request"
  enc_response :: "response \<Rightarrow> go_error + bytes"
  dec_response :: "bytes \<Rightarrow> go_error + response"
  enc_open :: "blobOpenResult \<Rightarrow> go_error + bytes"
  dec_open :: "bytes \<Rightarrow> go_error + blobOpenResult"
  enc_blob :: "blobReadResult \<Rightarrow> go_error + bytes"
  dec_blob :: "bytes \<Rightarrow> go_error + blobReadResult"
  enc_chunk :: "chunkReadParams \<Rightarrow> go_error + bytes"
  dec_chunk :: "bytes \<Rightarrow> go_error + chunkReadParams"
  enc_output :: "outputReadResult \<Rightarrow> go_error + bytes"
  dec_output :: "bytes \<Rightarrow> go_error + outputReadResult"
  enc_cursor :: "cursor \<Rightarrow> go_error + bytes"
  dec_cursor :: "bytes \<Rightarrow> go_error + cursor"
  req_ok :: "request \<Rightarrow> bool"
  resp_ok :: "response \<Rightarrow> bool"

text \<open>One end of a connection: its buffer size, the error behind the last byte, the fault of
  each write, and the state of the caller's context.\<close>

record endpoint =
  bufSize :: nat
  endErr :: go_error
  wfault :: "nat \<Rightarrow> (nat \<times> go_error) option"
  ctxState :: "go_error option"

definition ctxErr :: "endpoint \<Rightarrow> go_error \<Rightarrow> go_error" where
  "ctxErr E e = (case contextErr (ctxState E) (Some e) of Some e' \<Rightarrow> e' | None \<Rightarrow> e)"

definition plainRequest :: "bytes \<Rightarrow> bytes \<Rightarrow> request" where
  "plainRequest meth params =
     \<lparr>req_wire = 0, req_id = 1, req_method = meth, req_params = params, req_payloadBytes = 0\<rparr>"

text \<open>Sending one request and reading the response to it: the answer, the unread input, the bytes written.\<close>

definition exchange ::
  "codec \<Rightarrow> endpoint \<Rightarrow> nat \<Rightarrow> request \<Rightarrow> bytes \<Rightarrow> bytes \<Rightarrow> (go_error + response) \<times> bytes \<times> bytes" where
  "exchange K E k req payload s =
     (case writeRequestPayload (enc_request K) (wfault E k) req payload of
        (Some e, w) \<Rightarrow> (Inl (ctxErr E e), s, w)
      | (None, w) \<Rightarrow>
          (case readResponse (dec_response K) (bufSize E) (endErr E) s of
             (Inl e, rest) \<Rightarrow> (Inl (ctxErr E e), rest, w)
           | (Inr resp, rest) \<Rightarrow> (Inr resp, rest, w)))"

section \<open>Client calls\<close>

text \<open>
  \<^verbatim>\<open>callOncePayload\<close>: \<open>dialed\<close> is the error of \<^verbatim>\<open>dial\<close>, \<open>params\<close> the encoded parameters
  (\<open>None\<close> for nil), \<open>result\<close> the decoder of the expected result (\<open>None\<close> for nil). The value is
  the error, or the decoded result if there was one.
\<close>

definition callOncePayload ::
  "codec \<Rightarrow> endpoint \<Rightarrow> go_error option \<Rightarrow> bytes \<Rightarrow> (go_error + bytes) option \<Rightarrow> bytes \<Rightarrow>
   (bytes \<Rightarrow> go_error + 'r) option \<Rightarrow> bytes \<Rightarrow> go_error + 'r option" where
  "callOncePayload K E dialed meth params payload result s =
     (case dialed of
        Some e \<Rightarrow> Inl (ctxErr E (Wrap ''connect ghostline server: '' e []))
      | None \<Rightarrow>
          (case (case params of None \<Rightarrow> Inr [] | Some enc \<Rightarrow> enc) of
             Inl e \<Rightarrow> Inl (ctxErr E e)
           | Inr encoded \<Rightarrow>
               (case exchange K E 0 (plainRequest meth encoded) payload s of
                  (Inl e, _) \<Rightarrow> Inl e
                | (Inr resp, _) \<Rightarrow>
                    if resp_id resp \<noteq> 1 then
                      Inl (ctxErr E (Plain ''ghostline: mismatched RPC response ID''))
                    else (case decodeRPCError (resp_error resp) of
                      Some e \<Rightarrow> Inl (ctxErr E e)
                    | None \<Rightarrow>
                        if resp_payloadBytes resp \<noteq> 0 then
                          Inl (ctxErr E (Plain ''ghostline: unexpected RPC response payload''))
                        else (case result of
                          None \<Rightarrow> Inr None
                        | Some decoder \<Rightarrow>
                            if resp_result resp = [] then Inr None
                            else (case decoder (resp_result resp) of
                              Inl e \<Rightarrow> Inl (ctxErr E e)
                            | Inr r \<Rightarrow> (case ctxState E of Some c \<Rightarrow> Inl c | None \<Rightarrow> Inr (Some r))))))))"

text \<open>
  The policy of \<^verbatim>\<open>callRetryable\<close> and of \<^verbatim>\<open>readBlobWithMetadataRetryable\<close>: one more attempt
  after a transport error, only of a managed client whose socket is gone, and only after a
  new server was started. \<open>attempt i\<close> is the outcome of the \<open>i\<close>-th call.
\<close>

definition retryable :: "bool \<Rightarrow> bool \<Rightarrow> go_error option \<Rightarrow> (nat \<Rightarrow> go_error + 'r) \<Rightarrow> (go_error + 'r) \<times> nat" where
  "retryable managed ready spawned attempt =
     (case attempt 0 of
        Inr v \<Rightarrow> (Inr v, 1)
      | Inl e \<Rightarrow>
          if \<not> managed \<or> \<not> isTransportError (Some e) then (Inl e, 1)
          else if ready then (Inl e, 1)
          else (case spawned of
            Some spawnErr \<Rightarrow> (Inl (Wrap (Error e @ '' (recovery: '') spawnErr '')''), 1)
          | None \<Rightarrow> (attempt 1, 2)))"

section \<open>Collecting a blob\<close>

record blobValue =
  blob_data :: bytes
  blob_cursor :: cursor
  blob_format :: bytes
  blob_grid :: size

definition blob_value :: "blobOpenResult \<Rightarrow> bytes \<Rightarrow> blobValue" where
  "blob_value opened data =
     \<lparr>blob_data = data, blob_cursor = open_Cursor opened, blob_format = open_Format opened,
      blob_grid = (case open_Grid opened of Some g \<Rightarrow> g | None \<Rightarrow> zero_size)\<rparr>"

text \<open>One turn of the loop of \<^verbatim>\<open>readBlobOnceWithMetadata\<close>: ask for a chunk and take it.\<close>

definition read_chunk ::
  "codec \<Rightarrow> endpoint \<Rightarrow> int \<Rightarrow> nat \<Rightarrow> nat \<Rightarrow> bytes \<Rightarrow> (go_error + bool \<times> bytes) \<times> bytes \<times> bytes" where
  "read_chunk K E announced len k s =
     (case enc_chunk K \<lparr>MaxBytes = int maxRPCChunk, Sized = False\<rparr> of
        Inl e \<Rightarrow> (Inl e, s, [])
      | Inr params \<Rightarrow>
          (case exchange K E k (plainRequest ''blob.read'' params) [] s of
             (Inl e, rest, w) \<Rightarrow> (Inl e, rest, w)
           | (Inr resp, rest, w) \<Rightarrow>
               if resp_id resp \<noteq> 1 then (Inl (Plain ''ghostline: mismatched blob response ID''), rest, w)
               else (case decodeRPCError (resp_error resp) of
                 Some e \<Rightarrow> (Inl (ctxErr E e), rest, w)
               | None \<Rightarrow>
                   (case dec_blob K (resp_result resp) of
                      Inl e \<Rightarrow> (Inl e, rest, w)
                    | Inr chunk \<Rightarrow>
                        if resp_payloadBytes resp > int maxRPCChunk \<or> int len > announced - resp_payloadBytes resp then
                          (Inl (Plain ''ghostline: server returned invalid blob chunk''), rest, w)
                        else (case ReadFull (endErr E) (nat (resp_payloadBytes resp)) rest of
                          (Inl e, rest') \<Rightarrow> (Inl (ctxErr E e), rest', w)
                        | (Inr bytes, rest') \<Rightarrow> (Inr (blob_EOF chunk, bytes), rest', w))))))"

lemma exchange_payload:
  "exchange K E k req payload s = (Inr resp, rest, w) \<Longrightarrow>
     0 \<le> resp_payloadBytes resp \<and> resp_payloadBytes resp \<le> int maxRPCPayload"
  by (auto simp: exchange_def readResponse_def split: option.splits sum.splits prod.splits if_splits)

lemma read_chunk_bound:
  assumes "read_chunk K E announced len k s = (Inr (eof, bytes), rest, w)"
  shows "int len + int (length bytes) \<le> announced \<and> (bytes \<noteq> [] \<longrightarrow> int len < announced)"
  using assms
  by (auto simp: read_chunk_def ReadFull_def dest!: exchange_payload
      split: option.splits sum.splits prod.splits if_splits)

text \<open>
  The loop ends for every server: a chunk that makes no progress or runs over the announced
  size is refused.
\<close>

function collect_blob ::
  "codec \<Rightarrow> endpoint \<Rightarrow> blobOpenResult \<Rightarrow> nat \<Rightarrow> bytes \<Rightarrow> bytes \<Rightarrow> (go_error + blobValue) \<times> bytes \<times> bytes" where
  "collect_blob K E opened k data s =
     (case read_chunk K E (open_Size opened) (length data) k s of
        (Inl e, rest, w) \<Rightarrow> (Inl e, rest, w)
      | (Inr (eof, bytes), rest, w) \<Rightarrow>
          if eof then
            (if int (length (data @ bytes)) \<noteq> open_Size opened then
               (Inl (Plain ''ghostline: server returned incomplete blob''), rest, w)
             else (Inr (blob_value opened (data @ bytes)), rest, w))
          else if bytes = [] then (Inl (Sentinel ErrNoProgress), rest, w)
          else (case collect_blob K E opened (k + 1) (data @ bytes) rest of
            (res, rest', w') \<Rightarrow> (res, rest', w @ w')))"
  by pat_completeness auto
termination
  by (relation "measure (\<lambda>(K, E, opened, k, data, s). nat (open_Size opened - int (length data)))")
    (auto dest!: read_chunk_bound [OF sym])

declare collect_blob.simps [simp del]

definition readBlobOnceWithMetadata ::
  "codec \<Rightarrow> endpoint \<Rightarrow> go_error option \<Rightarrow> bytes \<Rightarrow> (go_error + bytes) option \<Rightarrow> bytes \<Rightarrow>
   (go_error + blobValue) \<times> bytes \<times> bytes" where
  "readBlobOnceWithMetadata K E dialed meth params s =
     (case dialed of
        Some e \<Rightarrow> (Inl (ctxErr E (Wrap ''connect ghostline server: '' e [])), s, [])
      | None \<Rightarrow>
          (case (case params of None \<Rightarrow> Inr [] | Some enc \<Rightarrow> enc) of
             Inl e \<Rightarrow> (Inl e, s, [])
           | Inr encoded \<Rightarrow>
               (case exchange K E 0 (plainRequest meth encoded) [] s of
                  (Inl e, rest, w) \<Rightarrow> (Inl e, rest, w)
                | (Inr resp, rest, w) \<Rightarrow>
                    if resp_id resp \<noteq> 1 then (Inl (Plain ''ghostline: mismatched blob-open response ID''), rest, w)
                    else (case decodeRPCError (resp_error resp) of
                      Some e \<Rightarrow> (Inl (ctxErr E e), rest, w)
                    | None \<Rightarrow>
                        if resp_payloadBytes resp \<noteq> 0 then
                          (Inl (Plain ''ghostline: unexpected blob-open payload''), rest, w)
                        else (case dec_open K (resp_result resp) of
                          Inl e \<Rightarrow> (Inl e, rest, w)
                        | Inr opened \<Rightarrow>
                            if open_Size opened < 0 then
                              (Inl (Plain ''ghostline: server returned invalid blob size''), rest, w)
                            else (case collect_blob K E opened 1 [] rest of
                              (res, rest', w') \<Rightarrow> (res, rest', w @ w')))))))"

section \<open>Serving a blob\<close>

lemma readLine_loop_shorter:
  "readLine_loop B e limit line s = (Inr l, rest) \<Longrightarrow> length rest < length s"
proof (induction B e limit line s rule: readLine_loop.induct)
  case (1 B e limit line s)
  obtain chunk st r where rs: "ReadSlice B s = (chunk, st, r)" by (metis prod_cases3)
  have le: "st = BufferFull \<Longrightarrow> length r \<le> length s" "st = GotLine \<Longrightarrow> length r < length s"
    using rs by (auto simp: ReadSlice_def IndexByte_Some split: option.splits if_splits)
  from 1(2) rs show ?case
    using 1(1) [OF rs [symmetric] _ refl _ refl] le
    by (cases st) (auto simp: readLine_loop.simps [of B e limit line s] Let_def split: if_splits)
qed

lemma readRequest_shorter:
  "readRequest unmarshal B e s = (Inr x, rest) \<Longrightarrow> length rest < length s"
  using readLine_loop_shorter [of B e maxRPCFrame "[]" s]
  by (fastforce simp: readRequest_def readLine_def ReadFull_def split: prod.splits sum.splits if_splits)

text \<open>What the server asks of the session behind a blob; \<open>bs_atomic\<close> is format, payload, cursor and size.\<close>

record blob_session =
  bs_replay :: "go_error + bytes"
  bs_checkpoint :: "go_error + bytes \<times> cursor"
  bs_atomic :: "go_error + bytes \<times> bytes \<times> cursor \<times> size"

definition open_blob :: "bytes \<Rightarrow> blob_session \<Rightarrow> go_error + blobOpenResult \<times> bytes" where
  "open_blob meth sess =
     (let none = \<lparr>open_Size = 0, open_Cursor = zero_cursor, open_Format = [], open_Grid = None\<rparr> in
      map_sum id (\<lambda>(opened, data). (opened\<lparr>open_Size := int (length data)\<rparr>, data))
       (if meth = ''replay'' then map_sum id (\<lambda>data. (none, data)) (bs_replay sess)
        else if meth = ''checkpoint'' then
          map_sum id (\<lambda>(data, c). (none\<lparr>open_Cursor := c\<rparr>, data)) (bs_checkpoint sess)
        else if meth = ''state.atomic'' then
          map_sum id (\<lambda>(format, data, c, sz).
            (none\<lparr>open_Cursor := c, open_Format := format,
                  open_Grid := (if sz \<noteq> zero_size then Some sz else None)\<rparr>, data)) (bs_atomic sess)
        else Inr (none, [])))"

function blob_loop :: "codec \<Rightarrow> endpoint \<Rightarrow> bytes \<Rightarrow> nat \<Rightarrow> nat \<Rightarrow> bytes \<Rightarrow> bytes" where
  "blob_loop K E data off k s =
     (case readRequest (dec_request K) (bufSize E) (endErr E) s of
        (Inl e, rest) \<Rightarrow> snd (writeResponse (enc_response K) (wfault E k) (- 1) None (Some e))
      | (Inr (req, payload), rest) \<Rightarrow>
          let refuse = (\<lambda>e. snd (writeResponse (enc_response K) (wfault E k) (req_id req) None (Some e))) in
          if payload \<noteq> [] then
            refuse (Plain ''blob control request cannot contain a payload'') @ blob_loop K E data off (k + 1) rest
          else if req_method req = ''blob.close'' then
            snd (writeResponse (enc_response K) (wfault E k) (req_id req) None None)
          else if req_method req = ''blob.read'' then
            (case dec_chunk K (req_params req) of
               Inl e \<Rightarrow> refuse e @ blob_loop K E data off (k + 1) rest
             | Inr p \<Rightarrow>
                 if MaxBytes p \<le> 0 \<or> MaxBytes p > int maxRPCChunk then
                   refuse (Plain ''invalid blob chunk size'') @ blob_loop K E data off (k + 1) rest
                 else
                   (let stop = min (off + nat (MaxBytes p)) (length data);
                        eof = (stop = length data) in
                    case writeRawResponse (enc_response K) (wfault E k) (req_id req)
                           (Some (enc_blob K (BlobRead eof))) (slice off stop data) None of
                      (Some e, w) \<Rightarrow> w
                    | (None, w) \<Rightarrow> if eof then w else w @ blob_loop K E data stop (k + 1) rest))
          else refuse (Plain (''unknown blob method: '' @ req_method req)) @ blob_loop K E data off (k + 1) rest)"
  by pat_completeness auto
termination
  by (relation "measure (\<lambda>(K, E, data, off, k, s). length s)") (auto dest!: readRequest_shorter [OF sym])

declare blob_loop.simps [simp del]

definition serveBlob :: "codec \<Rightarrow> endpoint \<Rightarrow> (bytes \<Rightarrow> go_error + blob_session) \<Rightarrow> request \<Rightarrow> bytes \<Rightarrow> bytes" where
  "serveBlob K E namedSession req s =
     (case (case namedSession (req_params req) of
              Inl e \<Rightarrow> Inl e | Inr sess \<Rightarrow> open_blob (req_method req) sess) of
        Inl e \<Rightarrow> snd (writeResponse (enc_response K) (wfault E 0) (req_id req) None (Some e))
      | Inr (opened, data) \<Rightarrow>
          (case writeResponse (enc_response K) (wfault E 0) (req_id req) (Some (enc_open K opened)) None of
             (Some e, w) \<Rightarrow> w
           | (None, w) \<Rightarrow> w @ blob_loop K E data 0 1 s))"

section \<open>A blob arrives complete or not at all\<close>

lemma exchange_extend:
  assumes "0 < bufSize E" and "exchange K E k req payload s = (Inr resp, rest, w)"
  shows "exchange K E k req payload (s @ t) = (Inr resp, rest @ t, w)"
  using assms(2) readResponse_extend [OF assms(1)]
  by (fastforce simp: exchange_def split: prod.splits option.splits sum.splits)

lemma read_chunk_extend:
  assumes "0 < bufSize E" and "read_chunk K E announced len k s = (Inr x, rest, w)"
  shows "read_chunk K E announced len k (s @ t) = (Inr x, rest @ t, w)"
proof -
  obtain params resp r w' where "enc_chunk K \<lparr>MaxBytes = int maxRPCChunk, Sized = False\<rparr> = Inr params"
      "exchange K E k (plainRequest ''blob.read'' params) [] s = (Inr resp, r, w')"
    using assms(2) by (auto simp: read_chunk_def split: sum.splits prod.splits)
  with assms(2) exchange_extend [OF assms(1) this(2), of t] show ?thesis
    by (auto simp: read_chunk_def ReadFull_extend split: sum.splits option.splits prod.splits if_splits)
qed

lemma collect_blob_extend:
  assumes "0 < bufSize E" and "collect_blob K E opened k data s = (Inr v, rest, w)"
  shows "collect_blob K E opened k data (s @ t) = (Inr v, rest @ t, w)"
  using assms
proof (induction K E opened k data s arbitrary: w rule: collect_blob.induct)
  case (1 K E opened k data s)
  obtain eof bytes r w0 where chunk: "read_chunk K E (open_Size opened) (length data) k s = (Inr (eof, bytes), r, w0)"
    using 1(3) by (auto simp: collect_blob.simps [of K E opened k data s] split: sum.splits prod.splits)
  note ext = read_chunk_extend [OF 1(2) chunk, of t]
  show ?case
    using 1 chunk ext
    by (auto simp: collect_blob.simps [of K E opened k data s] collect_blob.simps [of K E opened k data "s @ t"]
        split: prod.splits if_splits)
qed

lemma collect_blob_size:
  "collect_blob K E opened k data s = (Inr v, rest, w) \<Longrightarrow>
     int (length (blob_data v)) = open_Size opened"
proof (induction K E opened k data s arbitrary: w rule: collect_blob.induct)
  case (1 K E opened k data s)
  obtain eof bytes r w0 where chunk: "read_chunk K E (open_Size opened) (length data) k s = (Inr (eof, bytes), r, w0)"
    using 1(2) by (auto simp: collect_blob.simps [of K E opened k data s] split: sum.splits prod.splits)
  show ?case
  proof (cases "eof \<or> bytes = []")
    case True
    then show ?thesis
      using 1(2) chunk
      by (auto simp: collect_blob.simps [of K E opened k data s] blob_value_def split: if_splits)
  next
    case False
    then obtain w' where "collect_blob K E opened (k + 1) (data @ bytes) r = (Inr v, rest, w')"
      using 1(2) chunk by (auto simp: collect_blob.simps [of K E opened k data s] split: prod.splits)
    from 1(1) [OF chunk [symmetric] refl refl refl _ _ this] False show ?thesis by simp
  qed
qed

lemma readBlob_Inr:
  assumes "readBlobOnceWithMetadata K E dialed meth params s = (Inr v, rest, w)"
  obtains encoded resp r w1 w2 opened where
    "dialed = None" "(case params of None \<Rightarrow> Inr [] | Some enc \<Rightarrow> enc) = Inr encoded"
    "exchange K E 0 (plainRequest meth encoded) [] s = (Inr resp, r, w1)"
    "resp_id resp = 1" "decodeRPCError (resp_error resp) = None" "resp_payloadBytes resp = 0"
    "dec_open K (resp_result resp) = Inr opened" "0 \<le> open_Size opened"
    "collect_blob K E opened 1 [] r = (Inr v, rest, w2)" "w = w1 @ w2"
  using assms
  by (auto simp: readBlobOnceWithMetadata_def split: option.splits sum.splits prod.splits if_splits)

lemma readBlob_extend:
  assumes "0 < bufSize E" and "readBlobOnceWithMetadata K E dialed meth params s = (Inr v, rest, w)"
  shows "readBlobOnceWithMetadata K E dialed meth params (s @ t) = (Inr v, rest @ t, w)"
  using assms(2)
proof (cases rule: readBlob_Inr)
  case (1 encoded resp r w1 w2 opened)
  then show ?thesis
    using exchange_extend [OF assms(1) 1(3), of t] collect_blob_extend [OF assms(1) 1(9), of t]
    by (simp add: readBlobOnceWithMetadata_def)
qed

lemma readBlob_rest:
  assumes "0 < bufSize E" and "readBlobOnceWithMetadata K E dialed meth params (a @ b) = (Inr v, [], w)" and "b \<noteq> []"
  shows "\<exists>e. fst (readBlobOnceWithMetadata K E dialed meth params a) = Inl e"
proof (cases "readBlobOnceWithMetadata K E dialed meth params a")
  case (fields res rest w')
  show ?thesis
  proof (cases res)
    case (Inr v')
    then have "readBlobOnceWithMetadata K E dialed meth params (a @ b) = (Inr v', rest @ b, w')"
      using fields readBlob_extend [OF assms(1)] by simp
    then show ?thesis using assms(2,3) by simp
  qed (simp add: fields)
qed

text \<open>
  C28. A blob is delivered whole or not at all, whatever the server sends and wherever the
  connection breaks: a call that succeeds returns exactly as many bytes as the server
  announced in its open response; if the stream \<open>s\<close> is just what such a call consumes, then
  on every proper prefix of \<open>s\<close> the same call returns an error, never a part of the blob;
  and bytes behind \<open>s\<close> are not touched.
\<close>

theorem blob_never_partial:
  assumes "0 < bufSize E" and "readBlobOnceWithMetadata K E dialed meth params s = (Inr v, [], w)"
  shows "(\<exists>p resp rest w1 opened.
            exchange K E 0 (plainRequest meth p) [] s = (Inr resp, rest, w1) \<and>
            dec_open K (resp_result resp) = Inr opened \<and> int (length (blob_data v)) = open_Size opened) \<and>
         (\<forall>k<length s. \<exists>e. fst (readBlobOnceWithMetadata K E dialed meth params (take k s)) = Inl e) \<and>
         (\<forall>t. readBlobOnceWithMetadata K E dialed meth params (s @ t) = (Inr v, t, w))"
proof (intro conjI allI impI)
  from assms(2) show "\<exists>p resp rest w1 opened.
            exchange K E 0 (plainRequest meth p) [] s = (Inr resp, rest, w1) \<and>
            dec_open K (resp_result resp) = Inr opened \<and> int (length (blob_data v)) = open_Size opened"
    by (cases rule: readBlob_Inr) (blast dest: collect_blob_size)
  show "\<exists>e. fst (readBlobOnceWithMetadata K E dialed meth params (take k s)) = Inl e" if "k < length s" for k
    using readBlob_rest [OF assms(1), of K dialed meth params "take k s" "drop k s"] assms(2) that by simp
  show "readBlobOnceWithMetadata K E dialed meth params (s @ t) = (Inr v, t, w)" for t
    using readBlob_extend [OF assms, of t] by simp
qed

section \<open>The two ends of a blob stream fit together\<close>

text \<open>A value that the encoder accepts, that JSON represents, and that fits into a frame.\<close>

definition sends :: "('a \<Rightarrow> bool) \<Rightarrow> ('a \<Rightarrow> go_error + bytes) \<Rightarrow> 'a \<Rightarrow> bool" where
  "sends good enc x \<longleftrightarrow> good x \<and> (\<exists>s. enc x = Inr s \<and> length s < maxRPCFrame)"

definition okResponse :: "bytes \<Rightarrow> nat \<Rightarrow> response" where
  "okResponse result n =
     \<lparr>resp_wire = wireVersion, resp_id = 1, resp_result = result, resp_error = None, resp_payloadBytes = int n\<rparr>"

definition json_ok :: "codec \<Rightarrow> bool" where
  "json_ok K \<longleftrightarrow>
     codec_ok (req_ok K) (enc_request K) (dec_request K) \<and>
     codec_ok (resp_ok K) (enc_response K) (dec_response K)"

definition sent :: "request \<Rightarrow> request" where
  "sent req = req\<lparr>req_wire := wireVersion\<rparr>"

definition faultless :: "endpoint \<Rightarrow> bool" where
  "faultless E \<longleftrightarrow> 0 < bufSize E \<and> wfault E = (\<lambda>_. None)"

lemma send_request:
  assumes "json_ok K" and "sends (req_ok K) (enc_request K) (sent (plainRequest meth params))" and "meth \<noteq> []"
  obtains w where "writeRequestPayload (enc_request K) None (plainRequest meth params) [] = (None, w)"
    "\<And>B e rest. 0 < B \<Longrightarrow>
       readRequest (dec_request K) B e (w @ rest) = (Inr (sent (plainRequest meth params), []), rest)"
proof -
  let ?req = "plainRequest meth params"
  have eq: "?req\<lparr>req_wire := wireVersion, req_payloadBytes := int (length [])\<rparr> = sent ?req"
    by (simp add: plainRequest_def sent_def)
  obtain w where w: "writeRequestPayload (enc_request K) None ?req [] = (None, w)"
    using assms(2) eq by (auto simp: writeRequestPayload_def sends_def send_def)
  have "readRequest (dec_request K) B e (w @ rest) = (Inr (sent ?req, []), rest)" if "0 < B" for B e rest
    using request_frame [OF _ that _ _ _ w, of "req_ok K" "dec_request K" e rest] assms eq
    by (simp add: json_ok_def sends_def plainRequest_def)
  with w show thesis by (rule that)
qed

lemma send_response:
  assumes "json_ok K" and "sends (resp_ok K) (enc_response K) (okResponse result (length data))"
    and "length data \<le> maxRPCChunk"
  obtains enc where "writeRawResponse (enc_response K) None 1 (Some (Inr result)) data None = (None, enc @ newline # data)"
    "\<And>B e rest. 0 < B \<Longrightarrow>
       readResponse (dec_response K) B e (enc @ newline # rest) = (Inr (okResponse result (length data)), rest)"
proof -
  let ?resp = "okResponse result (length data)"
  obtain enc where enc: "enc_response K ?resp = Inr enc" "length enc < maxRPCFrame" "resp_ok K ?resp"
    using assms(2) by (auto simp: sends_def)
  have "writeRawResponse (enc_response K) None 1 (Some (Inr result)) data None = (None, enc @ newline # data)"
    using enc assms(3) by (simp add: writeRawResponse_def encodeResponse_def okResponse_def send_def)
  moreover have "readResponse (dec_response K) B e (enc @ newline # rest) = (Inr ?resp, rest)" if "0 < B" for B e rest
    using response_frame [where good = "resp_ok K" and resp = ?resp and marshal = "enc_response K", OF _ that enc(3,1,2), of "dec_response K" e rest] assms(1,3)
    by (simp add: json_ok_def okResponse_def maxRPCChunk_def maxRPCPayload_def)
  ultimately show thesis by (rule that)
qed

text \<open>The messages of the stream of one blob can all be sent.\<close>

definition blob_wire :: "codec \<Rightarrow> blobOpenResult \<Rightarrow> bool" where
  "blob_wire K opened \<longleftrightarrow> json_ok K \<and>
     (\<exists>p. enc_chunk K \<lparr>MaxBytes = int maxRPCChunk, Sized = False\<rparr> = Inr p \<and>
          dec_chunk K p = Inr \<lparr>MaxBytes = int maxRPCChunk, Sized = False\<rparr> \<and>
          sends (req_ok K) (enc_request K) (sent (plainRequest ''blob.read'' p))) \<and>
     (\<forall>eof. \<exists>b. enc_blob K (BlobRead eof) = Inr b \<and> dec_blob K b = Inr (BlobRead eof) \<and>
          (\<forall>n\<le>maxRPCChunk. sends (resp_ok K) (enc_response K) (okResponse b n))) \<and>
     (\<exists>b. enc_open K opened = Inr b \<and> dec_open K b = Inr opened \<and>
          sends (resp_ok K) (enc_response K) (okResponse b 0))"

lemma blob_turn:
  assumes "blob_wire K opened" and "faultless Ec" and "faultless Es" and "off \<le> length data"
    and stop: "stop = min (off + maxRPCChunk) (length data)"
  obtains w frame where
    "\<And>k rest. blob_loop K Es data off k (w @ rest) =
       (if stop = length data then frame else frame @ blob_loop K Es data stop (k + 1) rest)"
    "\<And>k rest. read_chunk K Ec (int (length data)) off k (frame @ rest) =
       (Inr (stop = length data, slice off stop data), rest, w)"
proof -
  define chunk eof where "chunk = slice off stop data" and "eof = (stop = length data)"
  have len: "length chunk \<le> maxRPCChunk" "off + length chunk \<le> length data" using assms(4) stop by (auto simp: chunk_def)
  obtain p where p: "enc_chunk K \<lparr>MaxBytes = int maxRPCChunk, Sized = False\<rparr> = Inr p"
      "dec_chunk K p = Inr \<lparr>MaxBytes = int maxRPCChunk, Sized = False\<rparr>"
      "sends (req_ok K) (enc_request K) (sent (plainRequest ''blob.read'' p))"
    using assms(1) by (auto simp: blob_wire_def)
  obtain b where b: "enc_blob K (BlobRead eof) = Inr b" "dec_blob K b = Inr (BlobRead eof)"
      "sends (resp_ok K) (enc_response K) (okResponse b (length chunk))"
    using assms(1) len(1) unfolding blob_wire_def by metis
  have json: "json_ok K" using assms(1) by (simp add: blob_wire_def)
  obtain w where w: "writeRequestPayload (enc_request K) None (plainRequest ''blob.read'' p) [] = (None, w)"
      "\<And>B e rest. 0 < B \<Longrightarrow>
         readRequest (dec_request K) B e (w @ rest) = (Inr (sent (plainRequest ''blob.read'' p), []), rest)"
    using send_request [OF json p(3)] by auto
  obtain enc where enc: "writeRawResponse (enc_response K) None 1 (Some (Inr b)) chunk None = (None, enc @ newline # chunk)"
      "\<And>B e rest. 0 < B \<Longrightarrow>
         readResponse (dec_response K) B e (enc @ newline # rest) = (Inr (okResponse b (length chunk)), rest)"
    using send_response [OF json b(3) len(1)] by metis
  have pos: "0 < maxRPCChunk" by (simp add: maxRPCChunk_def)
  have serve: "blob_loop K Es data off k (w @ rest) =
      (if eof then enc @ newline # chunk else (enc @ newline # chunk) @ blob_loop K Es data stop (k + 1) rest)" for k rest
    using w(2) enc(1) p(2) b(1) assms(3) pos
    by (simp add: blob_loop.simps [of K Es data off k "w @ rest"] faultless_def sent_def plainRequest_def Let_def
        stop chunk_def eof_def)
  have "exchange K Ec k (plainRequest ''blob.read'' p) [] (enc @ newline # chunk @ rest) =
      (Inr (okResponse b (length chunk)), chunk @ rest, w)" for k rest
    using w(1) enc(2) assms(2) by (simp add: exchange_def faultless_def)
  then have collect: "read_chunk K Ec (int (length data)) off k ((enc @ newline # chunk) @ rest) =
      (Inr (eof, chunk), rest, w)" for k rest
    using p(1) b(2) len by (simp add: read_chunk_def okResponse_def decodeRPCError_def ReadFull_def)
  show thesis
    using serve collect unfolding chunk_def eof_def by (rule that)
qed

lemma blob_dialogue:
  assumes "blob_wire K opened" and "faultless Ec" and "faultless Es" and "open_Size opened = int (length data)"
    and "off \<le> length data"
  shows "\<exists>w. \<forall>k k'. collect_blob K Ec opened k (take off data) (blob_loop K Es data off k' w) =
    (Inr (blob_value opened data), [], w)"
  using assms(5)
proof (induction "length data - off" arbitrary: off rule: less_induct)
  case less
  define stop where "stop = min (off + maxRPCChunk) (length data)"
  obtain w frame where turn:
      "\<And>k rest. blob_loop K Es data off k (w @ rest) =
         (if stop = length data then frame else frame @ blob_loop K Es data stop (k + 1) rest)"
      "\<And>k rest. read_chunk K Ec (int (length data)) off k (frame @ rest) =
         (Inr (stop = length data, slice off stop data), rest, w)"
    using blob_turn [OF assms(1-3) less(2) stop_def] by metis
  have chunk: "take off data @ slice off stop data = take stop data"
    using less(2) by (simp add: slice_def stop_def take_add [symmetric])
  have len: "length (take off data) = off" using less(2) by simp
  note step = collect_blob.simps [of K Ec opened _ "take off data"]
  show ?case
  proof (cases "stop = length data")
    case True
    then show ?thesis
      using turn(1) [of _ "[]"] turn(2) [of _ "[]"] chunk len less(2) assms(4) by (auto simp: step intro!: exI [of _ w])
  next
    case False
    then have "off < stop" "stop \<le> length data" by (auto simp: stop_def maxRPCChunk_def)
    then have "length data - stop < length data - off" by simp
    from less(1) [OF this \<open>stop \<le> length data\<close>] obtain w' where
      "\<And>k k'. collect_blob K Ec opened k (take stop data) (blob_loop K Es data stop k' w') = (Inr (blob_value opened data), [], w')"
      by blast
    moreover have "slice off stop data \<noteq> []"
      using \<open>off < stop\<close> \<open>stop \<le> length data\<close> by (simp add: slice_def)
    ultimately show ?thesis
      using turn(1) [of _ w'] turn(2) False chunk len assms(4) \<open>off < stop\<close> \<open>stop \<le> length data\<close>
      by (auto simp: step intro!: exI [of _ "w @ w'"])
  qed
qed

lemma blob_delivered:
  assumes "blob_wire K opened" and "faultless Ec" and "faultless Es" and "meth \<noteq> []"
    and "sends (req_ok K) (enc_request K) (sent (plainRequest meth params))"
    and "namedSession params = Inr sess" and "open_blob meth sess = Inr (opened, data)"
  shows "\<exists>w w'.
    readRequest (dec_request K) (bufSize Es) (endErr Es) (w @ w') = (Inr (sent (plainRequest meth params), []), w') \<and>
    readBlobOnceWithMetadata K Ec None meth (Some (Inr params))
      (serveBlob K Es namedSession (sent (plainRequest meth params)) w') =
    (Inr (blob_value opened data), [], w @ w')"
proof -
  have json: "json_ok K" using assms(1) by (simp add: blob_wire_def)
  obtain w where w: "writeRequestPayload (enc_request K) None (plainRequest meth params) [] = (None, w)"
      "\<And>B e rest. 0 < B \<Longrightarrow>
         readRequest (dec_request K) B e (w @ rest) = (Inr (sent (plainRequest meth params), []), rest)"
    using send_request [OF json assms(5,4)] by metis
  obtain b where b: "enc_open K opened = Inr b" "dec_open K b = Inr opened"
      "sends (resp_ok K) (enc_response K) (okResponse b (length ([] :: bytes)))"
    using assms(1) by (auto simp: blob_wire_def)
  obtain enc where enc: "writeRawResponse (enc_response K) None 1 (Some (Inr b)) [] None = (None, enc @ [newline])"
      "\<And>B e rest. 0 < B \<Longrightarrow>
         readResponse (dec_response K) B e (enc @ newline # rest) = (Inr (okResponse b 0), rest)"
    using send_response [OF json b(3)] by auto
  have size: "open_Size opened = int (length data)"
    using assms(7) by (auto simp: open_blob_def Let_def map_sum_def split: sum.splits prod.splits if_splits)
  obtain w' where w': "\<And>k k'. collect_blob K Ec opened k [] (blob_loop K Es data 0 k' w') =
      (Inr (blob_value opened data), [], w')"
    using blob_dialogue [OF assms(1-3) size, of 0] by auto
  have "serveBlob K Es namedSession (sent (plainRequest meth params)) w' =
      enc @ newline # blob_loop K Es data 0 1 w'"
    using enc(1) b(1) assms(3,6,7)
    by (auto simp: serveBlob_def sent_def plainRequest_def faultless_def writeRawResponse_def writeResponse_def
        split: sum.splits)
  then have "readBlobOnceWithMetadata K Ec None meth (Some (Inr params))
      (serveBlob K Es namedSession (sent (plainRequest meth params)) w') = (Inr (blob_value opened data), [], w @ w')"
    using w(1) enc(2) b(2) w' assms(2) size
    by (simp add: readBlobOnceWithMetadata_def exchange_def faultless_def okResponse_def decodeRPCError_def)
  moreover have "readRequest (dec_request K) (bufSize Es) (endErr Es) (w @ w') = (Inr (sent (plainRequest meth params), []), w')"
    using w(2) assms(3) by (simp add: faultless_def)
  ultimately show ?thesis by blast
qed

text \<open>
  What a client should get: the data that the session captured, with the cursor, the format
  and the size that belong to the kind of blob it asked for.
\<close>

definition captured :: "bytes \<Rightarrow> blob_session \<Rightarrow> go_error + blobValue" where
  "captured meth sess =
     (if meth = ''replay'' then
        map_sum id (\<lambda>data. \<lparr>blob_data = data, blob_cursor = zero_cursor, blob_format = [], blob_grid = zero_size\<rparr>)
          (bs_replay sess)
      else if meth = ''checkpoint'' then
        map_sum id (\<lambda>(data, c). \<lparr>blob_data = data, blob_cursor = c, blob_format = [], blob_grid = zero_size\<rparr>)
          (bs_checkpoint sess)
      else
        map_sum id (\<lambda>(format, data, c, sz). \<lparr>blob_data = data, blob_cursor = c, blob_format = format, blob_grid = sz\<rparr>)
          (bs_atomic sess))"

text \<open>How a blob is announced on the wire.\<close>

definition announcement :: "blobValue \<Rightarrow> blobOpenResult" where
  "announcement v = \<lparr>open_Size = int (length (blob_data v)), open_Cursor = blob_cursor v, open_Format = blob_format v,
     open_Grid = (if blob_grid v \<noteq> zero_size then Some (blob_grid v) else None)\<rparr>"

lemma open_blob_captured:
  assumes "meth \<in> {''replay'', ''checkpoint'', ''state.atomic''}" and "captured meth sess = Inr v"
  shows "open_blob meth sess = Inr (announcement v, blob_data v)"
  using assms
  by (auto simp: open_blob_def captured_def announcement_def map_sum_def split: sum.splits prod.splits)

lemma announced_value: "blob_value (announcement v) (blob_data v) = v"
  by (cases v) (simp add: blob_value_def announcement_def)

text \<open>
  C25. Blobs arrive as they were captured: when the server serves a session's replay,
  checkpoint or atomic state and no message is lost, the requests that the client sends
  (its open request is read by the server as that request) and the bytes that the server
  answers with are such that the client returns exactly what the session captured: the data
  and, for a checkpoint, its cursor, for an atomic state its cursor, format and size. It
  leaves nothing unread. This holds for data of any length, in as many chunks as it takes,
  and for read buffers of any size.
\<close>

theorem blob_roundtrip:
  assumes "blob_wire K (announcement v)" and "faultless Ec" and "faultless Es"
    and "meth \<in> {''replay'', ''checkpoint'', ''state.atomic''}"
    and "sends (req_ok K) (enc_request K) (sent (plainRequest meth params))"
    and "namedSession params = Inr sess" and "captured meth sess = Inr v"
  shows "\<exists>w w'.
    readRequest (dec_request K) (bufSize Es) (endErr Es) (w @ w') = (Inr (sent (plainRequest meth params), []), w') \<and>
    readBlobOnceWithMetadata K Ec None meth (Some (Inr params))
      (serveBlob K Es namedSession (sent (plainRequest meth params)) w') = (Inr v, [], w @ w')"
proof -
  have "meth \<noteq> []" using assms(4) by auto
  then show ?thesis
    using blob_delivered [where namedSession = namedSession and sess = sess, OF assms(1-3) _ assms(5,6)
        open_blob_captured [OF assms(4,7)]] announced_value by simp
qed

text \<open>
  A small encoding with the properties that \<open>blob_wire\<close> asks for: a request is one letter, a
  response the letter of its result followed by one mark per byte of payload.
\<close>

definition demo_opened :: blobOpenResult where
  "demo_opened = \<lparr>open_Size = 5, open_Cursor = Cursor 1 5, open_Format = [], open_Grid = None\<rparr>"

definition demo_codec :: codec where
  "demo_codec = \<lparr>
     enc_request = (\<lambda>r. Inr (if req_method r = ''blob.read'' then ''r'' else ''o'')),
     dec_request = (\<lambda>s. Inr (sent (plainRequest (if hd s = CHR ''r'' then ''blob.read'' else ''checkpoint'') ''n''))),
     enc_response = (\<lambda>r. Inr (resp_result r @ replicate (nat (resp_payloadBytes r)) CHR ''x'')),
     dec_response = (\<lambda>s. Inr (okResponse (take 1 s) (length s - 2))),
     enc_open = (\<lambda>_. Inr ''O''), dec_open = (\<lambda>_. Inr demo_opened),
     enc_blob = (\<lambda>b. Inr (if blob_EOF b then ''T'' else ''F'')), dec_blob = (\<lambda>s. Inr (BlobRead (s = ''T''))),
     enc_chunk = (\<lambda>_. Inr ''n''), dec_chunk = (\<lambda>_. Inr \<lparr>MaxBytes = int maxRPCChunk, Sized = False\<rparr>),
     enc_output = (\<lambda>_. Inl (Plain [])), dec_output = (\<lambda>_. Inl (Plain [])),
     enc_cursor = (\<lambda>_. Inl (Plain [])), dec_cursor = (\<lambda>_. Inl (Plain [])),
     req_ok = (\<lambda>r. r = sent (plainRequest ''blob.read'' ''n'') \<or> r = sent (plainRequest ''checkpoint'' ''n'')),
     resp_ok = (\<lambda>r. r = okResponse (resp_result r) (nat (resp_payloadBytes r)) \<and>
                    length (resp_result r) = 1 \<and> newline \<notin> set (resp_result r))\<rparr>"

definition demo_end :: endpoint where
  "demo_end = \<lparr>bufSize = 16, endErr = Sentinel EOF, wfault = (\<lambda>_. None), ctxState = None\<rparr>"

lemma demo_json: "json_ok demo_codec"
  by (auto simp: json_ok_def codec_ok_def demo_codec_def okResponse_def sent_def plainRequest_def)

lemma demo_wire: "blob_wire demo_codec demo_opened"
  unfolding blob_wire_def using demo_json
  by (auto simp: demo_codec_def sends_def okResponse_def maxRPCChunk_def maxRPCFrame_def)

lemma demo_faultless: "faultless demo_end"
  by (simp add: faultless_def demo_end_def)

definition demo_blob :: blobValue where
  "demo_blob = \<lparr>blob_data = ''hello'', blob_cursor = Cursor 1 5, blob_format = [], blob_grid = zero_size\<rparr>"

theorem blob_roundtrip_witness:
  "\<exists>w w'.
    readBlobOnceWithMetadata demo_codec demo_end None ''checkpoint'' (Some (Inr ''n''))
      (serveBlob demo_codec demo_end
         (\<lambda>_. Inr \<lparr>bs_replay = Inr [], bs_checkpoint = Inr (''hello'', Cursor 1 5), bs_atomic = Inl (Plain [])\<rparr>)
         (sent (plainRequest ''checkpoint'' ''n'')) w') = (Inr demo_blob, [], w @ w')"
proof -
  let ?sess = "\<lparr>bs_replay = Inr [], bs_checkpoint = Inr (''hello'', Cursor 1 5), bs_atomic = Inl (Plain [])\<rparr>"
  have "sends (req_ok demo_codec) (enc_request demo_codec) (sent (plainRequest ''checkpoint'' ''n''))"
    by (simp add: sends_def maxRPCFrame_def demo_codec_def)
  moreover have "captured ''checkpoint'' ?sess = Inr demo_blob"
    by (simp add: captured_def demo_blob_def)
  moreover have "blob_wire demo_codec (announcement demo_blob)"
    using demo_wire by (simp add: announcement_def demo_blob_def demo_opened_def)
  ultimately show ?thesis
    using blob_roundtrip [OF _ demo_faultless demo_faultless, of demo_codec demo_blob "''checkpoint''" "''n''"
      "\<lambda>_. Inr ?sess" ?sess] by auto
qed

lemma demo_response:
  assumes "newline \<notin> set enc" and "length enc < 1000"
  shows "readResponse (dec_response demo_codec) (bufSize demo_end) e (enc @ newline # rest) =
    (Inr (okResponse (take 1 (enc @ [newline])) (length enc - 1)), rest)"
proof -
  have "readLine (bufSize demo_end) e maxRPCFrame (enc @ newline # rest) = (Inr (enc @ [newline]), rest)"
    using assms by (intro readLine_frame) (simp_all add: demo_end_def maxRPCFrame_def)
  then show ?thesis
    using assms(2) by (simp add: readResponse_def demo_codec_def okResponse_def maxRPCPayload_def)
qed

lemma demo_fields [simp]:
  "enc_chunk demo_codec p = Inr ''n''" "dec_blob demo_codec s = Inr (BlobRead (s = ''T''))"
  "dec_open demo_codec s = Inr demo_opened"
  by (simp_all add: demo_codec_def)

lemma demo_request:
  "writeRequestPayload (enc_request demo_codec) None (plainRequest meth params) [] =
     (None, (if meth = ''blob.read'' then ''r'' else ''o'') @ [newline])"
  by (simp add: writeRequestPayload_def demo_codec_def plainRequest_def maxRPCFrame_def send_def)

lemma demo_stream:
  "readBlobOnceWithMetadata demo_codec demo_end None ''checkpoint'' (Some (Inr ''n''))
     (''O'' @ newline # ''Txxxxx'' @ newline # ''hello'') =
   (Inr (blob_value demo_opened ''hello''), [], ''o'' @ newline # ''r'' @ [newline])"
proof -
  have wf: "wfault demo_end = (\<lambda>_. None)" by (simp add: demo_end_def)
  have "exchange demo_codec demo_end 0 (plainRequest ''checkpoint'' ''n'') [] (''O'' @ newline # ''Txxxxx'' @ newline # ''hello'') =
      (Inr (okResponse ''O'' 0), ''Txxxxx'' @ newline # ''hello'', ''o'' @ [newline])"
    unfolding exchange_def wf demo_request by (subst demo_response) simp_all
  moreover have "exchange demo_codec demo_end 1 (plainRequest ''blob.read'' ''n'') [] (''Txxxxx'' @ newline # ''hello'') =
      (Inr (okResponse ''T'' 5), ''hello'', ''r'' @ [newline])"
    unfolding exchange_def wf demo_request by (subst demo_response) (simp_all add: okResponse_def)
  then have "read_chunk demo_codec demo_end 5 0 1 (''Txxxxx'' @ newline # ''hello'') = (Inr (True, ''hello''), [], ''r'' @ [newline])"
    by (simp add: read_chunk_def okResponse_def decodeRPCError_def ReadFull_def maxRPCChunk_def)
  then have "collect_blob demo_codec demo_end demo_opened 1 [] (''Txxxxx'' @ newline # ''hello'') =
      (Inr (blob_value demo_opened ''hello''), [], ''r'' @ [newline])"
    by (simp add: collect_blob.simps [of demo_codec] demo_opened_def)
  ultimately show ?thesis
    by (simp add: readBlobOnceWithMetadata_def okResponse_def decodeRPCError_def)
      (simp add: demo_opened_def)
qed

theorem blob_never_partial_witness:
  "\<exists>e. fst (readBlobOnceWithMetadata demo_codec demo_end None ''checkpoint'' (Some (Inr ''n''))
     (''O'' @ newline # ''Txxxxx'' @ newline # ''hell'')) = Inl e"
  using blob_never_partial [OF _ demo_stream] by (force simp: demo_end_def dest: spec [of _ "13 :: nat"])

end
