(* ===== verification/Remote_Output.thy ===== *)
theory Remote_Output
  imports Streams Reader_Stream
begin

text \<open>
  The output stream over the socket: \<^verbatim>\<open>serveOutput\<close> of \<^verbatim>\<open>server.go\<close> answers one read request
  after the other from an output source, and \<^verbatim>\<open>remoteOutputSource\<close> of \<^verbatim>\<open>client.go\<close> is an
  output source again. The interface between them and the reader behind the server is the
  locale \<open>output_source\<close>: a read takes a buffer size and answers bytes, a size and an error,
  or blocks. The refinement theorem says that reading through the socket is reading from
  the source, up to the translation of errors.
\<close>

section \<open>The server\<close>

type_synonym answer = "bytes \<times> size \<times> go_error option"

definition is_eof :: "go_error option \<Rightarrow> bool" where
  "is_eof err \<longleftrightarrow> (case err of Some e \<Rightarrow> errors_Is e EOF | None \<Rightarrow> False)"

text \<open>The response to one read: the result record, and the error if it is not the end of the output.\<close>

definition read_result :: "cursor \<Rightarrow> size \<Rightarrow> go_error option \<Rightarrow> outputReadResult" where
  "read_result c sz err =
     \<lparr>out_Cursor = c, out_EOF = is_eof err, out_Size = (if sz \<noteq> zero_size then Some sz else None)\<rparr>"

function output_loop ::
  "codec \<Rightarrow> endpoint \<Rightarrow> (nat \<Rightarrow> bool \<Rightarrow> 'o \<Rightarrow> (answer \<times> 'o) option) \<Rightarrow> ('o \<Rightarrow> cursor) \<Rightarrow> 'o \<Rightarrow> nat \<Rightarrow> bytes \<Rightarrow> bytes" where
  "output_loop K E rd cur src k s =
     (case readRequest (dec_request K) (bufSize E) (endErr E) s of
        (Inl e, rest) \<Rightarrow> snd (writeResponse (enc_response K) (wfault E k) (- 1) None (Some e))
      | (Inr (req, payload), rest) \<Rightarrow>
          let refuse = (\<lambda>e. snd (writeResponse (enc_response K) (wfault E k) (req_id req) None (Some e))) in
          if payload \<noteq> [] then
            refuse (Plain ''output control request cannot contain a payload'') @ output_loop K E rd cur src (k + 1) rest
          else if req_method req = ''output.close'' then
            snd (writeResponse (enc_response K) (wfault E k) (req_id req) None None)
          else if req_method req = ''output.read'' then
            (case dec_chunk K (req_params req) of
               Inl e \<Rightarrow> refuse e @ output_loop K E rd cur src (k + 1) rest
             | Inr p \<Rightarrow>
                 if MaxBytes p \<le> 0 \<or> MaxBytes p > int maxRPCChunk then
                   refuse (Plain ''invalid output chunk size'') @ output_loop K E rd cur src (k + 1) rest
                 else
                   (case rd (nat (MaxBytes p)) (Sized p) src of
                      None \<Rightarrow> []
                    | Some ((data, sz, err), src') \<Rightarrow>
                        (let sz' = (if Sized p then sz else zero_size) in
                         case writeRawResponse (enc_response K) (wfault E k) (req_id req)
                                (Some (enc_output K (read_result (cur src') sz' err))) data
                                (if is_eof err then None else err) of
                           (Some e, w) \<Rightarrow> w
                         | (None, w) \<Rightarrow> if is_eof err then w else w @ output_loop K E rd cur src' (k + 1) rest)))
          else refuse (Plain (''unknown output method: '' @ req_method req)) @ output_loop K E rd cur src (k + 1) rest)"
  by pat_completeness auto
termination
  by (relation "measure (\<lambda>(K, E, rd, cur, src, k, s). length s)") (auto dest!: readRequest_shorter [OF sym])

declare output_loop.simps [simp del]

text \<open>\<open>openOutput\<close> is what decoding the parameters, \<^verbatim>\<open>hub.Get\<close> and \<^verbatim>\<open>session.Output\<close> give for the request.\<close>

definition serveOutput ::
  "codec \<Rightarrow> endpoint \<Rightarrow> (nat \<Rightarrow> bool \<Rightarrow> 'o \<Rightarrow> (answer \<times> 'o) option) \<Rightarrow> ('o \<Rightarrow> cursor) \<Rightarrow>
   (bytes \<Rightarrow> go_error + 'o) \<Rightarrow> request \<Rightarrow> bytes \<Rightarrow> bytes" where
  "serveOutput K E rd cur openOutput req s =
     (case openOutput (req_params req) of
        Inl e \<Rightarrow> snd (writeResponse (enc_response K) (wfault E 0) (req_id req) None (Some e))
      | Inr src \<Rightarrow>
          (case writeResponse (enc_response K) (wfault E 0) (req_id req) (Some (enc_cursor K (cur src))) None of
             (Some e, w) \<Rightarrow> w
           | (None, w) \<Rightarrow> w @ output_loop K E rd cur src 1 s))"

section \<open>The client\<close>

record remoteOutputSource =
  rem_cursor :: cursor
  rem_closed :: bool

definition remote_Close :: "remoteOutputSource \<Rightarrow> remoteOutputSource" where
  "remote_Close r = r\<lparr>rem_closed := True\<rparr>"

definition client_openOutput ::
  "codec \<Rightarrow> endpoint \<Rightarrow> go_error option \<Rightarrow> go_error + bytes \<Rightarrow> bytes \<Rightarrow> (go_error + remoteOutputSource) \<times> bytes \<times> bytes" where
  "client_openOutput K E dialed params s =
     (case dialed of
        Some e \<Rightarrow> (Inl (ctxErr E (Wrap ''connect ghostline server: '' e [])), s, [])
      | None \<Rightarrow>
          (case params of
             Inl e \<Rightarrow> (Inl e, s, [])
           | Inr encoded \<Rightarrow>
               (case exchange K E 0 (plainRequest ''output'' encoded) [] s of
                  (Inl e, rest, w) \<Rightarrow> (Inl e, rest, w)
                | (Inr resp, rest, w) \<Rightarrow>
                    (if resp_id resp \<noteq> 1 then Inl (Plain ''ghostline: mismatched output-open response ID'')
                     else (case decodeRPCError (resp_error resp) of
                       Some e \<Rightarrow> Inl e
                     | None \<Rightarrow>
                         if resp_payloadBytes resp \<noteq> 0 then Inl (Plain ''ghostline: unexpected output-open payload'')
                         else (case dec_cursor K (resp_result resp) of
                           Inl e \<Rightarrow> Inl e
                         | Inr c \<Rightarrow> Inr \<lparr>rem_cursor = c, rem_closed = False\<rparr>)), rest, w))))"

definition readOnce ::
  "codec \<Rightarrow> endpoint \<Rightarrow> nat \<Rightarrow> remoteOutputSource \<Rightarrow> nat \<Rightarrow> bool \<Rightarrow> bytes \<Rightarrow>
   (answer \<times> remoteOutputSource) \<times> bytes \<times> bytes" where
  "readOnce K E k r buflen sized s =
     (let fail = (\<lambda>e. (([], zero_size, Some e), r)) in
      if buflen = 0 then ((([], zero_size, None), r), s, [])
      else if rem_closed r then (fail (Sentinel ErrClosedPipe), s, [])
      else (case enc_chunk K \<lparr>MaxBytes = int (min buflen maxRPCChunk), Sized = sized\<rparr> of
        Inl e \<Rightarrow> (fail e, s, [])
      | Inr params \<Rightarrow>
          (case exchange K E k (plainRequest ''output.read'' params) [] s of
             (Inl e, rest, w) \<Rightarrow> (fail e, rest, w)
           | (Inr resp, rest, w) \<Rightarrow>
               if resp_id resp \<noteq> 1 then (fail (Plain ''ghostline: mismatched output response ID''), rest, w)
               else (case decodeRPCError (resp_error resp) of
                 Some e \<Rightarrow> (fail e, rest, w)
               | None \<Rightarrow>
                   (case dec_output K (resp_result resp) of
                      Inl e \<Rightarrow> (fail e, rest, w)
                    | Inr result \<Rightarrow>
                        let chunkBytes = resp_payloadBytes resp in
                        if chunkBytes > int buflen \<or> chunkBytes > int maxRPCChunk then
                          (fail (Plain ''ghostline: server returned oversized output chunk''), rest, w)
                        else (case ReadFull (endErr E) (nat chunkBytes) rest of
                          (Inl e, rest') \<Rightarrow> (fail (ctxErr E e), rest', w)
                        | (Inr data, rest') \<Rightarrow>
                            let r' = r\<lparr>rem_cursor := out_Cursor result\<rparr>;
                                sz = (if sized then (case out_Size result of Some z \<Rightarrow> z | None \<Rightarrow> zero_size) else zero_size) in
                            ((if chunkBytes \<noteq> 0 then (data, sz, None)
                              else if out_EOF result then ([], zero_size, Some (Sentinel EOF))
                              else if sz \<noteq> zero_size then ([], sz, None)
                              else ([], zero_size, Some (Sentinel ErrNoProgress)), r'), rest', w)))))))"

definition remote_read ::
  "codec \<Rightarrow> endpoint \<Rightarrow> nat \<Rightarrow> remoteOutputSource \<Rightarrow> nat \<Rightarrow> bool \<Rightarrow> bytes \<Rightarrow>
   (answer \<times> remoteOutputSource) \<times> bytes \<times> bytes" where
  "remote_read K E k r buflen sized s =
     (case readOnce K E k r buflen sized s of
        (((data, sz, err), r'), rest, w) \<Rightarrow>
          if sized \<and> data = [] \<and> err = None \<and> sz = zero_size
          then ((([], zero_size, Some (Sentinel ErrNoProgress)), r'), rest, w)
          else (((data, sz, err), r'), rest, w))"

section \<open>What the client sees of an answer\<close>

definition remote_answer :: "bool \<Rightarrow> answer \<Rightarrow> answer" where
  "remote_answer sized a = (case a of (data, sz, err) \<Rightarrow>
     (let sz' = (if sized then sz else zero_size) in
      if err \<noteq> None \<and> \<not> is_eof err then ([], zero_size, decodeRPCError (map_option newRPCError err))
      else if data \<noteq> [] then (data, sz', None)
      else if is_eof err then ([], zero_size, Some (Sentinel EOF))
      else if sz' \<noteq> zero_size then ([], sz', None)
      else ([], zero_size, Some (Sentinel ErrNoProgress))))"

definition remote_cursor :: "cursor \<Rightarrow> cursor \<Rightarrow> answer \<Rightarrow> cursor" where
  "remote_cursor old new a = (if snd (snd a) \<noteq> None \<and> \<not> is_eof (snd (snd a)) then old else new)"

section \<open>Reading through the socket\<close>

text \<open>The request for a chunk, and the response to it, can be sent.\<close>

definition read_wire :: "codec \<Rightarrow> nat \<Rightarrow> bool \<Rightarrow> bool" where
  "read_wire K n sized \<longleftrightarrow>
     (\<exists>p. enc_chunk K \<lparr>MaxBytes = int n, Sized = sized\<rparr> = Inr p \<and>
          dec_chunk K p = Inr \<lparr>MaxBytes = int n, Sized = sized\<rparr> \<and>
          sends (req_ok K) (enc_request K) (sent (plainRequest ''output.read'' p)))"

definition errResponse :: "go_error \<Rightarrow> response" where
  "errResponse e = (okResponse [] 0)\<lparr>resp_error := Some (newRPCError e)\<rparr>"

definition answer_wire :: "codec \<Rightarrow> bool \<Rightarrow> cursor \<Rightarrow> answer \<Rightarrow> bool" where
  "answer_wire K sized c a \<longleftrightarrow> (case a of (data, sz, err) \<Rightarrow>
     if err \<noteq> None \<and> \<not> is_eof err then sends (resp_ok K) (enc_response K) (errResponse (the err))
     else (let x = read_result c (if sized then sz else zero_size) err in
           \<exists>b. enc_output K x = Inr b \<and> dec_output K b = Inr x \<and>
               sends (resp_ok K) (enc_response K) (okResponse b (length data))))"

lemma send_error:
  assumes "json_ok K" and "sends (resp_ok K) (enc_response K) (errResponse e)" and "length data \<le> maxRPCChunk"
  obtains enc where
    "\<And>result. writeRawResponse (enc_response K) None 1 result data (Some e) = (None, enc @ [newline])"
    "\<And>B e' rest. 0 < B \<Longrightarrow> readResponse (dec_response K) B e' (enc @ newline # rest) = (Inr (errResponse e), rest)"
proof -
  obtain enc where enc: "enc_response K (errResponse e) = Inr enc" "length enc < maxRPCFrame" "resp_ok K (errResponse e)"
    using assms(2) by (auto simp: sends_def)
  have "writeRawResponse (enc_response K) None 1 result data (Some e) = (None, enc @ [newline])" for result
    using enc assms(3) by (simp add: writeRawResponse_def encodeResponse_def errResponse_def okResponse_def send_def)
  moreover have "readResponse (dec_response K) B e' (enc @ newline # rest) = (Inr (errResponse e), rest)" if "0 < B" for B e' rest
    using response_frame [where good = "resp_ok K" and resp = "errResponse e" and marshal = "enc_response K",
        OF _ that enc(3,1,2), of "dec_response K" e' rest] assms(1)
    by (simp add: json_ok_def errResponse_def okResponse_def)
  ultimately show thesis by (rule that)
qed

lemma decode_newRPCError: "\<exists>d. decodeRPCError (Some (newRPCError e)) = Some d"
  by (auto simp: decodeRPCError_def split: option.split)

text \<open>The client's half of a turn, for the response of either kind.\<close>

lemma client_turn:
  assumes "faultless Ec" and "0 < n" and "\<not> rem_closed r" and "length data \<le> min n maxRPCChunk"
    and p: "enc_chunk K \<lparr>MaxBytes = int (min n maxRPCChunk), Sized = sized\<rparr> = Inr p"
    and w: "writeRequestPayload (enc_request K) None (plainRequest ''output.read'' p) [] = (None, w)"
  shows "dec_output K b = Inr (read_result c (if sized then sz else zero_size) err) \<Longrightarrow>
      \<not> (err \<noteq> None \<and> \<not> is_eof err) \<Longrightarrow>
      (\<And>B e' rest. 0 < B \<Longrightarrow> readResponse (dec_response K) B e' (enc @ newline # rest) = (Inr (okResponse b (length data)), rest)) \<Longrightarrow>
      remote_read K Ec k r n sized (enc @ newline # data @ rest) =
        ((remote_answer sized (data, sz, err), r\<lparr>rem_cursor := c\<rparr>), rest, w)"
    and "(\<And>B e' rest. 0 < B \<Longrightarrow> readResponse (dec_response K) B e' (enc @ newline # rest) = (Inr (errResponse e), rest)) \<Longrightarrow>
      \<not> errors_Is e EOF \<Longrightarrow>
      remote_read K Ec k r n sized (enc @ newline # rest) = ((remote_answer sized (data, sz, Some e), r), rest, w)"
proof -
  assume dec: "dec_output K b = Inr (read_result c (if sized then sz else zero_size) err)"
    and err: "\<not> (err \<noteq> None \<and> \<not> is_eof err)"
    and resp: "\<And>B e' rest. 0 < B \<Longrightarrow> readResponse (dec_response K) B e' (enc @ newline # rest) = (Inr (okResponse b (length data)), rest)"
  have "exchange K Ec k (plainRequest ''output.read'' p) [] (enc @ newline # data @ rest) =
      (Inr (okResponse b (length data)), data @ rest, w)"
    using w resp assms(1) by (simp add: exchange_def faultless_def)
  then show "remote_read K Ec k r n sized (enc @ newline # data @ rest) =
        ((remote_answer sized (data, sz, err), r\<lparr>rem_cursor := c\<rparr>), rest, w)"
    using dec err p assms(2-4)
    by (auto simp: remote_read_def readOnce_def okResponse_def decodeRPCError_def ReadFull_def read_result_def
        remote_answer_def Let_def)
next
  assume resp: "\<And>B e' rest. 0 < B \<Longrightarrow> readResponse (dec_response K) B e' (enc @ newline # rest) = (Inr (errResponse e), rest)"
    and err: "\<not> errors_Is e EOF"
  have "exchange K Ec k (plainRequest ''output.read'' p) [] (enc @ newline # rest) = (Inr (errResponse e), rest, w)"
    using w resp assms(1) by (simp add: exchange_def faultless_def)
  then show "remote_read K Ec k r n sized (enc @ newline # rest) = ((remote_answer sized (data, sz, Some e), r), rest, w)"
    using p err assms(2,3) decode_newRPCError [of e]
    by (auto simp: remote_read_def readOnce_def errResponse_def okResponse_def remote_answer_def is_eof_def Let_def)
qed

text \<open>
  A sequence of reads, each with its buffer size and whether it asks for sizes: what the
  source answers, with the cursor after each answer (\<open>None\<close> if a read blocks, or if the
  output ends before the last read), what the remote source returns for the same reads, and
  what it should return.
\<close>

fun local_reads ::
  "(nat \<Rightarrow> bool \<Rightarrow> 'o \<Rightarrow> (answer \<times> 'o) option) \<Rightarrow> ('o \<Rightarrow> cursor) \<Rightarrow> 'o \<Rightarrow> (nat \<times> bool) list \<Rightarrow>
   (bool \<times> answer \<times> cursor) list option" where
  "local_reads rd cur src [] = Some []"
| "local_reads rd cur src ((n, sized) # ns) =
     (case rd (min n maxRPCChunk) sized src of
        None \<Rightarrow> None
      | Some (a, src') \<Rightarrow>
          if is_eof (snd (snd a)) then (if ns = [] then Some [(sized, a, cur src')] else None)
          else map_option ((#) (sized, a, cur src')) (local_reads rd cur src' ns))"

fun remote_reads ::
  "codec \<Rightarrow> endpoint \<Rightarrow> nat \<Rightarrow> remoteOutputSource \<Rightarrow> (nat \<times> bool) list \<Rightarrow> bytes \<Rightarrow> (answer \<times> cursor) list \<times> bytes \<times> bytes" where
  "remote_reads K E k r [] s = ([], s, [])"
| "remote_reads K E k r ((n, sized) # ns) s =
     (case remote_read K E k r n sized s of
        ((a, r'), rest, w) \<Rightarrow>
          (case remote_reads K E (k + 1) r' ns rest of
             (as, rest', w') \<Rightarrow> ((a, rem_cursor r') # as, rest', w @ w')))"

fun seen :: "cursor \<Rightarrow> (bool \<times> answer \<times> cursor) list \<Rightarrow> (answer \<times> cursor) list" where
  "seen c [] = []"
| "seen c ((sized, a, c') # as) =
     (remote_answer sized a, remote_cursor c c' a) # seen (remote_cursor c c' a) as"

locale output_source =
  fixes rd :: "nat \<Rightarrow> bool \<Rightarrow> 'o \<Rightarrow> (answer \<times> 'o) option" and cur :: "'o \<Rightarrow> cursor"
  assumes rd_length: "rd n sized src = Some ((data, sz, err), src') \<Longrightarrow> length data \<le> n"
begin

lemma read_turn:
  assumes "json_ok K" and "faultless Ec" and "faultless Es" and "0 < n" and "\<not> rem_closed r"
    and rd: "rd (min n maxRPCChunk) sized src = Some (a, src')"
    and "read_wire K (min n maxRPCChunk) sized" and "answer_wire K sized (cur src') a"
  obtains w frame where
    "\<And>k rest. output_loop K Es rd cur src k (w @ rest) =
       (if is_eof (snd (snd a)) then frame else frame @ output_loop K Es rd cur src' (k + 1) rest)"
    "\<And>k rest. remote_read K Ec k r n sized (frame @ rest) =
       ((remote_answer sized a, r\<lparr>rem_cursor := remote_cursor (rem_cursor r) (cur src') a\<rparr>), rest, w)"
proof -
  obtain data sz err where a: "a = (data, sz, err)" by (metis prod_cases3)
  have len: "length data \<le> min n maxRPCChunk" using rd_length rd a by metis
  obtain p where p: "enc_chunk K \<lparr>MaxBytes = int (min n maxRPCChunk), Sized = sized\<rparr> = Inr p"
      "dec_chunk K p = Inr \<lparr>MaxBytes = int (min n maxRPCChunk), Sized = sized\<rparr>"
      "sends (req_ok K) (enc_request K) (sent (plainRequest ''output.read'' p))"
    using assms(7) by (auto simp: read_wire_def)
  obtain w where w: "writeRequestPayload (enc_request K) None (plainRequest ''output.read'' p) [] = (None, w)"
      "\<And>B e rest. 0 < B \<Longrightarrow>
         readRequest (dec_request K) B e (w @ rest) = (Inr (sent (plainRequest ''output.read'' p), []), rest)"
    using send_request [OF assms(1) p(3)] by auto
  define m where "m = min n maxRPCChunk"
  have pos: "0 < m" "m \<le> maxRPCChunk" using assms(4) by (simp_all add: m_def maxRPCChunk_def)
  have serve: "output_loop K Es rd cur src k (w @ rest) =
      (if is_eof err then frame else frame @ output_loop K Es rd cur src' (k + 1) rest)"
    if "writeRawResponse (enc_response K) None 1 (Some (enc_output K (read_result (cur src') (if sized then sz else zero_size) err)))
          data (if is_eof err then None else err) = (None, frame)" for k rest frame
    using w(2) that p(2) [folded m_def] rd [folded m_def] a assms(3) pos
    by (cases sized; cases "is_eof err") (simp_all add: output_loop.simps [of K Es rd cur src k "w @ rest"] faultless_def sent_def plainRequest_def Let_def)
  note client = client_turn [OF assms(2,4,5) len p(1) w(1)]
  show thesis
  proof (cases "err \<noteq> None \<and> \<not> is_eof err")
    case True
    then obtain e where e: "err = Some e" "\<not> errors_Is e EOF" by (auto simp: is_eof_def)
    then have "sends (resp_ok K) (enc_response K) (errResponse e)" using assms(8) a True by (simp add: answer_wire_def)
    from send_error [OF assms(1) this, of data] len obtain enc where enc:
      "\<And>result. writeRawResponse (enc_response K) None 1 result data (Some e) = (None, enc @ [newline])"
      "\<And>B e' rest. 0 < B \<Longrightarrow> readResponse (dec_response K) B e' (enc @ newline # rest) = (Inr (errResponse e), rest)"
      by auto
    show thesis
    proof (rule that [of w "enc @ [newline]"])
      show "output_loop K Es rd cur src k (w @ rest) = (if is_eof (snd (snd a)) then enc @ [newline]
          else (enc @ [newline]) @ output_loop K Es rd cur src' (k + 1) rest)" for k rest
        using serve [of "enc @ [newline]"] enc(1) e True a by simp
      show "remote_read K Ec k r n sized ((enc @ [newline]) @ rest) =
          ((remote_answer sized a, r\<lparr>rem_cursor := remote_cursor (rem_cursor r) (cur src') a\<rparr>), rest, w)" for k rest
        using client(2) [OF enc(2) e(2), of k rest sz] True a e by (simp add: remote_cursor_def)
    qed
  next
    case False
    let ?x = "read_result (cur src') (if sized then sz else zero_size) err"
    obtain b where b: "enc_output K ?x = Inr b" "dec_output K b = Inr ?x"
        "sends (resp_ok K) (enc_response K) (okResponse b (length data))"
      using assms(8) False a by (auto simp: answer_wire_def Let_def)
    obtain enc where enc: "writeRawResponse (enc_response K) None 1 (Some (Inr b)) data None = (None, enc @ newline # data)"
        "\<And>B e rest. 0 < B \<Longrightarrow> readResponse (dec_response K) B e (enc @ newline # rest) = (Inr (okResponse b (length data)), rest)"
      using send_response [OF assms(1) b(3)] len by (metis min.boundedE)
    show thesis
    proof (rule that [of w "enc @ newline # data"])
      show "output_loop K Es rd cur src k (w @ rest) = (if is_eof (snd (snd a)) then enc @ newline # data
          else (enc @ newline # data) @ output_loop K Es rd cur src' (k + 1) rest)" for k rest
        using serve [of "enc @ newline # data"] enc(1) b(1) False a by (cases "is_eof err") simp_all
      show "remote_read K Ec k r n sized ((enc @ newline # data) @ rest) =
          ((remote_answer sized a, r\<lparr>rem_cursor := remote_cursor (rem_cursor r) (cur src') a\<rparr>), rest, w)" for k rest
        using client(1) [OF b(2) False enc(2), of k rest] False a by (auto simp: remote_cursor_def)
    qed
  qed
qed

lemma remote_reads_seen:
  assumes "json_ok K" and "faultless Ec" and "faultless Es" and "\<not> rem_closed r"
    and "local_reads rd cur src ns = Some as"
    and "\<forall>(n, sized) \<in> set ns. 0 < n \<and> read_wire K (min n maxRPCChunk) sized"
    and "\<forall>(sized, a, c) \<in> set as. answer_wire K sized c a"
  shows "\<exists>w. \<forall>t k k'. \<exists>rest. remote_reads K Ec k r ns (output_loop K Es rd cur src k' (w @ t)) =
    (seen (rem_cursor r) as, rest, w)"
  using assms(4-7)
proof (induction ns arbitrary: src r as)
  case (Cons q ns)
  obtain n sized where q: "q = (n, sized)" by (cases q)
  obtain a src' where rd: "rd (min n maxRPCChunk) sized src = Some (a, src')"
    using Cons.prems(2) q by (auto split: option.splits)
  let ?r = "r\<lparr>rem_cursor := remote_cursor (rem_cursor r) (cur src') a\<rparr>"
  have "answer_wire K sized (cur src') a"
    using Cons.prems(2,4) q rd by (auto split: if_splits)
  then obtain w frame where turn:
      "\<And>k rest. output_loop K Es rd cur src k (w @ rest) =
         (if is_eof (snd (snd a)) then frame else frame @ output_loop K Es rd cur src' (k + 1) rest)"
      "\<And>k rest. remote_read K Ec k r n sized (frame @ rest) = ((remote_answer sized a, ?r), rest, w)"
    using read_turn [OF assms(1-3) _ Cons.prems(1) rd] Cons.prems(3) q by auto
  show ?case
  proof (cases "is_eof (snd (snd a))")
    case True
    then have "ns = []" "as = [(sized, a, cur src')]" using Cons.prems(2) q rd by (auto split: if_splits)
    then show ?thesis
      using turn(1) turn(2) [of _ "[]"] True q by (intro exI [of _ w]) simp
  next
    case False
    then obtain as' where as': "local_reads rd cur src' ns = Some as'" "as = (sized, a, cur src') # as'"
      using Cons.prems(2) q rd by auto
    from Cons.IH [OF _ as'(1), of ?r] Cons.prems as'(2) obtain w' where
      "\<And>t k k'. \<exists>rest. remote_reads K Ec k ?r ns (output_loop K Es rd cur src' k' (w' @ t)) =
         (seen (rem_cursor ?r) as', rest, w')"
      by auto
    then show ?thesis
      using turn False as'(2) q by (intro exI [of _ "w @ w'"]) (auto, metis (no_types, lifting) case_prod_conv)
  qed
qed simp

end

section \<open>The local source is an output source\<close>

text \<open>
  A reader of the output log together with the states of the log and the disk in which its
  reads take place, one per read; a read that would have to wait in its state is a read
  that blocks.
\<close>

definition source_rd ::
  "nat \<Rightarrow> read_env \<Rightarrow> nat \<Rightarrow> bool \<Rightarrow> outputSource \<times> (outputLog \<times> disk) list \<Rightarrow>
   (answer \<times> outputSource \<times> (outputLog \<times> disk) list) option" where
  "source_rd fuel env n sized src =
     (case src of
        (r, []) \<Rightarrow> None
      | (r, (l, d) # worlds) \<Rightarrow>
          (case source_read fuel env n sized l d r of
             Some (Return data sz err, r') \<Rightarrow> Some ((data, sz, err), (r', worlds))
           | _ \<Rightarrow> None))"

definition source_cursor :: "outputSource \<times> (outputLog \<times> disk) list \<Rightarrow> cursor" where
  "source_cursor src = src_cursor (fst src)"

lemma read_decide_Return:
  "read_decide env sized l r = (Return data sz err, r') \<Longrightarrow> data = []"
  by (auto simp: read_decide_def read_tail_def poll_def Let_def split: option.splits if_splits prod.splits)

lemma read_fetch_length:
  "read_fetch env n path limit sz d r = (Return data sz' err, r') \<Longrightarrow> length data \<le> n"
  by (auto simp: read_fetch_def file_ReadAt_def Let_def split: option.splits prod.splits if_splits)

lemma read_loop_length:
  "read_loop fuel env n sized l d r = Some (Return data sz err, r') \<Longrightarrow> length data \<le> n"
proof (induction fuel arbitrary: r)
  case (Suc fuel)
  obtain dc r1 where dc: "read_decide env sized l r = (dc, r1)" by fastforce
  show ?case
    using Suc dc read_decide_Return [of env sized l r] read_fetch_length
    by (cases dc) auto
qed simp

interpretation source: output_source "source_rd fuel env" source_cursor
  by unfold_locales
    (auto simp: source_rd_def source_read_def dest!: read_loop_length
      split: prod.splits list.splits option.splits decision.splits if_splits)

text \<open>
  C7. A remote reader is the local reader: for every sequence of reads that the reader of
  the output log answers, in whatever states of the log, there are requests such that the
  remote source, run against the server that owns the reader, returns for each read the
  same bytes and the same size and stands at the same cursor; an error arrives with the
  identity it keeps on the wire and leaves the cursor where it was, the end of the output
  as the end. Later requests on the connection do not change these answers. The reader is one
  that the server has opened; the opening of it is not part of the statement.
\<close>

theorem remote_reader_refines:
  assumes "json_ok K" and "faultless Ec" and "faultless Es" and "\<not> rem_closed r"
    and "local_reads (source_rd fuel env) source_cursor src ns = Some as"
    and "\<forall>(n, sized) \<in> set ns. 0 < n \<and> read_wire K (min n maxRPCChunk) sized"
    and "\<forall>(sized, a, c) \<in> set as. answer_wire K sized c a"
  shows "\<exists>w. \<forall>t k k'. \<exists>rest.
    remote_reads K Ec k r ns (output_loop K Es (source_rd fuel env) source_cursor src k' (w @ t)) =
    (seen (rem_cursor r) as, rest, w)"
  using source.remote_reads_seen [OF assms] .

definition read_codec :: codec where
  "read_codec = demo_codec\<lparr>
     dec_request := (\<lambda>s. Inr (sent (plainRequest ''output.read'' ''n''))),
     dec_chunk := (\<lambda>_. Inr \<lparr>MaxBytes = 8, Sized = False\<rparr>),
     enc_output := (\<lambda>_. Inr ''D''), dec_output := (\<lambda>_. Inr (read_result (Cursor 1 3) zero_size None)),
     req_ok := (\<lambda>r. r = sent (plainRequest ''output.read'' ''n''))\<rparr>"

lemma read_codec_json: "json_ok read_codec"
  by (auto simp: json_ok_def codec_ok_def read_codec_def demo_codec_def okResponse_def sent_def plainRequest_def)

definition world_abc :: "outputLog \<times> disk" where
  "world_abc =
     (small_log\<lparr>segments := [1 \<mapsto> Segment (outputSegmentPath ''/t'' 1) 3], changed := 1\<rparr>,
      small_disk\<lparr>inode := (\<lambda>_. [])(0 := ''abc'')\<rparr>)"

lemma local_read_abc:
  "local_reads (source_rd 1 calm) source_cursor (small_reader, [world_abc]) [(8, False)] =
     Some [(False, (''abc'', zero_size, None), Cursor 1 3)]"
  by (simp add: source_rd_def source_cursor_def source_read_def world_abc_def read_eval Let_def is_eof_def
      maxRPCChunk_def)

theorem remote_reader_refines_witness:
  "\<exists>w. \<exists>rest.
    remote_reads read_codec demo_end 0 \<lparr>rem_cursor = Cursor 1 0, rem_closed = False\<rparr> [(8, False)]
      (output_loop read_codec demo_end (source_rd 1 calm) source_cursor (small_reader, [world_abc]) 0 (w @ [])) =
    ([((''abc'', zero_size, None), Cursor 1 3)], rest, w)"
proof -
  let ?r = "\<lparr>rem_cursor = Cursor 1 0, rem_closed = False\<rparr>"
  have "read_wire read_codec (min 8 maxRPCChunk) False"
    by (simp add: read_wire_def read_codec_def demo_codec_def sends_def maxRPCChunk_def maxRPCFrame_def)
  moreover have "answer_wire read_codec False (Cursor 1 3) (''abc'', zero_size, None)"
    by (simp add: answer_wire_def read_codec_def demo_codec_def sends_def okResponse_def maxRPCFrame_def)
  ultimately have "\<exists>w. \<forall>t k k'. \<exists>rest.
      remote_reads read_codec demo_end k ?r [(8, False)]
        (output_loop read_codec demo_end (source_rd 1 calm) source_cursor (small_reader, [world_abc]) k' (w @ t)) =
      (seen (rem_cursor ?r) [(False, (''abc'', zero_size, None), Cursor 1 3)], rest, w)"
    using remote_reader_refines [OF read_codec_json demo_faultless demo_faultless _ local_read_abc, of ?r] by simp
  moreover have "seen (rem_cursor ?r) [(False, (''abc'', zero_size, None), Cursor 1 3)] = [((''abc'', zero_size, None), Cursor 1 3)]"
    by (simp add: remote_answer_def remote_cursor_def is_eof_def)
  ultimately show ?thesis by (simp only:) blast
qed

end
