(* ===== verification/Dispatch.thy ===== *)
theory Dispatch
  imports Hub Remote_Output
begin

text \<open>
  The calls of the daemon (\<^verbatim>\<open>server.go\<close>): \<^verbatim>\<open>handle\<close> reads one request after the other from a
  connection, \<^verbatim>\<open>dispatch\<close> decodes its parameters, looks up the session and calls the operation
  of the in-process backend, and the answer goes back as one frame. \<open>local_op\<close> is the
  backend interface of \<^verbatim>\<open>session.go\<close> for a session of the hub. The outcomes of system calls
  are the fields of a record; the codec of the parameters is a parameter.
\<close>

section \<open>Parameters and results\<close>

record sessionInfo =
  in_Name :: bytes
  in_CreatedAt :: int

record createParams =
  cp_Name :: bytes
  cp_Dir :: bytes
  cp_Path :: bytes
  cp_Args :: "bytes list"
  cp_ShellCommand :: bytes
  cp_Cols :: int
  cp_Rows :: int
  cp_Env :: "bytes list"
  cp_Scrollback :: u64

record resizeParams =
  rz_Name :: bytes
  rz_Cols :: int
  rz_Rows :: int

record signalParams =
  sg_Name :: bytes
  sg_Signal :: int

record pruneOutputParams =
  pr_Name :: bytes
  pr_Before :: cursor

record outputParams =
  op_Name :: bytes
  op_Cursor :: cursor

record protocolLimits =
  MaxHeaderBytes :: nat
  MaxPayloadBytes :: nat
  MaxChunkBytes :: nat

record versionResult =
  vr_Version :: bytes
  vr_TagVersion :: bytes
  vr_Capabilities :: "bytes list"
  vr_Limits :: protocolLimits
  vr_MaxClients :: int

definition currentProtocolLimits :: protocolLimits where
  "currentProtocolLimits =
     \<lparr>MaxHeaderBytes = maxRPCFrame, MaxPayloadBytes = maxRPCPayload, MaxChunkBytes = maxRPCChunk\<rparr>"

definition protocolCapabilities :: "bytes list" where
  "protocolCapabilities = [''raw-payload-v1'', ''pull-stream-v1'', ''atomic-state-v1'']"

datatype rpc_result =
    VersionIs versionResult
  | CreatedIs sessionInfo
  | StatusIs sessionStatus
  | MetadataIs sessionMetadata
  | SizeIs size
  | CursorIs cursor
  | ListIs "sessionInfo list"

text \<open>\<^verbatim>\<open>encoding/json\<close> on these types: one encoder for what \<^verbatim>\<open>dispatch\<close> returns, a decoder per type.\<close>

record params_codec =
  enc_name :: "bytes \<Rightarrow> go_error + bytes"
  dec_name :: "bytes \<Rightarrow> go_error + bytes"
  enc_create :: "createParams \<Rightarrow> go_error + bytes"
  dec_create :: "bytes \<Rightarrow> go_error + createParams"
  enc_input :: "bytes \<Rightarrow> go_error + bytes"
  dec_input :: "bytes \<Rightarrow> go_error + bytes"
  enc_resize :: "resizeParams \<Rightarrow> go_error + bytes"
  dec_resize :: "bytes \<Rightarrow> go_error + resizeParams"
  enc_signal :: "signalParams \<Rightarrow> go_error + bytes"
  dec_signal :: "bytes \<Rightarrow> go_error + signalParams"
  enc_prune :: "pruneOutputParams \<Rightarrow> go_error + bytes"
  dec_prune :: "bytes \<Rightarrow> go_error + pruneOutputParams"
  dec_open_output :: "bytes \<Rightarrow> go_error + outputParams"
  enc_result :: "rpc_result \<Rightarrow> go_error + bytes"
  dec_version :: "bytes \<Rightarrow> go_error + versionResult"
  dec_created :: "bytes \<Rightarrow> go_error + sessionInfo"
  dec_status :: "bytes \<Rightarrow> go_error + sessionStatus"
  dec_metadata :: "bytes \<Rightarrow> go_error + sessionMetadata"
  dec_size :: "bytes \<Rightarrow> go_error + size"
  dec_position :: "bytes \<Rightarrow> go_error + cursor"
  dec_list :: "bytes \<Rightarrow> go_error + sessionInfo list"

section \<open>The version of a build\<close>

text \<open>\<^verbatim>\<open>TagVersion\<close> over the build information: the main module, and the dependencies with their replacements.\<close>

definition modulePath :: bytes where
  "modulePath = ''github.com/abcdlsj/ghostline''"

record dependency =
  dep_Path :: bytes
  dep_Version :: bytes
  dep_Replace :: "bytes option"

record build_info =
  main_Path :: bytes
  main_Version :: bytes
  build_Deps :: "dependency list"

definition devel :: bytes where
  "devel = ''(devel)''"

fun dependency_version :: "dependency list \<Rightarrow> bytes" where
  "dependency_version [] = []"
| "dependency_version (p # ps) =
     (if dep_Path p \<noteq> modulePath then dependency_version ps
      else (case dep_Replace p of
        Some v \<Rightarrow> if v = [] \<or> v = devel then [] else v
      | None \<Rightarrow> if dep_Version p = devel then [] else dep_Version p))"

definition TagVersion :: "build_info option \<Rightarrow> bytes" where
  "TagVersion info =
     (case info of None \<Rightarrow> []
      | Some b \<Rightarrow>
          if main_Path b = modulePath \<and> main_Version b \<noteq> [] \<and> main_Version b \<noteq> devel then main_Version b
          else dependency_version (build_Deps b))"

section \<open>The backend of the sessions\<close>

text \<open>
  One call's environment: the context (\<open>ce_after\<close> is its state after \<^verbatim>\<open>Wait\<close>), and what the
  system calls of the operation answer. \<open>ce_writer\<close> writes to a PTY over its state;
  \<open>ce_read\<close> is what reads of an output stream find while other threads append to the log.
\<close>

record 'w call_env =
  ce_ctx :: "go_error option"
  ce_ctxFirst :: bool
  ce_after :: "go_error option"
  ce_mkdirAll :: "go_error option"
  ce_start :: start_env
  ce_order :: "nat list"
  ce_dup :: "go_error option"
  ce_probe :: "go_error + bytes \<times> bytes"
  ce_ioctl :: "go_error option"
  ce_getpgid :: "go_error + int"
  ce_kill :: "go_error option"
  ce_writer :: "'w \<Rightarrow> bytes \<Rightarrow> (nat \<times> go_error option) \<times> 'w"
  ce_events :: "pty_event list"
  ce_setsize :: "go_error option"
  ce_rotate :: "go_error option"
  ce_prune :: "bytes \<Rightarrow> go_error option"
  ce_segments :: "u64 list"
  ce_reap :: "bool \<times> bool"
  ce_open :: "go_error option"
  ce_read :: "nat \<Rightarrow> bool \<Rightarrow> outputSource \<Rightarrow> (answer \<times> outputSource) option"

record ('t, 'w) server =
  sv_hub :: "'t hub"
  sv_disk :: disk
  sv_pty :: "nat \<Rightarrow> 'w"
  sv_maxClients :: int
  sv_build :: "build_info option"

datatype effect = Signalled signal_call | Killed int int

type_synonym ('t, 'w) call_outcome = "(go_error + rpc_result option) \<times> effect list \<times> ('t, 'w) server"

definition set_state :: "nat \<Rightarrow> 't sessionState \<Rightarrow> disk \<Rightarrow> ('t, 'w) server \<Rightarrow> ('t, 'w) server" where
  "set_state a st d srv =
     srv\<lparr>sv_hub := (sv_hub srv)\<lparr>h_states := (h_states (sv_hub srv))[a := st]\<rparr>, sv_disk := d\<rparr>"

definition nothing_or :: "go_error option \<Rightarrow> go_error + rpc_result option" where
  "nothing_or err = (case err of Some e \<Rightarrow> Inl e | None \<Rightarrow> Inr None)"

text \<open>
  The operations of \<^verbatim>\<open>sessionBackend\<close> that the daemon answers at once with one response. The
  interface has five more, which travel differently and are modelled apart: \<^verbatim>\<open>wait\<close>
  (\<open>dispatch_wait\<close> below), \<^verbatim>\<open>replay\<close>, \<^verbatim>\<open>checkpoint\<close> and \<^verbatim>\<open>atomicState\<close> (\<open>serveBlob\<close> of
  \<open>Streams\<close>) and \<^verbatim>\<open>output\<close> (\<open>serveOutput\<close> of \<open>Remote_Output\<close>).
\<close>

datatype session_op =
    OpStatus
  | OpMetadata
  | OpSize
  | OpSignal int
  | OpWriteInput bytes
  | OpResize size
  | OpOutputCursor
  | OpRotateOutput
  | OpPruneOutput cursor
  | OpTerminate
  | OpDelete

text \<open>A handle on the session at an address, with \<^verbatim>\<open>localSession\<close> behind it.\<close>

fun local_op ::
  "'t platform \<Rightarrow> 'w call_env \<Rightarrow> nat \<Rightarrow> session_op \<Rightarrow> ('t, 'w) server \<Rightarrow> ('t, 'w) call_outcome" where
  "local_op P E a OpStatus srv =
     (map_sum id (Some \<circ> StatusIs)
        (session_status (ce_ctx E) (hub_current a (sv_hub srv)) (h_states (sv_hub srv) ! a)), [], srv)"
| "local_op P E a OpMetadata srv =
     (map_sum id (Some \<circ> MetadataIs)
        (session_metadata (ce_ctx E) (h_probe (sv_hub srv)) (ce_dup E) (ce_probe E) (h_states (sv_hub srv) ! a)), [], srv)"
| "local_op P E a OpSize srv =
     (map_sum id (Some \<circ> SizeIs)
        (session_size (ce_ctx E) (hub_current a (sv_hub srv)) (h_states (sv_hub srv) ! a)), [], srv)"
| "local_op P E a (OpSignal sig) srv =
     (case session_signal (ce_ctx E) (hub_current a (sv_hub srv)) (ce_ioctl E) (ce_getpgid E) (ce_kill E) sig
         (h_states (sv_hub srv) ! a) of
        (err, calls) \<Rightarrow> (nothing_or err, map Signalled calls, srv))"
| "local_op P E a (OpWriteInput data) srv =
     (case session_writeInput (ce_ctx E) (hub_current a (sv_hub srv)) (ce_writer E) (sv_pty srv a) data of
        (err, pty) \<Rightarrow> (nothing_or err, [], srv\<lparr>sv_pty := (sv_pty srv)(a := pty)\<rparr>))"
| "local_op P E a (OpResize sz) srv =
     (case session_resize P (ce_ctx E) (hub_current a (sv_hub srv)) (ce_events E) (ce_setsize E) sz
         (h_states (sv_hub srv) ! a) (sv_disk srv) of
        (err, st, d) \<Rightarrow> (nothing_or err, [], set_state a st d srv))"
| "local_op P E a OpOutputCursor srv =
     (map_sum id (Some \<circ> CursorIs)
        (session_outputCursor (ce_ctx E) (hub_current a (sv_hub srv)) (h_states (sv_hub srv) ! a)), [], srv)"
| "local_op P E a OpRotateOutput srv =
     (case session_rotateOutput (ce_ctx E) (ce_rotate E) (h_states (sv_hub srv) ! a) (sv_disk srv) of
        (r, st, d) \<Rightarrow> (map_sum id (Some \<circ> CursorIs) r, [], set_state a st d srv))"
| "local_op P E a (OpPruneOutput before) srv =
     (case session_pruneOutput (ce_ctx E) (ce_prune E) (ce_segments E) before (h_states (sv_hub srv) ! a) (sv_disk srv) of
        (err, st, d) \<Rightarrow> (nothing_or err, [], set_state a st d srv))"
| "local_op P E a OpTerminate srv =
     (case session_terminate (ce_ctx E) (hub_current a (sv_hub srv)) (fst (ce_reap E)) (snd (ce_reap E))
         (h_states (sv_hub srv) ! a) of
        (err, kills, st) \<Rightarrow> (nothing_or err, map (case_prod Killed) kills, set_state a st (sv_disk srv) srv))"
| "local_op P E a OpDelete srv =
     (case session_delete (ce_ctx E) (hub_current a (sv_hub srv)) (fst (ce_reap E)) (snd (ce_reap E))
         (h_states (sv_hub srv) ! a) (sv_disk srv) of
        (err, removed, kills, st, d) \<Rightarrow>
          (let srv1 = set_state a st d srv in
           (nothing_or err, map (case_prod Killed) kills,
            if removed then srv1\<lparr>sv_hub := hub_remove (st_name st) (sv_hub srv1)\<rparr> else srv1)))"

section \<open>Dispatching a request\<close>

definition session_Info :: "nat \<Rightarrow> 't hub \<Rightarrow> sessionInfo" where
  "session_Info a h = \<lparr>in_Name = st_name (h_states h ! a), in_CreatedAt = st_createdAt (h_states h ! a)\<rparr>"

definition namedSession :: "params_codec \<Rightarrow> go_error option \<Rightarrow> bytes \<Rightarrow> 't hub \<Rightarrow> go_error + nat" where
  "namedSession D ctx raw h = (case dec_name D raw of Inl e \<Rightarrow> Inl e | Inr name \<Rightarrow> hub_Get ctx name h)"

text \<open>Looking up the session that a decoded parameter names, and an operation on it.\<close>

definition on_session ::
  "'t platform \<Rightarrow> 'w call_env \<Rightarrow> go_error + nat \<Rightarrow> session_op \<Rightarrow> ('t, 'w) server \<Rightarrow> ('t, 'w) call_outcome option" where
  "on_session P E found op srv =
     Some (case found of Inl e \<Rightarrow> (Inl e, [], srv) | Inr a \<Rightarrow> local_op P E a op srv)"

definition start_options :: "createParams \<Rightarrow> sessionOptions" where
  "start_options p =
     \<lparr>so_Name = cp_Name p,
      so_Process = \<lparr>Path = cp_Path p, Args = cp_Args p, Directory = cp_Dir p, Environment = cp_Env p,
                    ShellCommand = cp_ShellCommand p\<rparr>,
      so_Size = Size (cp_Cols p) (cp_Rows p), so_Scrollback = cp_Scrollback p\<rparr>"

definition dispatch_create ::
  "'t platform \<Rightarrow> params_codec \<Rightarrow> 'w call_env \<Rightarrow> bytes \<Rightarrow> ('t, 'w) server \<Rightarrow> ('t, 'w) call_outcome" where
  "dispatch_create P D E raw srv =
     (case dec_create D raw of Inl e \<Rightarrow> (Inl e, [], srv)
      | Inr p \<Rightarrow>
          (case hub_Start P (ce_ctx E) (ce_mkdirAll E) (ce_start E) (start_options p) (sv_hub srv) (sv_disk srv) of
             (Inl e, h, d) \<Rightarrow> (Inl e, [], srv\<lparr>sv_hub := h, sv_disk := d\<rparr>)
           | (Inr a, h, d) \<Rightarrow> (Inr (Some (CreatedIs (session_Info a h))), [], srv\<lparr>sv_hub := h, sv_disk := d\<rparr>)))"

text \<open>\<open>None\<close> is a wait that has not ended.\<close>

definition dispatch_wait ::
  "params_codec \<Rightarrow> 'w call_env \<Rightarrow> bytes \<Rightarrow> ('t, 'w) server \<Rightarrow> ('t, 'w) call_outcome option" where
  "dispatch_wait D E raw srv =
     (case namedSession D (ce_ctx E) raw (sv_hub srv) of
        Inl e \<Rightarrow> Some (Inl e, [], srv)
      | Inr a \<Rightarrow>
          (case session_wait (ce_ctxFirst E) (ce_after E) (h_states (sv_hub srv) ! a) of
             None \<Rightarrow> None
           | Some _ \<Rightarrow>
               Some (case ce_after E of
                 Some e \<Rightarrow> (Inl e, [], srv)
               | None \<Rightarrow>
                   (map_sum id (Some \<circ> StatusIs)
                      (session_status (ce_after E) (hub_current a (sv_hub srv)) (h_states (sv_hub srv) ! a)), [], srv))))"

definition dispatch_list :: "'w call_env \<Rightarrow> 't hub \<Rightarrow> go_error + rpc_result option" where
  "dispatch_list E h =
     map_sum id (\<lambda>infos. Some (ListIs (map (\<lambda>(n, t). \<lparr>in_Name = n, in_CreatedAt = t\<rparr>) infos)))
       (hub_List (ce_ctx E) (ce_order E) h)"

definition dispatch ::
  "'t platform \<Rightarrow> params_codec \<Rightarrow> 'w call_env \<Rightarrow> bytes \<Rightarrow> bytes \<Rightarrow> bytes \<Rightarrow> ('t, 'w) server \<Rightarrow>
   ('t, 'w) call_outcome option" where
  "dispatch P D E meth raw payload srv =
     (let h = sv_hub srv; named = namedSession D (ce_ctx E) raw h in
      if meth \<noteq> ''writeInput'' \<and> payload \<noteq> [] then
        Some (Inl (Plain ''RPC method does not accept a payload''), [], srv)
      else if meth = ''version'' then
        Some (Inr (Some (VersionIs \<lparr>vr_Version = ProtocolVersion, vr_TagVersion = TagVersion (sv_build srv),
          vr_Capabilities = protocolCapabilities, vr_Limits = currentProtocolLimits,
          vr_MaxClients = sv_maxClients srv\<rparr>)), [], srv)
      else if meth = ''create'' then Some (dispatch_create P D E raw srv)
      else if meth = ''created'' then
        Some (map_sum id (\<lambda>a. Some (CreatedIs (session_Info a h))) named, [], srv)
      else if meth = ''status'' then on_session P E named OpStatus srv
      else if meth = ''metadata'' then on_session P E named OpMetadata srv
      else if meth = ''size'' then on_session P E named OpSize srv
      else if meth = ''signal'' then
        (case dec_signal D raw of Inl e \<Rightarrow> Some (Inl e, [], srv)
         | Inr p \<Rightarrow>
             (case hub_Get (ce_ctx E) (sg_Name p) h of Inl e \<Rightarrow> Some (Inl e, [], srv)
              | Inr a \<Rightarrow>
                  (case normalizeSignal (SyscallSignal (sg_Signal p)) of Inl e \<Rightarrow> Some (Inl e, [], srv)
                   | Inr n \<Rightarrow> on_session P E (Inr a) (OpSignal n) srv)))
      else if meth = ''wait'' then dispatch_wait D E raw srv
      else if meth = ''terminate'' then on_session P E named OpTerminate srv
      else if meth = ''delete'' then on_session P E named OpDelete srv
      else if meth = ''writeInput'' then
        (case dec_input D raw of Inl e \<Rightarrow> Some (Inl e, [], srv)
         | Inr name \<Rightarrow> on_session P E (hub_Get (ce_ctx E) name h) (OpWriteInput payload) srv)
      else if meth = ''resize'' then
        (case dec_resize D raw of Inl e \<Rightarrow> Some (Inl e, [], srv)
         | Inr p \<Rightarrow> on_session P E (hub_Get (ce_ctx E) (rz_Name p) h) (OpResize (Size (rz_Cols p) (rz_Rows p))) srv)
      else if meth = ''output.rotate'' then on_session P E named OpRotateOutput srv
      else if meth = ''output.cursor'' then on_session P E named OpOutputCursor srv
      else if meth = ''output.prune'' then
        (case dec_prune D raw of Inl e \<Rightarrow> Some (Inl e, [], srv)
         | Inr p \<Rightarrow> on_session P E (hub_Get (ce_ctx E) (pr_Name p) h) (OpPruneOutput (pr_Before p)) srv)
      else if meth = ''list'' then
        Some (dispatch_list E h, [], srv)
      else Some (Inl (Plain (''unknown method: '' @ meth)), [], srv))"

section \<open>A connection\<close>

text \<open>Only a wait has a context that the connection can cancel.\<close>

definition dispatchRequest ::
  "'t platform \<Rightarrow> params_codec \<Rightarrow> 'w call_env \<Rightarrow> request \<Rightarrow> bytes \<Rightarrow> ('t, 'w) server \<Rightarrow> ('t, 'w) call_outcome option" where
  "dispatchRequest P D E req payload srv =
     dispatch P D (if req_method req \<noteq> ''wait'' then E\<lparr>ce_ctx := None\<rparr> else E) (req_method req) (req_params req) payload srv"

text \<open>What \<^verbatim>\<open>serveBlob\<close> asks of the session that a request names, and what that leaves behind.\<close>

definition blob_source ::
  "'t platform \<Rightarrow> params_codec \<Rightarrow> 'w call_env \<Rightarrow> ('t, 'w) server \<Rightarrow> bytes \<Rightarrow> go_error + blob_session" where
  "blob_source P D E srv raw =
     (case namedSession D (ce_ctx E) raw (sv_hub srv) of Inl e \<Rightarrow> Inl e
      | Inr a \<Rightarrow>
          (let cur = hub_current a (sv_hub srv); st = h_states (sv_hub srv) ! a in
           Inr \<lparr>bs_replay = session_replay P (ce_ctx E) cur st,
                bs_checkpoint = session_checkpoint P (ce_ctx E) cur st,
                bs_atomic = fst (session_atomicState P (ce_ctx E) cur st)\<rparr>))"

definition blob_effect ::
  "'t platform \<Rightarrow> params_codec \<Rightarrow> 'w call_env \<Rightarrow> request \<Rightarrow> ('t, 'w) server \<Rightarrow> ('t, 'w) server" where
  "blob_effect P D E req srv =
     (case namedSession D (ce_ctx E) (req_params req) (sv_hub srv) of Inl e \<Rightarrow> srv
      | Inr a \<Rightarrow>
          if req_method req \<noteq> ''state.atomic'' then srv
          else set_state a
            (snd (session_atomicState P (ce_ctx E) (hub_current a (sv_hub srv)) (h_states (sv_hub srv) ! a))) (sv_disk srv) srv)"

definition open_output ::
  "params_codec \<Rightarrow> 'w call_env \<Rightarrow> ('t, 'w) server \<Rightarrow> bytes \<Rightarrow> go_error + outputSource" where
  "open_output D E srv raw =
     (case dec_open_output D raw of Inl e \<Rightarrow> Inl e
      | Inr p \<Rightarrow>
          (case hub_Get (ce_ctx E) (op_Name p) (sv_hub srv) of Inl e \<Rightarrow> Inl e
           | Inr a \<Rightarrow>
               session_output (ce_ctx E) (ce_open E) (ce_segments E) (op_Cursor p) (h_states (sv_hub srv) ! a) (sv_disk srv)))"

definition writes_from :: "nat \<Rightarrow> endpoint \<Rightarrow> endpoint" where
  "writes_from k C = C\<lparr>wfault := (\<lambda>i. wfault C (k + i))\<rparr>"

definition answer_frame ::
  "codec \<Rightarrow> params_codec \<Rightarrow> endpoint \<Rightarrow> nat \<Rightarrow> int \<Rightarrow> go_error + rpc_result option \<Rightarrow> go_error option \<times> bytes" where
  "answer_frame K D C k i r =
     (case r of
        Inl e \<Rightarrow> writeResponse (enc_response K) (wfault C k) i None (Some e)
      | Inr v \<Rightarrow> writeResponse (enc_response K) (wfault C k) i (map_option (enc_result D) v) None)"

text \<open>
  \<open>envs k\<close> is the environment of the \<open>k\<close>-th request. The answer is what the server writes, the
  effects of the calls, and its state.
\<close>

function handle ::
  "'t platform \<Rightarrow> codec \<Rightarrow> params_codec \<Rightarrow> endpoint \<Rightarrow> (nat \<Rightarrow> 'w call_env) \<Rightarrow> nat \<Rightarrow> ('t, 'w) server \<Rightarrow> bytes \<Rightarrow>
   bytes \<times> effect list \<times> ('t, 'w) server" where
  "handle P K D C envs k srv s =
     (case readRequest (dec_request K) (bufSize C) (endErr C) s of
        (Inl e, rest) \<Rightarrow> (snd (writeResponse (enc_response K) (wfault C k) (- 1) None (Some e)), [], srv)
      | (Inr (req, payload), rest) \<Rightarrow>
          let refuse = (\<lambda>m. snd (writeResponse (enc_response K) (wfault C k) (req_id req) None (Some (Plain m)))) in
          if req_method req = ''output'' then
            (if payload \<noteq> [] then (refuse ''output open request cannot contain a payload'', [], srv)
             else (serveOutput K (writes_from k C) (ce_read (envs k)) src_cursor (open_output D (envs k) srv) req rest, [], srv))
          else if req_method req = ''replay'' \<or> req_method req = ''checkpoint'' \<or> req_method req = ''state.atomic'' then
            (if payload \<noteq> [] then (refuse ''blob open request cannot contain a payload'', [], srv)
             else (serveBlob K (writes_from k C) (blob_source P D (envs k) srv) req rest, [],
                   blob_effect P D (envs k) req srv))
          else
            (case dispatchRequest P D (envs k) req payload srv of
               None \<Rightarrow> ([], [], srv)
             | Some (r, effs, srv1) \<Rightarrow>
                 (case answer_frame K D C k (req_id req) r of
                    (Some e, w) \<Rightarrow> (w, effs, srv1)
                  | (None, w) \<Rightarrow>
                      (case handle P K D C envs (k + 1) srv1 rest of
                         (w', effs', srv2) \<Rightarrow> (w @ w', effs @ effs', srv2)))))"
  by pat_completeness auto
termination
  by (relation "measure (\<lambda>(P, K, D, C, envs, k, srv, s). length s)") (auto dest!: readRequest_shorter [OF sym])

declare handle.simps [simp del]

end
