(* ===== verification/Remote_Session.thy ===== *)
theory Remote_Session
  imports Dispatch
begin

text \<open>
  The client of the daemon (\<^verbatim>\<open>client.go\<close>): the calls of \<^verbatim>\<open>Client\<close> and of \<^verbatim>\<open>remoteSession\<close>, the
  backend of a session handle that lives in another process. The theorems put both sides
  together: what a remote handle does to a session and answers is what a handle in the
  server's process does and answers, up to the translation of errors on the wire.
\<close>

section \<open>Calls\<close>

text \<open>A connection for one call: the client's end, the error of \<^verbatim>\<open>dial\<close>, and what arrives.\<close>

record attempt =
  at_end :: endpoint
  at_dialed :: "go_error option"
  at_in :: bytes

text \<open>The server that a managed client owns: whether its socket answers, and the result of starting it again.\<close>

record lifecycle =
  lc_managed :: bool
  lc_ready :: bool
  lc_spawned :: "go_error option"

definition client_call ::
  "codec \<Rightarrow> bytes \<Rightarrow> (go_error + bytes) option \<Rightarrow> bytes \<Rightarrow> (bytes \<Rightarrow> go_error + 'r) option \<Rightarrow> attempt \<Rightarrow> go_error + 'r option" where
  "client_call K meth params payload result c =
     callOncePayload K (at_end c) (at_dialed c) meth params payload result (at_in c)"

definition callRetryable ::
  "codec \<Rightarrow> lifecycle \<Rightarrow> bytes \<Rightarrow> (go_error + bytes) option \<Rightarrow> (bytes \<Rightarrow> go_error + 'r) option \<Rightarrow> (nat \<Rightarrow> attempt) \<Rightarrow>
   go_error + 'r option" where
  "callRetryable K L meth params result cs =
     fst (retryable (lc_managed L) (lc_ready L) (lc_spawned L) (\<lambda>i. client_call K meth params [] result (cs i)))"

text \<open>The result variable of a call keeps its zero value when the server sent no result.\<close>

definition filled :: "'r \<Rightarrow> go_error + 'r option \<Rightarrow> go_error + 'r" where
  "filled zero r = map_sum id (\<lambda>v. case v of Some x \<Rightarrow> x | None \<Rightarrow> zero) r"

definition failed :: "go_error + unit option \<Rightarrow> go_error option" where
  "failed r = (case r of Inl e \<Rightarrow> Some e | Inr _ \<Rightarrow> None)"

section \<open>The client\<close>

definition zero_info :: sessionInfo where
  "zero_info = \<lparr>in_Name = [], in_CreatedAt = 0\<rparr>"

definition zero_status :: sessionStatus where
  "zero_status = \<lparr>Alive = False, Exit = None\<rparr>"

definition zero_version :: versionResult where
  "zero_version = \<lparr>vr_Version = [], vr_TagVersion = [], vr_Capabilities = [],
     vr_Limits = \<lparr>MaxHeaderBytes = 0, MaxPayloadBytes = 0, MaxChunkBytes = 0\<rparr>, vr_MaxClients = 0\<rparr>"

definition VersionInfo :: "codec \<Rightarrow> params_codec \<Rightarrow> attempt \<Rightarrow> go_error + versionResult" where
  "VersionInfo K D c = filled zero_version (client_call K ''version'' None [] (Some (dec_version D)) c)"

definition client_Version :: "codec \<Rightarrow> params_codec \<Rightarrow> attempt \<Rightarrow> go_error + bytes" where
  "client_Version K D c = map_sum id vr_Version (VersionInfo K D c)"

definition create_params :: "sessionOptions \<Rightarrow> createParams" where
  "create_params opts =
     \<lparr>cp_Name = so_Name opts, cp_Dir = Directory (so_Process opts), cp_Path = Path (so_Process opts),
      cp_Args = Args (so_Process opts), cp_ShellCommand = ShellCommand (so_Process opts),
      cp_Cols = Columns (so_Size opts), cp_Rows = Rows (so_Size opts), cp_Env = Environment (so_Process opts),
      cp_Scrollback = so_Scrollback opts\<rparr>"

text \<open>A remote handle: the name its backend calls, and the identity that the server reported.\<close>

definition client_Start ::
  "codec \<Rightarrow> params_codec \<Rightarrow> lifecycle \<Rightarrow> sessionOptions \<Rightarrow> (nat \<Rightarrow> attempt) \<Rightarrow> go_error + bytes \<times> sessionInfo" where
  "client_Start K D L opts cs =
     map_sum id (\<lambda>info. (so_Name opts, info))
       (filled zero_info (callRetryable K L ''create'' (Some (enc_create D (create_params opts))) (Some (dec_created D)) cs))"

definition client_Get ::
  "codec \<Rightarrow> params_codec \<Rightarrow> lifecycle \<Rightarrow> bytes \<Rightarrow> (nat \<Rightarrow> attempt) \<Rightarrow> go_error + bytes \<times> sessionInfo" where
  "client_Get K D L name cs =
     map_sum id (\<lambda>info. (name, info))
       (filled zero_info (callRetryable K L ''created'' (Some (enc_name D name)) (Some (dec_created D)) cs))"

definition client_List ::
  "codec \<Rightarrow> params_codec \<Rightarrow> lifecycle \<Rightarrow> (nat \<Rightarrow> attempt) \<Rightarrow> go_error + (bytes \<times> sessionInfo) list" where
  "client_List K D L cs =
     map_sum id (map (\<lambda>info. (in_Name info, info)))
       (filled [] (callRetryable K L ''list'' None (Some (dec_list D)) cs))"

definition client_status ::
  "codec \<Rightarrow> params_codec \<Rightarrow> lifecycle \<Rightarrow> bytes \<Rightarrow> (nat \<Rightarrow> attempt) \<Rightarrow> go_error + sessionStatus" where
  "client_status K D L name cs =
     filled zero_status (callRetryable K L ''status'' (Some (enc_name D name)) (Some (dec_status D)) cs)"

definition client_wait :: "codec \<Rightarrow> params_codec \<Rightarrow> bytes \<Rightarrow> attempt \<Rightarrow> go_error + sessionStatus" where
  "client_wait K D name c =
     filled zero_status (client_call K ''wait'' (Some (enc_name D name)) [] (Some (dec_status D)) c)"

section \<open>The remote backend\<close>

definition remote_wait :: "codec \<Rightarrow> params_codec \<Rightarrow> bytes \<Rightarrow> attempt \<Rightarrow> go_error option" where
  "remote_wait K D name c =
     (case client_wait K D name c of Inl e \<Rightarrow> Some e | Inr status \<Rightarrow> map_option ExitErr (Exit status))"

definition zero_metadata :: sessionMetadata where
  "zero_metadata = \<lparr>md_Process = [], md_CommandLine = [], md_Directory = [], md_Shell = None\<rparr>"

definition remote_metadata ::
  "codec \<Rightarrow> params_codec \<Rightarrow> lifecycle \<Rightarrow> bytes \<Rightarrow> (nat \<Rightarrow> attempt) \<Rightarrow> go_error + sessionMetadata" where
  "remote_metadata K D L name cs =
     filled zero_metadata (callRetryable K L ''metadata'' (Some (enc_name D name)) (Some (dec_metadata D)) cs)"

definition remote_size ::
  "codec \<Rightarrow> params_codec \<Rightarrow> lifecycle \<Rightarrow> bytes \<Rightarrow> (nat \<Rightarrow> attempt) \<Rightarrow> go_error + size" where
  "remote_size K D L name cs =
     filled zero_size (callRetryable K L ''size'' (Some (enc_name D name)) (Some (dec_size D)) cs)"

definition remote_signal :: "codec \<Rightarrow> params_codec \<Rightarrow> bytes \<Rightarrow> int \<Rightarrow> attempt \<Rightarrow> go_error option" where
  "remote_signal K D name sig c =
     failed (client_call K ''signal'' (Some (enc_signal D \<lparr>sg_Name = name, sg_Signal = sig\<rparr>)) [] None c)"

definition remote_writeInput :: "codec \<Rightarrow> params_codec \<Rightarrow> bytes \<Rightarrow> bytes \<Rightarrow> attempt \<Rightarrow> go_error option" where
  "remote_writeInput K D name data c = failed (client_call K ''writeInput'' (Some (enc_input D name)) data None c)"

definition remote_resize :: "codec \<Rightarrow> params_codec \<Rightarrow> bytes \<Rightarrow> size \<Rightarrow> attempt \<Rightarrow> go_error option" where
  "remote_resize K D name sz c =
     failed (client_call K ''resize''
       (Some (enc_resize D \<lparr>rz_Name = name, rz_Cols = Columns sz, rz_Rows = Rows sz\<rparr>)) [] None c)"

definition remote_outputCursor ::
  "codec \<Rightarrow> params_codec \<Rightarrow> lifecycle \<Rightarrow> bytes \<Rightarrow> (nat \<Rightarrow> attempt) \<Rightarrow> go_error + cursor" where
  "remote_outputCursor K D L name cs =
     filled zero_cursor (callRetryable K L ''output.cursor'' (Some (enc_name D name)) (Some (dec_position D)) cs)"

definition remote_rotateOutput :: "codec \<Rightarrow> params_codec \<Rightarrow> bytes \<Rightarrow> attempt \<Rightarrow> go_error + cursor" where
  "remote_rotateOutput K D name c =
     filled zero_cursor (client_call K ''output.rotate'' (Some (enc_name D name)) [] (Some (dec_position D)) c)"

definition remote_pruneOutput :: "codec \<Rightarrow> params_codec \<Rightarrow> bytes \<Rightarrow> cursor \<Rightarrow> attempt \<Rightarrow> go_error option" where
  "remote_pruneOutput K D name before c =
     failed (client_call K ''output.prune'' (Some (enc_prune D \<lparr>pr_Name = name, pr_Before = before\<rparr>)) [] None c)"

definition remote_terminate :: "codec \<Rightarrow> params_codec \<Rightarrow> bytes \<Rightarrow> attempt \<Rightarrow> go_error option" where
  "remote_terminate K D name c = failed (client_call K ''terminate'' (Some (enc_name D name)) [] None c)"

definition remote_delete :: "codec \<Rightarrow> params_codec \<Rightarrow> bytes \<Rightarrow> attempt \<Rightarrow> go_error option" where
  "remote_delete K D name c = failed (client_call K ''delete'' (Some (enc_name D name)) [] None c)"

text \<open>The calls that transfer a blob.\<close>

definition readBlobWithMetadataRetryable ::
  "codec \<Rightarrow> lifecycle \<Rightarrow> bytes \<Rightarrow> (go_error + bytes) option \<Rightarrow> (nat \<Rightarrow> attempt) \<Rightarrow> go_error + blobValue" where
  "readBlobWithMetadataRetryable K L meth params cs =
     fst (retryable (lc_managed L) (lc_ready L) (lc_spawned L)
       (\<lambda>i. fst (readBlobOnceWithMetadata K (at_end (cs i)) (at_dialed (cs i)) meth params (at_in (cs i)))))"

definition readBlobRetryable ::
  "codec \<Rightarrow> lifecycle \<Rightarrow> bytes \<Rightarrow> (go_error + bytes) option \<Rightarrow> (nat \<Rightarrow> attempt) \<Rightarrow> go_error + bytes \<times> cursor" where
  "readBlobRetryable K L meth params cs =
     map_sum id (\<lambda>v. (blob_data v, blob_cursor v)) (readBlobWithMetadataRetryable K L meth params cs)"

text \<open>\<open>quoted\<close> is the verb \<^verbatim>\<open>%q\<close> of the format string.\<close>

definition readAtomicStateRetryable ::
  "codec \<Rightarrow> lifecycle \<Rightarrow> (bytes \<Rightarrow> bytes) \<Rightarrow> (go_error + bytes) option \<Rightarrow> (nat \<Rightarrow> attempt) \<Rightarrow>
   go_error + bytes \<times> bytes \<times> cursor \<times> size" where
  "readAtomicStateRetryable K L quoted params cs =
     (case readBlobWithMetadataRetryable K L ''state.atomic'' params cs of
        Inl e \<Rightarrow> Inl e
      | Inr v \<Rightarrow>
          if blob_format v \<noteq> AtomicStateFormat then
            Inl (Plain (''ghostline: unsupported atomic state format '' @ quoted (blob_format v)))
          else Inr (blob_format v, blob_data v, blob_cursor v, blob_grid v))"

definition remote_replay ::
  "codec \<Rightarrow> params_codec \<Rightarrow> lifecycle \<Rightarrow> bytes \<Rightarrow> (nat \<Rightarrow> attempt) \<Rightarrow> go_error + bytes" where
  "remote_replay K D L name cs = map_sum id fst (readBlobRetryable K L ''replay'' (Some (enc_name D name)) cs)"

definition remote_checkpoint ::
  "codec \<Rightarrow> params_codec \<Rightarrow> lifecycle \<Rightarrow> bytes \<Rightarrow> (nat \<Rightarrow> attempt) \<Rightarrow> go_error + bytes \<times> cursor" where
  "remote_checkpoint K D L name cs = readBlobRetryable K L ''checkpoint'' (Some (enc_name D name)) cs"

definition remote_atomicState ::
  "codec \<Rightarrow> params_codec \<Rightarrow> lifecycle \<Rightarrow> (bytes \<Rightarrow> bytes) \<Rightarrow> bytes \<Rightarrow> (nat \<Rightarrow> attempt) \<Rightarrow>
   go_error + bytes \<times> bytes \<times> cursor \<times> size" where
  "remote_atomicState K D L quoted name cs = readAtomicStateRetryable K L quoted (Some (enc_name D name)) cs"

text \<open>A handle with \<^verbatim>\<open>remoteSession\<close> behind it.\<close>

fun remote_op ::
  "codec \<Rightarrow> params_codec \<Rightarrow> lifecycle \<Rightarrow> bytes \<Rightarrow> session_op \<Rightarrow> (nat \<Rightarrow> attempt) \<Rightarrow> go_error + rpc_result option" where
  "remote_op K D L name OpStatus cs = map_sum id (Some \<circ> StatusIs) (client_status K D L name cs)"
| "remote_op K D L name OpMetadata cs = map_sum id (Some \<circ> MetadataIs) (remote_metadata K D L name cs)"
| "remote_op K D L name OpSize cs = map_sum id (Some \<circ> SizeIs) (remote_size K D L name cs)"
| "remote_op K D L name (OpSignal sig) cs = nothing_or (remote_signal K D name sig (cs 0))"
| "remote_op K D L name (OpWriteInput data) cs = nothing_or (remote_writeInput K D name data (cs 0))"
| "remote_op K D L name (OpResize sz) cs = nothing_or (remote_resize K D name sz (cs 0))"
| "remote_op K D L name OpOutputCursor cs = map_sum id (Some \<circ> CursorIs) (remote_outputCursor K D L name cs)"
| "remote_op K D L name OpRotateOutput cs = map_sum id (Some \<circ> CursorIs) (remote_rotateOutput K D name (cs 0))"
| "remote_op K D L name (OpPruneOutput before) cs = nothing_or (remote_pruneOutput K D name before (cs 0))"
| "remote_op K D L name OpTerminate cs = nothing_or (remote_terminate K D name (cs 0))"
| "remote_op K D L name OpDelete cs = nothing_or (remote_delete K D name (cs 0))"

end
