(* ===== verification/Remote_Session_Facts.thy ===== *)
theory Remote_Session_Facts
  imports Remote_Session Hub_Facts Session_Facts
begin

text \<open>
  Both sides of a call together: the bytes of a request that the client writes, handled by the
  server, and its bytes read by the client. The codec is assumed to represent the values of the
  call in question; the lemmas about one call carry the theorems about all operations.
\<close>

section \<open>One call\<close>

definition request_of :: "bytes \<Rightarrow> bytes \<Rightarrow> bytes \<Rightarrow> request" where
  "request_of meth p payload = (sent (plainRequest meth p))\<lparr>req_payloadBytes := int (length payload)\<rparr>"

definition call_wire :: "codec \<Rightarrow> bytes \<Rightarrow> bytes \<Rightarrow> bytes \<Rightarrow> bool" where
  "call_wire K meth p payload \<longleftrightarrow>
     meth \<noteq> [] \<and> length payload \<le> maxRPCPayload \<and> sends (req_ok K) (enc_request K) (request_of meth p payload)"

definition call_bytes :: "codec \<Rightarrow> bytes \<Rightarrow> bytes \<Rightarrow> bytes \<Rightarrow> bytes" where
  "call_bytes K meth p payload = snd (writeRequestPayload (enc_request K) None (plainRequest meth p) payload)"

fun decodes :: "params_codec \<Rightarrow> bytes \<Rightarrow> rpc_result \<Rightarrow> bool" where
  "decodes D b (VersionIs v) \<longleftrightarrow> dec_version D b = Inr v"
| "decodes D b (CreatedIs v) \<longleftrightarrow> dec_created D b = Inr v"
| "decodes D b (StatusIs v) \<longleftrightarrow> dec_status D b = Inr v"
| "decodes D b (MetadataIs v) \<longleftrightarrow> dec_metadata D b = Inr v"
| "decodes D b (SizeIs v) \<longleftrightarrow> dec_size D b = Inr v"
| "decodes D b (CursorIs v) \<longleftrightarrow> dec_position D b = Inr v"
| "decodes D b (ListIs v) \<longleftrightarrow> dec_list D b = Inr v"

definition result_response :: "params_codec \<Rightarrow> go_error + rpc_result option \<Rightarrow> response" where
  "result_response D r =
     (case r of Inl e \<Rightarrow> errResponse e | Inr None \<Rightarrow> okResponse [] 0 | Inr (Some v) \<Rightarrow> okResponse (projr (enc_result D v)) 0)"

definition result_wire :: "codec \<Rightarrow> params_codec \<Rightarrow> go_error + rpc_result option \<Rightarrow> bool" where
  "result_wire K D r \<longleftrightarrow>
     sends (resp_ok K) (enc_response K) (result_response D r) \<and>
     (case r of Inr (Some v) \<Rightarrow> (\<exists>b. enc_result D v = Inr b \<and> b \<noteq> [] \<and> decodes D b v) | _ \<Rightarrow> True)"

definition over_wire :: "go_error \<Rightarrow> go_error" where
  "over_wire e = the (decodeRPCError (Some (newRPCError e)))"

definition remote_view :: "go_error + 'a \<Rightarrow> go_error + 'a" where
  "remote_view r = map_sum over_wire id r"

lemma decode_over_wire: "decodeRPCError (Some (newRPCError e)) = Some (over_wire e)"
  using decode_newRPCError [of e] by (auto simp: over_wire_def)

text \<open>An error that the server answered is no transport error, so the call is not made again.\<close>

lemma answered_not_retried: "\<not> isTransportError (Some (over_wire e))"
proof -
  have "errors_Is (over_wire e) s \<Longrightarrow> s \<in> set wire_sentinels" for s
    by (auto simp: over_wire_def decodeRPCError_def decode_sentinel_def wire_sentinels_def newRPCError_def
        split: option.splits if_splits)
  moreover have "\<not> as_OpError (over_wire e)"
    by (auto simp: over_wire_def decodeRPCError_def split: option.split)
  ultimately show ?thesis by (auto simp: isTransportError_def wire_sentinels_def)
qed

lemma send_call:
  assumes "json_ok K" and "call_wire K meth p payload"
  shows "writeRequestPayload (enc_request K) None (plainRequest meth p) payload = (None, call_bytes K meth p payload)"
    and "0 < B \<Longrightarrow> readRequest (dec_request K) B e (call_bytes K meth p payload @ rest) = (Inr (request_of meth p payload, payload), rest)"
proof -
  let ?req = "plainRequest meth p"
  have eq: "?req\<lparr>req_wire := wireVersion, req_payloadBytes := int (length payload)\<rparr> = request_of meth p payload"
    by (simp add: request_of_def sent_def)
  obtain enc where enc: "enc_request K (request_of meth p payload) = Inr enc" "length enc < maxRPCFrame"
      "req_ok K (request_of meth p payload)"
    using assms(2) by (auto simp: call_wire_def sends_def)
  show w: "writeRequestPayload (enc_request K) None ?req payload = (None, call_bytes K meth p payload)"
    using assms(2) enc(1,2) by (simp add: writeRequestPayload_def call_bytes_def call_wire_def eq send_def)
  show "readRequest (dec_request K) B e (call_bytes K meth p payload @ rest) = (Inr (request_of meth p payload, payload), rest)"
    if "0 < B"
    using request_frame [OF _ that _ _ _ w, where good = "req_ok K" and unmarshal = "dec_request K" and endErr = e and rest = rest]
      assms enc(3) by (simp add: json_ok_def call_wire_def request_of_def sent_def plainRequest_def)
qed

lemma writeResponse_raw: "writeResponse marshal fault i result err = writeRawResponse marshal fault i result [] err"
  by (simp add: writeResponse_def writeRawResponse_def split: sum.split)

lemma answer_sent:
  assumes "json_ok K" and "faultless C" and "result_wire K D r"
  obtains w where "answer_frame K D C k 1 r = (None, w)"
    "\<And>B e rest. 0 < B \<Longrightarrow> readResponse (dec_response K) B e (w @ rest) = (Inr (result_response D r), rest)"
proof -
  have fault: "wfault C k = None" using assms(2) by (simp add: faultless_def)
  have none: "writeRawResponse (enc_response K) None 1 None [] None = writeRawResponse (enc_response K) None 1 (Some (Inr [])) [] None"
    by (simp add: writeRawResponse_def encodeResponse_def)
  show thesis
  proof (cases r)
    case (Inl e)
    then have "sends (resp_ok K) (enc_response K) (errResponse e)" using assms(3) by (simp add: result_wire_def result_response_def)
    from send_error [OF assms(1) this, of "[]"] obtain enc where
      "writeRawResponse (enc_response K) None 1 None [] (Some e) = (None, enc @ [newline])"
      "\<And>B e' rest. 0 < B \<Longrightarrow> readResponse (dec_response K) B e' (enc @ newline # rest) = (Inr (errResponse e), rest)"
      by (metis le0 list.size(3))
    then show thesis using Inl fault
      by (intro that [of "enc @ [newline]"]) (simp_all add: answer_frame_def writeResponse_raw result_response_def)
  next
    case (Inr v)
    define b where "b = (case v of None \<Rightarrow> [] | Some x \<Rightarrow> projr (enc_result D x))"
    have resp: "result_response D r = okResponse b 0" using Inr by (simp add: result_response_def b_def split: option.split)
    then have "sends (resp_ok K) (enc_response K) (okResponse b (length []))" using assms(3) by (simp add: result_wire_def)
    from send_response [OF assms(1) this] obtain enc where
      "writeRawResponse (enc_response K) None 1 (Some (Inr b)) [] None = (None, enc @ [newline])"
      "\<And>B e' rest. 0 < B \<Longrightarrow> readResponse (dec_response K) B e' (enc @ newline # rest) = (Inr (okResponse b 0), rest)"
      by (metis le0 list.size(3))
    moreover have "answer_frame K D C k 1 r = writeRawResponse (enc_response K) None 1 (Some (Inr b)) [] None"
      using Inr fault assms(3) none
      by (auto simp: answer_frame_def writeResponse_raw b_def result_wire_def split: option.splits)
    ultimately show thesis using resp by (intro that [of "enc @ [newline]"]) simp_all
  qed
qed

lemma readRequest_empty: "0 < B \<Longrightarrow> \<exists>e'. readRequest unmarshal B e [] = (Inl e', [])"
  by (simp add: readRequest_def readLine_def readLine_loop.simps ReadSlice_def IndexByte_def)

definition stream_methods :: "bytes set" where
  "stream_methods = {''output'', ''replay'', ''checkpoint'', ''state.atomic''}"

text \<open>The server's half of a call: the answer of \<^verbatim>\<open>dispatch\<close> is the first frame, and nothing else happens.\<close>

lemma handle_call:
  assumes "json_ok K" and "faultless C" and "call_wire K meth p payload" and "meth \<notin> stream_methods"
    and "dispatchRequest P D (envs 0) (request_of meth p payload) payload srv = Some (r, effs, srv')" and "result_wire K D r"
  obtains w tail where "handle P K D C envs 0 srv (call_bytes K meth p payload) = (w @ tail, effs, srv')"
    "\<And>B e rest. 0 < B \<Longrightarrow> readResponse (dec_response K) B e (w @ rest) = (Inr (result_response D r), rest)"
proof -
  have B: "0 < bufSize C" using assms(2) by (simp add: faultless_def)
  obtain w where w: "answer_frame K D C 0 1 r = (None, w)"
      "\<And>B e rest. 0 < B \<Longrightarrow> readResponse (dec_response K) B e (w @ rest) = (Inr (result_response D r), rest)"
    using answer_sent [OF assms(1,2,6)] by blast
  obtain e' where "readRequest (dec_request K) (bufSize C) (endErr C) [] = (Inl e', [])"
    using readRequest_empty [OF B] by blast
  then obtain tail where tail: "handle P K D C envs (0 + 1) srv' [] = (tail, [], srv')"
    by (simp add: handle.simps [of P K D C envs "Suc 0" srv' "[]"])
  have req: "readRequest (dec_request K) (bufSize C) (endErr C) (call_bytes K meth p payload) = (Inr (request_of meth p payload, payload), [])"
    using send_call(2) [OF assms(1,3) B, of "endErr C" "[]"] by simp
  have "req_method (request_of meth p payload) = meth" "req_id (request_of meth p payload) = 1"
    by (simp_all add: request_of_def sent_def plainRequest_def)
  then have "handle P K D C envs 0 srv (call_bytes K meth p payload) = (w @ tail, effs, srv')"
    using req assms(4,5) w(1) tail
    by (simp add: handle.simps [of P K D C envs 0 srv "call_bytes K meth p payload"] stream_methods_def)
  then show thesis using w(2) by (rule that)
qed

text \<open>The client's half: what a call with a decoder for its result makes of the answer.\<close>

definition client_result ::
  "params_codec \<Rightarrow> go_error + rpc_result option \<Rightarrow> (bytes \<Rightarrow> go_error + 'r) option \<Rightarrow> go_error + 'r option" where
  "client_result D r result =
    (case r of Inl e \<Rightarrow> Inl (over_wire e)
     | Inr None \<Rightarrow> Inr None
     | Inr (Some v) \<Rightarrow>
         (case result of None \<Rightarrow> Inr None | Some decoder \<Rightarrow> map_sum id Some (decoder (projr (enc_result D v)))))"

lemma client_answer:
  assumes "json_ok K" and "faultless E" and "ctxState E = None" and "call_wire K meth p payload"
    and "(case params of None \<Rightarrow> Inr [] | Some enc \<Rightarrow> enc) = Inr p" and "result_wire K D r"
    and "\<And>B e rest. 0 < B \<Longrightarrow> readResponse (dec_response K) B e (w @ rest) = (Inr (result_response D r), rest)"
  shows "callOncePayload K E None meth params payload result (w @ tail) = client_result D r result"
proof -
  have "0 < bufSize E" "wfault E 0 = None" using assms(2) by (simp_all add: faultless_def)
  then have "exchange K E 0 (plainRequest meth p) payload (w @ tail) = (Inr (result_response D r), tail, call_bytes K meth p payload)"
    using send_call(1) [OF assms(1,4)] assms(7) by (simp add: exchange_def)
  moreover have "resp_id (result_response D r) = 1" "resp_payloadBytes (result_response D r) = 0"
    by (simp_all add: result_response_def okResponse_def errResponse_def split: sum.split option.split)
  ultimately show ?thesis
    using assms(3,5,6)
    by (auto simp: client_result_def callOncePayload_def result_response_def okResponse_def errResponse_def decode_over_wire ctxErr_def
        contextErr_def decodeRPCError_def [of None] result_wire_def split: sum.splits option.splits)
qed

section \<open>The operations of a session\<close>

text \<open>The call behind each operation: its method, its encoded parameters, its payload.\<close>

fun op_call :: "params_codec \<Rightarrow> bytes \<Rightarrow> session_op \<Rightarrow> bytes \<times> (go_error + bytes) \<times> bytes" where
  "op_call D name OpStatus = (''status'', enc_name D name, [])"
| "op_call D name OpMetadata = (''metadata'', enc_name D name, [])"
| "op_call D name OpSize = (''size'', enc_name D name, [])"
| "op_call D name (OpSignal sig) = (''signal'', enc_signal D \<lparr>sg_Name = name, sg_Signal = sig\<rparr>, [])"
| "op_call D name (OpWriteInput data) = (''writeInput'', enc_input D name, data)"
| "op_call D name (OpResize sz) =
     (''resize'', enc_resize D \<lparr>rz_Name = name, rz_Cols = Columns sz, rz_Rows = Rows sz\<rparr>, [])"
| "op_call D name OpOutputCursor = (''output.cursor'', enc_name D name, [])"
| "op_call D name OpRotateOutput = (''output.rotate'', enc_name D name, [])"
| "op_call D name (OpPruneOutput before) = (''output.prune'', enc_prune D \<lparr>pr_Name = name, pr_Before = before\<rparr>, [])"
| "op_call D name OpTerminate = (''terminate'', enc_name D name, [])"
| "op_call D name OpDelete = (''delete'', enc_name D name, [])"

text \<open>The server's decoder reads the parameters back; the signal is one that \<^verbatim>\<open>normalizeSignal\<close> lets pass.\<close>

fun op_decodes :: "params_codec \<Rightarrow> bytes \<Rightarrow> session_op \<Rightarrow> bytes \<Rightarrow> bool" where
  "op_decodes D name (OpSignal sig) p \<longleftrightarrow>
     dec_signal D p = Inr \<lparr>sg_Name = name, sg_Signal = sig\<rparr> \<and> normalizeSignal (SyscallSignal sig) = Inr sig"
| "op_decodes D name (OpWriteInput data) p \<longleftrightarrow> dec_input D p = Inr name"
| "op_decodes D name (OpResize sz) p \<longleftrightarrow> dec_resize D p = Inr \<lparr>rz_Name = name, rz_Cols = Columns sz, rz_Rows = Rows sz\<rparr>"
| "op_decodes D name (OpPruneOutput before) p \<longleftrightarrow> dec_prune D p = Inr \<lparr>pr_Name = name, pr_Before = before\<rparr>"
| "op_decodes D name _ p \<longleftrightarrow> dec_name D p = Inr name"

definition op_wire :: "codec \<Rightarrow> params_codec \<Rightarrow> bytes \<Rightarrow> session_op \<Rightarrow> bytes \<Rightarrow> bool" where
  "op_wire K D name op p \<longleftrightarrow>
     (case op_call D name op of (meth, enc, payload) \<Rightarrow> enc = Inr p \<and> call_wire K meth p payload) \<and> op_decodes D name op p"

definition op_bytes :: "codec \<Rightarrow> params_codec \<Rightarrow> bytes \<Rightarrow> session_op \<Rightarrow> bytes \<Rightarrow> bytes" where
  "op_bytes K D name op p = (case op_call D name op of (meth, _, payload) \<Rightarrow> call_bytes K meth p payload)"

lemma request_of_fields [simp]:
  "req_method (request_of meth p payload) = meth" "req_params (request_of meth p payload) = p"
  by (simp_all add: request_of_def sent_def plainRequest_def)

lemma op_dispatch:
  assumes "op_call D name op = (meth, enc, payload)" and "op_decodes D name op p"
    and "hub_Get None name (sv_hub srv) = Inr a"
  shows "dispatchRequest P D E (request_of meth p payload) payload srv = Some (local_op P (E\<lparr>ce_ctx := None\<rparr>) a op srv)"
    and "meth \<notin> stream_methods"
proof -
  have meth: "meth = fst (op_call D name op)" "payload = snd (snd (op_call D name op))" using assms(1) by simp_all
  show "meth \<notin> stream_methods" unfolding meth by (cases op) (simp_all add: stream_methods_def)
  show "dispatchRequest P D E (request_of meth p payload) payload srv = Some (local_op P (E\<lparr>ce_ctx := None\<rparr>) a op srv)"
    unfolding meth using assms(2,3)
    by (cases op) (simp_all add: dispatchRequest_def dispatch_def on_session_def namedSession_def)
qed

text \<open>A connection whose first frame is the answer to a call.\<close>

definition answering :: "codec \<Rightarrow> params_codec \<Rightarrow> bytes \<Rightarrow> bytes \<Rightarrow> bytes \<Rightarrow> go_error + rpc_result option \<Rightarrow> attempt \<Rightarrow> bool" where
  "answering K D meth p payload r c \<longleftrightarrow>
     json_ok K \<and> faultless (at_end c) \<and> ctxState (at_end c) = None \<and> at_dialed c = None \<and>
     call_wire K meth p payload \<and> result_wire K D r \<and>
     (\<exists>w tail. at_in c = w @ tail \<and>
        (\<forall>B e rest. 0 < B \<longrightarrow> readResponse (dec_response K) B e (w @ rest) = (Inr (result_response D r), rest)))"

lemma call_view:
  assumes "answering K D meth p payload r c" and "(case params of None \<Rightarrow> Inr [] | Some enc \<Rightarrow> enc) = Inr p"
  shows "client_call K meth params payload result c = client_result D r result"
proof -
  obtain w tail where "at_in c = w @ tail"
    and w: "\<forall>B e rest. 0 < B \<longrightarrow> readResponse (dec_response K) B e (w @ rest) = (Inr (result_response D r), rest)"
    using assms(1) by (auto simp: answering_def)
  then show ?thesis
    using assms client_answer [of K "at_end c" meth p payload params D r w result tail, OF _ _ _ _ _ _ w [rule_format]]
    by (simp add: client_call_def answering_def)
qed

text \<open>A call that the server answers is answered at the first attempt, whatever the answer is.\<close>

lemma retry_view:
  assumes "answering K D meth p [] r c" and "(case params of None \<Rightarrow> Inr [] | Some enc \<Rightarrow> enc) = Inr p"
    and "\<And>v decoder. r = Inr (Some v) \<Longrightarrow> result = Some decoder \<Longrightarrow> \<exists>x. decoder (projr (enc_result D v)) = Inr x"
  shows "callRetryable K L meth params result (\<lambda>_. c) = client_result D r result"
proof -
  have "client_result D r result = Inl e \<Longrightarrow> \<not> isTransportError (Some e)" for e
    using assms(3) answered_not_retried by (fastforce simp: client_result_def split: sum.splits option.splits)
  then show ?thesis
    using call_view [OF assms(1,2), of result] by (auto simp: callRetryable_def retryable_def split: sum.split)
qed

text \<open>Calls that answer a value of some kind, and calls that answer nothing.\<close>

lemma value_view:
  assumes "result_wire K D r" and "r = map_sum id (Some \<circ> kind) q" and "\<And>b v. decodes D b (kind v) \<Longrightarrow> decoder b = Inr v"
  shows "map_sum id (Some \<circ> kind) (filled zero (client_result D r (Some decoder))) = remote_view r"
    and "r = Inr (Some v) \<Longrightarrow> \<exists>x. decoder (projr (enc_result D v)) = Inr x"
  using assms by (cases q; force simp: result_wire_def client_result_def filled_def remote_view_def)+

lemma call_value:
  assumes "answering K D meth p payload r c" and "r = map_sum id (Some \<circ> kind) q"
    and "\<And>b v. decodes D b (kind v) \<Longrightarrow> decoder b = Inr v" and "(case params of None \<Rightarrow> Inr [] | Some enc \<Rightarrow> enc) = Inr p"
  shows "map_sum id (Some \<circ> kind) (filled zero (client_call K meth params payload (Some decoder) c)) = remote_view r"
    and "payload = [] \<Longrightarrow>
      map_sum id (Some \<circ> kind) (filled zero (callRetryable K L meth params (Some decoder) (\<lambda>_. c))) = remote_view r"
proof -
  have wire: "result_wire K D r" using assms(1) by (simp add: answering_def)
  show "map_sum id (Some \<circ> kind) (filled zero (client_call K meth params payload (Some decoder) c)) = remote_view r"
    unfolding call_view [OF assms(1,4)] by (rule value_view(1) [OF wire assms(2,3)])
  show "map_sum id (Some \<circ> kind) (filled zero (callRetryable K L meth params (Some decoder) (\<lambda>_. c))) = remote_view r"
    if "payload = []"
  proof -
    have "callRetryable K L meth params (Some decoder) (\<lambda>_. c) = client_result D r (Some decoder)"
    proof (rule retry_view [OF _ assms(4)])
      show "answering K D meth p [] r c" using assms(1) that by simp
      show "\<exists>x. d (projr (enc_result D v)) = Inr x" if "r = Inr (Some v)" "Some decoder = Some d" for v d
        using value_view(2) [OF wire assms(2,3) that(1)] that(2) by simp
    qed
    then show ?thesis using value_view(1) [OF wire assms(2,3)] by simp
  qed
qed

lemma call_nothing:
  assumes "answering K D meth p payload r c" and "r = nothing_or err" and "params = Some (Inr p)"
  shows "nothing_or (failed (client_call K meth params payload None c)) = remote_view r"
proof -
  have "client_call K meth params payload None c = client_result D r (None :: (bytes \<Rightarrow> go_error + unit) option)"
    using assms(3) by (intro call_view [OF assms(1)]) simp
  then show ?thesis
    using assms(2) by (cases err) (simp_all add: nothing_or_def failed_def client_result_def remote_view_def)
qed

lemmas backend_defs = client_status_def remote_metadata_def remote_size_def remote_signal_def remote_writeInput_def
  remote_resize_def remote_outputCursor_def remote_rotateOutput_def remote_pruneOutput_def remote_terminate_def remote_delete_def

lemma local_op_kind:
  assumes "local_op P E a op srv = (r, effs, srv')"
  shows "op = OpStatus \<Longrightarrow> \<exists>q. r = map_sum id (Some \<circ> StatusIs) q"
    and "op = OpMetadata \<Longrightarrow> \<exists>q. r = map_sum id (Some \<circ> MetadataIs) q"
    and "op = OpSize \<Longrightarrow> \<exists>q. r = map_sum id (Some \<circ> SizeIs) q"
    and "op = OpOutputCursor \<or> op = OpRotateOutput \<Longrightarrow> \<exists>q. r = map_sum id (Some \<circ> CursorIs) q"
    and "op \<notin> {OpStatus, OpMetadata, OpSize, OpOutputCursor, OpRotateOutput} \<Longrightarrow> \<exists>err. r = nothing_or err"
  using assms by (cases op; force split: prod.splits simp: Let_def)+

lemma op_view:
  assumes "op_call D name op = (meth, Inr p, payload)" and c: "answering K D meth p payload r c"
    and "local_op P E a op srv = (r, effs, srv')"
  shows "remote_op K D L name op (\<lambda>_. c) = remote_view r"
proof (cases "op \<in> {OpStatus, OpMetadata, OpSize, OpOutputCursor, OpRotateOutput}")
  case True
  note retry = call_value(2) [OF c _ _ _, where params = "Some (Inr p)" and L = L]
    and once = call_value(1) [OF c _ _ _, where params = "Some (Inr p)"]
  from True consider "op = OpStatus" | "op = OpMetadata" | "op = OpSize" | "op = OpOutputCursor" | "op = OpRotateOutput" by blast
  then show ?thesis
  proof cases
    case 1
    with local_op_kind(1) [OF assms(3)] obtain q where "r = map_sum id (Some \<circ> StatusIs) q" by blast
    then show ?thesis using 1 assms(1) retry [of StatusIs q "dec_status D"] by (simp add: backend_defs)
  next
    case 2
    with local_op_kind(2) [OF assms(3)] obtain q where "r = map_sum id (Some \<circ> MetadataIs) q" by blast
    then show ?thesis using 2 assms(1) retry [of MetadataIs q "dec_metadata D"] by (simp add: backend_defs)
  next
    case 3
    with local_op_kind(3) [OF assms(3)] obtain q where "r = map_sum id (Some \<circ> SizeIs) q" by blast
    then show ?thesis using 3 assms(1) retry [of SizeIs q "dec_size D"] by (simp add: backend_defs)
  next
    case 4
    with local_op_kind(4) [OF assms(3)] obtain q where "r = map_sum id (Some \<circ> CursorIs) q" by blast
    then show ?thesis using 4 assms(1) retry [of CursorIs q "dec_position D"] by (simp add: backend_defs)
  next
    case 5
    with local_op_kind(4) [OF assms(3)] obtain q where "r = map_sum id (Some \<circ> CursorIs) q" by blast
    then show ?thesis using 5 assms(1) once [of CursorIs q "dec_position D"] by (simp add: backend_defs)
  qed
next
  case False
  with local_op_kind(5) [OF assms(3)] obtain err where err: "r = nothing_or err" by blast
  show ?thesis using False assms(1) call_nothing [OF c err, of "Some (Inr p)"]
    by (cases op) (simp_all add: backend_defs)
qed

section \<open>Remote handles are transparent\<close>

abbreviation connected :: "endpoint \<Rightarrow> bytes \<Rightarrow> attempt" where
  "connected E out \<equiv> \<lparr>at_end = E, at_dialed = None, at_in = out\<rparr>"

definition working :: "codec \<Rightarrow> endpoint \<Rightarrow> endpoint \<Rightarrow> bool" where
  "working K Ec Es \<longleftrightarrow> json_ok K \<and> faultless Ec \<and> ctxState Ec = None \<and> faultless Es"

lemma handle_answering:
  assumes "working K Ec Es" and "call_wire K meth p payload" and "meth \<notin> stream_methods"
    and "dispatchRequest P D (envs 0) (request_of meth p payload) payload srv = Some (r, effs, srv')" and "result_wire K D r"
  shows "\<exists>out. handle P K D Es envs 0 srv (call_bytes K meth p payload) = (out, effs, srv') \<and>
    answering K D meth p payload r (connected Ec out)"
proof -
  have K: "json_ok K" and Es: "faultless Es" using assms(1) by (simp_all add: working_def)
  obtain w tail where out: "handle P K D Es envs 0 srv (call_bytes K meth p payload) = (w @ tail, effs, srv')"
    and w: "\<And>B e rest. 0 < B \<Longrightarrow> readResponse (dec_response K) B e (w @ rest) = (Inr (result_response D r), rest)"
    by (rule handle_call [where envs = envs, OF K Es assms(2-5)]) (rule that; simp)
  have "\<exists>w' tail'. w @ tail = w' @ tail' \<and>
      (\<forall>B e rest. 0 < B \<longrightarrow> readResponse (dec_response K) B e (w' @ rest) = (Inr (result_response D r), rest))"
    using w by blast
  with out show ?thesis using assms(1,2,5) by (simp add: answering_def working_def)
qed

text \<open>
  C10. A session handle works the same through the daemon's socket as in the process of the
  daemon. For each of the eleven operations of the backend interface that are answered with a
  single response (status, metadata, size, signal, writeInput, resize, outputCursor,
  rotateOutput, pruneOutput, terminate, delete; the others are the subject of
  \<open>blob_roundtrip\<close>, \<open>remote_reader_refines\<close> and \<open>remote_wait_answer\<close>), on the session that the server lists
  under the name: if the operation on the local handle answers \<open>r\<close>, with the system calls
  \<open>effs\<close> and the new state \<open>srv'\<close>, then the server that reads the client's request does exactly
  that, once, also for a client that may retry, and the remote handle answers \<open>r\<close>, an error as
  it is translated by the wire.
\<close>

theorem remote_session_refines:
  assumes "working K Ec Es" and "op_wire K D name op p" and "result_wire K D r"
    and "hub_Get None name (sv_hub srv) = Inr a" and "local_op P ((envs 0)\<lparr>ce_ctx := None\<rparr>) a op srv = (r, effs, srv')"
  shows "\<exists>out. handle P K D Es envs 0 srv (op_bytes K D name op p) = (out, effs, srv') \<and>
    remote_op K D L name op (\<lambda>_. connected Ec out) = remote_view r"
proof -
  obtain meth payload where call: "op_call D name op = (meth, Inr p, payload)"
    and wire: "call_wire K meth p payload" "op_decodes D name op p"
    using assms(2) by (auto simp: op_wire_def split: prod.splits)
  note disp = op_dispatch(1) [OF call wire(2) assms(4), where P = P and E = "envs 0"]
    and meth = op_dispatch(2) [OF call wire(2) assms(4)]
  then obtain out where "handle P K D Es envs 0 srv (call_bytes K meth p payload) = (out, effs, srv')"
      "answering K D meth p payload r (connected Ec out)"
    using handle_answering [where envs = envs, OF assms(1) wire(1) meth _ assms(3)] assms(5) by metis
  then show ?thesis using call op_view [OF call _ assms(5)] by (auto simp: op_bytes_def)
qed

text \<open>A codec for one call, and a server with one session.\<close>

definition call_codec :: "request \<Rightarrow> response \<Rightarrow> codec" where
  "call_codec req resp = demo_codec\<lparr>enc_request := one_codec req, dec_request := (\<lambda>_. Inr req),
     enc_response := one_codec resp, dec_response := (\<lambda>_. Inr resp), req_ok := (\<lambda>_. True), resp_ok := (\<lambda>_. True)\<rparr>"

definition demo_start_options :: sessionOptions where
  "demo_start_options = \<lparr>so_Name = ''s'', so_Process = Shell ''ls'', so_Size = Size 80 24, so_Scrollback = 1\<rparr>"

definition demo_params :: params_codec where
  "demo_params = \<lparr>enc_name = (\<lambda>_. Inr ''n''), dec_name = (\<lambda>_. Inr ''s''),
     enc_create = (\<lambda>_. Inr ''n''), dec_create = (\<lambda>_. Inr (create_params demo_start_options)),
     enc_input = (\<lambda>_. Inr ''n''), dec_input = (\<lambda>_. Inr ''s''),
     enc_resize = (\<lambda>_. Inr ''n''), dec_resize = (\<lambda>_. Inl (Plain [])),
     enc_signal = (\<lambda>_. Inr ''n''), dec_signal = (\<lambda>_. Inl (Plain [])),
     enc_prune = (\<lambda>_. Inr ''n''), dec_prune = (\<lambda>_. Inl (Plain [])), dec_open_output = (\<lambda>_. Inl (Plain [])),
     enc_result = (\<lambda>_. Inr ''r''), dec_version = (\<lambda>_. Inl (Plain [])),
     dec_created = (\<lambda>_. Inr \<lparr>in_Name = ''s'', in_CreatedAt = 0\<rparr>),
     dec_status = (\<lambda>_. Inr \<lparr>Alive = False, Exit = None\<rparr>), dec_metadata = (\<lambda>_. Inl (Plain [])),
     dec_size = (\<lambda>_. Inr (Size 80 24)), dec_position = (\<lambda>_. Inl (Plain [])), dec_list = (\<lambda>_. Inl (Plain []))\<rparr>"

definition demo_call :: "unit call_env" where
  "demo_call = \<lparr>ce_ctx = None, ce_ctxFirst = False, ce_after = None, ce_mkdirAll = None, ce_start = demo_env, ce_order = [],
     ce_dup = None, ce_probe = Inl (Plain []), ce_ioctl = None, ce_getpgid = Inr 7, ce_kill = None,
     ce_writer = (\<lambda>w data. ((length data, None), w)), ce_events = [], ce_setsize = None, ce_rotate = None,
     ce_prune = (\<lambda>_. None), ce_segments = [], ce_reap = (True, True), ce_open = None, ce_read = (\<lambda>_ _ _. None)\<rparr>"

definition demo_server :: "bytes sessionState list \<Rightarrow> (bytes, unit) server" where
  "demo_server sts = \<lparr>sv_hub = demo_hub\<lparr>h_sessions := (if sts = [] then Map.empty else [''s'' \<mapsto> 0]), h_states := sts\<rparr>,
     sv_disk = demo_disk, sv_pty = (\<lambda>_. ()), sv_maxClients = 1024, sv_build = None\<rparr>"

lemma demo_working: "working (call_codec req resp) demo_end demo_end"
  by (simp add: working_def json_ok_def call_codec_def demo_faultless one_codec_ok) (simp add: demo_end_def)

lemma demo_call_wire:
  assumes "meth \<noteq> []"
  shows "call_wire (call_codec (request_of meth p []) resp) meth p []"
  using assms by (simp add: call_wire_def sends_def call_codec_def one_codec_def maxRPCPayload_def maxRPCFrame_def)

lemma demo_result_wire:
  assumes "decodes demo_params ''r'' v"
  shows "result_wire (call_codec req (okResponse ''r'' 0)) demo_params (Inr (Some v))"
  using assms
  by (simp add: result_wire_def sends_def call_codec_def one_codec_def maxRPCFrame_def result_response_def demo_params_def)

theorem remote_session_refines_witness:
  "\<forall>P L. \<exists>out.
     let K = call_codec (request_of ''size'' ''n'' []) (okResponse ''r'' 0); srv = demo_server [demo_state ''s'' 5] in
     handle P K demo_params demo_end (\<lambda>_. demo_call) 0 srv (op_bytes K demo_params ''s'' OpSize ''n'') = (out, [], srv) \<and>
     remote_op K demo_params L ''s'' OpSize (\<lambda>_. connected demo_end out) = Inr (Some (SizeIs (Size 80 24)))"
proof (intro allI)
  fix P :: "bytes platform" and L
  let ?K = "call_codec (request_of ''size'' ''n'' []) (okResponse ''r'' 0)"
  let ?srv = "demo_server [demo_state ''s'' 5]" and ?r = "Inr (Some (SizeIs (Size 80 24))) :: go_error + rpc_result option"
  have "op_wire ?K demo_params ''s'' OpSize ''n''"
    using demo_call_wire [of "''size''" "''n''"] by (simp add: op_wire_def demo_params_def)
  moreover have "result_wire ?K demo_params ?r" by (intro demo_result_wire) (simp add: demo_params_def)
  moreover have "hub_Get None ''s'' (sv_hub ?srv) = Inr 0" by (simp add: hub_Get_def hub_session_def demo_server_def)
  moreover have "local_op P (demo_call\<lparr>ce_ctx := None\<rparr>) 0 OpSize ?srv = (?r, [], ?srv)"
    by (simp add: demo_call_def demo_server_def demo_state_def session_size_def hub_current_def)
  ultimately have "\<exists>out. handle P ?K demo_params demo_end (\<lambda>_. demo_call) 0 ?srv (op_bytes ?K demo_params ''s'' OpSize ''n'') = (out, [], ?srv) \<and>
      remote_op ?K demo_params L ''s'' OpSize (\<lambda>_. connected demo_end out) = remote_view ?r"
    by (rule remote_session_refines [OF demo_working])
  then show "\<exists>out. let K = ?K; srv = ?srv in
     handle P K demo_params demo_end (\<lambda>_. demo_call) 0 srv (op_bytes K demo_params ''s'' OpSize ''n'') = (out, [], srv) \<and>
     remote_op K demo_params L ''s'' OpSize (\<lambda>_. connected demo_end out) = Inr (Some (SizeIs (Size 80 24)))"
    by (simp add: remote_view_def Let_def)
qed

lemma start_options_create: "start_options (create_params opts) = opts"
  by (simp add: start_options_def create_params_def)

definition started :: "'t hub \<Rightarrow> go_error + nat \<Rightarrow> go_error + rpc_result option" where
  "started h r = map_sum id (\<lambda>a. Some (CreatedIs (session_Info a h))) r"

text \<open>
  C17. Creating a session through the daemon is \<^verbatim>\<open>Hub.Start\<close> in the daemon: with exactly the
  options of the client the server starts the session or refuses it, and the client gets a
  handle with the name and the creation time of the new session, or the error of the hub.
\<close>

theorem remote_start_exact:
  assumes "working K Ec Es" and "enc_create D (create_params opts) = Inr p" and "dec_create D p = Inr (create_params opts)"
    and "call_wire K ''create'' p []" and "result_wire K D (started h' r)"
    and "hub_Start P None (ce_mkdirAll (envs 0)) (ce_start (envs 0)) opts (sv_hub srv) (sv_disk srv) = (r, h', d')"
  shows "\<exists>out. handle P K D Es envs 0 srv (call_bytes K ''create'' p []) = (out, [], srv\<lparr>sv_hub := h', sv_disk := d'\<rparr>) \<and>
    client_Start K D L opts (\<lambda>_. connected Ec out) =
      remote_view (map_sum id (\<lambda>a. (so_Name opts, session_Info a h')) r)"
proof -
  have "dispatchRequest P D (envs 0) (request_of ''create'' p []) [] srv =
      Some (started h' r, [], srv\<lparr>sv_hub := h', sv_disk := d'\<rparr>)"
    using assms(3,6)
    by (cases r) (simp_all add: dispatchRequest_def dispatch_def dispatch_create_def start_options_create started_def)
  then obtain out where out: "handle P K D Es envs 0 srv (call_bytes K ''create'' p []) = (out, [], srv\<lparr>sv_hub := h', sv_disk := d'\<rparr>)"
      "answering K D ''create'' p [] (started h' r) (connected Ec out)"
    using handle_answering [where envs = envs, OF assms(1,4) _ _ assms(5)] unfolding stream_methods_def by force
  have "map_sum id (Some \<circ> CreatedIs)
      (filled zero_info (callRetryable K L ''create'' (Some (Inr p)) (Some (dec_created D)) (\<lambda>_. connected Ec out))) =
    remote_view (started h' r)"
    using call_value(2) [OF out(2), of CreatedIs "map_sum id (\<lambda>a. session_Info a h') r" "dec_created D" "Some (Inr p)"]
    by (simp add: started_def sum.map_comp comp_def id_def)
  then have "client_Start K D L opts (\<lambda>_. connected Ec out) =
      remote_view (map_sum id (\<lambda>a. (so_Name opts, session_Info a h')) r)"
    using assms(2)
    by (cases r; cases "filled zero_info (callRetryable K L ''create'' (Some (Inr p)) (Some (dec_created D)) (\<lambda>_. connected Ec out))")
      (simp_all add: client_Start_def started_def remote_view_def)
  with out(1) show ?thesis by blast
qed

lemma demo_hub_start:
  "\<exists>h d. hub_Start demo_platform None None demo_env demo_start_options (sv_hub (demo_server [])) demo_disk = (Inr 0, h, d) \<and>
     session_Info 0 h = \<lparr>in_Name = ''s'', in_CreatedAt = 0\<rparr>"
proof -
  have "ProcessSpec_validate (Shell ''ls'') = None" by code_simp
  then show ?thesis
    using demo_names(1)
    by (simp add: hub_Start_def start_reserve_def demo_start_options_def demo_server_def demo_hub_def Size_resolve_def
        Size_validate_def maxTerminalDimension_def resolveVTScrollbackMaxBytes_def demo_start start_publish_def
        start_release_def session_Info_def demo_session_def)
qed

theorem remote_start_exact_witness:
  "\<forall>L. \<exists>out. client_Start (call_codec (request_of ''create'' ''n'' []) (okResponse ''r'' 0)) demo_params L demo_start_options
     (\<lambda>_. connected demo_end out) = Inr (''s'', \<lparr>in_Name = ''s'', in_CreatedAt = 0\<rparr>)"
proof
  fix L
  let ?K = "call_codec (request_of ''create'' ''n'' []) (okResponse ''r'' 0)"
  obtain h d where hub: "hub_Start demo_platform None None demo_env demo_start_options (sv_hub (demo_server [])) demo_disk = (Inr 0, h, d)"
    and info: "session_Info 0 h = \<lparr>in_Name = ''s'', in_CreatedAt = 0\<rparr>"
    using demo_hub_start by blast
  have "hub_Start demo_platform None (ce_mkdirAll demo_call) (ce_start demo_call) demo_start_options
      (sv_hub (demo_server [])) (sv_disk (demo_server [])) = (Inr 0, h, d)"
    using hub by (simp add: demo_call_def demo_server_def)
  moreover have "result_wire ?K demo_params (started h (Inr 0))"
    unfolding started_def map_sum.simps by (intro demo_result_wire) (simp add: info, simp add: demo_params_def)
  moreover have "enc_create demo_params (create_params demo_start_options) = Inr ''n''"
      "dec_create demo_params ''n'' = Inr (create_params demo_start_options)" by (simp_all add: demo_params_def)
  ultimately show "\<exists>out. client_Start ?K demo_params L demo_start_options (\<lambda>_. connected demo_end out) =
      Inr (''s'', \<lparr>in_Name = ''s'', in_CreatedAt = 0\<rparr>)"
    using remote_start_exact [OF demo_working, of demo_params demo_start_options "''n''" "request_of ''create'' ''n'' []"
        "okResponse ''r'' 0" h "Inr 0" demo_platform "\<lambda>_. demo_call" "demo_server []" d L]
      demo_call_wire [of "''create''" "''n''" "okResponse ''r'' 0"] info
    by (auto simp: remote_view_def demo_start_options_def)
qed

text \<open>
  C37. What a remote \<^verbatim>\<open>Wait\<close> answers for a session that has ended. A storage failure of the output is
  answered alone: the exit status that the local handle joins to it, as \<^verbatim>\<open>Wait\<close> is documented,
  is lost. Without one, the exit status is answered, and an error of the wait that is not an
  exit status, which the local handle reports, is answered as success.
\<close>

theorem remote_wait_answer:
  assumes "working K Ec Es" and "enc_name D name = Inr p" and "dec_name D p = Inr name" and "call_wire K ''wait'' p []"
    and "hub_Get None name (sv_hub srv) = Inr a" and "st = h_states (sv_hub srv) ! a" and "st_done st"
    and "ce_ctx (envs 0) = None" and "ce_after (envs 0) = None"
    and "result_wire K D (map_sum id (Some \<circ> StatusIs) (session_status None (hub_current a (sv_hub srv)) st))"
  shows "session_wait False None st = Some (errors_Join [terminalError (st_output st), convertExit (st_waitErr st)]) \<and>
    (\<exists>out. handle P K D Es envs 0 srv (call_bytes K ''wait'' p []) = (out, [], srv) \<and>
      remote_wait K D name (connected Ec out) =
        (case terminalError (st_output st) of
           Some e \<Rightarrow> Some (over_wire e)
         | None \<Rightarrow> (case convertExit (st_waitErr st) of Some (ExitErr x) \<Rightarrow> Some (ExitErr x) | _ \<Rightarrow> None)))"
proof
  let ?q = "session_status None (hub_current a (sv_hub srv)) st"
  let ?r = "map_sum id (Some \<circ> StatusIs) ?q"
  show "session_wait False None st = Some (errors_Join [terminalError (st_output st), convertExit (st_waitErr st)])"
    using assms(7) by (simp add: session_wait_def)
  have "dispatchRequest P D (envs 0) (request_of ''wait'' p []) [] srv = Some (?r, [], srv)"
    using assms(3,5-9) by (simp add: dispatchRequest_def dispatch_def dispatch_wait_def namedSession_def session_wait_def)
  then obtain out where out: "handle P K D Es envs 0 srv (call_bytes K ''wait'' p []) = (out, [], srv)"
      "answering K D ''wait'' p [] ?r (connected Ec out)"
    using handle_answering [where envs = envs, OF assms(1,4) _ _ assms(10)] unfolding stream_methods_def by force
  have "map_sum id (Some \<circ> StatusIs) (client_wait K D name (connected Ec out)) = remote_view ?r"
    using call_value(1) [OF out(2) refl, of "dec_status D" "Some (Inr p)"] assms(2) by (simp add: client_wait_def)
  then have "client_wait K D name (connected Ec out) = remote_view ?q"
    by (cases ?q; cases "client_wait K D name (connected Ec out)") (simp_all add: remote_view_def)
  then have "remote_wait K D name (connected Ec out) =
      (case terminalError (st_output st) of
         Some e \<Rightarrow> Some (over_wire e)
       | None \<Rightarrow> (case convertExit (st_waitErr st) of Some (ExitErr x) \<Rightarrow> Some (ExitErr x) | _ \<Rightarrow> None))"
    using assms(7)
    by (auto simp: remote_wait_def remote_view_def session_status_def session_alive_def split: option.split go_error.split)
  with out(1) show "\<exists>out. handle P K D Es envs 0 srv (call_bytes K ''wait'' p []) = (out, [], srv) \<and>
      remote_wait K D name (connected Ec out) =
        (case terminalError (st_output st) of
           Some e \<Rightarrow> Some (over_wire e)
         | None \<Rightarrow> (case convertExit (st_waitErr st) of Some (ExitErr x) \<Rightarrow> Some (ExitErr x) | _ \<Rightarrow> None))" by blast
qed

definition demo_ended :: "bytes sessionState" where
  "demo_ended = (demo_state ''s'' 5)\<lparr>st_done := True, st_waitErr := Some (Plain ''wait: no child processes'')\<rparr>"

theorem remote_wait_answer_witness:
  "session_wait False None demo_ended = Some (Some (JoinErr [Plain ''wait: no child processes''])) \<and>
   (\<exists>out. remote_wait (call_codec (request_of ''wait'' ''n'' []) (okResponse ''r'' 0)) demo_params ''s'' (connected demo_end out) = None)"
proof -
  let ?K = "call_codec (request_of ''wait'' ''n'' []) (okResponse ''r'' 0)" and ?srv = "demo_server [demo_ended]"
  have st: "terminalError (st_output demo_ended) = None" "st_waitErr demo_ended = Some (Plain ''wait: no child processes'')"
      "st_done demo_ended" "hub_current 0 (sv_hub ?srv)"
    by (simp_all add: demo_ended_def demo_state_def terminalError_def demo_server_def hub_current_def)
  have "session_status None True demo_ended = Inr \<lparr>Alive = False, Exit = None\<rparr>"
    using st by (simp add: session_status_def session_alive_def convertExit_def)
  then have "result_wire ?K demo_params (map_sum id (Some \<circ> StatusIs) (session_status None (hub_current 0 (sv_hub ?srv)) demo_ended))"
    using st(4) by (simp, intro demo_result_wire) (simp add: demo_params_def)
  moreover have "hub_Get None ''s'' (sv_hub ?srv) = Inr 0" "demo_ended = h_states (sv_hub ?srv) ! 0"
    by (simp_all add: hub_Get_def hub_session_def demo_server_def)
  moreover have "enc_name demo_params ''s'' = Inr ''n''" "dec_name demo_params ''n'' = Inr ''s''" by (simp_all add: demo_params_def)
  ultimately show ?thesis
    using remote_wait_answer [OF demo_working, of demo_params "''s''" "''n''" "request_of ''wait'' ''n'' []" "okResponse ''r'' 0"
        ?srv 0 demo_ended "\<lambda>_. demo_call" demo_platform] demo_call_wire [of "''wait''" "''n''" "okResponse ''r'' 0"] st
    by (auto simp: demo_call_def errors_Join_def convertExit_def List.map_filter_def)
qed

end
