(* ===== verification/Session_Sizes.thy ===== *)
theory Session_Sizes
  imports Remote_Session_Facts
begin

text \<open>
  The type of a session's size: what the hub accepts is a size that fits the two 16-bit fields of a
  terminal, and every request of the protocol keeps it so.
\<close>

definition well_sized :: "'t hub \<Rightarrow> bool" where
  "well_sized h \<longleftrightarrow> valid_size (h_defaultSize h) \<and> (\<forall>st \<in> set (h_states h). valid_size (st_size st))"

lemma New_well_sized: "New dir opts = Inr h \<Longrightarrow> well_sized h"
  by (auto simp: New_def well_sized_def Size_resolve_Inr split: sum.splits)

lemma set_state_well_sized:
  assumes "well_sized (sv_hub srv)" and "a < length (h_states (sv_hub srv)) \<Longrightarrow> valid_size (st_size st)"
  shows "well_sized (sv_hub (set_state a st d srv))"
proof (cases "a < length (h_states (sv_hub srv))")
  case True
  then show ?thesis using assms by (auto simp: set_state_def well_sized_def dest!: subsetD [OF set_update_subset_insert])
qed (use assms(1) in \<open>simp add: set_state_def well_sized_def list_update_beyond\<close>)

lemma startSession_size: "startSession P ctx env name process sz term scrollback d = (Inr st, d') \<Longrightarrow> st_size st = sz"
  by (auto simp: startSession_def Let_def split: option.splits sum.splits prod.splits)

lemma hub_Start_well_sized:
  assumes "hub_Start P ctx mkdirAll env opts h d = (r, h', d')" and "well_sized h"
  shows "well_sized h'"
proof -
  obtain r1 h1 where reserve: "start_reserve ctx opts h = (r1, h1)" by force
  then have h1: "well_sized h1" and valid: "r1 = Inr (sz, scrollback) \<Longrightarrow> valid_size sz" for sz scrollback
    using assms(2) by (auto simp: start_reserve_def well_sized_def Size_resolve_Inr split: option.splits sum.splits if_splits)
  have "well_sized (start_release name h1)" for name using h1 by (simp add: start_release_def well_sized_def)
  moreover have "well_sized (snd (start_publish name st h1))" if "valid_size (st_size st)" for name st
    using h1 that by (auto simp: start_publish_def start_release_def well_sized_def Let_def)
  ultimately show ?thesis
    using assms(1) reserve h1 valid
    by (auto simp: hub_Start_def dest: startSession_size split: sum.splits option.splits prod.splits) (metis snd_conv startSession_size)+
qed

lemma record_chunk_size: "record_chunk P oc now chunk st d = (r, st', d') \<Longrightarrow> st_size st' = st_size st"
  by (auto simp: record_chunk_def split: prod.splits option.splits)

lemma drain_resize_size: "drain_resize_loop P k evs st d = (r, st', d') \<Longrightarrow> st_size st' = st_size st"
proof (induction evs arbitrary: k st d)
  case (Cons ev evs)
  show ?case
  proof (cases "\<exists>chunk. chunk \<noteq> [] \<and> (\<exists>oc now. ev = ReadGot chunk None oc now) \<and> k < resizeDrainBudget")
    case True
    then show ?thesis using Cons by (auto dest!: record_chunk_size split: prod.splits option.splits)
  next
    case False
    then show ?thesis using Cons.prems
      by (cases ev) (auto dest: record_chunk_size split: if_splits prod.splits option.splits)
  qed
qed simp

lemma terminate_size: "terminate r1 r2 st = (e, ks, st') \<Longrightarrow> st_size st' = st_size st"
  by (auto simp: terminate_def state_close_def Let_def split: if_splits)

lemma session_op_sizes:
  "session_resize P ctx cur evs setsize sz st d = (e, st', d') \<Longrightarrow> valid_size (st_size st) \<Longrightarrow> valid_size (st_size st')"
  "session_rotateOutput ctx f st d = (c, st', d') \<Longrightarrow> st_size st' = st_size st"
  "session_pruneOutput ctx fs order before st d = (e, st', d') \<Longrightarrow> st_size st' = st_size st"
  "session_terminate ctx cur r1 r2 st = (e, ks, st') \<Longrightarrow> st_size st' = st_size st"
  "session_delete ctx cur r1 r2 st d = (e, b, ks, st', d') \<Longrightarrow> st_size st' = st_size st"
  by (auto simp: session_resize_def drainResizeOutput_def session_rotateOutput_def session_pruneOutput_def session_terminate_def session_delete_def
      Let_def Size_resolve_Inr dest: drain_resize_size terminate_size split: option.splits sum.splits prod.splits if_splits)

lemma local_op_well_sized:
  assumes "local_op P E a op srv = (r, effs, srv')" and "well_sized (sv_hub srv)"
  shows "well_sized (sv_hub srv')"
proof -
  have old: "a < length (h_states (sv_hub srv)) \<Longrightarrow> valid_size (st_size (h_states (sv_hub srv) ! a))"
    using assms(2) by (simp add: well_sized_def)
  have new: "well_sized (sv_hub (set_state a st d srv))"
    if "valid_size (st_size (h_states (sv_hub srv) ! a)) \<Longrightarrow> valid_size (st_size st)" for st d
    using set_state_well_sized [OF assms(2)] old that by blast
  have "well_sized (hub_remove n h)" if "well_sized h" for n and h :: "'a hub" using that by (simp add: hub_remove_def well_sized_def)
  moreover have "well_sized (sv_hub (set_state a st d srv))"
    if "session_resize P ctx cur evs setsize sz (h_states (sv_hub srv) ! a) d0 = (e, st, d)" for ctx cur evs setsize sz d0 e st d
    using new session_op_sizes(1) [OF that] by blast
  ultimately show ?thesis using assms new
    by (cases op) (auto simp: Let_def dest: session_op_sizes(2-) split: prod.splits if_splits)
qed

lemma dispatch_well_sized:
  assumes "dispatch P D E meth raw payload srv = Some (r, effs, srv')" and "well_sized (sv_hub srv)"
  shows "well_sized (sv_hub srv')"
proof -
  have op: "well_sized (sv_hub srv1)" if "on_session P E found op srv = Some (r1, effs1, srv1)" for found op r1 effs1 srv1
    using that assms(2) local_op_well_sized [of P E] by (cases found) (auto simp: on_session_def)
  have create: "well_sized (sv_hub srv1)" if "dispatch_create P D E raw srv = (r1, effs1, srv1)" for r1 effs1 srv1
    using that assms(2) hub_Start_well_sized [of P "ce_ctx E" "ce_mkdirAll E" "ce_start E"]
    by (auto simp: dispatch_create_def split: sum.splits prod.splits)
  have wait: "srv1 = srv" if "dispatch_wait D E raw srv = Some (r1, effs1, srv1)" for r1 effs1 srv1
    using that by (auto simp: dispatch_wait_def split: sum.splits option.splits)
  show ?thesis
    using assms unfolding dispatch_def Let_def
    by (auto dest: op create wait split: if_splits sum.splits)
qed

text \<open>The requests that a server has answered, each with its environment; \<open>None\<close> is a wait that has not ended.\<close>

fun dispatch_all ::
  "'t platform \<Rightarrow> params_codec \<Rightarrow> ('w call_env \<times> bytes \<times> bytes \<times> bytes) list \<Rightarrow> ('t, 'w) server \<Rightarrow> ('t, 'w) server option" where
  "dispatch_all P D [] srv = Some srv"
| "dispatch_all P D ((E, meth, raw, payload) # reqs) srv =
     (case dispatch P D E meth raw payload srv of None \<Rightarrow> None | Some (_, _, srv') \<Rightarrow> dispatch_all P D reqs srv')"

text \<open>
  C16. Every session has a size that its terminal can represent. Whatever options a hub is made with
  and whatever requests its server then answers, with sizes of any integers in them and any failures
  of system calls, the size of each session has between 1 and 65535 columns and rows, so that the conversion to
  the 16-bit fields of the terminal loses nothing.
\<close>

theorem session_sizes_typed:
  assumes "New dir opts = Inr (sv_hub srv0)" and "dispatch_all P D reqs srv0 = Some srv" and "st \<in> set (h_states (sv_hub srv))"
  shows "valid_size (st_size st) \<and> uint (fst (winsize (st_size st))) = Columns (st_size st) \<and> uint (snd (winsize (st_size st))) = Rows (st_size st)"
proof -
  have "well_sized (sv_hub srv0)" using New_well_sized [OF assms(1)] .
  with assms(2) have "well_sized (sv_hub srv)"
  proof (induction reqs arbitrary: srv0)
    case (Cons req reqs)
    obtain E meth raw payload where req: "req = (E, meth, raw, payload)" by (metis surj_pair)
    then obtain r effs srv1 where "dispatch P D E meth raw payload srv0 = Some (r, effs, srv1)" "dispatch_all P D reqs srv1 = Some srv"
      using Cons.prems(1) by (auto split: option.splits)
    then show ?case using Cons.IH Cons.prems(2) dispatch_well_sized by blast
  qed simp
  then have "valid_size (st_size st)" using assms(3) by (simp add: well_sized_def)
  then show ?thesis using winsize_exact by simp
qed

theorem session_sizes_typed_witness:
  "\<exists>srv st. dispatch_all demo_platform demo_params [(demo_call, ''create'', ''n'', [])] (demo_server []) = Some srv \<and>
     h_states (sv_hub srv) = [st] \<and> valid_size (st_size st) \<and> uint (fst (winsize (st_size st))) = 80"
proof -
  have new: "New [] demo_options = Inr (sv_hub (demo_server []))"
    by (simp add: New_def demo_options_def demo_server_def demo_hub_def Size_resolve_def Size_validate_def
        defaultColumns_def defaultRows_def maxTerminalDimension_def resolveVTScrollbackMaxBytes_def DefaultVTScrollbackMaxBytes_def)
  have "ProcessSpec_validate (Shell ''ls'') = None" by code_simp
  then obtain h d st where "hub_Start demo_platform None None demo_env demo_start_options (sv_hub (demo_server [])) demo_disk = (Inr 0, h, d)"
    and st: "h_states h = [st]" "st_size st = Size 80 24"
    using demo_names(1)
    by (simp add: hub_Start_def start_reserve_def demo_start_options_def demo_server_def demo_hub_def Size_resolve_def
        Size_validate_def maxTerminalDimension_def resolveVTScrollbackMaxBytes_def demo_start start_publish_def
        start_release_def session_Info_def demo_session_def)
  then have run: "dispatch_all demo_platform demo_params [(demo_call, ''create'', ''n'', [])] (demo_server []) =
      Some ((demo_server [])\<lparr>sv_hub := h, sv_disk := d\<rparr>)"
    by (simp add: dispatch_def dispatch_create_def start_options_create demo_params_def demo_call_def) (simp add: demo_server_def)
  from session_sizes_typed [OF new run, of st] run st show ?thesis by auto
qed

end
