(* ===== verification/Serving.thy ===== *)
theory Serving
  imports Hub
begin

text \<open>
  The sockets of the server (\<^verbatim>\<open>server.go\<close>, \<^verbatim>\<open>socketReady\<close> of \<^verbatim>\<open>rpc.go\<close>): binding the public and the
  admin socket, the accept loop with its connection slots, and the ways to stop it. Several
  servers may use the same paths, as in a rolling upgrade, so every system call is a step of
  its own and the steps of the servers and of their goroutines are interleaved.

  A path leads to a socket by its number. \<^verbatim>\<open>Close\<close> of a Unix listener of the Go library first
  unlinks its path, once per listener and whatever the path leads to by then, and then closes
  the descriptor.
\<close>

section \<open>Sockets\<close>

record sockets =
  ns_file :: "bytes \<rightharpoonup> nat"
  ns_live :: "nat set"
  ns_unlinked :: "nat set"
  ns_fresh :: nat

datatype fs_call = RemovePath bytes | UnlinkOnce bytes nat | CloseFd nat

fun run_call :: "fs_call \<Rightarrow> sockets \<Rightarrow> sockets" where
  "run_call (RemovePath p) n = n\<lparr>ns_file := (ns_file n)(p := None)\<rparr>"
| "run_call (UnlinkOnce p i) n =
     (if i \<in> ns_unlinked n then n
      else n\<lparr>ns_file := (ns_file n)(p := None), ns_unlinked := insert i (ns_unlinked n)\<rparr>)"
| "run_call (CloseFd i) n = n\<lparr>ns_live := ns_live n - {i}\<rparr>"

definition close_calls :: "bytes \<Rightarrow> nat option \<Rightarrow> fs_call list" where
  "close_calls p listener = (case listener of None \<Rightarrow> [] | Some i \<Rightarrow> [UnlinkOnce p i, CloseFd i])"

definition socketReady :: "go_error option \<Rightarrow> bytes \<Rightarrow> sockets \<Rightarrow> bool" where
  "socketReady dial p n \<longleftrightarrow> dial = None \<and> (case ns_file n p of None \<Rightarrow> False | Some i \<Rightarrow> i \<in> ns_live n)"

section \<open>A server\<close>

datatype role = Public | AdminSocket

text \<open>The next system call of \<^verbatim>\<open>Serve\<close>; \<open>Leaving\<close> holds the deferred calls and the result.\<close>

datatype phase =
    MkdirAll | Lstat role | Probe role | Unlink role | Listen role | Chmod role nat
  | Accepting | Leaving "fs_call list" "go_error option" | Returned "go_error option"

text \<open>
  The connections: how many places of the channel \<^verbatim>\<open>slots\<close> are taken, the goroutines that the
  accept loop has started, whether \<^verbatim>\<open>adminLoop\<close> runs, and the goroutines it has in
  \<^verbatim>\<open>handleAdmin\<close>. A goroutine of the accept loop is started, is in \<^verbatim>\<open>s.handle\<close>, is past it and
  runs its deferred receive from \<^verbatim>\<open>slots\<close>, and is over.
\<close>

datatype handler = Started | Handling | Releasing | Over

record connections =
  cn_slots :: nat
  cn_handlers :: "handler list"
  cn_adminLoop :: bool
  cn_admins :: nat

record serving =
  se_path :: bytes
  se_max :: nat
  se_phase :: phase
  se_listener :: "nat option"
  se_admin :: "nat option"
  se_stopping :: bool
  se_cancelled :: bool
  se_watching :: bool
  se_tasks :: "fs_call list list"
  se_conns :: connections

definition serving_new :: "bytes \<Rightarrow> nat \<Rightarrow> serving" where
  "serving_new path limit =
     \<lparr>se_path = path, se_max = limit, se_phase = MkdirAll, se_listener = None, se_admin = None, se_stopping = False,
      se_cancelled = False, se_watching = False, se_tasks = [],
      se_conns = \<lparr>cn_slots = 0, cn_handlers = [], cn_adminLoop = False, cn_admins = 0\<rparr>\<rparr>"

definition DefaultServerMaxClientConnections :: int where
  "DefaultServerMaxClientConnections = 1024"

definition NewServer :: "bytes \<Rightarrow> options \<Rightarrow> int \<Rightarrow> go_error + 't hub \<times> int" where
  "NewServer defaultOutputDirectory opts maxClients =
     (if maxClients < 0 then Inl (Plain ''ghostline: negative server max client connections'')
      else (case New defaultOutputDirectory opts of
          Inl e \<Rightarrow> Inl e
        | Inr h \<Rightarrow> Inr (h, if maxClients = 0 then DefaultServerMaxClientConnections else maxClients)))"

text \<open>
  \<^verbatim>\<open>Shutdown\<close> after its call of \<^verbatim>\<open>Close\<close>: the hub is closed by a goroutine, which goes on when the
  context (\<open>ctx\<close>) ends first.
\<close>

definition Shutdown :: "go_error option \<Rightarrow> (nat \<Rightarrow> bool \<times> bool) \<Rightarrow> nat list \<Rightarrow> 't hub \<Rightarrow> go_error option \<times> 't hub" where
  "Shutdown ctx reap order h =
     (case hub_Close reap order h of (err, h') \<Rightarrow> (case ctx of Some e \<Rightarrow> Some e | None \<Rightarrow> err, h'))"

definition role_path :: "serving \<Rightarrow> role \<Rightarrow> bytes" where
  "role_path s r = (case r of Public \<Rightarrow> se_path s | AdminSocket \<Rightarrow> se_path s @ ''.admin'')"

definition role_socket :: "serving \<Rightarrow> role \<Rightarrow> nat option" where
  "role_socket s r = (case r of Public \<Rightarrow> se_listener s | AdminSocket \<Rightarrow> se_admin s)"

text \<open>The deferred calls of \<^verbatim>\<open>Serve\<close>, in the order in which they run.\<close>

definition deferred :: "serving \<Rightarrow> fs_call list" where
  "deferred s =
     concat (map (\<lambda>r. if role_socket s r = None then []
                      else RemovePath (role_path s r) # close_calls (role_path s r) (role_socket s r)) [AdminSocket, Public])"

definition leave :: "go_error option \<Rightarrow> serving \<Rightarrow> serving" where
  "leave err s = s\<lparr>se_phase := Leaving (deferred s) err\<rparr>"

definition listen_failed :: "role \<Rightarrow> go_error \<Rightarrow> serving \<Rightarrow> serving" where
  "listen_failed r e = leave (Some (Wrap (case r of Public \<Rightarrow> ''listen: '' | AdminSocket \<Rightarrow> ''listen admin: '') e []))"

text \<open>
  The next step of \<^verbatim>\<open>Serve\<close> on a system call that fails with \<open>f\<close>, if it can take one: it is blocked
  in \<^verbatim>\<open>Accept\<close> until the listener is closed or fails. \<open>Lstat\<close> to \<open>Listen\<close> are \<^verbatim>\<open>listenUnix\<close>.
\<close>

definition serve_step :: "go_error option \<Rightarrow> serving \<Rightarrow> sockets \<Rightarrow> (serving \<times> sockets) option" where
  "serve_step f s n =
     (case se_phase s of
        MkdirAll \<Rightarrow>
          Some (case f of Some e \<Rightarrow> leave (Some (Wrap ''create socket dir: '' e [])) s | None \<Rightarrow> s\<lparr>se_phase := Lstat Public\<rparr>, n)
      | Lstat r \<Rightarrow>
          Some (case f of
              Some e \<Rightarrow> if errors_Is e ErrNotExist then s\<lparr>se_phase := Listen r\<rparr> else listen_failed r e s
            | None \<Rightarrow> s\<lparr>se_phase := if ns_file n (role_path s r) = None then Listen r else Probe r\<rparr>, n)
      | Probe r \<Rightarrow>
          Some (if socketReady f (role_path s r) n
                then listen_failed r (Plain (''socket already in use: '' @ role_path s r)) s
                else s\<lparr>se_phase := Unlink r\<rparr>, n)
      | Unlink r \<Rightarrow>
          Some (s\<lparr>se_phase := Listen r\<rparr>, if f = None then run_call (RemovePath (role_path s r)) n else n)
      | Listen r \<Rightarrow>
          Some (case f of Some e \<Rightarrow> (listen_failed r e s, n)
            | None \<Rightarrow>
                if ns_file n (role_path s r) \<noteq> None then
                  (listen_failed r (NetOp (''listen unix '' @ role_path s r) (Plain ''bind: address already in use'')) s, n)
                else
                  (s\<lparr>se_phase := Chmod r (ns_fresh n)\<rparr>,
                   n\<lparr>ns_file := (ns_file n)(role_path s r \<mapsto> ns_fresh n), ns_live := insert (ns_fresh n) (ns_live n),
                     ns_fresh := Suc (ns_fresh n)\<rparr>))
      | Chmod r i \<Rightarrow>
          Some (case f of
              Some e \<Rightarrow>
                s\<lparr>se_phase := Leaving (close_calls (role_path s r) (Some i) @ RemovePath (role_path s r) # deferred s)
                   (Some (Wrap (case r of Public \<Rightarrow> ''chmod socket: '' | AdminSocket \<Rightarrow> ''chmod admin socket: '') e []))\<rparr>
            | None \<Rightarrow>
                (case r of
                   Public \<Rightarrow> s\<lparr>se_listener := Some i, se_phase := Lstat AdminSocket\<rparr>
                 | AdminSocket \<Rightarrow>
                     s\<lparr>se_conns := (se_conns s)\<lparr>cn_adminLoop := True\<rparr>, se_admin := Some i, se_watching := True,
                       se_phase := Accepting\<rparr>), n)
      | Accepting \<Rightarrow>
          (if f = None \<and> (\<exists>i \<in> ns_live n. se_listener s = Some i) then None
           else
             Some (leave (if se_cancelled s \<or> se_stopping s then None
                          else Some (case f of Some e \<Rightarrow> e
                            | None \<Rightarrow> NetOp (''accept unix '' @ se_path s) (Plain ''use of closed network connection''))) s, n))
      | Leaving [] err \<Rightarrow> Some (s\<lparr>se_phase := Returned err\<rparr>, n)
      | Leaving (c # cs) err \<Rightarrow> Some (s\<lparr>se_phase := Leaving cs err\<rparr>, run_call c n)
      | Returned _ \<Rightarrow> None)"

section \<open>The goroutines of a server\<close>

text \<open>
  \<open>Connect\<close> is a client that the accept loop takes: it gets a place in \<^verbatim>\<open>slots\<close> and a goroutine, or
  is closed. A goroutine begins to handle its connection, ends that, and receives from \<^verbatim>\<open>slots\<close>.
\<close>

fun conn_step :: "handler \<Rightarrow> nat \<Rightarrow> connections \<Rightarrow> connections option" where
  "conn_step Started k c = Some (c\<lparr>cn_handlers := (cn_handlers c)[k := Handling]\<rparr>)"
| "conn_step Handling k c = Some (c\<lparr>cn_handlers := (cn_handlers c)[k := Releasing]\<rparr>)"
| "conn_step Releasing k c =
     (if 0 < cn_slots c
      then Some (c\<lparr>cn_slots := cn_slots c - 1, cn_handlers := (cn_handlers c)[k := Over]\<rparr>) else None)"
| "conn_step Over k c = None"

definition take_connection :: "nat \<Rightarrow> connections \<Rightarrow> connections" where
  "take_connection limit c =
     (if cn_slots c < limit
      then c\<lparr>cn_slots := Suc (cn_slots c), cn_handlers := cn_handlers c @ [Started]\<rparr> else c)"

text \<open>
  \<open>Goroutine k\<close> is the next step of the \<open>k\<close>-th goroutine of the accept loop. \<open>AdminConnect\<close>,
  \<open>AdminHandled\<close> and \<open>AdminFails\<close> are a connection that \<^verbatim>\<open>adminLoop\<close> takes, without a limit, the end
  of its handler, and an \<^verbatim>\<open>Accept\<close> of \<^verbatim>\<open>adminLoop\<close> that fails, which ends it. \<open>Cancel\<close> is the
  end of the context of \<^verbatim>\<open>Serve\<close> and \<open>Watcher\<close> its goroutine waking up on it; \<open>CloseServer\<close> and
  \<open>RequestExit\<close> are the calls of \<^verbatim>\<open>Close\<close> and \<^verbatim>\<open>requestExit\<close>, whose system calls are then the steps
  \<open>Task\<close>.
\<close>

datatype event = Sys "go_error option" | Connect | Goroutine nat | AdminConnect | AdminHandled | AdminFails | Cancel | Watcher | CloseServer | RequestExit | Task nat

definition close_both :: "serving \<Rightarrow> fs_call list" where
  "close_both s = close_calls (role_path s Public) (se_listener s) @ close_calls (role_path s AdminSocket) (se_admin s)"

fun serve_event :: "event \<Rightarrow> serving \<Rightarrow> sockets \<Rightarrow> (serving \<times> sockets) option" where
  "serve_event (Sys f) s n = serve_step f s n"
| "serve_event Connect s n =
     (if se_phase s = Accepting \<and> (\<exists>i \<in> ns_live n. se_listener s = Some i)
      then Some (s\<lparr>se_conns := take_connection (se_max s) (se_conns s)\<rparr>, n) else None)"
| "serve_event (Goroutine k) s n =
     (if k < length (cn_handlers (se_conns s))
      then map_option (\<lambda>c. (s\<lparr>se_conns := c\<rparr>, n)) (conn_step (cn_handlers (se_conns s) ! k) k (se_conns s)) else None)"
| "serve_event AdminConnect s n =
     (if cn_adminLoop (se_conns s) \<and> (\<exists>i \<in> ns_live n. se_admin s = Some i)
      then Some (s\<lparr>se_conns := (se_conns s)\<lparr>cn_admins := Suc (cn_admins (se_conns s))\<rparr>\<rparr>, n) else None)"
| "serve_event AdminHandled s n =
     (if 0 < cn_admins (se_conns s)
      then Some (s\<lparr>se_conns := (se_conns s)\<lparr>cn_admins := cn_admins (se_conns s) - 1\<rparr>\<rparr>, n) else None)"
| "serve_event AdminFails s n =
     (if cn_adminLoop (se_conns s) then Some (s\<lparr>se_conns := (se_conns s)\<lparr>cn_adminLoop := False\<rparr>\<rparr>, n) else None)"
| "serve_event Cancel s n = Some (s\<lparr>se_cancelled := True\<rparr>, n)"
| "serve_event Watcher s n =
     (if se_watching s \<and> se_cancelled s
      then Some (s\<lparr>se_watching := False, se_tasks := se_tasks s @ [close_both s]\<rparr>, n) else None)"
| "serve_event CloseServer s n =
     Some (s\<lparr>se_tasks := se_tasks s @ [close_calls (role_path s Public) (se_listener s)]\<rparr>, n)"
| "serve_event RequestExit s n = Some (s\<lparr>se_stopping := True, se_tasks := se_tasks s @ [close_both s]\<rparr>, n)"
| "serve_event (Task k) s n =
     (if k < length (se_tasks s)
      then (case se_tasks s ! k of [] \<Rightarrow> None
        | c # cs \<Rightarrow> Some (s\<lparr>se_tasks := (se_tasks s)[k := cs]\<rparr>, run_call c n)) else None)"

section \<open>Several servers\<close>

type_synonym world = "serving list \<times> sockets"

definition world_event :: "nat \<Rightarrow> event \<Rightarrow> world \<Rightarrow> world option" where
  "world_event k ev w =
     (if k < length (fst w)
      then map_option (\<lambda>(s, n). ((fst w)[k := s], n)) (serve_event ev (fst w ! k) (snd w)) else None)"

fun world_run :: "(nat \<times> event) list \<Rightarrow> world \<Rightarrow> world option" where
  "world_run [] w = Some w"
| "world_run ((k, ev) # evs) w = (case world_event k ev w of None \<Rightarrow> None | Some w' \<Rightarrow> world_run evs w')"

end
