(* ===== verification/Serving_Facts.thy ===== *)
theory Serving_Facts
  imports Serving
begin

text \<open>
  The sockets of several servers under any interleaving: the limit on connections, the release
  of every socket, and the reachability of a server whose predecessor on the path has returned;
  and what happens to a server that binds the path before its predecessor has returned.
\<close>

section \<open>Executions\<close>

text \<open>States reachable from the start of servers, all of which satisfy \<open>I\<close>.\<close>

inductive served :: "(world \<Rightarrow> bool) \<Rightarrow> world \<Rightarrow> world \<Rightarrow> bool" for I w0 where
  here: "I w0 \<Longrightarrow> served I w0 w0"
| step: "served I w0 w \<Longrightarrow> world_event k ev w = Some w' \<Longrightarrow> I w' \<Longrightarrow> served I w0 w'"

lemma world_eventE:
  assumes "world_event k ev (ss, n) = Some (ss', n')"
  obtains s s' where "k < length ss" "s = ss ! k" "serve_event ev s n = Some (s', n')" "ss' = ss[k := s']"
  using assms by (auto simp: world_event_def split: if_splits)

definition fresh_world :: "world \<Rightarrow> bool" where
  "fresh_world w \<longleftrightarrow>
     list_all (\<lambda>s. \<exists>path limit. s = serving_new path limit) (fst w) \<and>
     (\<forall>i \<in> ns_live (snd w) \<union> ns_unlinked (snd w). i < ns_fresh (snd w))"

text \<open>Rules for one event of one server: the phases of \<^verbatim>\<open>Serve\<close>, and the other goroutines.\<close>

lemmas serve_simps = serve_step_def leave_def listen_failed_def

text \<open>A property of a server that its events keep holds of every server of a world.\<close>

lemma served_all:
  assumes "served I w0 w" and "\<And>s. s \<in> set (fst w0) \<Longrightarrow> P s" and "s \<in> set (fst w)"
    and "\<And>ev s n s' n'. serve_event ev s n = Some (s', n') \<Longrightarrow> P s \<Longrightarrow> P s'"
  shows "P s"
  using assms(1,3)
proof (induction arbitrary: s)
  case here
  then show ?case by (simp add: assms(2))
next
  case (step w j ev w')
  then obtain ss n ss' n' where w: "w = (ss, n)" "w' = (ss', n')" by (metis surj_pair)
  with step obtain s' where s': "j < length ss" "serve_event ev (ss ! j) n = Some (s', n')" "ss' = ss[j := s']"
    by (auto elim: world_eventE)
  then have "s \<in> insert s' (set ss)" using step.prems w by (auto dest: subsetD [OF set_update_subset_insert])
  moreover have "P (ss ! j)" using step.IH s'(1) w by simp
  ultimately show ?case using step.IH assms(4) [OF s'(2)] w by auto
qed

section \<open>Connection slots\<close>

text \<open>A place in \<^verbatim>\<open>slots\<close> is taken for every goroutine from before its start until it is over.\<close>

definition busy :: "connections \<Rightarrow> nat" where
  "busy c = length (filter (\<lambda>h. h \<noteq> Over) (cn_handlers c))"

definition slots_inv :: "serving \<Rightarrow> bool" where
  "slots_inv s \<longleftrightarrow> cn_slots (se_conns s) = busy (se_conns s) \<and> cn_slots (se_conns s) \<le> se_max s"

lemma filter_replaced:
  assumes "k < length hs"
  shows "length (filter P (hs[k := h])) + (if P (hs ! k) then 1 else 0) = length (filter P hs) + (if P h then 1 else 0)"
  using assms
proof (induction hs arbitrary: k)
  case (Cons a hs)
  then show ?case by (cases k) auto
qed simp

lemma conn_step_busy:
  assumes "conn_step (cn_handlers c ! k) k c = Some c'" and "k < length (cn_handlers c)" and "cn_slots c = busy c"
  shows "cn_slots c' = busy c' \<and> cn_slots c' \<le> cn_slots c"
  using assms filter_replaced [OF assms(2), of "\<lambda>h. h \<noteq> Over" Handling]
    filter_replaced [OF assms(2), of "\<lambda>h. h \<noteq> Over" Releasing] filter_replaced [OF assms(2), of "\<lambda>h. h \<noteq> Over" Over]
  by (cases "cn_handlers c ! k") (auto simp: busy_def split: if_splits)

lemma serve_event_slots:
  assumes "serve_event ev s n = Some (s', n')" and "slots_inv s"
  shows "slots_inv s'"
proof (cases "\<exists>k. ev = Goroutine k")
  case True
  then obtain k c where "k < length (cn_handlers (se_conns s))" "conn_step (cn_handlers (se_conns s) ! k) k (se_conns s) = Some c"
      "s' = s\<lparr>se_conns := c\<rparr>"
    using assms(1) by (auto split: if_splits)
  then show ?thesis using assms(2) conn_step_busy [of "se_conns s" k c] by (auto simp: slots_inv_def)
next
  case False
  show ?thesis
  proof (cases "ev = Connect")
    case True
    then show ?thesis using assms by (auto simp: slots_inv_def busy_def take_connection_def split: if_splits)
  next
    case other: False
    have "cn_slots (se_conns s') = cn_slots (se_conns s) \<and> busy (se_conns s') = busy (se_conns s) \<and> se_max s' = se_max s"
      using assms(1) False other
      by (cases ev) (auto simp: serve_simps busy_def split: if_splits phase.splits option.splits list.splits role.splits)
    then show ?thesis using assms(2) by (simp add: slots_inv_def)
  qed
qed

text \<open>
  C38. A server never has more goroutines in \<^verbatim>\<open>s.handle\<close> at a time than its limit, whatever servers
  run beside it and however connections, the steps of the goroutines and the calls that stop a
  server are interleaved. The limit is on the public socket; the connections of the admin
  socket are not counted and not limited.
\<close>

theorem slots_bounded:
  assumes "served I w0 w" and "fresh_world w0" and "k < length (fst w)"
  shows "length (filter (\<lambda>h. h = Handling) (cn_handlers (se_conns (fst w ! k)))) \<le> se_max (fst w ! k)"
proof -
  have "slots_inv s" if "s \<in> set (fst w0)" for s
    using assms(2) that by (auto simp: fresh_world_def serving_new_def list_all_iff slots_inv_def busy_def)
  then have inv: "slots_inv (fst w ! k)"
    using served_all [OF assms(1), of slots_inv] serve_event_slots assms(3) by (meson nth_mem)
  have "length (filter (\<lambda>h. h = Handling) hs) \<le> length (filter (\<lambda>h. h \<noteq> Over) hs)" for hs
    by (induction hs) auto
  with inv show ?thesis by (metis slots_inv_def busy_def order_trans)
qed

section \<open>Release of the sockets\<close>

lemma deferred_closes: "CloseFd i \<in> set (deferred s) \<longleftrightarrow> se_listener s = Some i \<or> se_admin s = Some i"
  by (auto simp: deferred_def role_socket_def close_calls_def split: option.splits)

text \<open>The sockets a server still has to close: those in its variables, or in its deferred calls.\<close>

definition holds :: "serving \<Rightarrow> nat set" where
  "holds s = (case se_phase s of
       Leaving cs _ \<Rightarrow> {i. CloseFd i \<in> set cs}
     | Returned _ \<Rightarrow> {}
     | Chmod _ i \<Rightarrow> insert i (set_option (se_listener s) \<union> set_option (se_admin s))
     | _ \<Rightarrow> set_option (se_listener s) \<union> set_option (se_admin s))"

lemma holds_frame [simp]:
  "holds (s\<lparr>se_conns := x\<rparr>) = holds s" "holds (s\<lparr>se_cancelled := b\<rparr>) = holds s" "holds (s\<lparr>se_stopping := b\<rparr>) = holds s"
  "holds (s\<lparr>se_watching := b\<rparr>) = holds s" "holds (s\<lparr>se_tasks := ts\<rparr>) = holds s"
  by (cases "se_phase s"; simp add: holds_def)+

text \<open>A socket enters its variable once it is bound and its mode is set, the public one first.\<close>

definition staged :: "serving \<Rightarrow> bool" where
  "staged s \<longleftrightarrow> (case se_phase s of
       MkdirAll \<Rightarrow> se_listener s = None \<and> se_admin s = None
     | Lstat r \<Rightarrow> role_socket s r = None \<and> se_admin s = None
     | Probe r \<Rightarrow> role_socket s r = None \<and> se_admin s = None
     | Unlink r \<Rightarrow> role_socket s r = None \<and> se_admin s = None
     | Listen r \<Rightarrow> role_socket s r = None \<and> se_admin s = None
     | Chmod r _ \<Rightarrow> role_socket s r = None \<and> se_admin s = None
     | _ \<Rightarrow> True)"

lemma staged_frame [simp]:
  "staged (s\<lparr>se_conns := x\<rparr>) = staged s" "staged (s\<lparr>se_cancelled := b\<rparr>) = staged s" "staged (s\<lparr>se_stopping := b\<rparr>) = staged s"
  "staged (s\<lparr>se_watching := b\<rparr>) = staged s" "staged (s\<lparr>se_tasks := ts\<rparr>) = staged s"
  by (cases "se_phase s"; simp add: staged_def role_socket_def cong: role.case_cong)+

lemma serve_step_staged:
  assumes "serve_step f s n = Some (s', n')" and "staged s"
  shows "staged s'"
  using assms
  by (cases "se_phase s") (auto simp: serve_simps staged_def role_socket_def split: option.splits if_splits role.splits list.splits)

lemma serve_event_staged:
  assumes "serve_event ev s n = Some (s', n')" and "staged s"
  shows "staged s'"
proof (cases ev)
  case (Sys f)
  then show ?thesis using assms serve_step_staged by simp
qed (use assms in \<open>auto split: if_splits list.splits\<close>)

lemma served_staged:
  assumes "served I w0 w" and "fresh_world w0" and "k < length (fst w)"
  shows "staged (fst w ! k)"
proof -
  have "staged s" if "s \<in> set (fst w0)" for s
    using assms(2) that by (auto simp: fresh_world_def serving_new_def list_all_iff staged_def)
  then show ?thesis using served_all [OF assms(1), of staged] serve_event_staged assms(3) by (meson nth_mem)
qed

lemma run_call_live: "ns_live (run_call c n) = ns_live n - {i. c = CloseFd i}"
  by (cases c) auto

lemma serve_step_live:
  assumes "serve_step f s n = Some (s', n')" and "staged s"
  shows "ns_live n' - holds s' \<subseteq> ns_live n - holds s"
proof (cases "se_phase s")
  case (Leaving cs err)
  then show ?thesis using assms by (cases cs) (auto simp: serve_step_def holds_def run_call_live)
qed (use assms in \<open>auto simp: serve_simps holds_def deferred_closes close_calls_def staged_def role_socket_def split: option.splits if_splits role.splits\<close>)

lemma serve_event_live:
  assumes "serve_event ev s n = Some (s', n')" and "staged s"
  shows "ns_live n' - holds s' \<subseteq> ns_live n - holds s"
proof (cases ev)
  case (Sys f)
  then show ?thesis using assms serve_step_live by simp
next
  case (Task k)
  then show ?thesis using assms by (auto simp: run_call_live split: if_splits list.splits)
qed (use assms in \<open>auto split: if_splits\<close>)

text \<open>
  C22. No socket outlives the server that bound it: under any interleaving of servers, their
  goroutines and failures of system calls, a socket that listens and did not at the start is held
  by a server, in its variables or in the calls it has deferred; a server whose \<^verbatim>\<open>Serve\<close> has
  returned holds none.
\<close>

theorem serve_releases:
  assumes "served I w0 w" and "fresh_world w0" and "i \<in> ns_live (snd w)" and "i \<notin> ns_live (snd w0)"
  shows "\<exists>s \<in> set (fst w). i \<in> holds s"
proof -
  have "ns_live (snd w) \<subseteq> ns_live (snd w0) \<union> (\<Union>s \<in> set (fst w). holds s)"
    using assms(1)
  proof induction
    case (step w j ev w')
    then obtain ss n ss' n' where w: "w = (ss, n)" "w' = (ss', n')" by (metis surj_pair)
    with step obtain s' where s': "j < length ss" "serve_event ev (ss ! j) n = Some (s', n')" "ss' = ss[j := s']"
      by (auto elim: world_eventE)
    then have "staged (ss ! j)" using served_staged [OF step.hyps(1) assms(2)] w by simp
    note live = serve_event_live [OF s'(2) this]
    from s' have new: "s' \<in> set ss'" by (simp add: set_update_memI)
    have other: "s \<in> set ss \<Longrightarrow> s \<noteq> ss ! j \<Longrightarrow> s \<in> set ss'" for s
      using s'(3) by (metis in_set_conv_nth length_list_update nth_list_update_neq)
    show ?case
    proof
      fix i
      assume i: "i \<in> ns_live (snd w')"
      show "i \<in> ns_live (snd w0) \<union> (\<Union>s \<in> set (fst w'). holds s)"
      proof (cases "i \<in> holds s'")
        case True
        then show ?thesis using new w by auto
      next
        case False
        then have "i \<in> ns_live n" "i \<notin> holds (ss ! j)" using live i w by auto
        then show ?thesis using step.IH other w by fastforce
      qed
    qed
  qed simp
  with assms(3,4) show ?thesis by blast
qed

section \<open>Reachability of a server\<close>

definition paths :: "serving \<Rightarrow> bytes set" where
  "paths s = {role_path s Public, role_path s AdminSocket}"

definition active :: "serving \<Rightarrow> bool" where
  "active s \<longleftrightarrow> (case se_phase s of MkdirAll \<Rightarrow> False | Returned _ \<Rightarrow> False | _ \<Rightarrow> True)"

text \<open>At no time do two servers with a path in common run \<^verbatim>\<open>Serve\<close>.\<close>

definition serial :: "world \<Rightarrow> bool" where
  "serial w \<longleftrightarrow> (\<forall>j < length (fst w). \<forall>k < length (fst w). j \<noteq> k \<longrightarrow>
     paths (fst w ! j) \<inter> paths (fst w ! k) \<noteq> {} \<longrightarrow> \<not> (active (fst w ! j) \<and> active (fst w ! k)))"

text \<open>In a list of calls every descriptor is closed after its path was unlinked.\<close>

fun closes :: "nat set \<Rightarrow> fs_call list \<Rightarrow> bool" where
  "closes U [] \<longleftrightarrow> True"
| "closes U (RemovePath p # cs) \<longleftrightarrow> closes U cs"
| "closes U (UnlinkOnce p i # cs) \<longleftrightarrow> closes (insert i U) cs"
| "closes U (CloseFd i # cs) \<longleftrightarrow> i \<in> U \<and> closes U cs"

fun call_path :: "fs_call \<Rightarrow> bytes set" where
  "call_path (RemovePath p) = {p}" | "call_path (UnlinkOnce p i) = {p}" | "call_path (CloseFd i) = {}"

fun call_id :: "fs_call \<Rightarrow> nat set" where
  "call_id (RemovePath p) = {}" | "call_id (UnlinkOnce p i) = {i}" | "call_id (CloseFd i) = {i}"

definition named :: "serving \<Rightarrow> bytes \<Rightarrow> nat \<Rightarrow> bool" where
  "named s p i \<longleftrightarrow> (\<exists>r. role_socket s r = Some i \<and> p = role_path s r)"

definition ids :: "serving \<Rightarrow> nat set" where
  "ids s = {i. \<exists>p. named s p i} \<union>
     (case se_phase s of Chmod _ i \<Rightarrow> {i} | Leaving cs _ \<Rightarrow> \<Union> (call_id ` set cs) | _ \<Rightarrow> {})"

definition task_call :: "serving \<Rightarrow> fs_call \<Rightarrow> bool" where
  "task_call s c \<longleftrightarrow> (\<exists>p i. named s p i \<and> (c = UnlinkOnce p i \<or> c = CloseFd i))"

lemma closes_mono: "closes U cs \<Longrightarrow> U \<subseteq> V \<Longrightarrow> closes V cs"
proof (induction U cs arbitrary: V rule: closes.induct)
  case (3 U p i cs)
  then show ?case using "3.IH" [of "insert i V"] by auto
qed auto

lemma closes_append: "closes U cs \<Longrightarrow> closes U ds \<Longrightarrow> closes U (cs @ ds)"
  by (induction U cs rule: closes.induct) (auto intro: closes_mono)

lemma closes_close_calls [simp]: "closes U (close_calls p i)"
  by (simp add: close_calls_def split: option.splits)

lemma closes_deferred [simp]: "closes U (deferred s)"
  by (simp add: deferred_def closes_append)

lemma closes_both [simp]: "closes U (close_both s)"
  by (simp add: close_both_def closes_append)

lemma run_call_closes: "closes (ns_unlinked n) (c # cs) \<Longrightarrow> closes (ns_unlinked (run_call c n)) cs"
  by (cases c) (auto intro: closes_mono)

lemma run_call_frame:
  "p \<notin> call_path c \<Longrightarrow> ns_file (run_call c n) p = ns_file n p"
  "i \<notin> call_id c \<Longrightarrow> i \<in> ns_live (run_call c n) \<longleftrightarrow> i \<in> ns_live n"
  "i \<notin> call_id c \<Longrightarrow> i \<in> ns_unlinked (run_call c n) \<longleftrightarrow> i \<in> ns_unlinked n"
  "ns_unlinked n \<subseteq> ns_unlinked (run_call c n)" "ns_fresh (run_call c n) = ns_fresh n"
  by (cases c; auto)+

lemma named_frame [simp]:
  "named (s\<lparr>se_conns := x\<rparr>) = named s" "named (s\<lparr>se_cancelled := b\<rparr>) = named s" "named (s\<lparr>se_stopping := b\<rparr>) = named s"
  "named (s\<lparr>se_watching := b\<rparr>) = named s" "named (s\<lparr>se_tasks := ts\<rparr>) = named s" "named (s\<lparr>se_phase := ph\<rparr>) = named s"
  by (auto simp: named_def fun_eq_iff role_socket_def role_path_def cong: role.case_cong)

lemma ex_role: "(\<exists>r. P r) \<longleftrightarrow> P Public \<or> P AdminSocket"
  by (metis role.exhaust)

lemma named_cases: "named s p i \<longleftrightarrow> se_listener s = Some i \<and> p = role_path s Public \<or> se_admin s = Some i \<and> p = role_path s AdminSocket"
  by (auto simp: named_def ex_role role_socket_def)

lemma ids_alt: "ids s = set_option (se_listener s) \<union> set_option (se_admin s) \<union>
     (case se_phase s of Chmod _ i \<Rightarrow> {i} | Leaving cs _ \<Rightarrow> \<Union> (call_id ` set cs) | _ \<Rightarrow> {})"
proof -
  have "{i. \<exists>p. named s p i} = set_option (se_listener s) \<union> set_option (se_admin s)" by (auto simp: named_cases)
  then show ?thesis by (simp add: ids_def)
qed

lemma ids_frame [simp]:
  "ids (s\<lparr>se_conns := x\<rparr>) = ids s" "ids (s\<lparr>se_cancelled := b\<rparr>) = ids s" "ids (s\<lparr>se_stopping := b\<rparr>) = ids s"
  "ids (s\<lparr>se_watching := b\<rparr>) = ids s" "ids (s\<lparr>se_tasks := ts\<rparr>) = ids s"
  by (cases "se_phase s"; simp add: ids_def)+

lemma role_path_frame [simp]:
  "role_path (s\<lparr>se_conns := x\<rparr>) r = role_path s r" "role_path (s\<lparr>se_cancelled := b\<rparr>) r = role_path s r" "role_path (s\<lparr>se_stopping := b\<rparr>) r = role_path s r"
  "role_path (s\<lparr>se_watching := b\<rparr>) r = role_path s r" "role_path (s\<lparr>se_tasks := ts\<rparr>) r = role_path s r" "role_path (s\<lparr>se_phase := ph\<rparr>) r = role_path s r"
  "role_path (s\<lparr>se_listener := l\<rparr>) r = role_path s r" "role_path (s\<lparr>se_admin := l\<rparr>) r = role_path s r"
  by (cases r; simp add: role_path_def)+

lemma paths_role [simp]: "role_path s r \<in> paths s"
  by (cases r) (simp_all add: paths_def)

lemma deferred_calls:
  "c \<in> set (deferred s) \<Longrightarrow> call_path c \<subseteq> paths s"
  "c \<in> set (deferred s) \<Longrightarrow> i \<in> call_id c \<Longrightarrow> \<exists>p. named s p i"
  "named s p i \<Longrightarrow> UnlinkOnce p i \<in> set (deferred s)"
  by (auto simp: deferred_def role_socket_def close_calls_def named_cases split: option.splits if_splits)

text \<open>
  What one server relies on: its calls unlink before they close and touch only its own sockets,
  and its sockets are open until a call unlinks them.
\<close>

definition orderly :: "serving \<Rightarrow> sockets \<Rightarrow> bool" where
  "orderly s n \<longleftrightarrow> staged s \<and>
     (\<forall>cs \<in> set (se_tasks s). closes (ns_unlinked n) cs \<and> (\<forall>c \<in> set cs. task_call s c)) \<and>
     (case se_phase s of
        Leaving cs _ \<Rightarrow> closes (ns_unlinked n) cs \<and> (\<forall>c \<in> set cs. call_path c \<subseteq> paths s) \<and>
          (\<forall>p i. named s p i \<longrightarrow> i \<in> ns_unlinked n \<or> UnlinkOnce p i \<in> set cs)
      | Returned _ \<Rightarrow> (\<forall>p i. named s p i \<longrightarrow> i \<in> ns_unlinked n)
      | _ \<Rightarrow> (\<forall>i \<in> ids s. i \<in> ns_unlinked n \<or> i \<in> ns_live n))"

definition touches :: "serving \<Rightarrow> serving \<Rightarrow> sockets \<Rightarrow> sockets \<Rightarrow> bool" where
  "touches s s' n n' \<longleftrightarrow>
     (\<forall>p. p \<notin> paths s \<longrightarrow> ns_file n' p = ns_file n p) \<and>
     (\<forall>i < ns_fresh n. i \<notin> ids s \<longrightarrow> (i \<in> ns_live n' \<longleftrightarrow> i \<in> ns_live n) \<and> (i \<in> ns_unlinked n' \<longleftrightarrow> i \<in> ns_unlinked n)) \<and>
     ns_unlinked n \<subseteq> ns_unlinked n' \<and> ns_fresh n \<le> ns_fresh n' \<and> ids s' \<subseteq> ids s \<union> {ns_fresh n..<ns_fresh n'} \<and>
     paths s' = paths s"

lemma touches_same: "ids s' \<subseteq> ids s \<Longrightarrow> paths s' = paths s \<Longrightarrow> touches s s' n n"
  by (auto simp: touches_def)

lemma touches_call:
  assumes "call_path c \<subseteq> paths s" and "call_id c \<subseteq> ids s" and "ids s' \<subseteq> ids s" and "paths s' = paths s"
  shows "touches s s' n (run_call c n)"
  using assms by (cases c) (auto simp: touches_def)

lemma paths_frame [simp]:
  "paths (s\<lparr>se_conns := x\<rparr>) = paths s" "paths (s\<lparr>se_cancelled := b\<rparr>) = paths s" "paths (s\<lparr>se_stopping := b\<rparr>) = paths s"
  "paths (s\<lparr>se_watching := b\<rparr>) = paths s" "paths (s\<lparr>se_tasks := ts\<rparr>) = paths s" "paths (s\<lparr>se_phase := ph\<rparr>) = paths s"
  "paths (s\<lparr>se_listener := l\<rparr>) = paths s" "paths (s\<lparr>se_admin := l\<rparr>) = paths s"
  by (simp_all add: paths_def)

lemma ids_leave: "ids (leave err s) \<subseteq> ids s"
  using deferred_calls(2) [where s = s] by (fastforce simp: ids_def leave_def)

lemma ids_failed: "ids (listen_failed r e s) \<subseteq> ids s"
  by (simp add: listen_failed_def ids_leave)

lemma paths_leave [simp]: "paths (leave err s) = paths s" "paths (listen_failed r e s) = paths s"
  by (simp_all add: leave_def listen_failed_def)

lemma ids_phase: "(\<And>r i. ph \<noteq> Chmod r i) \<Longrightarrow> (\<And>cs err. ph \<noteq> Leaving cs err) \<Longrightarrow> ids (s\<lparr>se_phase := ph\<rparr>) \<subseteq> ids s"
  by (cases ph) (auto simp: ids_def)

lemma serve_step_touches:
  assumes "serve_step f s n = Some (s', n')" and "orderly s n"
  shows "touches s s' n n'"
proof (cases "se_phase s")
  case (Leaving cs err)
  show ?thesis
  proof (cases cs)
    case (Cons c ds)
    have "touches s (s\<lparr>se_phase := Leaving ds err\<rparr>) n (run_call c n)"
      using assms(2) Leaving Cons by (intro touches_call) (auto simp: orderly_def ids_def)
    then show ?thesis using assms(1) Leaving Cons by (simp add: serve_step_def)
  qed (use assms(1) Leaving in \<open>auto simp: serve_step_def ids_def intro!: touches_same\<close>)
next
  case (Unlink r)
  have "touches s (s\<lparr>se_phase := Listen r\<rparr>) n (run_call (RemovePath (role_path s r)) n)"
    by (intro touches_call) (auto intro: ids_phase [THEN subsetD])
  then show ?thesis using assms(1) Unlink
    by (auto simp: serve_step_def intro!: touches_same split: if_splits dest: ids_phase [THEN subsetD, rotated 2])
next
  case (Listen r)
  show ?thesis
  proof (cases "f = None \<and> ns_file n (role_path s r) = None")
    case True
    then show ?thesis using assms(1) Listen by (auto simp: serve_step_def touches_def ids_def)
  next
    case False
    then have "\<exists>e. s' = listen_failed r e s \<and> n' = n" using assms(1) Listen by (cases f) (auto simp: serve_step_def)
    then show ?thesis using touches_same [OF ids_failed] by auto
  qed
next
  case (Chmod r i)
  show ?thesis
  proof (cases f)
    case None
    then show ?thesis using assms(1) Chmod
      by (auto simp: serve_step_def named_cases ids_def intro!: touches_same split: role.splits)
  next
    case (Some e)
    then show ?thesis using assms(1) Chmod deferred_calls(2) [where s = s]
      by (fastforce simp: serve_step_def ids_def close_calls_def intro!: touches_same)
  qed
qed (use assms(1) in \<open>auto simp: serve_step_def intro!: touches_same split: option.splits if_splits
      dest: ids_leave [THEN subsetD] ids_failed [THEN subsetD] ids_phase [THEN subsetD, rotated 2]\<close>)

lemma task_call_touches: "task_call s c \<Longrightarrow> call_path c \<subseteq> paths s \<and> call_id c \<subseteq> ids s"
  by (auto simp: task_call_def ids_def named_cases paths_def)

lemma serve_event_touches:
  assumes "serve_event ev s n = Some (s', n')" and "orderly s n"
  shows "touches s s' n n'"
proof (cases ev)
  case (Sys f)
  then show ?thesis using assms serve_step_touches by simp
next
  case (Task k)
  with assms(1) obtain c cs where "k < length (se_tasks s)" "se_tasks s ! k = c # cs" "n' = run_call c n" "s' = s\<lparr>se_tasks := (se_tasks s)[k := cs]\<rparr>"
    by (auto split: if_splits list.splits)
  moreover from this have "task_call s c" using assms(2) by (auto simp: orderly_def dest!: bspec [OF _ nth_mem])
  ultimately show ?thesis using task_call_touches by (auto intro!: touches_call)
qed (use assms in \<open>auto intro!: touches_same split: if_splits\<close>)

text \<open>Its own events keep a server orderly: first the calls of its goroutines, then the phases of \<^verbatim>\<open>Serve\<close>.\<close>

definition tasks_ok :: "serving \<Rightarrow> sockets \<Rightarrow> bool" where
  "tasks_ok s n \<longleftrightarrow> (\<forall>cs \<in> set (se_tasks s). closes (ns_unlinked n) cs \<and> (\<forall>c \<in> set cs. task_call s c))"

definition phase_ok :: "serving \<Rightarrow> sockets \<Rightarrow> bool" where
  "phase_ok s n \<longleftrightarrow>
     (case se_phase s of
        Leaving cs _ \<Rightarrow> closes (ns_unlinked n) cs \<and> (\<forall>c \<in> set cs. call_path c \<subseteq> paths s) \<and>
          (\<forall>p i. named s p i \<longrightarrow> i \<in> ns_unlinked n \<or> UnlinkOnce p i \<in> set cs)
      | Returned _ \<Rightarrow> (\<forall>p i. named s p i \<longrightarrow> i \<in> ns_unlinked n)
      | _ \<Rightarrow> (\<forall>i \<in> ids s. i \<in> ns_unlinked n \<or> i \<in> ns_live n))"

lemma orderly_alt: "orderly s n \<longleftrightarrow> staged s \<and> tasks_ok s n \<and> phase_ok s n"
  by (simp add: orderly_def tasks_ok_def phase_ok_def)

lemma tasks_ok_mono:
  assumes "tasks_ok s n" and "ns_unlinked n \<subseteq> ns_unlinked n'" and "\<And>p i. named s p i \<Longrightarrow> named s' p i" and "se_tasks s' = se_tasks s"
  shows "tasks_ok s' n'"
  using assms(1,4) closes_mono [OF _ assms(2)] assms(3) unfolding tasks_ok_def task_call_def by fastforce

lemma phase_ok_leave [simp]: "phase_ok (leave err s) n" "phase_ok (listen_failed r e s) n"
  using deferred_calls [where s = s] by (auto simp: phase_ok_def leave_def listen_failed_def)

lemma phase_ok_frame [simp]:
  "phase_ok (s\<lparr>se_conns := x\<rparr>) = phase_ok s" "phase_ok (s\<lparr>se_cancelled := b\<rparr>) = phase_ok s" "phase_ok (s\<lparr>se_stopping := b\<rparr>) = phase_ok s"
  "phase_ok (s\<lparr>se_watching := b\<rparr>) = phase_ok s" "phase_ok (s\<lparr>se_tasks := ts\<rparr>) = phase_ok s"
  by (cases "se_phase s"; simp add: phase_ok_def fun_eq_iff)+

lemma phase_ok_running:
  assumes "phase_ok s n" and "\<And>cs err. se_phase s \<noteq> Leaving cs err" and "\<And>err. se_phase s \<noteq> Returned err"
  shows "\<forall>i \<in> set_option (se_listener s) \<union> set_option (se_admin s). i \<in> ns_unlinked n \<or> i \<in> ns_live n"
  using assms by (cases "se_phase s") (auto simp: phase_ok_def ids_alt)

lemma phase_ok_next:
  assumes "ph \<in> {Lstat r, Probe r, Unlink r, Listen r}"
  shows "phase_ok (s\<lparr>se_phase := ph\<rparr>) n \<longleftrightarrow>
    (\<forall>i \<in> set_option (se_listener s) \<union> set_option (se_admin s). i \<in> ns_unlinked n \<or> i \<in> ns_live n)"
  using assms by (auto simp: phase_ok_def ids_alt)

lemma serve_step_named:
  assumes "serve_step f s n = Some (s', n')" and "staged s" and "named s p i"
  shows "named s' p i"
  using assms
  by (cases "se_phase s") (auto simp: serve_simps staged_def named_cases role_socket_def split: option.splits if_splits role.splits list.splits)

lemma serve_step_tasks: "serve_step f s n = Some (s', n') \<Longrightarrow> se_tasks s' = se_tasks s"
  by (auto simp: serve_simps split: phase.splits option.splits if_splits role.splits list.splits)

lemma serve_step_phase_ok:
  assumes "serve_step f s n = Some (s', n')" and "phase_ok s n"
  shows "phase_ok s' n'"
proof (cases "se_phase s")
  case (Leaving cs err)
  show ?thesis
  proof (cases cs)
    case (Cons c ds)
    then have "closes (ns_unlinked (run_call c n)) ds" using assms(2) Leaving by (intro run_call_closes) (simp add: phase_ok_def)
    moreover have "i \<in> ns_unlinked (run_call c n) \<or> UnlinkOnce p i \<in> set ds" if "named s p i" for p i
      using assms(2) Leaving Cons that run_call_frame(4) [of n c] by (cases c) (auto simp: phase_ok_def)
    ultimately show ?thesis using assms Leaving Cons by (auto simp: serve_step_def phase_ok_def)
  qed (use assms Leaving in \<open>auto simp: serve_step_def phase_ok_def\<close>)
next
  case (Chmod r i)
  show ?thesis
  proof (cases f)
    case None
    then show ?thesis using assms Chmod by (auto simp: serve_step_def phase_ok_def ids_alt split: role.splits)
  next
    case (Some e)
    then show ?thesis using assms Chmod deferred_calls [where s = s]
      by (auto simp: serve_step_def phase_ok_def close_calls_def)
  qed
next
  case (Listen r)
  then show ?thesis using assms phase_ok_running [OF assms(2)]
    by (auto simp: serve_step_def phase_ok_def [of "s\<lparr>se_phase := Chmod r i\<rparr>" for i] ids_alt split: option.splits if_splits)
qed (use assms phase_ok_running [OF assms(2)] in \<open>auto simp: serve_step_def phase_ok_next split: option.splits if_splits\<close>)

lemma task_call_frame [simp]:
  "task_call (s\<lparr>se_conns := x\<rparr>) = task_call s" "task_call (s\<lparr>se_cancelled := b\<rparr>) = task_call s" "task_call (s\<lparr>se_stopping := b\<rparr>) = task_call s"
  "task_call (s\<lparr>se_watching := b\<rparr>) = task_call s" "task_call (s\<lparr>se_tasks := ts\<rparr>) = task_call s"
  by (simp_all add: task_call_def fun_eq_iff)

lemma close_both_calls:
  "c \<in> set (close_calls (role_path s Public) (se_listener s)) \<Longrightarrow> task_call s c" "c \<in> set (close_both s) \<Longrightarrow> task_call s c"
  by (auto simp: close_both_def close_calls_def task_call_def named_cases split: option.splits)

lemma serve_event_orderly:
  assumes "serve_event ev s n = Some (s', n')" and "orderly s n"
  shows "orderly s' n'"
proof (cases ev)
  case (Sys f)
  then have step: "serve_step f s n = Some (s', n')" using assms(1) by simp
  have "ns_unlinked n \<subseteq> ns_unlinked n'" using serve_event_touches [OF assms] by (simp add: touches_def)
  then have "tasks_ok s' n'"
    using tasks_ok_mono [OF _ _ serve_step_named [OF step] serve_step_tasks [OF step]] assms(2) unfolding orderly_alt by blast
  then show ?thesis
    using assms(2) serve_step_staged [OF step] serve_step_phase_ok [OF step] by (simp add: orderly_alt)
next
  case (Task k)
  with assms(1) obtain c cs where k: "k < length (se_tasks s)" "se_tasks s ! k = c # cs" "n' = run_call c n" "s' = s\<lparr>se_tasks := (se_tasks s)[k := cs]\<rparr>"
    by (auto split: if_splits list.splits)
  then have mem: "c # cs \<in> set (se_tasks s)" by (metis nth_mem)
  then have c: "task_call s c" "closes (ns_unlinked n') cs" using assms(2) k(3) run_call_closes by (auto simp: orderly_def)
  have grow: "ns_unlinked n \<subseteq> ns_unlinked n'" using k(3) run_call_frame(4) by simp
  have "closes (ns_unlinked n') ds \<and> (\<forall>c \<in> set ds. task_call s c)" if "ds \<in> set (se_tasks s)" for ds
    using assms(2) that closes_mono [OF _ grow] by (auto simp: orderly_def)
  moreover have "\<forall>c \<in> set cs. task_call s c" using assms(2) mem by (auto simp: orderly_def)
  ultimately have "closes (ns_unlinked n') ds \<and> (\<forall>c \<in> set ds. task_call s c)" if "ds \<in> insert cs (set (se_tasks s))" for ds
    using that c(2) by blast
  then have "tasks_ok s' n'"
    using k(4) by (auto simp: tasks_ok_def dest!: subsetD [OF set_update_subset_insert])
  moreover have "phase_ok s n'"
  proof -
    have "i \<in> ns_unlinked n' \<or> i \<in> ns_live n'" if "i \<in> ns_unlinked n \<or> i \<in> ns_live n" for i
      using that assms(2) mem k(3) by (cases c) (auto simp: orderly_def)
    then show ?thesis
      using assms(2) grow closes_mono [OF _ grow] unfolding orderly_def phase_ok_def by (cases "se_phase s") (auto, blast+)
  qed
  ultimately show ?thesis using assms(2) k(4) by (simp add: orderly_alt)
qed (use assms in \<open>auto simp: orderly_alt tasks_ok_def dest: close_both_calls split: if_splits\<close>)

text \<open>The events of another server keep a server orderly, as their sockets are different.\<close>

lemma touches_orderly:
  assumes "touches s s' n n'" and "orderly t n" and "ids s \<inter> ids t = {}" and "ids t \<subseteq> {..<ns_fresh n}"
  shows "orderly t n'"
proof -
  have unlinked: "ns_unlinked n \<subseteq> ns_unlinked n'" using assms(1) by (simp add: touches_def)
  have same: "i \<in> ns_live n' \<longleftrightarrow> i \<in> ns_live n" if "i \<in> ids t" for i
    using assms(1,3,4) that by (auto simp: touches_def)
  have "tasks_ok t n'" using tasks_ok_mono [OF _ unlinked, of t t] assms(2) by (simp add: orderly_alt)
  moreover have "phase_ok t n'"
    using assms(2) same unlinked closes_mono [OF _ unlinked] unfolding orderly_def phase_ok_def by (cases "se_phase t") (auto, blast+)
  ultimately show ?thesis using assms(2) by (simp add: orderly_alt)
qed

text \<open>An event of a server that has not begun or has returned changes no path.\<close>

lemma inactive_file:
  assumes "serve_event ev s n = Some (s', n')" and "orderly s n" and "\<not> active s"
  shows "ns_file n' = ns_file n"
proof (cases ev)
  case (Sys f)
  then show ?thesis using assms by (auto simp: serve_simps active_def split: phase.splits option.splits list.splits)
next
  case (Task k)
  with assms(1) obtain c cs where k: "c # cs \<in> set (se_tasks s)" "n' = run_call c n"
    by (auto split: if_splits list.splits) (metis nth_mem)
  then have "task_call s c" using assms(2) by (auto simp: orderly_def)
  moreover have "i \<in> ns_unlinked n" if "named s p i" for p i
    using that assms(2,3) by (auto simp: active_def orderly_def staged_def named_cases split: phase.splits)
  ultimately show ?thesis using k(2) by (auto simp: task_call_def)
qed (use assms in \<open>auto split: if_splits\<close>)

text \<open>While a server runs, the paths of its sockets lead to them until it unlinks them.\<close>

definition attached :: "serving \<Rightarrow> sockets \<Rightarrow> bool" where
  "attached s n \<longleftrightarrow> (case se_phase s of
       Leaving _ _ \<Rightarrow> True | Returned _ \<Rightarrow> True
     | Chmod r i \<Rightarrow> (i \<in> ns_unlinked n \<or> ns_file n (role_path s r) = Some i) \<and>
         (\<forall>p i. named s p i \<longrightarrow> i \<in> ns_unlinked n \<or> ns_file n p = Some i)
     | _ \<Rightarrow> (\<forall>p i. named s p i \<longrightarrow> i \<in> ns_unlinked n \<or> ns_file n p = Some i))"

lemma attached_frame:
  assumes "attached t n" and "\<And>p. p \<in> paths t \<Longrightarrow> ns_file n' p = ns_file n p" and "ns_unlinked n \<subseteq> ns_unlinked n'"
  shows "attached t n'"
proof -
  have "p \<in> paths t" if "named t p i" for p i using that by (auto simp: named_cases paths_def)
  then show ?thesis
    using assms paths_role [of t] unfolding attached_def by (cases "se_phase t") (auto, blast+)
qed

lemma role_path_neq [simp]: "role_path s Public \<noteq> role_path s AdminSocket" "role_path s AdminSocket \<noteq> role_path s Public"
  by (simp_all add: role_path_def)

lemma inactive_attached: "staged t \<Longrightarrow> \<not> active t \<Longrightarrow> attached t n"
  by (auto simp: staged_def active_def attached_def named_cases split: phase.splits)

lemma attached_other [simp]:
  "attached (s\<lparr>se_conns := x\<rparr>) = attached s" "attached (s\<lparr>se_cancelled := b\<rparr>) = attached s" "attached (s\<lparr>se_stopping := b\<rparr>) = attached s"
  "attached (s\<lparr>se_watching := b\<rparr>) = attached s" "attached (s\<lparr>se_tasks := ts\<rparr>) = attached s"
  by (cases "se_phase s"; simp add: attached_def fun_eq_iff)+

lemma attached_leave [simp]: "attached (leave err s) n" "attached (listen_failed r e s) n"
  by (simp_all add: attached_def leave_def listen_failed_def)

lemma serve_step_attached:
  assumes "serve_step f s n = Some (s', n')" and "staged s" and "attached s n"
  shows "attached s' n'"
proof (cases "se_phase s")
  case (Leaving cs err)
  then show ?thesis using assms(1) by (cases cs) (auto simp: serve_step_def attached_def)
next
  case (Unlink r)
  then show ?thesis using assms
    by (cases r) (auto simp: serve_step_def attached_def staged_def role_socket_def named_cases split: if_splits)
next
  case (Listen r)
  then show ?thesis using assms
    by (cases r) (auto simp: serve_step_def attached_def [of "s\<lparr>se_phase := Chmod q i\<rparr>" for q i] attached_def [of s] staged_def role_socket_def named_cases split: if_splits option.splits)
next
  case (Chmod r i)
  then show ?thesis using assms
    by (cases r; cases f) (auto simp: serve_step_def attached_def staged_def role_socket_def named_cases)
qed (use assms in \<open>auto simp: serve_step_def attached_def [of "s\<lparr>se_phase := ph\<rparr>" for ph] attached_def [of s] staged_def named_cases split: option.splits if_splits\<close>)

lemma task_attached:
  assumes "task_call s c" and "staged s" and "attached s n"
  shows "attached s (run_call c n)"
proof (cases c)
  case (UnlinkOnce p i)
  have "j = i" if "named s q j" "q = p" for q j
    using that assms(1) UnlinkOnce by (auto simp: task_call_def named_cases)
  moreover have "role_path s r \<noteq> p" if "se_phase s = Chmod r j" for r j
    using that assms(1,2) UnlinkOnce by (cases r) (auto simp: task_call_def named_cases staged_def role_socket_def)
  ultimately show ?thesis using assms(3) UnlinkOnce by (cases "se_phase s") (auto simp: attached_def)
next
  case (CloseFd i)
  show ?thesis unfolding CloseFd by (rule attached_frame [OF assms(3)]) auto
qed (use assms in \<open>auto simp: task_call_def\<close>)

lemma serve_event_attached:
  assumes "serve_event ev s n = Some (s', n')" and "orderly s n" and "attached s n"
  shows "attached s' n'"
proof (cases ev)
  case (Sys f)
  then show ?thesis using assms serve_step_attached by (simp add: orderly_def)
next
  case (Task k)
  with assms(1) obtain c cs where k: "c # cs \<in> set (se_tasks s)" "n' = run_call c n" "s' = s\<lparr>se_tasks := (se_tasks s)[k := cs]\<rparr>"
    by (auto split: if_splits list.splits) (metis nth_mem)
  then have "task_call s c" "staged s" using assms(2) by (auto simp: orderly_def)
  then show ?thesis using task_attached assms(3) k by simp
qed (use assms in \<open>auto split: if_splits\<close>)

definition settled :: "world \<Rightarrow> bool" where
  "settled w \<longleftrightarrow> (\<forall>k < length (fst w). orderly (fst w ! k) (snd w) \<and> attached (fst w ! k) (snd w) \<and> ids (fst w ! k) \<subseteq> {..<ns_fresh (snd w)}) \<and>
     (\<forall>j < length (fst w). \<forall>k < length (fst w). j \<noteq> k \<longrightarrow> ids (fst w ! j) \<inter> ids (fst w ! k) = {})"

lemma fresh_settled: "fresh_world w \<Longrightarrow> settled w"
  by (force simp: fresh_world_def settled_def list_all_length serving_new_def orderly_def attached_def ids_alt staged_def named_cases)

lemma settled_step:
  assumes "settled (ss, n)" and "serial (ss, n)" and "world_event k ev (ss, n) = Some (ss', n')"
  shows "settled (ss', n')"
proof -
  from assms(3) obtain s' where k: "k < length ss" and ev: "serve_event ev (ss ! k) n = Some (s', n')" and ss': "ss' = ss[k := s']"
    by (auto elim: world_eventE)
  let ?s = "ss ! k"
  have s: "orderly ?s n" "attached ?s n" "ids ?s \<subseteq> {..<ns_fresh n}" using assms(1) k by (auto simp: settled_def)
  note touch = serve_event_touches [OF ev s(1)]
  have ids': "ids s' \<subseteq> ids ?s \<union> {ns_fresh n..<ns_fresh n'}" "ns_fresh n \<le> ns_fresh n'" "ns_unlinked n \<subseteq> ns_unlinked n'"
    using touch by (auto simp: touches_def)
  have other: "orderly (ss ! j) n'" "attached (ss ! j) n'" "ids (ss ! j) \<subseteq> {..<ns_fresh n'}" "ids (ss ! j) \<inter> ids s' = {}"
    if j: "j < length ss" "j \<noteq> k" for j
  proof -
    have t: "orderly (ss ! j) n" "attached (ss ! j) n" "ids (ss ! j) \<subseteq> {..<ns_fresh n}" "ids ?s \<inter> ids (ss ! j) = {}"
      using assms(1) j k by (auto simp: settled_def)
    show "orderly (ss ! j) n'" by (rule touches_orderly [OF touch t(1,4,3)])
    show "ids (ss ! j) \<subseteq> {..<ns_fresh n'}" "ids (ss ! j) \<inter> ids s' = {}" using t(3,4) ids' by fastforce+
    show "attached (ss ! j) n'"
    proof (cases "active (ss ! j)")
      case True
      then have "paths ?s \<inter> paths (ss ! j) = {} \<or> \<not> active ?s" using assms(2) j k by (auto simp: serial_def)
      then have "ns_file n' p = ns_file n p" if "p \<in> paths (ss ! j)" for p
        using that touch inactive_file [OF ev s(1)] by (auto simp: touches_def)
      then show ?thesis using attached_frame [OF t(2) _ ids'(3)] by blast
    next
      case False
      then show ?thesis using t(1) by (intro inactive_attached) (simp_all add: orderly_def)
    qed
  qed
  have "ids s' \<inter> ids (ss ! j) = {}" if "j < length ss" "j \<noteq> k" for j using other(4) [OF that] by blast
  moreover have "orderly s' n'" "attached s' n'" "ids s' \<subseteq> {..<ns_fresh n'}"
    using serve_event_orderly [OF ev s(1)] serve_event_attached [OF ev s(1,2)] s(3) ids'(1,2) by fastforce+
  ultimately show ?thesis using other assms(1) k ss' by (simp add: settled_def nth_list_update)
qed

text \<open>
  C15. A server that serves can be reached. If no two servers with a path in common are in \<^verbatim>\<open>Serve\<close> at
  the same time, then under any interleaving with the goroutines of this server and with servers
  that have returned or use other paths, and with any failures of system calls, each socket of a
  server in its accept loop listens and its path leads to it, until a call of this server begins
  to close it.
\<close>

theorem serving_reachable:
  assumes "served serial w0 w" and "fresh_world w0" and "k < length (fst w)" and "se_phase (fst w ! k) = Accepting"
    and "role_socket (fst w ! k) r = Some i" and "i \<notin> ns_unlinked (snd w)"
  shows "ns_file (snd w) (role_path (fst w ! k) r) = Some i \<and> i \<in> ns_live (snd w)"
proof -
  have "settled w"
    using assms(1)
  proof induction
    case here
    show ?case by (rule fresh_settled [OF assms(2)])
  next
    case (step w j ev w')
    then have "serial w" by (auto elim: served.cases)
    with step show ?case by (metis settled_step surj_pair)
  qed
  then have "orderly (fst w ! k) (snd w)" "attached (fst w ! k) (snd w)" using assms(3) by (auto simp: settled_def)
  moreover have "named (fst w ! k) (role_path (fst w ! k) r) i" using assms(5) by (auto simp: named_def)
  ultimately show ?thesis using assms(4,6) by (auto simp: orderly_def attached_def ids_def)
qed

section \<open>Runs\<close>

lemma world_event_length: "world_event k ev w = Some w' \<Longrightarrow> length (fst w') = length (fst w)"
  by (auto simp: world_event_def split: if_splits)

lemma served_run:
  assumes "served I w0 w" and "world_run evs w = Some w'" and "\<And>v. length (fst v) = length (fst w) \<Longrightarrow> I v"
  shows "served I w0 w'"
  using assms
proof (induction evs w rule: world_run.induct)
  case (2 k ev evs w)
  then obtain v where v: "world_event k ev w = Some v" "world_run evs v = Some w'" by (auto split: option.splits)
  have "length (fst v) = length (fst w)" using world_event_length [OF v(1)] .
  then show ?case using "2.IH" [OF v(1) served.step [OF "2.prems"(1) v(1)] v(2)] "2.prems"(3) by simp
qed simp

lemmas run_simps = world_event_def serve_simps serving_new_def role_path_def role_socket_def deferred_def close_calls_def
  close_both_def

definition no_sockets :: sockets where
  "no_sockets = \<lparr>ns_file = Map.empty, ns_live = {}, ns_unlinked = {}, ns_fresh = 0\<rparr>"

text \<open>A server comes up: the directory, both sockets with their modes.\<close>

definition start_up :: "nat \<Rightarrow> (nat \<times> event) list" where
  "start_up k = replicate 7 (k, Sys None)"

definition demo_serving :: serving where
  "demo_serving = (serving_new ''/s'' 1)\<lparr>se_phase := Accepting, se_listener := Some 0, se_admin := Some 1, se_watching := True,
     se_conns := \<lparr>cn_slots = 1, cn_handlers = [Handling], cn_adminLoop = True, cn_admins = 1\<rparr>\<rparr>"

definition demo_world :: world where
  "demo_world = ([demo_serving], \<lparr>ns_file = [''/s'' \<mapsto> 0, ''/s.admin'' \<mapsto> 1], ns_live = {0, 1}, ns_unlinked = {}, ns_fresh = 2\<rparr>)"

lemma served_fresh: "fresh_world ([serving_new ''/s'' 1], no_sockets)"
  by (auto simp: fresh_world_def no_sockets_def)

lemma demo_served:
  assumes "\<And>v. length (fst v) = 1 \<Longrightarrow> I v"
  shows "served I ([serving_new ''/s'' 1], no_sockets) demo_world"
proof (rule served_run)
  show "served I ([serving_new ''/s'' 1], no_sockets) ([serving_new ''/s'' 1], no_sockets)" by (simp add: served.here assms)
  show "world_run (start_up 0 @ [(0, Connect), (0, Goroutine 0), (0, Connect), (0, AdminConnect)]) ([serving_new ''/s'' 1], no_sockets) = Some demo_world"
    by (simp add: start_up_def eval_nat_numeral run_simps no_sockets_def demo_world_def demo_serving_def take_connection_def serving_new_def insert_commute)
qed (simp add: assms)

theorem slots_bounded_witness: "length (filter (\<lambda>h. h = Handling) (cn_handlers (se_conns (fst demo_world ! 0)))) \<le> 1"
  using slots_bounded [OF demo_served [of "\<lambda>_. True"] served_fresh, of 0] by (simp add: demo_world_def demo_serving_def serving_new_def)

theorem serve_releases_witness: "\<exists>s \<in> set (fst demo_world). 1 \<in> holds s"
  using serve_releases [OF demo_served [of "\<lambda>_. True"] served_fresh, of 1] by (simp add: demo_world_def no_sockets_def)

theorem serving_reachable_witness:
  "ns_file (snd demo_world) ''/s.admin'' = Some 1 \<and> 1 \<in> ns_live (snd demo_world)"
  using serving_reachable [OF demo_served [of serial] served_fresh, of 0 AdminSocket 1]
  by (simp add: serial_def demo_world_def demo_serving_def serving_new_def role_socket_def role_path_def)

section \<open>Overlapping servers\<close>

text \<open>
  C39. A server that binds its paths before its predecessor has returned can be cut off. The old
  server is asked to exit and closes both listeners; neither of its sockets answers any more, which is what a
  new server waits for; the new server binds both paths and serves; then the old \<^verbatim>\<open>Serve\<close> returns
  without an error and its deferred calls remove the paths again. The new server listens on
  sockets that no path leads to.
\<close>

theorem successor_cut_off:
  "\<exists>evs1 evs2 w1 w2. world_run evs1 ([serving_new p a, serving_new p b], no_sockets) = Some w1 \<and>
     se_phase (fst w1 ! 1) = MkdirAll \<and> (\<forall>q dial. \<not> socketReady dial q (snd w1)) \<and>
     world_run evs2 w1 = Some w2 \<and>
     se_phase (fst w2 ! 0) = Returned None \<and> se_phase (fst w2 ! 1) = Accepting \<and>
     (\<forall>r. \<exists>i. role_socket (fst w2 ! 1) r = Some i \<and> i \<in> ns_live (snd w2) \<and> i \<notin> ns_unlinked (snd w2)) \<and>
     ns_file (snd w2) = Map.empty"
proof -
  let ?evs1 = "start_up 0 @ (0, RequestExit) # replicate 4 (0, Task 0)"
  let ?evs2 = "start_up 1 @ replicate 8 (0, Sys None)"
  let ?old = "(serving_new p a)\<lparr>se_phase := Accepting, se_listener := Some 0, se_admin := Some 1, se_watching := True, se_stopping := True, se_tasks := [[]],
     se_conns := (se_conns (serving_new p a))\<lparr>cn_adminLoop := True\<rparr>\<rparr>"
  let ?w1 = "([?old, serving_new p b], \<lparr>ns_file = Map.empty, ns_live = {}, ns_unlinked = {0, 1}, ns_fresh = 2\<rparr>)"
  let ?w2 = "([?old\<lparr>se_phase := Returned None\<rparr>, (serving_new p b)\<lparr>se_phase := Accepting, se_listener := Some 2, se_admin := Some 3, se_watching := True,
       se_conns := (se_conns (serving_new p b))\<lparr>cn_adminLoop := True\<rparr>\<rparr>],
     \<lparr>ns_file = Map.empty, ns_live = {2, 3}, ns_unlinked = {0, 1}, ns_fresh = 4\<rparr>)"
  have "world_run ?evs1 ([serving_new p a, serving_new p b], no_sockets) = Some ?w1"
    by (simp add: start_up_def eval_nat_numeral run_simps no_sockets_def insert_commute fun_upd_twist)
  moreover have "world_run ?evs2 ?w1 = Some ?w2"
    by (simp add: start_up_def eval_nat_numeral run_simps no_sockets_def insert_commute)
  moreover have "se_phase (fst ?w1 ! 1) = MkdirAll" "\<forall>q dial. \<not> socketReady dial q (snd ?w1)"
    by (simp_all add: serving_new_def socketReady_def)
  moreover have "\<forall>r. \<exists>i. role_socket (fst ?w2 ! 1) r = Some i \<and> i \<in> ns_live (snd ?w2) \<and> i \<notin> ns_unlinked (snd ?w2)"
  proof
    fix r
    show "\<exists>i. role_socket (fst ?w2 ! 1) r = Some i \<and> i \<in> ns_live (snd ?w2) \<and> i \<notin> ns_unlinked (snd ?w2)"
      by (cases r) (simp_all add: role_socket_def)
  qed
  ultimately show ?thesis by (intro exI [of _ ?evs1] exI [of _ ?evs2] exI [of _ ?w1] exI [of _ ?w2]) simp
qed

end
