(* ===== verification/Managed.thy ===== *)
theory Managed
  imports Process_Env
begin

text \<open>
  The managed client (\<^verbatim>\<open>client.go\<close>): it starts a server when the socket does not answer, waits until
  it does, and stops the server that it started. What the socket answers, when the context ends and when
  a process exits are inputs. The processes that are running are part of the state, by number, with the command line
  and environment of each start. The goroutine in \<^verbatim>\<open>command.Wait\<close> reaps a process when it exits, and its
  channel holds the result until it is read, so the channel \<^verbatim>\<open>wait\<close> is ready exactly when the process has exited.
\<close>

section \<open>Diagnostics\<close>

definition maxDaemonDiagnostics :: nat where
  "maxDaemonDiagnostics = 65536"

text \<open>\<^verbatim>\<open>diagnosticBuffer.Write\<close>; \<^verbatim>\<open>String\<close> is the buffer itself.\<close>

definition diagnostic_Write :: "bytes \<Rightarrow> bytes \<Rightarrow> nat \<times> bytes" where
  "diagnostic_Write input data =
     (length input,
      if length input \<ge> maxDaemonDiagnostics then drop (length input - maxDaemonDiagnostics) input
      else (let overflow = int (length data) + int (length input) - int maxDaemonDiagnostics in
            (if overflow > 0 then drop (nat overflow) data else data) @ input))"

section \<open>State\<close>

text \<open>\<^verbatim>\<open>strings.ReplaceAll\<close> for a pattern that is not empty; \<open>skip\<close> counts the bytes of a match still to be passed.\<close>

fun replace_from :: "nat \<Rightarrow> bytes \<Rightarrow> bytes \<Rightarrow> bytes \<Rightarrow> bytes" where
  "replace_from skip [] pat rep = []"
| "replace_from (Suc skip) (c # cs) pat rep = replace_from skip cs pat rep"
| "replace_from 0 (c # cs) pat rep =
     (if hasPrefix pat (c # cs) then rep @ replace_from (length pat - 1) cs pat rep else c # replace_from 0 cs pat rep)"

abbreviation ReplaceAll :: "bytes \<Rightarrow> bytes \<Rightarrow> bytes \<Rightarrow> bytes" where
  "ReplaceAll \<equiv> replace_from 0"

record managedClient =
  mc_socket :: bytes
  mc_managed :: bool
  mc_spawn :: "bytes list"
  mc_env :: "bytes list"
  mc_cmd :: "nat option"

record processes =
  mp_running :: "nat set"
  mp_started :: "(bytes list \<times> bytes list) list"

definition spawn_args :: "managedClient \<Rightarrow> bytes list" where
  "spawn_args c =
     map (\<lambda>arg. ReplaceAll arg ''{socket}'' (mc_socket c))
       (if mc_spawn c = [] then [''ghostline'', ''serve'', ''--socket'', mc_socket c] else mc_spawn c)"

section \<open>Waiting for the server\<close>

text \<open>
  A turn of the loop in \<^verbatim>\<open>waitReady\<close>: whether the process has exited when it is asked first (with
  its error, and whether the socket answers then), whether the socket answers, and what ends the wait for the next turn.
  The text is what the process wrote by then.
\<close>

datatype wake = Done go_error | Timer bytes | Exit "go_error option" bool bytes | Tick

datatype turn = Turn (turn_exit: "(go_error option \<times> bool \<times> bytes) option") (turn_ready: bool) (turn_wake: wake)

definition err_text :: "go_error option \<Rightarrow> bytes" where
  "err_text err = (case err of None \<Rightarrow> ''<nil>'' | Some e \<Rightarrow> Error e)"

definition readyAfterExit :: "go_error option \<Rightarrow> bool \<Rightarrow> bytes \<Rightarrow> go_error option \<times> bool" where
  "readyAfterExit waitErr ready output =
     (if ready then (None, True)
      else (Some (Plain (''spawned ghostline server exited: '' @ err_text waitErr @ '': '' @ TrimSpace output)), True))"

text \<open>The error and whether the process has exited; the end of the list of turns is a wait that is not over.\<close>

fun waitReady :: "bytes \<Rightarrow> turn list \<Rightarrow> (go_error option \<times> bool) option" where
  "waitReady socket [] = None"
| "waitReady socket (Turn gone ready wake # turns) =
     (case gone of
        Some (waitErr, ready', output) \<Rightarrow> Some (readyAfterExit waitErr ready' output)
      | None \<Rightarrow>
          if ready then Some (None, False)
          else (case wake of
              Done e \<Rightarrow> Some (Some e, False)
            | Timer output \<Rightarrow>
                Some (Some (Plain (''server did not become ready at '' @ socket @ '': '' @ TrimSpace output)), False)
            | Exit waitErr ready' output \<Rightarrow> Some (readyAfterExit waitErr ready' output)
            | Tick \<Rightarrow> waitReady socket turns))"

section \<open>Starting and stopping\<close>

text \<open>
  The inputs of a start: whether the socket answers under the lock, the environment of the client, the error of
  the start, and the turns of the wait. A kill is followed by the wait for the process, so it is gone
  afterwards.
\<close>

record spawn_env =
  sp_ready :: bool
  sp_environ :: "bytes list"
  sp_start :: "go_error option"
  sp_turns :: "turn list"

definition spawnAndWait ::
  "spawn_env \<Rightarrow> managedClient \<Rightarrow> processes \<Rightarrow> (go_error option \<times> managedClient \<times> processes) option" where
  "spawnAndWait E c ps =
     (if sp_ready E then Some (None, c, ps)
      else (case validateEnvironment (mc_env c) of
          Some e \<Rightarrow> Some (Some (Wrap ''invalid spawn environment: '' e []), c, ps)
        | None \<Rightarrow>
            (case mergeEnvironment (sp_environ E) (mc_env c) of None \<Rightarrow> None
             | Some env \<Rightarrow>
               (case sp_start E of
                  Some e \<Rightarrow> Some (Some (Wrap ''spawn ghostline server: '' e []), c, ps)
                | None \<Rightarrow>
                    (let p = length (mp_started ps);
                         ps1 = ps\<lparr>mp_running := insert p (mp_running ps), mp_started := mp_started ps @ [(spawn_args c, env)]\<rparr>;
                         gone = ps1\<lparr>mp_running := mp_running ps1 - {p}\<rparr> in
                     (case waitReady (mc_socket c) (sp_turns E) of
                        None \<Rightarrow> None
                      | Some (Some e, _) \<Rightarrow> Some (Some e, c\<lparr>mc_cmd := None\<rparr>, gone)
                      | Some (None, True) \<Rightarrow> Some (None, c\<lparr>mc_cmd := None\<rparr>, gone)
                      | Some (None, False) \<Rightarrow> Some (None, c\<lparr>mc_cmd := Some p\<rparr>, ps1)))))))"

definition NewClient :: "bytes \<Rightarrow> managedClient" where
  "NewClient socket = \<lparr>mc_socket = socket, mc_managed = False, mc_spawn = [], mc_env = [], mc_cmd = None\<rparr>"

definition ConnectManaged ::
  "bool \<Rightarrow> spawn_env \<Rightarrow> bytes \<Rightarrow> bytes list \<Rightarrow> bytes list \<Rightarrow> processes \<Rightarrow> ((go_error + managedClient) \<times> processes) option" where
  "ConnectManaged ready E socket spawn env ps =
     (if socket = [] then Some (Inl (Plain ''ghostline: socket path required''), ps)
      else
        (let c = \<lparr>mc_socket = socket, mc_managed = True, mc_spawn = spawn, mc_env = env, mc_cmd = None\<rparr> in
         if ready then Some (Inr c, ps)
         else map_option (\<lambda>(err, c', ps'). (case err of Some e \<Rightarrow> Inl e | None \<Rightarrow> Inr c', ps')) (spawnAndWait E c ps)))"

definition Ensure ::
  "bool \<Rightarrow> spawn_env \<Rightarrow> managedClient \<Rightarrow> processes \<Rightarrow> (go_error option \<times> managedClient \<times> processes) option" where
  "Ensure ready E c ps =
     (if ready then Some (None, c, ps)
      else if \<not> mc_managed c then Some (Some (Plain (''server not running at '' @ mc_socket c)), c, ps)
      else spawnAndWait E c ps)"

definition exitedBySignal :: "go_error option \<Rightarrow> bytes \<Rightarrow> bool" where
  "exitedBySignal err sig = (case err of None \<Rightarrow> False
     | Some e \<Rightarrow> (case as_ExecExit e of Some (_, Some s) \<Rightarrow> s = sig | _ \<Rightarrow> False))"

definition SIGTERM_text :: bytes where
  "SIGTERM_text = ''terminated''"

text \<open>\<^verbatim>\<open>Close\<close>: \<open>signalErr\<close> is the result of the signal, \<open>waitErr\<close> that of the wait for the process.\<close>

definition client_Close ::
  "go_error option \<Rightarrow> go_error option \<Rightarrow> managedClient \<Rightarrow> processes \<Rightarrow> go_error option \<times> managedClient \<times> processes" where
  "client_Close signalErr waitErr c ps =
     (case (if mc_managed c then mc_cmd c else None) of
        None \<Rightarrow> (None, c, ps)
      | Some p \<Rightarrow>
          (case signalErr of
             Some e \<Rightarrow>
               if errors_Is e ErrProcessDone
               then (errors_Join [signalErr, waitErr], c\<lparr>mc_cmd := None\<rparr>, ps\<lparr>mp_running := mp_running ps - {p}\<rparr>)
               else (Some (Wrap ''stop managed ghostline server: '' e []), c, ps)
           | None \<Rightarrow>
               (errors_Join [None, if exitedBySignal waitErr SIGTERM_text then None else waitErr],
                c\<lparr>mc_cmd := None\<rparr>, ps\<lparr>mp_running := mp_running ps - {p}\<rparr>)))"

definition client_PID :: "(nat \<Rightarrow> int) \<Rightarrow> managedClient \<Rightarrow> int" where
  "client_PID pid c = (case (if mc_managed c then mc_cmd c else None) of None \<Rightarrow> 0 | Some p \<Rightarrow> pid p)"

end
