(* ===== verification/Managed_Facts.thy ===== *)
theory Managed_Facts
  imports Managed
begin

text \<open>
  The managed client over its life: the processes that it started and that still run, through any
  sequence of calls, and the diagnostics it keeps of them.
\<close>

section \<open>Diagnostics\<close>

definition tail_of :: "nat \<Rightarrow> 'a list \<Rightarrow> 'a list" where
  "tail_of k xs = drop (length xs - k) xs"

lemma diagnostic_Write_tail:
  "snd (diagnostic_Write input (tail_of maxDaemonDiagnostics xs)) = tail_of maxDaemonDiagnostics (xs @ input)"
proof (cases "maxDaemonDiagnostics \<le> length input")
  case True
  then show ?thesis by (simp add: diagnostic_Write_def tail_of_def)
next
  case False
  let ?data = "tail_of maxDaemonDiagnostics xs"
  have "nat (int (length ?data) + int (length input) - int maxDaemonDiagnostics) = length ?data + length input - maxDaemonDiagnostics"
    by simp
  then have "snd (diagnostic_Write input ?data) = drop (length ?data + length input - maxDaemonDiagnostics) ?data @ input"
    using False by (simp add: diagnostic_Write_def Let_def)
  also have "length ?data + length input - maxDaemonDiagnostics + (length xs - maxDaemonDiagnostics) = length xs + length input - maxDaemonDiagnostics"
    using False by (simp add: tail_of_def)
  then have "drop (length ?data + length input - maxDaemonDiagnostics) ?data = drop (length xs + length input - maxDaemonDiagnostics) xs"
    by (simp add: tail_of_def)
  finally show ?thesis using False by (simp add: tail_of_def)
qed

text \<open>
  The diagnostics are the last 64 KiB of what the started server wrote, however its output is
  cut into writes: the buffer that is shifted and cut in place equals the end of the whole output.
\<close>

lemma diagnostics_exact:
  "foldl (\<lambda>data input. snd (diagnostic_Write input data)) [] inputs = drop (length (concat inputs) - maxDaemonDiagnostics) (concat inputs)"
proof -
  have "foldl (\<lambda>data input. snd (diagnostic_Write input data)) (tail_of maxDaemonDiagnostics xs) inputs = tail_of maxDaemonDiagnostics (xs @ concat inputs)" for xs
  proof (induction inputs arbitrary: xs)
    case (Cons input inputs)
    then show ?case using diagnostic_Write_tail by simp
  qed simp
  from this [of "[]"] show ?thesis by (simp add: tail_of_def)
qed

section \<open>Processes\<close>

text \<open>The calls of a managed client, the recovery inside of a call, and the exit of a process.\<close>

datatype client_op = DoEnsure bool spawn_env | DoRecover spawn_env | DoClose "go_error option" "go_error option" | DoExit nat

fun client_step :: "client_op \<Rightarrow> managedClient \<times> processes \<Rightarrow> (managedClient \<times> processes) option" where
  "client_step (DoEnsure ready E) (c, ps) = map_option snd (Ensure ready E c ps)"
| "client_step (DoRecover E) (c, ps) = map_option snd (spawnAndWait E c ps)"
| "client_step (DoClose signalErr waitErr) (c, ps) = Some (snd (client_Close signalErr waitErr c ps))"
| "client_step (DoExit p) (c, ps) = Some (c, ps\<lparr>mp_running := mp_running ps - {p}\<rparr>)"

fun client_run :: "client_op list \<Rightarrow> managedClient \<times> processes \<Rightarrow> (managedClient \<times> processes) option" where
  "client_run [] s = Some s"
| "client_run (op # ops) s = (case client_step op s of None \<Rightarrow> None | Some s' \<Rightarrow> client_run ops s')"

definition owned_running :: "managedClient \<times> processes \<Rightarrow> bool" where
  "owned_running s \<longleftrightarrow> (\<exists>p \<in> mp_running (snd s). mc_cmd (fst s) = Some p)"

text \<open>A server that the client owns and that runs answers on its socket.\<close>

fun answers :: "client_op \<Rightarrow> managedClient \<times> processes \<Rightarrow> bool" where
  "answers (DoEnsure ready E) s \<longleftrightarrow> ready \<or> sp_ready E \<or> \<not> owned_running s"
| "answers (DoRecover E) s \<longleftrightarrow> sp_ready E \<or> \<not> owned_running s"
| "answers _ s \<longleftrightarrow> True"

fun answering :: "client_op list \<Rightarrow> managedClient \<times> processes \<Rightarrow> bool" where
  "answering [] s \<longleftrightarrow> True"
| "answering (op # ops) s \<longleftrightarrow> answers op s \<and> (case client_step op s of None \<Rightarrow> True | Some s' \<Rightarrow> answering ops s')"

text \<open>Every process that runs is owned.\<close>

definition accounted :: "managedClient \<times> processes \<Rightarrow> bool" where
  "accounted s \<longleftrightarrow> mc_managed (fst s) \<and> mp_running (snd s) \<subseteq> set_option (mc_cmd (fst s))"

lemma spawnAndWait_accounted:
  assumes "spawnAndWait E c ps = Some (err, c', ps')" and "accounted (c, ps)" and "sp_ready E \<or> \<not> owned_running (c, ps)"
  shows "accounted (c', ps')"
proof (cases "sp_ready E")
  case True
  then show ?thesis using assms(1,2) by (simp add: spawnAndWait_def)
next
  case False
  then have "mp_running ps = {}" using assms(2,3) by (auto simp: accounted_def owned_running_def)
  then show ?thesis
    using assms(1,2) by (auto simp: spawnAndWait_def accounted_def Let_def split: if_splits option.splits bool.splits)
qed

lemma client_step_accounted:
  assumes "client_step op s = Some s'" and "accounted s" and "answers op s"
  shows "accounted s'"
proof -
  obtain c ps where s: "s = (c, ps)" by force
  show ?thesis
  proof (cases op)
    case (DoEnsure ready E)
    then show ?thesis using assms s spawnAndWait_accounted [of E c ps] by (auto simp: Ensure_def accounted_def split: if_splits)
  next
    case (DoRecover E)
    then show ?thesis using assms s spawnAndWait_accounted [of E c ps] by auto
  next
    case (DoClose signalErr waitErr)
    then show ?thesis using assms s by (auto simp: client_Close_def accounted_def split: if_splits option.splits)
  next
    case (DoExit p)
    then show ?thesis using assms s by (auto simp: accounted_def)
  qed
qed

lemma client_run_accounted:
  assumes "client_run ops s = Some s'" and "accounted s" and "answering ops s"
  shows "accounted s'"
  using assms
proof (induction ops s rule: client_run.induct)
  case (2 op ops s)
  then show ?case using client_step_accounted [of op s] by (auto split: option.splits)
qed simp

text \<open>
  C19. Closing a managed client stops every server that it started. For a new client and any sequence
  of its calls, of recoveries inside them and of exits of its processes, in which a running server of
  the client answers when the client asks: after a close whose signal could be sent, or was no longer
  needed, no process that the client ever started is running.
\<close>

theorem managed_no_leak:
  assumes "client_run ops (c0, ps0) = Some (c, ps)" and "mc_managed c0" and "mp_running ps0 = {}" and "answering ops (c0, ps0)"
    and "client_Close signalErr waitErr c ps = (err, c', ps')" and "case signalErr of None \<Rightarrow> True | Some e \<Rightarrow> errors_Is e ErrProcessDone"
  shows "mp_running ps' = {}"
proof -
  have "accounted (c0, ps0)" using assms(2,3) by (simp add: accounted_def)
  then have "accounted (c, ps)" using client_run_accounted [OF assms(1) _ assms(4)] by blast
  then show ?thesis using assms(5,6) by (auto simp: client_Close_def accounted_def split: option.splits if_splits)
qed

definition demo_client :: managedClient where
  "demo_client = \<lparr>mc_socket = ''/s'', mc_managed = True, mc_spawn = [], mc_env = [], mc_cmd = None\<rparr>"

definition demo_spawn :: spawn_env where
  "demo_spawn = \<lparr>sp_ready = False, sp_environ = [], sp_start = None, sp_turns = [Turn None False Tick, Turn None True Tick]\<rparr>"

theorem managed_no_leak_witness:
  "mp_running (snd (snd (client_Close None (Some (ExecExit (- 1) (Some ''terminated''))) (demo_client\<lparr>mc_cmd := Some 1\<rparr>)
     \<lparr>mp_running = {1}, mp_started = replicate 2 ([''ghostline'', ''serve'', ''--socket'', ''/s''], [])\<rparr>))) = {}"
proof -
  let ?ops = "[DoEnsure False demo_spawn, DoExit 0, DoRecover demo_spawn]"
  let ?c = "demo_client\<lparr>mc_cmd := Some 1\<rparr>" and ?ps = "\<lparr>mp_running = {1}, mp_started = replicate 2 ([''ghostline'', ''serve'', ''--socket'', ''/s''], [])\<rparr>"
  let ?s = "(demo_client, \<lparr>mp_running = {}, mp_started = []\<rparr>)"
  have "client_run ?ops ?s = Some (?c, ?ps)" "answering ?ops ?s"
    by (simp_all add: demo_client_def demo_spawn_def Ensure_def spawnAndWait_def mergeEnvironment_def spawn_args_def owned_running_def eval_nat_numeral)
  from managed_no_leak [OF this(1) _ _ this(2)] show ?thesis
    by (metis (no_types, lifting) demo_client_def managedClient.select_convs(2) option.simps(4) prod.collapse processes.select_convs(1))
qed

text \<open>
  The condition of \<open>managed_no_leak\<close> is needed: a client whose server runs but does not answer starts
  another one and forgets the first, which a close then leaves running.
\<close>

lemma respawn_forgets:
  "\<exists>c ps. client_run [DoEnsure False demo_spawn, DoEnsure False demo_spawn] (demo_client, \<lparr>mp_running = {}, mp_started = []\<rparr>) = Some (c, ps) \<and>
     mp_running (snd (snd (client_Close None None c ps))) = {0}"
  by (simp add: demo_client_def demo_spawn_def Ensure_def spawnAndWait_def mergeEnvironment_def client_Close_def)

end
