(* ===== verification/Minimux.thy ===== *)
theory Minimux
  imports Dispatch Query_Responder
begin

text \<open>
  The multiplexer \<^verbatim>\<open>examples/minimux\<close>: windows over sessions, one of them shown, with the commands
  behind the prefix key. The operations of the hub and of its sessions that it calls are a record
  of functions over a state; \<open>hub_mux\<close> fills it with the hub of this development. A window is a
  pointer in the program and has a number of its own here. The goroutines that read the output of
  a session are events, as are the other sources of the main loop.
\<close>

section \<open>The interface of the sessions\<close>

text \<open>A session is known by its address; \<open>mh_print\<close> writes to the terminal of the multiplexer.\<close>

record 'h mux_hub =
  mh_start :: "sessionOptions \<Rightarrow> 'h \<Rightarrow> (go_error + nat) \<times> 'h"
  mh_delete :: "nat \<Rightarrow> 'h \<Rightarrow> go_error option \<times> 'h"
  mh_output :: "nat \<Rightarrow> cursor \<Rightarrow> 'h \<Rightarrow> go_error option \<times> 'h"
  mh_closeReader :: "nat \<Rightarrow> 'h \<Rightarrow> go_error option \<times> 'h"
  mh_resize :: "nat \<Rightarrow> size \<Rightarrow> 'h \<Rightarrow> go_error option \<times> 'h"
  mh_checkpoint :: "nat \<Rightarrow> 'h \<Rightarrow> go_error + bytes \<times> cursor"
  mh_write :: "nat \<Rightarrow> bytes \<Rightarrow> 'h \<Rightarrow> go_error option \<times> 'h"
  mh_alive :: "nat \<Rightarrow> 'h \<Rightarrow> go_error + bool"
  mh_print :: "bytes \<Rightarrow> 'h \<Rightarrow> go_error option \<times> 'h"

definition simple_op ::
  "'t platform \<Rightarrow> 'w call_env \<Rightarrow> nat \<Rightarrow> session_op \<Rightarrow> ('t, 'w) server \<times> bytes \<Rightarrow> go_error option \<times> ('t, 'w) server \<times> bytes" where
  "simple_op P E a op h =
     (case local_op P E a op (fst h) of (r, _, srv) \<Rightarrow> (case r of Inl e \<Rightarrow> Some e | Inr _ \<Rightarrow> None, srv, snd h))"

definition hub_mux :: "'t platform \<Rightarrow> 'w call_env \<Rightarrow> (('t, 'w) server \<times> bytes) mux_hub" where
  "hub_mux P E =
     \<lparr>mh_start = (\<lambda>opts (srv, out).
        case hub_Start P (ce_ctx E) (ce_mkdirAll E) (ce_start E) opts (sv_hub srv) (sv_disk srv) of
          (r, h, d) \<Rightarrow> (r, srv\<lparr>sv_hub := h, sv_disk := d\<rparr>, out)),
      mh_delete = (\<lambda>a. simple_op P E a OpDelete),
      mh_output = (\<lambda>a from (srv, out).
        (case session_output (ce_ctx E) (ce_open E) (ce_segments E) from (h_states (sv_hub srv) ! a) (sv_disk srv) of
           Inl e \<Rightarrow> Some e | Inr _ \<Rightarrow> None, srv, out)),
      mh_closeReader = (\<lambda>a h. (None, h)),
      mh_resize = (\<lambda>a sz. simple_op P E a (OpResize sz)),
      mh_checkpoint = (\<lambda>a (srv, out).
        session_checkpoint P (ce_ctx E) (hub_current a (sv_hub srv)) (h_states (sv_hub srv) ! a)),
      mh_write = (\<lambda>a data. simple_op P E a (OpWriteInput data)),
      mh_alive = (\<lambda>a (srv, out).
        map_sum id Alive (session_status (ce_ctx E) (hub_current a (sv_hub srv)) (h_states (sv_hub srv) ! a))),
      mh_print = (\<lambda>data (srv, out). (None, srv, out @ data))\<rparr>"

section \<open>State\<close>

record window =
  w_id :: nat
  w_session :: nat
  w_name :: bytes
  w_reader :: bool
  w_responder :: queryResponder

record 'h minimux =
  mx_hub :: 'h
  mx_dir :: bytes
  mx_windows :: "window list"
  mx_current :: int
  mx_nextID :: nat
  mx_size :: size
  mx_prefix :: bool
  mx_active :: "nat option"

text \<open>How a function of the program ends; \<open>Panicked\<close> is an index out of range.\<close>

datatype outcome = Fine | Quit | Failed go_error | Panicked

definition outcome_of :: "go_error option \<Rightarrow> outcome" where
  "outcome_of err = (case err of None \<Rightarrow> Fine | Some e \<Rightarrow> Failed e)"

definition update_window :: "nat \<Rightarrow> (window \<Rightarrow> window) \<Rightarrow> 'h minimux \<Rightarrow> 'h minimux" where
  "update_window i f m = m\<lparr>mx_windows := map (\<lambda>w. if w_id w = i then f w else w) (mx_windows m)\<rparr>"

section \<open>Windows\<close>

text \<open>The two functions that stop and start the reader of a window.\<close>

definition stopOutput :: "'h mux_hub \<Rightarrow> window \<Rightarrow> 'h minimux \<Rightarrow> go_error option \<times> 'h minimux" where
  "stopOutput A w m =
     (let m1 = update_window (w_id w) (\<lambda>w. w\<lparr>w_reader := False\<rparr>) m in
      if w_reader w
      then (case mh_closeReader A (w_session w) (mx_hub m1) of (err, h) \<Rightarrow> (err, m1\<lparr>mx_hub := h\<rparr>))
      else (None, m1))"

definition prepareOutput :: "'h mux_hub \<Rightarrow> window \<Rightarrow> cursor \<Rightarrow> 'h minimux \<Rightarrow> go_error option \<times> 'h minimux" where
  "prepareOutput A w from m =
     (case mh_output A (w_session w) from (mx_hub m) of
        (Some e, h) \<Rightarrow> (Some e, m\<lparr>mx_hub := h\<rparr>)
      | (None, h) \<Rightarrow> (None, update_window (w_id w) (\<lambda>w. w\<lparr>w_reader := True\<rparr>) (m\<lparr>mx_hub := h\<rparr>)))"

definition window_process :: "bytes \<Rightarrow> bytes \<Rightarrow> processSpec" where
  "window_process dir command =
     (if command \<noteq> [] then (Shell command)\<lparr>Directory := dir\<rparr>
      else \<lparr>Path = [], Args = [], Directory = dir, Environment = [], ShellCommand = []\<rparr>)"

definition createWindow :: "'h mux_hub \<Rightarrow> bytes \<Rightarrow> 'h minimux \<Rightarrow> outcome \<times> 'h minimux" where
  "createWindow A command m =
     (let i = Suc (mx_nextID m); m1 = m\<lparr>mx_nextID := i\<rparr>; name = ''window-'' @ dec i in
      case mh_start A \<lparr>so_Name = name, so_Process = window_process (mx_dir m) command, so_Size = mx_size m, so_Scrollback = 0\<rparr> (mx_hub m) of
        (Inl e, h) \<Rightarrow> (Failed e, m1\<lparr>mx_hub := h\<rparr>)
      | (Inr a, h) \<Rightarrow>
          (case mh_output A a zero_cursor h of
             (Some e, h1) \<Rightarrow> (Failed e, m1\<lparr>mx_hub := snd (mh_delete A a h1)\<rparr>)
           | (None, h1) \<Rightarrow>
               (Fine, m1\<lparr>mx_hub := h1, mx_windows := mx_windows m @
                  [\<lparr>w_id = i, w_session = a, w_name = name, w_reader = True,
                    w_responder = Responder_Resize (Columns (mx_size m)) (Rows (mx_size m)) NewQueryResponder\<rparr>]\<rparr>)))"

text \<open>Go's remainder has the sign of the dividend.\<close>

definition go_rem :: "int \<Rightarrow> int \<Rightarrow> int" where
  "go_rem a b = (if a < 0 then - ((- a) mod b) else a mod b)"

definition switchTo :: "'h mux_hub \<Rightarrow> int \<Rightarrow> 'h minimux \<Rightarrow> outcome \<times> 'h minimux" where
  "switchTo A index m =
     (if mx_windows m = [] then (Failed (Plain ''no windows''), m)
      else
        (let i = go_rem (index + int (length (mx_windows m))) (int (length (mx_windows m))) in
         if i < 0 then (Panicked, m)
         else
           (let w = mx_windows m ! nat i in
            case stopOutput A w m of
              (Some e, m1) \<Rightarrow> (Failed e, m1)
            | (None, m1) \<Rightarrow>
                (case mh_resize A (w_session w) (mx_size m1) (mx_hub m1) of
                   (Some e, h) \<Rightarrow> (Failed e, m1\<lparr>mx_hub := h\<rparr>)
                 | (None, h) \<Rightarrow>
                     (case mh_checkpoint A (w_session w) h of
                        Inl e \<Rightarrow> (Failed e, m1\<lparr>mx_hub := h\<rparr>)
                      | Inr (replay, from) \<Rightarrow>
                          (case prepareOutput A w from (m1\<lparr>mx_hub := h\<rparr>) of
                             (Some e, m2) \<Rightarrow> (Failed e, m2)
                           | (None, m2) \<Rightarrow>
                               (case mh_print A (ESC # '']0;minimux:'' @ w_name w @ [BEL]) (mx_hub m2) of
                                  (titleErr, h1) \<Rightarrow>
                                    (case mh_print A replay h1 of
                                       (replayErr, h2) \<Rightarrow>
                                         (outcome_of (errors_Join [titleErr, replayErr]),
                                          m2\<lparr>mx_hub := h2, mx_active := Some (w_id w), mx_current := i\<rparr>)))))))))"

definition removeWindow :: "'h mux_hub \<Rightarrow> nat \<Rightarrow> 'h minimux \<Rightarrow> outcome \<times> 'h minimux" where
  "removeWindow A target m =
     (case find_index (\<lambda>w. w_id w = target) (mx_windows m) of
        None \<Rightarrow> (Fine, m)
      | Some index \<Rightarrow>
          (let w = mx_windows m ! index;
               m1 = m\<lparr>mx_active := (if mx_active m = Some target then None else mx_active m)\<rparr> in
           case stopOutput A w m1 of
             (Some e, m2) \<Rightarrow> (Failed e, m2)
           | (None, m2) \<Rightarrow>
               (case mh_delete A (w_session w) (mx_hub m2) of
                  (Some e, h) \<Rightarrow> (Failed e, m2\<lparr>mx_hub := h\<rparr>)
                | (None, h) \<Rightarrow>
                    (let ws = take index (mx_windows m2) @ drop (Suc index) (mx_windows m2);
                         m3 = m2\<lparr>mx_hub := h, mx_windows := ws\<rparr> in
                     if ws = [] then (Quit, m3\<lparr>mx_current := - 1\<rparr>)
                     else switchTo A (if length ws \<le> index then 0 else int index) m3))))"

section \<open>Input and output\<close>

definition commandPrefix :: byte where
  "commandPrefix = CHR 0x02"

text \<open>The closure \<^verbatim>\<open>flush\<close>: what is left to write, and the state.\<close>

definition flush :: "'h mux_hub \<Rightarrow> bytes \<Rightarrow> 'h minimux \<Rightarrow> outcome \<times> bytes \<times> 'h minimux" where
  "flush A plain m =
     (if plain = [] \<or> mx_current m < 0 then (Fine, plain, m)
      else if length (mx_windows m) \<le> nat (mx_current m) then (Panicked, plain, m)
      else (case mh_write A (w_session (mx_windows m ! nat (mx_current m))) plain (mx_hub m) of
        (err, h) \<Rightarrow> (outcome_of err, [], m\<lparr>mx_hub := h\<rparr>)))"

definition prefix_command :: "'h mux_hub \<Rightarrow> byte \<Rightarrow> 'h minimux \<Rightarrow> (outcome \<times> 'h minimux) option" where
  "prefix_command A c m =
     (if c = CHR ''c'' then
        Some (case createWindow A [] m of
          (Fine, m1) \<Rightarrow> switchTo A (int (length (mx_windows m1)) - 1) m1
        | r \<Rightarrow> r)
      else if c = CHR ''n'' then Some (switchTo A (mx_current m + 1) m)
      else if c = CHR ''p'' then Some (switchTo A (mx_current m - 1) m)
      else if c = CHR ''x'' then
        Some (if mx_current m < 0 \<or> length (mx_windows m) \<le> nat (mx_current m) then (Panicked, m)
              else removeWindow A (w_id (mx_windows m ! nat (mx_current m))) m)
      else if c = CHR ''q'' then Some (Quit, m)
      else None)"

fun input_loop :: "'h mux_hub \<Rightarrow> bytes \<Rightarrow> bytes \<Rightarrow> 'h minimux \<Rightarrow> outcome \<times> 'h minimux" where
  "input_loop A plain [] m = (case flush A plain m of (r, _, m1) \<Rightarrow> (r, m1))"
| "input_loop A plain (c # cs) m =
     (if \<not> mx_prefix m then
        (if c = commandPrefix then
           (case flush A plain m of
              (Fine, plain1, m1) \<Rightarrow> input_loop A plain1 cs (m1\<lparr>mx_prefix := True\<rparr>)
            | (r, _, m1) \<Rightarrow> (r, m1))
         else input_loop A (plain @ [c]) cs m)
      else
        (let m1 = m\<lparr>mx_prefix := False\<rparr> in
         if c = commandPrefix then input_loop A (plain @ [c]) cs m1
         else (case prefix_command A c m1 of
             Some (Fine, m2) \<Rightarrow> input_loop A plain cs m2
           | Some r \<Rightarrow> r
           | None \<Rightarrow> input_loop A (plain @ [commandPrefix, c]) cs m1)))"

definition handleInput :: "'h mux_hub \<Rightarrow> bytes \<Rightarrow> 'h minimux \<Rightarrow> outcome \<times> 'h minimux" where
  "handleInput A data m = input_loop A [] data m"

fun write_replies :: "'h mux_hub \<Rightarrow> nat \<Rightarrow> bytes list \<Rightarrow> 'h \<Rightarrow> go_error option \<times> 'h" where
  "write_replies A a [] h = (None, h)"
| "write_replies A a (reply # replies) h =
     (case mh_write A a reply h of (Some e, h1) \<Rightarrow> (Some e, h1) | (None, h1) \<Rightarrow> write_replies A a replies h1)"

text \<open>The responder of a window has no callback for colours.\<close>

definition handleOutput :: "'h mux_hub \<Rightarrow> window \<Rightarrow> bytes \<Rightarrow> 'h minimux \<Rightarrow> go_error option \<times> 'h minimux" where
  "handleOutput A w data m =
     (if mx_active m = Some (w_id w)
      then (case mh_print A data (mx_hub m) of (err, h) \<Rightarrow> (err, m\<lparr>mx_hub := h\<rparr>))
      else (case Feed id None data (w_responder w) of (replies, r) \<Rightarrow>
        (case write_replies A (w_session w) replies (mx_hub m) of (err, h) \<Rightarrow>
          (err, update_window (w_id w) (\<lambda>w. w\<lparr>w_responder := r\<rparr>) (m\<lparr>mx_hub := h\<rparr>)))))"

section \<open>Size\<close>

definition terminalSize :: "go_error + int \<times> int \<Rightarrow> go_error + size" where
  "terminalSize r = (case r of Inl e \<Rightarrow> Inl e
     | Inr (columns, rows) \<Rightarrow> Inr (if columns \<le> 0 \<or> rows \<le> 0 then Size 120 36 else Size columns rows))"

fun resize_windows :: "'h mux_hub \<Rightarrow> window list \<Rightarrow> 'h minimux \<Rightarrow> outcome \<times> 'h minimux" where
  "resize_windows A [] m = (Fine, m)"
| "resize_windows A (w # ws) m =
     (let sz = mx_size m;
          m1 = update_window (w_id w) (\<lambda>w. w\<lparr>w_responder := Responder_Resize (Columns sz) (Rows sz) (w_responder w)\<rparr>) m in
      case mh_resize A (w_session w) sz (mx_hub m1) of
        (None, h) \<Rightarrow> resize_windows A ws (m1\<lparr>mx_hub := h\<rparr>)
      | (Some e, h) \<Rightarrow>
          (case mh_alive A (w_session w) h of
             Inl statusErr \<Rightarrow> (outcome_of (errors_Join [Some e, Some statusErr]), m1\<lparr>mx_hub := h\<rparr>)
           | Inr alive \<Rightarrow>
               if alive then (Failed e, m1\<lparr>mx_hub := h\<rparr>) else resize_windows A ws (m1\<lparr>mx_hub := h\<rparr>)))"

definition mux_resize :: "'h mux_hub \<Rightarrow> go_error + int \<times> int \<Rightarrow> 'h minimux \<Rightarrow> outcome \<times> 'h minimux" where
  "mux_resize A term m =
     (case terminalSize term of Inl e \<Rightarrow> (Failed e, m)
      | Inr sz \<Rightarrow> resize_windows A (mx_windows m) (m\<lparr>mx_size := sz\<rparr>))"

section \<open>The main loop\<close>

datatype mux_event =
    Input bytes | InputFailed go_error | WindowExited nat | Reported go_error
  | WindowChange "go_error + int \<times> int" | Interrupted | OutputOf nat bytes

definition mux_step :: "'h mux_hub \<Rightarrow> mux_event \<Rightarrow> 'h minimux \<Rightarrow> outcome \<times> 'h minimux" where
  "mux_step A ev m =
     (case ev of
        Input data \<Rightarrow> handleInput A data m
      | InputFailed e \<Rightarrow> (if errors_Is e EOF then Quit else Failed e, m)
      | WindowExited i \<Rightarrow> removeWindow A i m
      | Reported e \<Rightarrow> (Failed e, m)
      | WindowChange term \<Rightarrow> mux_resize A term m
      | Interrupted \<Rightarrow> (Quit, m)
      | OutputOf i data \<Rightarrow>
          (case List.find (\<lambda>w. w_id w = i) (mx_windows m) of
             None \<Rightarrow> (Fine, m)
           | Some w \<Rightarrow> (case handleOutput A w data m of (err, m1) \<Rightarrow> (outcome_of err, m1))))"

fun mux_run :: "'h mux_hub \<Rightarrow> mux_event list \<Rightarrow> 'h minimux \<Rightarrow> outcome \<times> 'h minimux" where
  "mux_run A [] m = (Fine, m)"
| "mux_run A (ev # evs) m = (case mux_step A ev m of (Fine, m1) \<Rightarrow> mux_run A evs m1 | r \<Rightarrow> r)"

definition mux_start :: "'h mux_hub \<Rightarrow> bytes \<Rightarrow> bytes \<Rightarrow> size \<Rightarrow> 'h \<Rightarrow> outcome \<times> 'h minimux" where
  "mux_start A command dir sz h =
     (case createWindow A command \<lparr>mx_hub = h, mx_dir = dir, mx_windows = [], mx_current = - 1, mx_nextID = 0, mx_size = sz,
         mx_prefix = False, mx_active = None\<rparr> of
        (Fine, m) \<Rightarrow> switchTo A 0 m
      | r \<Rightarrow> r)"

fun stop_all :: "'h mux_hub \<Rightarrow> window list \<Rightarrow> 'h minimux \<Rightarrow> 'h minimux" where
  "stop_all A [] m = m"
| "stop_all A (w # ws) m = stop_all A ws (snd (stopOutput A w m))"

text \<open>\<^verbatim>\<open>shutdown\<close> up to the close of the hub.\<close>

definition shutdown :: "'h mux_hub \<Rightarrow> 'h minimux \<Rightarrow> 'h minimux" where
  "shutdown A m =
     (let m1 = m\<lparr>mx_active := None, mx_hub := snd (mh_print A (ESC # ''[0m'' @ ESC # ''[?25h'' @ [CHR 0x0D, CHR 0x0A]) (mx_hub m))\<rparr> in
      stop_all A (mx_windows m1) m1)"

end
