(* ===== verification/Minimux_Facts.thy ===== *)
theory Minimux_Facts
  imports Minimux
begin

text \<open>
  The multiplexer keeps a window on show through every event, and what it makes of its input does
  not depend on how the input arrives.
\<close>

section \<open>The windows\<close>

definition windows_wf :: "'h minimux \<Rightarrow> bool" where
  "windows_wf m \<longleftrightarrow> distinct (map w_id (mx_windows m)) \<and> (\<forall>w \<in> set (mx_windows m). w_id w \<le> mx_nextID m \<and> w_reader w)"

definition on_show :: "'h minimux \<Rightarrow> bool" where
  "on_show m \<longleftrightarrow> windows_wf m \<and> 0 \<le> mx_current m \<and> nat (mx_current m) < length (mx_windows m) \<and>
     mx_active m = Some (w_id (mx_windows m ! nat (mx_current m)))"

lemma update_window_simps [simp]:
  "mx_hub (update_window i f m) = mx_hub m" "mx_dir (update_window i f m) = mx_dir m" "mx_current (update_window i f m) = mx_current m"
  "mx_nextID (update_window i f m) = mx_nextID m" "mx_size (update_window i f m) = mx_size m" "mx_prefix (update_window i f m) = mx_prefix m"
  "mx_active (update_window i f m) = mx_active m" "length (mx_windows (update_window i f m)) = length (mx_windows m)"
  by (simp_all add: update_window_def)

lemma update_window_ids:
  "(\<And>w. w_id (f w) = w_id w) \<Longrightarrow> map w_id (mx_windows (update_window i f m)) = map w_id (mx_windows m)"
  by (simp add: update_window_def)

lemma update_window_on_show:
  assumes "on_show m" and "\<And>w. w_id (f w) = w_id w" and "\<And>w. w_reader (f w) = w_reader w"
  shows "on_show (update_window i f m)"
proof -
  have nth: "w_id (mx_windows (update_window i f m) ! k) = w_id (mx_windows m ! k)" if "k < length (mx_windows m)" for k
    using that assms(2) by (simp add: update_window_def)
  have "\<forall>w \<in> set (mx_windows (update_window i f m)). w_id w \<le> mx_nextID m \<and> w_reader w"
    using assms by (auto simp: on_show_def windows_wf_def update_window_def)
  then show ?thesis
    using assms(1) nth update_window_ids [OF assms(2), where i = i and m = m] by (simp add: on_show_def windows_wf_def)
qed

lemma on_show_hub [simp]: "on_show (m\<lparr>mx_hub := h\<rparr>) = on_show m" "on_show (m\<lparr>mx_prefix := b\<rparr>) = on_show m" "on_show (m\<lparr>mx_size := sz\<rparr>) = on_show m"
  by (simp_all add: on_show_def windows_wf_def)

lemma stopOutput_windows:
  assumes "stopOutput A w m = (r, m')"
  shows "mx_windows m' = map (\<lambda>x. if w_id x = w_id w then x\<lparr>w_reader := False\<rparr> else x) (mx_windows m)"
    and "mx_current m' = mx_current m" and "mx_nextID m' = mx_nextID m" and "mx_size m' = mx_size m" and "mx_prefix m' = mx_prefix m"
    and "mx_active m' = mx_active m"
  using assms by (auto simp: stopOutput_def Let_def update_window_def split: if_splits prod.splits)

lemma prepareOutput_windows:
  assumes "prepareOutput A w pos m = (None, m')"
  shows "mx_windows m' = map (\<lambda>x. if w_id x = w_id w then x\<lparr>w_reader := True\<rparr> else x) (mx_windows m)"
    and "mx_current m' = mx_current m" and "mx_nextID m' = mx_nextID m" and "mx_size m' = mx_size m" and "mx_prefix m' = mx_prefix m"
    and "mx_active m' = mx_active m"
  using assms by (auto simp: prepareOutput_def update_window_def split: option.splits prod.splits)

lemma output_prefix [simp]:
  "mx_prefix (snd (stopOutput A w m)) = mx_prefix m" "mx_prefix (snd (prepareOutput A w pos m)) = mx_prefix m"
  by (simp_all add: stopOutput_def prepareOutput_def Let_def split_beta split: option.splits)

lemma outcome_of_simps [simp]: "outcome_of err \<noteq> Panicked" "outcome_of err \<noteq> Quit" "outcome_of None = Fine" "outcome_of (Some e) = Failed e"
  by (simp_all add: outcome_of_def split: option.splits)

text \<open>Switching shows the window that is asked for, or fails.\<close>

lemma switchTo_index:
  assumes "mx_windows m \<noteq> []" and "- 1 \<le> index"
  shows "0 \<le> go_rem (index + int (length (mx_windows m))) (int (length (mx_windows m)))"
    "nat (go_rem (index + int (length (mx_windows m))) (int (length (mx_windows m)))) < length (mx_windows m)"
proof -
  have "0 < int (length (mx_windows m))" using assms(1) by simp
  moreover from this have "0 \<le> index + int (length (mx_windows m))" using assms(2) by linarith
  ultimately show "0 \<le> go_rem (index + int (length (mx_windows m))) (int (length (mx_windows m)))"
    "nat (go_rem (index + int (length (mx_windows m))) (int (length (mx_windows m)))) < length (mx_windows m)"
    by (simp_all add: go_rem_def nat_less_iff)
qed

lemma switchTo_prefix [simp]: "mx_prefix (snd (switchTo A index m)) = mx_prefix m"
  by (simp add: switchTo_def Let_def split_beta split: option.splits sum.splits)

lemma switchTo_on_show:
  assumes "switchTo A index m = (r, m')" and "windows_wf m" and "mx_windows m \<noteq> []" and "- 1 \<le> index"
  shows "r \<noteq> Panicked \<and> r \<noteq> Quit \<and> (r = Fine \<longrightarrow> on_show m')"
proof -
  let ?i = "go_rem (index + int (length (mx_windows m))) (int (length (mx_windows m)))"
  let ?w = "mx_windows m ! nat ?i"
  note i = switchTo_index [OF assms(3,4)]
  show ?thesis
  proof (cases "r = Fine")
    case False
    then show ?thesis using assms(1,3) i(1)
      by (auto simp: switchTo_def Let_def split: if_splits prod.splits option.splits sum.splits)
  next
    case True
    then obtain m1 h replay pos m2 h2 where stop: "stopOutput A ?w m = (None, m1)"
      and prep: "prepareOutput A ?w pos (m1\<lparr>mx_hub := h\<rparr>) = (None, m2)"
      and m': "m' = m2\<lparr>mx_hub := h2, mx_active := Some (w_id ?w), mx_current := ?i\<rparr>"
      using assms(1,3) i(1) by (auto simp: switchTo_def Let_def split: if_splits prod.splits option.splits sum.splits)
    have ws: "mx_windows m' = map (\<lambda>x. if w_id x = w_id ?w then x\<lparr>w_reader := True\<rparr> else x) (mx_windows m)"
      using stopOutput_windows(1) [OF stop] prepareOutput_windows(1) [OF prep] m' by (simp add: comp_def if_distrib cong: if_cong)
    then have "map w_id (mx_windows m') = map w_id (mx_windows m)" by simp
    then have "distinct (map w_id (mx_windows m'))" using assms(2) by (simp add: windows_wf_def)
    moreover have "mx_nextID m' = mx_nextID m" using stopOutput_windows(3) [OF stop] prepareOutput_windows(3) [OF prep] m' by simp
    then have "\<forall>w \<in> set (mx_windows m'). w_id w \<le> mx_nextID m' \<and> w_reader w" using ws assms(2) by (auto simp: windows_wf_def)
    moreover have "w_id (mx_windows m' ! nat ?i) = w_id ?w" "nat ?i < length (mx_windows m')" using ws i(2) by simp_all
    moreover have "mx_active m' = Some (w_id ?w)" "mx_current m' = ?i" using m' by simp_all
    ultimately show ?thesis using True i(1) by (simp add: on_show_def windows_wf_def)
  qed
qed

lemma createWindow_wf:
  assumes "createWindow A command m = (r, m')" and "windows_wf m"
  shows "r \<noteq> Panicked \<and> r \<noteq> Quit \<and> (r = Fine \<longrightarrow> windows_wf m' \<and> mx_windows m' \<noteq> [])"
proof -
  have "Suc (mx_nextID m) \<notin> w_id ` set (mx_windows m)" "\<forall>w \<in> set (mx_windows m). w_id w \<le> Suc (mx_nextID m)"
    using assms(2) by (auto simp: windows_wf_def le_SucI)
  then show ?thesis
    using assms by (auto simp: createWindow_def Let_def windows_wf_def split: prod.splits sum.splits option.splits)
qed

lemma createWindow_prefix [simp]: "mx_prefix (snd (createWindow A command m)) = mx_prefix m"
  by (simp add: createWindow_def Let_def split_beta split: option.splits sum.splits)

lemma removeWindow_on_show:
  assumes "removeWindow A target m = (r, m')" and "on_show m"
  shows "r \<noteq> Panicked \<and> (r = Fine \<longrightarrow> on_show m')"
proof (cases "find_index (\<lambda>w. w_id w = target) (mx_windows m)")
  case None
  then show ?thesis using assms by (auto simp: removeWindow_def)
next
  case (Some index)
  let ?w = "mx_windows m ! index"
  let ?m1 = "m\<lparr>mx_active := (if mx_active m = Some target then None else mx_active m)\<rparr>"
  from Some have index: "index < length (mx_windows m)" "w_id ?w = target" by (auto simp: find_index_Some)
  obtain e m2 where stop: "stopOutput A ?w ?m1 = (e, m2)" by force
  obtain e' h where delete: "mh_delete A (w_session ?w) (mx_hub m2) = (e', h)" by force
  let ?ws = "take index (mx_windows m2) @ drop (Suc index) (mx_windows m2)"
  let ?m3 = "m2\<lparr>mx_hub := h, mx_windows := ?ws\<rparr>"
  have wf: "windows_wf ?m3"
  proof -
    have ids: "map w_id (mx_windows m2) = map w_id (mx_windows m)" using stopOutput_windows(1) [OF stop] by simp
    then have dist: "distinct (map w_id (mx_windows m2))" using assms(2) by (simp add: on_show_def windows_wf_def)
    have "mx_windows m2 = take index (mx_windows m2) @ mx_windows m2 ! index # drop (Suc index) (mx_windows m2)"
      using index(1) ids by (metis id_take_nth_drop length_map)
    then have split: "map w_id (mx_windows m2) = map w_id (take index (mx_windows m2)) @ w_id (mx_windows m2 ! index) # map w_id (drop (Suc index) (mx_windows m2))"
      by (metis list.simps(9) map_append)
    have target: "w_id (mx_windows m2 ! index) = target" using ids index by (metis length_map nth_map)
    have "distinct (map w_id ?ws)" and out: "target \<notin> w_id ` set ?ws" using dist split target by auto
    moreover have "w_id w \<le> mx_nextID m2 \<and> w_reader w" if "w \<in> set ?ws" for w
    proof -
      have "w \<in> set (mx_windows m2)" "w_id w \<noteq> target" using that out by (auto dest: in_set_takeD in_set_dropD)
      then show ?thesis
        using assms(2) stopOutput_windows(1,3) [OF stop] index(2) by (auto simp: on_show_def windows_wf_def split: if_splits)
    qed
    ultimately show ?thesis by (simp add: windows_wf_def)
  qed
  have run: "(r, m') = (case e of Some e \<Rightarrow> (Failed e, m2)
     | None \<Rightarrow> (case e' of Some e \<Rightarrow> (Failed e, m2\<lparr>mx_hub := h\<rparr>)
       | None \<Rightarrow> if ?ws = [] then (Quit, ?m3\<lparr>mx_current := - 1\<rparr>)
           else switchTo A (if length ?ws \<le> index then 0 else int index) ?m3))"
    using assms(1) Some stop delete unfolding removeWindow_def Let_def by (cases e; cases e') simp_all
  then consider f x where "(r, m') = (Failed f, x)" | "r = Quit"
    | "(r, m') = switchTo A (if length ?ws \<le> index then 0 else int index) ?m3" "?ws \<noteq> []"
    by (auto split: option.splits if_splits)
  then show ?thesis
  proof cases
    case 3
    then show ?thesis using switchTo_on_show [OF 3(1) [symmetric] wf] by simp
  qed auto
qed

section \<open>The events\<close>

lemma flush_on_show:
  assumes "on_show m"
  shows "flush A plain m =
    (if plain = [] then (Fine, [], m)
     else (case mh_write A (w_session (mx_windows m ! nat (mx_current m))) plain (mx_hub m) of
       (err, h) \<Rightarrow> (outcome_of err, [], m\<lparr>mx_hub := h\<rparr>)))"
  using assms by (simp add: flush_def on_show_def)

lemma prefix_command_on_show:
  assumes "prefix_command A c m = Some (r, m')" and "on_show m"
  shows "r \<noteq> Panicked \<and> (r = Fine \<longrightarrow> on_show m')"
proof -
  have wf: "windows_wf m" "mx_windows m \<noteq> []" "- 1 \<le> mx_current m + 1" "- 1 \<le> mx_current m - 1" using assms(2) by (auto simp: on_show_def)
  obtain r1 m1 where create: "createWindow A [] m = (r1, m1)" by force
  note create_wf = createWindow_wf [OF create wf(1)]
  consider "r1 = Fine" "switchTo A (int (length (mx_windows m1)) - 1) m1 = (r, m')" | "r1 \<noteq> Fine" "r = r1"
    | "switchTo A (mx_current m + 1) m = (r, m')" | "switchTo A (mx_current m - 1) m = (r, m')"
    | i where "removeWindow A i m = (r, m')" | "r = Quit"
    using assms create by (cases r1) (auto simp: prefix_command_def on_show_def split: if_splits)
  then show ?thesis
  proof cases
    case 1
    then show ?thesis using create_wf switchTo_on_show [OF 1(2)] by simp
  next
    case 3
    then show ?thesis using switchTo_on_show [OF 3 wf(1-3)] by simp
  next
    case 4
    then show ?thesis using switchTo_on_show [OF 4 wf(1,2,4)] by simp
  next
    case 5
    then show ?thesis using removeWindow_on_show [OF 5 assms(2)] by simp
  qed (use create_wf in auto)
qed

lemma input_loop_on_show:
  assumes "input_loop A plain data m = (r, m')" and "on_show m"
  shows "r \<noteq> Panicked \<and> (r = Fine \<longrightarrow> on_show m')"
  using assms
proof (induction data arbitrary: plain m)
  case Nil
  then show ?case by (auto simp: flush_on_show split: if_splits prod.splits)
next
  case (Cons c data)
  show ?case
  proof (cases "mx_prefix m")
    case False
    show ?thesis
    proof (cases "c = commandPrefix")
      case True
      obtain r1 p1 m1 where flush: "flush A plain m = (r1, p1, m1)" by (metis surj_pair)
      then have r1: "r1 \<noteq> Panicked" "on_show m1" using Cons.prems(2) by (auto simp: flush_on_show split: if_splits prod.splits)
      show ?thesis
      proof (cases "r1 = Fine")
        case True
        then show ?thesis
          using Cons.IH [of p1 "m1\<lparr>mx_prefix := True\<rparr>"] Cons.prems(1) False \<open>c = commandPrefix\<close> flush r1 by simp
      next
        case False
        then show ?thesis using Cons.prems \<open>\<not> mx_prefix m\<close> \<open>c = commandPrefix\<close> flush r1 by (cases r1) auto
      qed
    qed (use Cons False in auto)
  next
    case True
    let ?m1 = "m\<lparr>mx_prefix := False\<rparr>"
    have m1: "on_show ?m1" using Cons.prems(2) by simp
    show ?thesis
    proof (cases "c = commandPrefix")
      case False
      show ?thesis
      proof (cases "prefix_command A c ?m1")
        case (Some res)
        obtain r2 m2 where res: "res = (r2, m2)" by force
        note ok = prefix_command_on_show [OF Some [unfolded res] m1]
        show ?thesis using Cons.prems(1) Cons.IH [of plain m2] True False Some res ok by (cases r2) auto
      qed (use Cons True False m1 in auto)
    qed (use Cons True m1 in auto)
  qed
qed

lemma resize_windows_on_show:
  "resize_windows A ws m = (r, m') \<Longrightarrow> on_show m \<Longrightarrow> r \<noteq> Panicked \<and> r \<noteq> Quit \<and> (r = Fine \<longrightarrow> on_show m')"
proof (induction ws arbitrary: m)
  case (Cons w ws)
  let ?m1 = "update_window (w_id w) (\<lambda>x. x\<lparr>w_responder := Responder_Resize (Columns (mx_size m)) (Rows (mx_size m)) (w_responder x)\<rparr>) m"
  have "on_show ?m1" using Cons.prems(2) by (rule update_window_on_show) simp_all
  then show ?case
    using Cons.prems(1) Cons.IH by (auto simp: Let_def split: prod.splits option.splits sum.splits if_splits)
qed simp

lemma mux_step_on_show:
  assumes "mux_step A ev m = (r, m')" and "on_show m"
  shows "r \<noteq> Panicked \<and> (r = Fine \<longrightarrow> on_show m')"
proof (cases ev)
  case (Input data)
  then show ?thesis using assms input_loop_on_show by (simp add: mux_step_def handleInput_def)
next
  case (WindowExited i)
  then show ?thesis using assms removeWindow_on_show by (simp add: mux_step_def)
next
  case (WindowChange t)
  then show ?thesis using assms resize_windows_on_show [of A "mx_windows m" "m\<lparr>mx_size := sz\<rparr>" r m' for sz]
    by (auto simp: mux_step_def mux_resize_def split: sum.splits)
next
  case (OutputOf i data)
  then show ?thesis
    using assms update_window_on_show [of "m\<lparr>mx_hub := h\<rparr>" "\<lambda>w. w\<lparr>w_responder := q\<rparr>" for h q]
    by (auto simp: mux_step_def handleOutput_def outcome_of_def split: option.splits prod.splits if_splits)
qed (use assms in \<open>auto simp: mux_step_def split: if_splits\<close>)

text \<open>
  C20. The multiplexer always shows one of its windows. After a start that succeeds, and any sequence
  of input, output, changes of the terminal, exits of sessions and failures after which the program
  goes on, the current index is that of a window, this window is the one that is shown, and the
  output of every window is read; and no event makes the program index a window that is not there.
\<close>

theorem mux_shows_window:
  assumes "mux_start A command dir sz h = (Fine, m)"
  shows "case mux_run A evs m of (r, m') \<Rightarrow> r \<noteq> Panicked \<and> (r = Fine \<longrightarrow> on_show m')"
proof -
  let ?m0 = "\<lparr>mx_hub = h, mx_dir = dir, mx_windows = [], mx_current = - 1, mx_nextID = 0, mx_size = sz, mx_prefix = False, mx_active = None\<rparr>"
  obtain r1 m1 where create: "createWindow A command ?m0 = (r1, m1)" by force
  have "windows_wf ?m0" by (simp add: windows_wf_def)
  note create_wf = createWindow_wf [OF create this]
  have "r1 = Fine" and "switchTo A 0 m1 = (Fine, m)" using assms create by (cases r1; simp add: mux_start_def)+
  then have "on_show m" using create_wf switchTo_on_show [of A 0 m1 Fine m] by simp
  then show ?thesis
  proof (induction evs arbitrary: m)
    case (Cons ev evs)
    obtain r1 m1 where step: "mux_step A ev m = (r1, m1)" by force
    then show ?case using Cons.IH [of m1] mux_step_on_show [OF step Cons.prems] by (cases r1) auto
  qed simp
qed

definition demo_window :: window where
  "demo_window = \<lparr>w_id = 1, w_session = 0, w_name = ''window-1'', w_reader = True, w_responder = Responder_Resize 80 24 NewQueryResponder\<rparr>"

definition demo_mux :: "'h \<Rightarrow> 'h minimux" where
  "demo_mux h = \<lparr>mx_hub = h, mx_dir = ''/'', mx_windows = [demo_window], mx_current = 0, mx_nextID = 1, mx_size = Size 80 24,
     mx_prefix = False, mx_active = Some 1\<rparr>"

text \<open>Sessions that always succeed, over the text that was typed into each.\<close>

definition calm_hub :: "(nat \<Rightarrow> bytes) mux_hub" where
  "calm_hub = \<lparr>mh_start = (\<lambda>_ h. (Inr 0, h)), mh_delete = (\<lambda>_ h. (None, h)), mh_output = (\<lambda>_ _ h. (None, h)), mh_closeReader = (\<lambda>_ h. (None, h)),
     mh_resize = (\<lambda>_ _ h. (None, h)), mh_checkpoint = (\<lambda>_ _. Inr ([], zero_cursor)), mh_write = (\<lambda>a data h. (None, h(a := h a @ data))),
     mh_alive = (\<lambda>_ _. Inr True), mh_print = (\<lambda>_ h. (None, h))\<rparr>"

lemma calm_start: "mux_start calm_hub [] ''/'' (Size 80 24) h = (Fine, demo_mux h)"
  by (simp add: mux_start_def createWindow_def switchTo_def stopOutput_def prepareOutput_def update_window_def calm_hub_def demo_mux_def
      demo_window_def go_rem_def errors_Join_def Let_def dec.simps digit_char_def char_of_digit)

theorem mux_shows_window_witness:
  "\<forall>h. case mux_run calm_hub [Input [CHR 0x02, CHR ''c''], WindowExited 1, Input [CHR 0x02, CHR ''p'']] (demo_mux h) of (r, m') \<Rightarrow> r \<noteq> Panicked \<and> (r = Fine \<longrightarrow> on_show m')"
  by (intro allI mux_shows_window [OF calm_start])

section \<open>Input in pieces\<close>

text \<open>The input of a session is a stream: writing two pieces is writing them together.\<close>

locale typed_streams =
  fixes A :: "'h mux_hub"
  assumes write_append: "a \<noteq> [] \<Longrightarrow> b \<noteq> [] \<Longrightarrow>
    mh_write A n (a @ b) h = (case mh_write A n a h of (Some e, h1) \<Rightarrow> (Some e, h1) | (None, h1) \<Rightarrow> mh_write A n b h1)"
begin

definition flushed :: "bytes \<Rightarrow> 'h minimux \<Rightarrow> outcome \<times> 'h minimux" where
  "flushed plain m = (case flush A plain m of (r, _, m1) \<Rightarrow> (r, m1))"

fun each_byte :: "bytes \<Rightarrow> 'h minimux \<Rightarrow> outcome \<times> 'h minimux" where
  "each_byte [] m = (Fine, m)"
| "each_byte (c # cs) m = (case handleInput A [c] m of (Fine, m1) \<Rightarrow> each_byte cs m1 | r \<Rightarrow> r)"

lemma flushed_Nil: "flushed [] m = (Fine, m)"
  by (simp add: flushed_def flush_def)

lemma flushed_shape:
  assumes "on_show m" and "flushed plain m = (r, m1)"
  shows "on_show m1 \<and> mx_prefix m1 = mx_prefix m"
  using assms by (auto simp: flushed_def flush_on_show split: if_splits prod.splits)

lemma flushed_append:
  assumes "on_show m" and "b \<noteq> []"
  shows "flushed (a @ b) m = (case flushed a m of (Fine, m1) \<Rightarrow> flushed b m1 | r \<Rightarrow> r)"
proof (cases "a = []")
  case True
  then show ?thesis by (simp add: flushed_Nil)
next
  case False
  obtain err h where w: "mh_write A (w_session (mx_windows m ! nat (mx_current m))) a (mx_hub m) = (err, h)" by force
  have "on_show (m\<lparr>mx_hub := h\<rparr>)" using assms(1) by simp
  then show ?thesis using assms False w
    by (cases err) (simp_all add: flushed_def flush_on_show write_append)
qed

lemma input_loop_each:
  assumes "on_show m" and "mx_prefix m \<Longrightarrow> plain = []"
  shows "input_loop A plain data m = (case flushed plain m of (Fine, m1) \<Rightarrow> each_byte data m1 | r \<Rightarrow> r)"
  using assms
proof (induction data arbitrary: plain m)
  case Nil
  then show ?case by (auto simp: flushed_def split: prod.splits outcome.splits)
next
  case (Cons c data)
  show ?case
  proof (cases "mx_prefix m")
    case False
    obtain r1 m1 where fl: "flushed plain m = (r1, m1)" by force
    note m1 = flushed_shape [OF Cons.prems(1) fl]
    show ?thesis
    proof (cases "c = commandPrefix")
      case True
      have "input_loop A [] data (m1\<lparr>mx_prefix := True\<rparr>) = each_byte data (m1\<lparr>mx_prefix := True\<rparr>)"
        using Cons.IH [of "m1\<lparr>mx_prefix := True\<rparr>" "[]"] m1 by (simp add: flushed_Nil)
      moreover obtain q where "flush A plain m = (r1, q, m1)" "r1 = Fine \<Longrightarrow> q = []"
        using fl Cons.prems(1) by (auto simp: flushed_def flush_on_show split: if_splits prod.splits)
      moreover have "handleInput A [c] m1 = (Fine, m1\<lparr>mx_prefix := True\<rparr>)"
        using True m1 False by (simp add: handleInput_def flush_def)
      ultimately show ?thesis using True False fl by (cases r1) simp_all
    next
      case other: False
      have "input_loop A (plain @ [c]) data m = (case flushed (plain @ [c]) m of (Fine, m1) \<Rightarrow> each_byte data m1 | r \<Rightarrow> r)"
        using Cons.IH [OF Cons.prems(1), of "plain @ [c]"] False by simp
      moreover have "handleInput A [c] m1 = flushed [c] m1" using other m1 False by (simp add: handleInput_def flushed_def)
      ultimately show ?thesis
        using False other fl flushed_append [OF Cons.prems(1), of "[c]" plain] by (cases r1) simp_all
    qed
  next
    case True
    then have plain: "plain = []" using Cons.prems(2) by simp
    let ?m1 = "m\<lparr>mx_prefix := False\<rparr>"
    have m1: "on_show ?m1" "\<not> mx_prefix ?m1" using Cons.prems(1) by simp_all
    have typed: "input_loop A p data ?m1 = (case flushed p ?m1 of (Fine, m1) \<Rightarrow> each_byte data m1 | r \<Rightarrow> r)" for p
      using Cons.IH [OF m1(1)] m1(2) by blast
    show ?thesis
    proof (cases "c = commandPrefix")
      case True
      then show ?thesis using plain typed [of "[c]"] \<open>mx_prefix m\<close> by (simp add: handleInput_def flushed_Nil) (simp add: flushed_def)
    next
      case False
      show ?thesis
      proof (cases "prefix_command A c ?m1")
        case None
        then show ?thesis using plain typed [of "[commandPrefix, c]"] True False by (simp add: handleInput_def flushed_Nil) (simp add: flushed_def)
      next
        case (Some res)
        obtain r2 m2 where res: "res = (r2, m2)" by force
        have "input_loop A [] data m2 = each_byte data m2" if "r2 = Fine"
          using Cons.IH [of m2 "[]"] prefix_command_on_show [OF Some [unfolded res] m1(1)] that by (simp add: flushed_Nil)
        moreover have "flush A [] m2 = (Fine, [], m2)" by (simp add: flush_def)
        ultimately show ?thesis using plain True False Some res by (cases r2) (simp_all add: handleInput_def flushed_Nil)
      qed
    qed
  qed
qed

lemma handleInput_each: "on_show m \<Longrightarrow> handleInput A data m = each_byte data m"
  using input_loop_each [of m "[]" data] by (simp add: handleInput_def flushed_Nil)

lemma each_byte_append: "each_byte (a @ b) m = (case each_byte a m of (Fine, m1) \<Rightarrow> each_byte b m1 | r \<Rightarrow> r)"
  by (induction a arbitrary: m) (auto split: prod.splits outcome.splits)

lemma handleInput_append:
  assumes "on_show m"
  shows "handleInput A (a @ b) m = (case handleInput A a m of (Fine, m1) \<Rightarrow> handleInput A b m1 | r \<Rightarrow> r)"
proof -
  obtain r m1 where a: "handleInput A a m = (r, m1)" by force
  then have "r = Fine \<Longrightarrow> on_show m1" using input_loop_on_show [of A "[]" a m r m1] assms by (simp add: handleInput_def)
  then show ?thesis using a each_byte_append [of a b m] by (cases r) (simp_all add: handleInput_each assms flip: handleInput_each)
qed

end

text \<open>The sessions of the hub, with a PTY that takes all that is written to it.\<close>

definition stream_writer :: "bytes \<Rightarrow> bytes \<Rightarrow> (nat \<times> go_error option) \<times> bytes" where
  "stream_writer pty data = ((length data, None), pty @ data)"

lemma write_stream: "writeFull stream_writer pty data = (None, pty @ data)"
  by (cases data) (simp_all add: writeFull.simps stream_writer_def)

abbreviation streamed :: "bytes call_env \<Rightarrow> bytes call_env" where
  "streamed E \<equiv> E\<lparr>ce_writer := stream_writer\<rparr>"

interpretation typed: typed_streams "hub_mux P (streamed E)"
proof
  fix a b :: bytes and n and h :: "('a, bytes) server \<times> bytes"
  assume "a \<noteq> []" "b \<noteq> []"
  then show "mh_write (hub_mux P (streamed E)) n (a @ b) h =
    (case mh_write (hub_mux P (streamed E)) n a h of (Some e, h1) \<Rightarrow> (Some e, h1) | (None, h1) \<Rightarrow> mh_write (hub_mux P (streamed E)) n b h1)"
    by (cases "ce_ctx E") (auto simp: hub_mux_def simple_op_def session_writeInput_def nothing_or_def write_stream)
qed

text \<open>
  C21. What the multiplexer makes of the keys does not depend on how they arrive: typing \<open>a\<close> and
  then \<open>b\<close> has the same effect on the windows, on the sessions of the hub with all that is typed into each, and on the
  screen as typing both at once, also when a piece ends behind the prefix key, or when a command in
  the middle changes the window, fails or quits. The PTY of a session takes all that is written
  to it.
\<close>

theorem input_pieces:
  assumes "on_show m"
  shows "handleInput (hub_mux P (streamed E)) (a @ b) m =
    (case handleInput (hub_mux P (streamed E)) a m of (Fine, m1) \<Rightarrow> handleInput (hub_mux P (streamed E)) b m1 | r \<Rightarrow> r)"
  by (rule typed.handleInput_append [OF assms])

theorem input_pieces_witness:
  "\<forall>(P :: bytes platform) E h. handleInput (hub_mux P (streamed E)) ([CHR ''l'', CHR 0x02] @ [CHR ''c'', CHR ''s'']) (demo_mux h) =
    (case handleInput (hub_mux P (streamed E)) [CHR ''l'', CHR 0x02] (demo_mux h) of
       (Fine, m1) \<Rightarrow> handleInput (hub_mux P (streamed E)) [CHR ''c'', CHR ''s''] m1 | r \<Rightarrow> r)"
proof (intro allI)
  fix P :: "bytes platform" and E and h :: "(bytes, bytes) server \<times> bytes"
  have "on_show (demo_mux h)" by (simp add: on_show_def windows_wf_def demo_mux_def demo_window_def)
  from input_pieces [OF this] show "handleInput (hub_mux P (streamed E)) ([CHR ''l'', CHR 0x02] @ [CHR ''c'', CHR ''s'']) (demo_mux h) =
    (case handleInput (hub_mux P (streamed E)) [CHR ''l'', CHR 0x02] (demo_mux h) of
       (Fine, m1) \<Rightarrow> handleInput (hub_mux P (streamed E)) [CHR ''c'', CHR ''s''] m1 | r \<Rightarrow> r)" .
qed

end
