(* ===== verification/Foreground.thy ===== *)
theory Foreground
  imports Session
begin

text \<open>
  The foreground process of a session on Linux (\<^verbatim>\<open>metadata_linux.go\<close>): the process group of the
  terminal, a process of that group, and its name and command line from \<^verbatim>\<open>/proc\<close>. The contents of the
  files and directories are inputs.
\<close>

section \<open>Library functions\<close>

text \<open>\<^verbatim>\<open>strings.Fields\<close>; the first argument is the field that is being read.\<close>

function fields_from :: "bytes \<Rightarrow> bytes \<Rightarrow> bytes list" where
  "fields_from field s =
     (case s of [] \<Rightarrow> if field = [] then [] else [field]
      | c # cs \<Rightarrow>
          (case leading space_encodings s of
             Some e \<Rightarrow> (if field = [] then [] else [field]) @ fields_from [] (drop (length e) s)
           | None \<Rightarrow> fields_from (field @ [c]) cs))"
  by pat_completeness auto
termination
  by (relation "measure (\<lambda>(field, s). length s)") (auto dest: leading_shorter)

declare fields_from.simps [simp del]

abbreviation Fields :: "bytes \<Rightarrow> bytes list" where
  "Fields \<equiv> fields_from []"

text \<open>\<^verbatim>\<open>strconv.Atoi\<close> with its value also in the case of an error.\<close>

definition Atoi :: "bytes \<Rightarrow> int \<times> bool" where
  "Atoi s =
     (let neg = (s \<noteq> [] \<and> hd s = CHR ''-'');
          digits = (if s \<noteq> [] \<and> hd s \<in> {CHR ''-'', CHR ''+''} then tl s else s) in
      case (if digits = [] then None else parse_digits 10 0 digits) of
        None \<Rightarrow> (0, False)
      | Some n \<Rightarrow>
          if \<not> neg \<and> int n \<ge> 2 ^ 63 then (2 ^ 63 - 1, False)
          else if neg \<and> int n > 2 ^ 63 then (- (2 ^ 63), False)
          else (if neg then - int n else int n, True))"

definition LastIndexByte :: "bytes \<Rightarrow> byte \<Rightarrow> nat option" where
  "LastIndexByte s c = map_option (\<lambda>i. length s - 1 - i) (IndexByte (rev s) c)"

section \<open>The files of a process\<close>

definition statPgrp :: "bytes \<Rightarrow> int" where
  "statPgrp stat =
     (case LastIndexByte stat CHR '')'' of None \<Rightarrow> 0
      | Some i \<Rightarrow>
          (let rest = Fields (drop (Suc i) stat) in
           if length rest < 3 then 0 else fst (Atoi (rest ! 2))))"

definition formatCmdline :: "bytes \<Rightarrow> bytes" where
  "formatCmdline raw =
     (let raw' = TrimRight raw [NUL] in
      if raw' = [] then [] else Join (filter (\<lambda>part. part \<noteq> []) (Split raw' NUL)) '' '')"

text \<open>
  A directory entry has its name, whether it is a directory, the state of the context when it is looked at, and the
  result of reading its \<^verbatim>\<open>stat\<close>.
\<close>

record proc_entry =
  pe_name :: bytes
  pe_isDir :: bool
  pe_ctx :: "go_error option"
  pe_stat :: "go_error + bytes"

fun scan_proc :: "int \<Rightarrow> proc_entry list \<Rightarrow> go_error + int" where
  "scan_proc pgrp [] = Inl (Plain (''no process for foreground process group '' @ Itoa pgrp))"
| "scan_proc pgrp (entry # entries) =
     (case pe_ctx entry of Some e \<Rightarrow> Inl e
      | None \<Rightarrow>
          if \<not> pe_isDir entry then scan_proc pgrp entries
          else (case Atoi (pe_name entry) of
              (_, False) \<Rightarrow> scan_proc pgrp entries
            | (pid, True) \<Rightarrow>
                (case pe_stat entry of Inl _ \<Rightarrow> scan_proc pgrp entries
                 | Inr stat \<Rightarrow> if statPgrp stat \<noteq> pgrp then scan_proc pgrp entries else Inr pid)))"

definition processIDForGroup :: "go_error + bytes \<Rightarrow> go_error option \<Rightarrow> go_error + proc_entry list \<Rightarrow> int \<Rightarrow> go_error + int" where
  "processIDForGroup leader ctx entries pgrp =
     (if (case leader of Inl _ \<Rightarrow> False | Inr stat \<Rightarrow> statPgrp stat = pgrp) then Inr pgrp
      else (case ctx of Some e \<Rightarrow> Inl e
        | None \<Rightarrow> (case entries of Inl e \<Rightarrow> Inl e | Inr es \<Rightarrow> scan_proc pgrp es)))"

definition probeForegroundFD ::
  "go_error + int \<Rightarrow> (int \<Rightarrow> go_error + bytes) \<Rightarrow> go_error option \<Rightarrow> go_error + proc_entry list \<Rightarrow> (int \<Rightarrow> go_error + bytes) \<Rightarrow>
   (int \<Rightarrow> go_error + bytes) \<Rightarrow> go_error + sessionMetadata" where
  "probeForegroundFD ioctl stat ctx entries comm cmdline =
     (case ioctl of Inl e \<Rightarrow> Inl e
      | Inr pgrp \<Rightarrow> (case processIDForGroup (stat pgrp) ctx entries pgrp of Inl e \<Rightarrow> Inl e
      | Inr pid \<Rightarrow> (case comm pid of Inl e \<Rightarrow> Inl e
      | Inr name \<Rightarrow>
          Inr \<lparr>md_Process = TrimSpace name,
               md_CommandLine = formatCmdline (case cmdline pid of Inl _ \<Rightarrow> [] | Inr b \<Rightarrow> b),
               md_Directory = [], md_Shell = None\<rparr>)))"

section \<open>The stat file\<close>

lemma fields_word:
  assumes "list_all printable w"
  shows "fields_from field (w @ s) = fields_from (field @ w) s"
  using assms
proof (induction w arbitrary: field)
  case (Cons c w)
  then show ?case using leading_printable(1) [of "c # w @ s"] by (subst fields_from.simps) simp
qed simp

lemma fields_space: "fields_from field (CHR '' '' # s) = (if field = [] then [] else [field]) @ Fields s"
  by (subst fields_from.simps) (simp add: leading_def space_encodings_def)

lemma fields_words:
  assumes "list_all printable w" and "w \<noteq> []"
  shows "Fields (w @ CHR '' '' # s) = w # Fields s"
  using fields_word [OF assms(1), of "[]"] assms(2) by (simp add: fields_space)

lemma printable_dec: "list_all printable (dec n)"
proof (unfold list_all_iff, intro ballI)
  fix c
  assume "c \<in> set (dec n)"
  then have "CHR ''0'' \<le> c \<and> c \<le> CHR ''9''" by (rule set_dec)
  then show "printable c" by (auto simp: printable_def less_eq_char_def)
qed

lemma LastIndexByte_append: "c \<notin> set b \<Longrightarrow> LastIndexByte (a @ c # b) c = Some (length a)"
  using IndexByte_append_notin [of c "rev b" "rev a"] by (simp add: LastIndexByte_def)

lemma drop_after: "drop (Suc (length a)) (a @ c # b) = b"
  by simp

lemma Atoi_dec: "n < 2 ^ 63 \<Longrightarrow> Atoi (dec n) = (int n, True)"
proof -
  assume "n < 2 ^ 63"
  moreover have "hd (dec n) \<in> set (dec n)" by simp
  then have "CHR ''0'' \<le> hd (dec n)" using set_dec by blast
  then have "hd (dec n) \<noteq> CHR ''-''" "hd (dec n) \<noteq> CHR ''+''" by (auto simp: less_eq_char_def)
  ultimately show ?thesis by (simp add: Atoi_def parse_digits_dec)
qed

text \<open>
  C40. The process group is read from every \<^verbatim>\<open>stat\<close> line of the kernel, whatever the name of the
  command contains, brackets and blanks included: the line is the number, the name in brackets,
  the letter of the state, the parent, the group (a number that is not negative) and the
  remaining fields, which have no bracket.
\<close>

theorem stat_pgrp_exact:
  assumes "printable state" and "pgrp < 2 ^ 63" and "CHR '')'' \<notin> set rest" and "state \<noteq> CHR '')''"
  shows "statPgrp (dec pid @ '' ('' @ comm @ '') '' @ [state] @ '' '' @ dec ppid @ '' '' @ dec pgrp @ '' '' @ rest) = int pgrp"
proof -
  let ?pre = "dec pid @ '' ('' @ comm"
  let ?tail = "'' '' @ [state] @ '' '' @ dec ppid @ '' '' @ dec pgrp @ '' '' @ rest"
  have "CHR '')'' \<notin> set ?tail" using assms(3,4) notin_dec [of "CHR '')''"] by (auto simp: less_char_def)
  then have "LastIndexByte (?pre @ CHR '')'' # ?tail) CHR '')'' = Some (length ?pre)"
    by (rule LastIndexByte_append)
  moreover have "Fields ?tail = [state] # dec ppid # dec pgrp # Fields rest"
    using fields_words [of "[state]"] fields_words [OF printable_dec] assms(1) by (simp add: fields_space)
  moreover have "drop (Suc (length ?pre)) (?pre @ CHR '')'' # ?tail) = ?tail" by (rule drop_after)
  ultimately have "statPgrp (?pre @ CHR '')'' # ?tail) = int pgrp" using Atoi_dec [OF assms(2)] unfolding statPgrp_def by (simp only: option.case Let_def) simp
  then show ?thesis by simp
qed

theorem stat_pgrp_exact_witness:
  "statPgrp (dec 42 @ '' ('' @ ''a) S 1 2 ('' @ '') '' @ ''R'' @ '' '' @ dec 1 @ '' '' @ dec 77 @ '' '' @ ''77 0'') = 77"
  using stat_pgrp_exact [of "CHR ''R''" 77 "''77 0''" 42 "''a) S 1 2 (''" 1] by (simp add: printable_def)

section \<open>The process of a group\<close>

definition in_group :: "int \<Rightarrow> proc_entry \<Rightarrow> int \<Rightarrow> bool" where
  "in_group pgrp entry pid \<longleftrightarrow> pe_isDir entry \<and> Atoi (pe_name entry) = (pid, True) \<and> (\<exists>stat. pe_stat entry = Inr stat \<and> statPgrp stat = pgrp)"

lemma scan_proc_exact:
  assumes "\<forall>entry \<in> set entries. pe_ctx entry = None"
  shows "case scan_proc pgrp entries of
      Inr pid \<Rightarrow> \<exists>entry \<in> set entries. in_group pgrp entry pid
    | Inl _ \<Rightarrow> \<forall>entry \<in> set entries. \<forall>pid. \<not> in_group pgrp entry pid"
  using assms
  by (induction entries) (auto simp: in_group_def split: sum.splits prod.splits bool.splits if_splits)

text \<open>
  The probe finds a process of the foreground group if there is one: the leader if its \<^verbatim>\<open>stat\<close>
  names the group, and otherwise an entry of \<^verbatim>\<open>/proc\<close>; it fails only if no entry is in the group, as
  long as the context is not cancelled and \<^verbatim>\<open>/proc\<close> can be listed.
\<close>

lemma foreground_found:
  assumes "\<forall>entry \<in> set entries. pe_ctx entry = None"
  shows "case processIDForGroup leader None (Inr entries) pgrp of
      Inr pid \<Rightarrow> (pid = pgrp \<and> (\<exists>stat. leader = Inr stat \<and> statPgrp stat = pgrp)) \<or> (\<exists>entry \<in> set entries. in_group pgrp entry pid)
    | Inl _ \<Rightarrow> \<forall>entry \<in> set entries. \<forall>pid. \<not> in_group pgrp entry pid"
  using scan_proc_exact [OF assms, of pgrp] by (auto simp: processIDForGroup_def split: sum.splits)

end
