(* ===== verification/Foreground_Darwin.thy ===== *)
theory Foreground_Darwin
  imports Foreground
begin

text \<open>
  The foreground process of a session on Darwin (\<^verbatim>\<open>metadata_darwin.go\<close>), from the process table and
  the argument buffer of the kernel, which are inputs. The machines are little-endian.
\<close>

record kinfo =
  ki_pid :: int
  ki_pgid :: int
  ki_comm :: bytes

definition commString :: "bytes \<Rightarrow> bytes" where
  "commString raw = TrimSpace (case IndexByte raw NUL of Some i \<Rightarrow> take i raw | None \<Rightarrow> raw)"

fun scan_kinfo :: "int \<Rightarrow> kinfo list \<Rightarrow> (int \<times> bytes) option" where
  "scan_kinfo pgrp [] = None"
| "scan_kinfo pgrp (info # infos) =
     (if ki_pgid info = pgrp \<and> commString (ki_comm info) \<noteq> []
      then Some (ki_pid info, commString (ki_comm info)) else scan_kinfo pgrp infos)"

definition foregroundProcess :: "go_error + kinfo \<Rightarrow> go_error + kinfo list \<Rightarrow> int \<Rightarrow> (int \<times> bytes) option" where
  "foregroundProcess leader processes pgrp =
     (case (case leader of Inl _ \<Rightarrow> None | Inr info \<Rightarrow> scan_kinfo pgrp [info]) of
        Some found \<Rightarrow> Some found
      | None \<Rightarrow> (case processes of Inl _ \<Rightarrow> None | Inr infos \<Rightarrow> scan_kinfo pgrp infos))"

text \<open>\<^verbatim>\<open>int32(binary.NativeEndian.Uint32(raw[:4]))\<close>.\<close>

definition int32_of :: "bytes \<Rightarrow> int" where
  "int32_of raw =
     (let v = int (byte_val (raw ! 0) + byte_val (raw ! 1) * 256 + byte_val (raw ! 2) * 65536 + byte_val (raw ! 3) * 16777216) in if v \<ge> 2 ^ 31 then v - 2 ^ 32 else v)"

text \<open>The arguments from a position of the buffer on.\<close>

fun read_args :: "nat \<Rightarrow> bytes \<Rightarrow> bytes list" where
  "read_args 0 buf = []"
| "read_args (Suc argc) buf =
     (if buf = [] then []
      else (case IndexByte buf NUL of
          None \<Rightarrow> [buf]
        | Some i \<Rightarrow> take i buf # read_args argc (drop (Suc i) buf)))"

definition parseProcArgs :: "bytes \<Rightarrow> bytes list" where
  "parseProcArgs raw =
     (if length raw < 4 then []
      else (let argc = int32_of raw; rest = drop 4 raw in
        if argc < 1 then []
        else (case IndexByte rest NUL of None \<Rightarrow> []
          | Some execEnd \<Rightarrow> read_args (nat argc) (dropWhile (\<lambda>c. c = NUL) (drop execEnd rest)))))"

definition processCommandLine :: "go_error + bytes \<Rightarrow> bytes \<Rightarrow> bytes" where
  "processCommandLine raw fallback =
     (case raw of Inl _ \<Rightarrow> fallback
      | Inr b \<Rightarrow> (let argv = parseProcArgs b in if argv \<noteq> [] then Join argv '' '' else fallback))"

definition probeForegroundFD_darwin ::
  "go_error + int \<Rightarrow> go_error option \<Rightarrow> (int \<Rightarrow> go_error + kinfo) \<Rightarrow> go_error + kinfo list \<Rightarrow> (int \<Rightarrow> go_error + bytes) \<Rightarrow>
   go_error + sessionMetadata" where
  "probeForegroundFD_darwin ioctl ctx leader processes procargs =
     (case ioctl of Inl e \<Rightarrow> Inl e
      | Inr pgrp \<Rightarrow> (case ctx of Some e \<Rightarrow> Inl e
      | None \<Rightarrow> (case foregroundProcess (leader pgrp) processes pgrp of
          None \<Rightarrow> Inl (Plain (''no process for foreground process group '' @ Itoa pgrp))
        | Some (pid, name) \<Rightarrow>
            Inr \<lparr>md_Process = name, md_CommandLine = processCommandLine (procargs pid) name, md_Directory = [], md_Shell = None\<rparr>)))"

section \<open>Arguments\<close>

definition int32_bytes :: "nat \<Rightarrow> bytes" where
  "int32_bytes n = [char_of n, char_of (n div 256), char_of (n div 65536), char_of (n div 16777216)]"

lemma int32_roundtrip:
  assumes "n < 2 ^ 31"
  shows "int32_of (int32_bytes n @ s) = int n"
proof -
  have "n mod 256 + (n div 256) mod 256 * 256 + (n div 65536) mod 256 * 65536 + (n div 16777216) mod 256 * 16777216 = n"
  proof -
    define a b c where "a = n div 256" and "b = a div 256" and "c = b div 256"
    have "n div 65536 = b" "n div 16777216 = c" by (simp_all add: a_def b_def c_def flip: div_mult2_eq)
    moreover have "c mod 256 = c" using assms by (simp add: a_def b_def c_def less_mult_imp_div_less flip: div_mult2_eq)
    moreover have "n = a * 256 + n mod 256" "a = b * 256 + a mod 256" "b = c * 256 + b mod 256" by (simp_all add: a_def b_def c_def)
    ultimately show ?thesis by (simp flip: a_def)
  qed
  then show ?thesis using assms by (simp add: int32_of_def int32_bytes_def Let_def)
qed

definition arg_bytes :: "bytes list \<Rightarrow> bytes" where
  "arg_bytes args = concat (map (\<lambda>a. a @ [NUL]) args)"

lemma read_args_exact:
  assumes "\<forall>a \<in> set args. NUL \<notin> set a"
  shows "read_args (length args) (arg_bytes args @ env) = args"
  using assms
proof (induction args)
  case (Cons a args)
  have "IndexByte (a @ NUL # arg_bytes args @ env) NUL = Some (length a)"
    using Cons.prems by (simp add: IndexByte_append_notin)
  then show ?case using Cons by (simp add: arg_bytes_def)
qed simp

lemma dropWhile_padding: "x \<noteq> [] \<Longrightarrow> hd x \<noteq> NUL \<Longrightarrow> dropWhile (\<lambda>c. c = NUL) (replicate k NUL @ x) = x"
  by (induction k) (cases x; simp)+

text \<open>
  The arguments of a process are read back from the kernel's buffer: the count, the path of the
  program, any padding, the arguments and whatever follows them. The first argument must not be empty, as its
  terminator would be taken for padding.
\<close>

lemma procargs_roundtrip:
  assumes "args \<noteq> []" and "hd args \<noteq> []" and "\<forall>a \<in> set args. NUL \<notin> set a" and "NUL \<notin> set path" and "length args < 2 ^ 31"
  shows "parseProcArgs (int32_bytes (length args) @ path @ replicate (Suc k) NUL @ arg_bytes args @ env) = args"
proof -
  let ?rest = "path @ replicate (Suc k) NUL @ arg_bytes args @ env"
  have idx: "IndexByte ?rest NUL = Some (length path)" using assms(4) by (simp add: IndexByte_append_notin)
  obtain a as where args: "args = a # as" "a \<noteq> []" using assms(1,2) by (cases args) auto
  then have "hd a \<noteq> NUL" using assms(3) by (metis hd_in_set list.set_intros(1))
  then have "dropWhile (\<lambda>c. c = NUL) (drop (length path) ?rest) = arg_bytes args @ env"
    using dropWhile_padding [of "arg_bytes args @ env" "Suc k"] args by (simp add: arg_bytes_def)
  moreover have "drop 4 (int32_bytes (length args) @ ?rest) = ?rest" "length (int32_bytes (length args)) = 4" by (simp_all add: int32_bytes_def)
  moreover have "\<not> int (length args) < 1" using assms(1) by (cases args) simp_all
  ultimately show ?thesis
    using idx int32_roundtrip [OF assms(5)] read_args_exact [OF assms(3)] unfolding parseProcArgs_def by simp
qed

end
