(* ===== verification/Polling.thy ===== *)
theory Polling
  imports Session
begin

text \<open>
  The waits of the copy loop (\<^verbatim>\<open>process.go\<close>): for output or a migration, for readable data, and for
  the command of a session. A poll of the system is an input: an error, or the number of ready
  descriptors with the events of each; a wait goes over a list of polls, and the end of the list is a
  wait that is not over.
\<close>

unbundle bit_operations_syntax

definition POLLIN :: "16 word" where "POLLIN = 1"
definition POLLERR :: "16 word" where "POLLERR = 8"
definition POLLHUP :: "16 word" where "POLLHUP = 16"
definition POLLNVAL :: "16 word" where "POLLNVAL = 32"

datatype poll = Interrupt | PollFailed go_error | Polled nat "16 word" "16 word"

definition readable :: "16 word \<Rightarrow> bool" where
  "readable revents \<longleftrightarrow> revents AND (POLLIN OR POLLHUP OR POLLERR) \<noteq> 0"

definition poll_answer :: "16 word \<Rightarrow> bool \<times> go_error option" where
  "poll_answer revents = (if revents AND POLLNVAL \<noteq> 0 then (False, Some (Sentinel ErrInvalid)) else (readable revents, None))"

text \<open>The first descriptor is the file; the second is not used by this wait.\<close>

fun readable_loop :: "poll list \<Rightarrow> (bool \<times> go_error option) option" where
  "readable_loop [] = None"
| "readable_loop (Interrupt # polls) = readable_loop polls"
| "readable_loop (PollFailed e # polls) = Some (False, Some e)"
| "readable_loop (Polled ready revents _ # polls) = Some (if ready = 0 then (False, None) else poll_answer revents)"

definition waitReadable :: "bool \<Rightarrow> poll list \<Rightarrow> (bool \<times> go_error option) option" where
  "waitReadable file polls = (if \<not> file then Some (False, Some (Sentinel ErrInvalid)) else readable_loop polls)"

fun output_wait_loop :: "poll list \<Rightarrow> (bool \<times> go_error option) option" where
  "output_wait_loop [] = None"
| "output_wait_loop (Interrupt # polls) = output_wait_loop polls"
| "output_wait_loop (PollFailed e # polls) = Some (False, Some e)"
| "output_wait_loop (Polled ready revents wake # polls) =
     (if ready = 0 then output_wait_loop polls
      else if readable wake then Some (False, None)
      else Some (poll_answer revents))"

definition waitOutputOrMigration :: "bool \<Rightarrow> bool \<Rightarrow> poll list \<Rightarrow> (bool \<times> go_error option) option" where
  "waitOutputOrMigration master migrationWake polls =
     (if \<not> master then Some (False, Some (Sentinel ErrInvalid))
      else if \<not> migrationWake then waitReadable master polls
      else output_wait_loop polls)"

text \<open>
  \<^verbatim>\<open>waitSessionCommand\<close>: the result of the wait for the command, whether the master was closed, and the
  signals to the process group. \<open>inGrace\<close> is whether the command ends before the timer.
\<close>

definition waitSessionCommand :: "bool \<Rightarrow> go_error option \<Rightarrow> 't sessionState \<Rightarrow> go_error option \<times> bool \<times> (int \<times> int) list" where
  "waitSessionCommand inGrace waitErr st =
     (case terminalError (st_output st) of
        None \<Rightarrow> (waitErr, False, [])
      | Some _ \<Rightarrow> (waitErr, True, (- st_pid st, SIGHUP) # (if inGrace then [] else [(- st_pid st, SIGKILL)])))"

section \<open>Facts\<close>

text \<open>A request for a migration is seen by the first poll that reports it, whatever output is pending.\<close>

lemma wake_seen:
  assumes "ready \<noteq> 0" and "wake AND POLLIN \<noteq> 0"
  shows "waitOutputOrMigration True True (replicate k Interrupt @ Polled ready revents wake # polls) = Some (False, None)"
proof -
  have "readable wake"
  proof -
    from assms(2) obtain n where "bit (wake AND POLLIN) n" by (metis bit_0_eq bit_eq_iff bot_apply bot_bool_def)
    then have "bit (wake AND (POLLIN OR POLLHUP OR POLLERR)) n" by (simp add: bit_and_iff bit_or_iff)
    then show ?thesis unfolding readable_def by force
  qed
  then show ?thesis using assms(1) by (induction k) (simp_all add: waitOutputOrMigration_def)
qed

text \<open>A read is tried only after a poll that reported data, the end of the stream or an error.\<close>

lemma read_after_poll:
  assumes "waitOutputOrMigration master wake polls = Some (True, err)"
  shows "err = None \<and> (\<exists>ready revents w. Polled ready revents w \<in> set polls \<and> ready \<noteq> 0 \<and> readable revents)"
proof -
  have "output_wait_loop polls = Some (True, err) \<Longrightarrow> ?thesis"
    by (induction polls rule: output_wait_loop.induct) (auto simp: poll_answer_def split: if_splits)
  moreover have "readable_loop polls = Some (True, err) \<Longrightarrow> ?thesis"
    by (induction polls rule: readable_loop.induct) (auto simp: poll_answer_def split: if_splits)
  ultimately show ?thesis using assms by (auto simp: waitOutputOrMigration_def waitReadable_def split: if_splits)
qed

end
