(* ===== verification/Command_Line.thy ===== *)
theory Command_Line
  imports Managed Serving Adoption
begin

text \<open>
  The command \<^verbatim>\<open>ghostline serve\<close> (\<^verbatim>\<open>cmd/ghostline/main.go\<close>): its flags as package \<^verbatim>\<open>flag\<close> reads them, the
  server it makes of them, the adoption of the sessions of an old server before anything is served,
  and the exit status. The last section ties it to the managed client, which starts this command.
\<close>

section \<open>Values of flags\<close>

text \<open>\<^verbatim>\<open>strconv.underscoreOK\<close> on a text without a sign: \<open>saw\<close> is the kind of the byte before.\<close>

fun underscores_ok :: "bool \<Rightarrow> byte \<Rightarrow> bytes \<Rightarrow> bool" where
  "underscores_ok hex saw [] \<longleftrightarrow> saw \<noteq> CHR ''_''"
| "underscores_ok hex saw (c # cs) \<longleftrightarrow>
     (if CHR ''0'' \<le> c \<and> c \<le> CHR ''9'' \<or> hex \<and> CHR ''a'' \<le> lower_ascii c \<and> lower_ascii c \<le> CHR ''f''
      then underscores_ok hex CHR ''0'' cs
      else if c = CHR ''_'' then saw = CHR ''0'' \<and> underscores_ok hex CHR ''_'' cs
      else saw \<noteq> CHR ''_'' \<and> underscores_ok hex CHR ''!'' cs)"

text \<open>\<^verbatim>\<open>strconv.ParseUint(s, 0, bits)\<close>: the prefix gives the base, and underscores may separate digits.\<close>

definition number_base :: "bytes \<Rightarrow> nat \<times> bytes" where
  "number_base s =
     (let c = (if 3 \<le> length s then lower_ascii (s ! 1) else NUL) in
      if hd s \<noteq> CHR ''0'' then (10, s)
      else if c = CHR ''b'' then (2, drop 2 s)
      else if c = CHR ''o'' then (8, drop 2 s)
      else if c = CHR ''x'' then (16, drop 2 s)
      else (8, tl s))"

definition separators_ok :: "bytes \<Rightarrow> bool" where
  "separators_ok s =
     (if 2 \<le> length s \<and> hd s = CHR ''0'' \<and> lower_ascii (s ! 1) \<in> set ''box''
      then underscores_ok (lower_ascii (s ! 1) = CHR ''x'') CHR ''0'' (drop 2 s)
      else underscores_ok False CHR ''^'' s)"

definition ParseUint0 :: "bytes \<Rightarrow> nat \<Rightarrow> u64 option" where
  "ParseUint0 s bits =
     (if s = [] then None
      else (case number_base s of (base, digits) \<Rightarrow>
        (case parse_digits base 0 (filter (\<lambda>c. c \<noteq> CHR ''_'') digits) of
           None \<Rightarrow> None
         | Some n \<Rightarrow>
             if 2 ^ bits \<le> n \<or> CHR ''_'' \<in> set digits \<and> \<not> separators_ok s then None else Some (of_nat n))))"

definition ParseBool :: "bytes \<Rightarrow> bool option" where
  "ParseBool s =
     (if s \<in> set [''1'', ''t'', ''T'', ''true'', ''TRUE'', ''True''] then Some True
      else if s \<in> set [''0'', ''f'', ''F'', ''false'', ''FALSE'', ''False''] then Some False else None)"

section \<open>Flags\<close>

record flags =
  fl_socket :: bytes
  fl_outputDir :: bytes
  fl_defaultTerm :: bytes
  fl_scrollback :: u64
  fl_adoptFrom :: bytes
  fl_probeForeground :: bool

definition new_flags :: flags where
  "new_flags = \<lparr>fl_socket = [], fl_outputDir = [], fl_defaultTerm = [], fl_scrollback = 0, fl_adoptFrom = [],
     fl_probeForeground = False\<rparr>"

definition flag_names :: "bytes list" where
  "flag_names =
     [''socket'', ''output-dir'', ''default-term'', ''vt-scrollback-max-bytes'', ''adopt-from'', ''probe-foreground'']"

text \<open>\<^verbatim>\<open>Value.Set\<close> of a flag that is defined; \<open>None\<close> is a value that is refused.\<close>

definition set_flag :: "bytes \<Rightarrow> bytes \<Rightarrow> flags \<Rightarrow> flags option" where
  "set_flag name v f =
     (if name = ''socket'' then Some (f\<lparr>fl_socket := v\<rparr>)
      else if name = ''output-dir'' then Some (f\<lparr>fl_outputDir := v\<rparr>)
      else if name = ''default-term'' then Some (f\<lparr>fl_defaultTerm := v\<rparr>)
      else if name = ''vt-scrollback-max-bytes'' then map_option (\<lambda>n. f\<lparr>fl_scrollback := n\<rparr>) (ParseUint0 v 64)
      else if name = ''adopt-from'' then Some (f\<lparr>fl_adoptFrom := v\<rparr>)
      else map_option (\<lambda>b. f\<lparr>fl_probeForeground := b\<rparr>) (ParseBool v))"

text \<open>One argument: no flag (or \<^verbatim>\<open>--\<close>), a malformed one, or a name with the value behind an equals sign.\<close>

datatype flag_arg = NoFlag | BadFlag | NamedFlag bytes "bytes option"

definition scan_name :: "bytes \<Rightarrow> flag_arg" where
  "scan_name name =
     (if name = [] \<or> hd name = CHR ''-'' \<or> hd name = CHR ''='' then BadFlag
      else (case IndexByte name CHR ''='' of
          None \<Rightarrow> NamedFlag name None
        | Some i \<Rightarrow> NamedFlag (take i name) (Some (drop (Suc i) name))))"

fun scan_arg :: "bytes \<Rightarrow> flag_arg" where
  "scan_arg (a # b # cs) =
     (if a \<noteq> CHR ''-'' then NoFlag
      else if b \<noteq> CHR ''-'' then scan_name (b # cs)
      else if cs = [] then NoFlag else scan_name cs)"
| "scan_arg s = NoFlag"

text \<open>
  \<^verbatim>\<open>FlagSet.Parse\<close> with \<^verbatim>\<open>ExitOnError\<close>: the flags, or the status the process exits with (0 after a request
  for help). The text that the package prints then is left out.
\<close>

fun parse_flags :: "bytes list \<Rightarrow> flags \<Rightarrow> int + flags" where
  "parse_flags [] f = Inr f"
| "parse_flags (s # args) f =
     (case scan_arg s of
        NoFlag \<Rightarrow> Inr f
      | BadFlag \<Rightarrow> Inl 2
      | NamedFlag name v \<Rightarrow>
          if name \<notin> set flag_names then Inl (if name = ''help'' \<or> name = ''h'' then 0 else 2)
          else if name = ''probe-foreground'' then
            (case set_flag name (case v of None \<Rightarrow> ''true'' | Some x \<Rightarrow> x) f of
               None \<Rightarrow> Inl 2 | Some f' \<Rightarrow> parse_flags args f')
          else
            (case v of
               Some x \<Rightarrow> (case set_flag name x f of None \<Rightarrow> Inl 2 | Some f' \<Rightarrow> parse_flags args f')
             | None \<Rightarrow>
                 (case args of
                    [] \<Rightarrow> Inl 2
                  | x # rest \<Rightarrow> (case set_flag name x f of None \<Rightarrow> Inl 2 | Some f' \<Rightarrow> parse_flags rest f'))))"

section \<open>The command\<close>

text \<open>
  The inputs of a run: the home directory (empty when there is none), what the admin socket of the old server
  leads to, what \<^verbatim>\<open>Serve\<close> returns on the path and what the calls have made of the hub by then, the state of
  the context at the end, and the processes for \<^verbatim>\<open>Shutdown\<close>.
\<close>

record ('t, 's) command_env =
  cv_home :: bytes
  cv_adopt :: "bytes \<Rightarrow> adopt_env \<times> 's adopting"
  cv_serve :: "bytes \<Rightarrow> 't hub \<Rightarrow> go_error option \<times> 't hub"
  cv_ctx :: "go_error option"
  cv_reap :: "nat \<Rightarrow> bool \<times> bool"
  cv_order :: "nat list"

definition default_output_dir :: "bytes \<Rightarrow> bytes" where
  "default_output_dir home = filepath_Join home ''.ghostline/output''"

definition flag_options :: "bytes \<Rightarrow> flags \<Rightarrow> options" where
  "flag_options home f =
     \<lparr>OutputDir = (if fl_outputDir f = [] then default_output_dir home else fl_outputDir f), DefaultSize = Size 0 0,
      DefaultTerm = fl_defaultTerm f, VTScrollback = fl_scrollback f, ProbeForeground = fl_probeForeground f\<rparr>"

definition adopt_first ::
  "'s transport \<Rightarrow> adopt_codec \<Rightarrow> 't platform \<Rightarrow> ('t, 's) command_env \<Rightarrow> bytes \<Rightarrow> 't hub \<Rightarrow> (nat \<times> go_error option) \<times> 't hub" where
  "adopt_first T Q P E source h =
     (if source = [] then ((0, None), h)
      else (case cv_adopt E source of (A, c) \<Rightarrow> (case adoptSessions T Q P A h c of (r, h1, _) \<Rightarrow> (r, h1))))"

text \<open>The exit status, the lines on standard error and the hub of the server, if there was one.\<close>

definition serveCommand ::
  "'s transport \<Rightarrow> adopt_codec \<Rightarrow> 't platform \<Rightarrow> ('t, 's) command_env \<Rightarrow> bytes list \<Rightarrow> int \<times> bytes list \<times> 't hub option" where
  "serveCommand T Q P E args =
     (case parse_flags args new_flags of
        Inl status \<Rightarrow> (status, [], None)
      | Inr f \<Rightarrow>
          if fl_socket f = [] then (2, [''ghostline serve: --socket is required''], None)
          else (case NewServer (default_output_dir (cv_home E)) (flag_options (cv_home E) f) 0 of
              Inl e \<Rightarrow> (1, [''ghostline serve: '' @ Error e], None)
            | Inr (h, _) \<Rightarrow>
                (case adopt_first T Q P E (fl_adoptFrom f) h of
                   ((_, Some e), h1) \<Rightarrow> (1, [''ghostline serve: adopt from '' @ fl_adoptFrom f @ '': '' @ Error e], Some h1)
                 | ((n, None), h1) \<Rightarrow>
                     (let told = (if n > 0 then [''ghostline serve: adopted '' @ Itoa (int n) @ '' session(s)''] else []) in
                      case cv_serve E (fl_socket f) h1 of
                        (Some e, h2) \<Rightarrow> (1, told @ [''ghostline serve: '' @ Error e], Some h2)
                      | (None, h2) \<Rightarrow>
                          (0, told, Some (if cv_ctx E = None then h2 else snd (Shutdown None (cv_reap E) (cv_order E) h2)))))))"

definition usage :: bytes where
  "usage = ''usage: ghostline serve --socket <path> [--output-dir <dir>] [--default-term <term>] [--vt-scrollback-max-bytes <bytes>] [--adopt-from <admin-socket>] [--probe-foreground]''"

definition main_command ::
  "'s transport \<Rightarrow> adopt_codec \<Rightarrow> 't platform \<Rightarrow> ('t, 's) command_env \<Rightarrow> bytes list \<Rightarrow> int \<times> bytes list \<times> 't hub option" where
  "main_command T Q P E argv =
     (case argv of
        _ # command # args \<Rightarrow>
          if command = ''serve'' then serveCommand T Q P E args
          else if command \<in> set [''help'', ''-h'', ''--help''] then (0, [usage], None)
          else (2, [''ghostline: unknown command '' @ Quote command, usage], None)
      | _ \<Rightarrow> (2, [usage], None))"

section \<open>Flags round trip\<close>

definition flag_args :: "flags \<Rightarrow> bytes list" where
  "flag_args f =
     [''--socket='' @ fl_socket f, ''--output-dir='' @ fl_outputDir f, ''--default-term='' @ fl_defaultTerm f,
      ''--vt-scrollback-max-bytes='' @ FormatUint (fl_scrollback f), ''--adopt-from='' @ fl_adoptFrom f,
      ''--probe-foreground='' @ (if fl_probeForeground f then ''true'' else ''false'')]"

lemma scan_arg_equals:
  assumes "name \<noteq> []" and "hd name \<noteq> CHR ''-''" and "CHR ''='' \<notin> set name"
  shows "scan_arg (''--'' @ name @ CHR ''='' # v) = NamedFlag name (Some v)"
proof -
  have "hd name \<noteq> CHR ''=''" using assms(1,3) by (cases name) auto
  moreover have "find_index (\<lambda>x. x = CHR ''='') name = None"
    using assms(3) by (auto simp: find_index_None)
  then have "IndexByte (name @ CHR ''='' # v) CHR ''='' = Some (length name)"
    by (simp add: IndexByte_def find_index_append)
  ultimately show ?thesis using assms(1,2) by (simp add: scan_name_def)
qed

lemma hd_dec: "0 < n \<Longrightarrow> hd (dec n) \<noteq> CHR ''0''"
proof (induction n rule: dec.induct)
  case (1 n)
  show ?case
  proof (cases "n < 10")
    case True
    moreover have "digit_val CHR ''0'' = Some 0" by code_simp
    ultimately show ?thesis using 1(2) digit_val_digit_char [of n] by (auto simp: dec.simps [of n])
  next
    case False
    then show ?thesis using 1(1) by (simp add: dec.simps [of n])
  qed
qed

lemma dec_0: "dec 0 = ''0''"
  by code_simp

lemma number_base_dec: "number_base (dec n) = (if n = 0 then (8, []) else (10, dec n))"
  using hd_dec [of n] by (auto simp: number_base_def Let_def dec_0)

lemma ParseUint0_FormatUint: "ParseUint0 (FormatUint x) 64 = Some x"
proof (cases "x = 0")
  case True
  then show ?thesis by (simp add: ParseUint0_def FormatUint_def number_base_dec)
next
  case False
  have "CHR ''_'' \<notin> set (dec (unat x))" by (rule notin_dec) simp
  moreover from this have "filter (\<lambda>c. c \<noteq> CHR ''_'') (dec (unat x)) = dec (unat x)"
    by (auto simp: filter_id_conv)
  moreover have "unat x < 2 ^ 64" by (rule unat_u64_less)
  ultimately show ?thesis using False
    by (simp add: ParseUint0_def FormatUint_def number_base_dec parse_digits_dec unat_eq_0)
qed

text \<open>Every setting of the flags can be given on the command line, whatever the texts contain.\<close>

lemma flags_roundtrip: "parse_flags (flag_args f) g = Inr f"
proof -
  note scan = scan_arg_equals [of "''socket''"] scan_arg_equals [of "''output-dir''"] scan_arg_equals [of "''default-term''"]
    scan_arg_equals [of "''vt-scrollback-max-bytes''"] scan_arg_equals [of "''adopt-from''"] scan_arg_equals [of "''probe-foreground''"]
  show ?thesis
    using scan by (simp add: flag_args_def flag_names_def set_flag_def ParseUint0_FormatUint ParseBool_def del: scan_arg.simps)
qed

section \<open>The command\<close>

text \<open>A server that could not take over the old sessions does not start to serve.\<close>

lemma adopt_before_serve [simp]: "adopt_first T Q P (E\<lparr>cv_serve := any\<rparr>) = adopt_first T Q P E"
  by (intro ext) (simp add: adopt_first_def)

lemma failed_adoption_serves_nothing:
  assumes "parse_flags args new_flags = Inr f" and "fl_socket f \<noteq> []"
    and "NewServer (default_output_dir (cv_home E)) (flag_options (cv_home E) f) 0 = Inr (h, k)"
    and "adopt_first T Q P E (fl_adoptFrom f) h = ((n, Some e), h1)"
  shows "serveCommand T Q P (E\<lparr>cv_serve := any\<rparr>) args = (1, [''ghostline serve: adopt from '' @ fl_adoptFrom f @ '': '' @ Error e], Some h1)"
  using assms by (simp add: serveCommand_def)

section \<open>The command of a managed client\<close>

lemma ReplaceAll_absent: "Index s pat = None \<Longrightarrow> ReplaceAll s pat rep = s"
  by (induction s) (auto split: if_splits)

text \<open>
  The server that a managed client starts by default, with no session yet, serves the socket that the
  client connects to.
\<close>

definition spawned_hub :: "bytes \<Rightarrow> 't hub" where
  "spawned_hub home =
     \<lparr>h_outputDir = default_output_dir home, h_defaultSize = Size defaultColumns defaultRows, h_defaultTerm = [],
      h_scrollback = DefaultVTScrollbackMaxBytes, h_probe = False, h_sessions = Map.empty, h_pending = {},
      h_closed = False, h_states = []\<rparr>"

lemma spawned_serves_socket:
  fixes E :: "('t, 's) command_env"
  assumes "mc_spawn c = []" and "mc_socket c \<noteq> []" and "Index (mc_socket c) ''{socket}'' = None"
    and "cv_serve E (mc_socket c) (spawned_hub (cv_home E)) = (None, h)" and "cv_ctx E = None"
  shows "main_command T Q P E (spawn_args c) = (0, [], Some h)"
proof -
  have "spawn_args c = [''ghostline'', ''serve'', ''--socket'', mc_socket c]"
    using assms(1,3) by (simp add: spawn_args_def ReplaceAll_absent)
  moreover have "parse_flags [''--socket'', mc_socket c] new_flags = Inr (new_flags\<lparr>fl_socket := mc_socket c\<rparr>)"
    by (simp add: scan_name_def IndexByte_def flag_names_def set_flag_def)
  moreover have "Size_resolve zero_size (Size defaultColumns defaultRows) = Inr (Size defaultColumns defaultRows)"
    by code_simp
  then have "NewServer (default_output_dir (cv_home E)) (flag_options (cv_home E) (new_flags\<lparr>fl_socket := mc_socket c\<rparr>)) 0 =
      Inr (spawned_hub (cv_home E) :: 't hub, DefaultServerMaxClientConnections)"
    by (simp add: NewServer_def New_def flag_options_def new_flags_def spawned_hub_def resolveVTScrollbackMaxBytes_def)
  moreover have "fl_adoptFrom new_flags = []" by (simp add: new_flags_def)
  ultimately show ?thesis
    using assms(2,4,5) by (simp add: main_command_def serveCommand_def adopt_first_def del: parse_flags.simps)
qed

text \<open>
  The placeholder is also replaced in the default command, so a socket path that contains it is not the
  path that the started server serves.
\<close>

lemma placeholder_in_socket:
  "spawn_args (NewClient ''/run/{socket}'') = [''ghostline'', ''serve'', ''--socket'', ''/run//run/{socket}'']"
  by (simp add: spawn_args_def NewClient_def)

end
