(* ===== verification/Spec2Isabelle.thy ===== *)
theory Spec2Isabelle
  imports Size_Marks Log_Cursors Reader_Progress Query_Responder Upgrade Session_Sizes Serving_Facts Managed_Facts
    Minimux_Facts Foreground_Darwin Polling Command_Line
begin

text \<open>
  A verification of ghostline, a Go library and daemon that keeps terminal sessions alive: child processes on
  pseudo terminals whose output is recorded in a segmented log and fed to an emulated terminal, and which
  can be used over a Unix socket and handed over from one server process to the next without ending.

  \<^bold>\<open>The program.\<close> A \<^emph>\<open>hub\<close> (\<^verbatim>\<open>hub.go\<close>) owns the sessions of a process by name. A \<^emph>\<open>session\<close> (\<^verbatim>\<open>process.go\<close>,
  \<^verbatim>\<open>session.go\<close>) has a PTY master, a copy loop that appends what the child writes to its \<^emph>\<open>output log\<close> (\<^verbatim>\<open>output.go\<close>)
  and feeds the same bytes to its \<^emph>\<open>terminal\<close> (\<^verbatim>\<open>terminal.go\<close>, a layer over libghostty-vt). Readers follow the
  log by cursors. A \<^emph>\<open>server\<close> (\<^verbatim>\<open>server.go\<close>) offers the sessions on a socket in a framed protocol (\<^verbatim>\<open>rpc.go\<close>), and a
  \<^emph>\<open>client\<close> (\<^verbatim>\<open>client.go\<close>) gives remote sessions the same interface as local ones and may start the server itself. In
  a \<^emph>\<open>rolling upgrade\<close> (\<^verbatim>\<open>migrate.go\<close>, \<^verbatim>\<open>migrate_v0.go\<close>) a new server connects to the admin socket of the old one,
  receives the PTY masters and snapshots of all sessions, and commits; the old server then exits.

  \<^bold>\<open>How the model is made.\<close> A Go function is a HOL function with the name of the source; a structure is a record, a
  string or byte slice a list of characters, a \<^verbatim>\<open>uint64\<close> a \<open>64 word\<close>, an \<^verbatim>\<open>error\<close> a value of \<open>go_error\<close> and an error
  return a value \<open>Some e\<close> or \<open>Inl e\<close>. What the operating system answers is an argument: faults of system calls, bytes that a
  failing write still put down, the end of a context, the exit of a child, the readiness of a descriptor. Where the code
  waits in a loop, the answers come as a list with one element per turn, and \<open>None\<close>, or the end of the list, is a
  wait that is not over. Only the loop of a read has fuel: \<open>Reader_Progress\<close> shows that one turn per generation between the
  cursor and the end of the log is enough for it to return or to wait. Pointers are indices
  (sessions of a hub, inodes of the disk, sockets, migration tickets). Goroutines and locks appear as step relations whose steps
  are the regions between two lock operations or two system calls, so the theorems hold for every interleaving.
  Code outside of the repository is a parameter: libghostty-vt (the record \<open>ghostty\<close>, with its laws as hypotheses where a theorem needs
  them), the codecs \<^verbatim>\<open>encoding/json\<close>, \<^verbatim>\<open>base64\<close> and \<^verbatim>\<open>gzip\<close>, host name, clock and Unicode case mapping.

  \<^bold>\<open>Foundations.\<close>
  \<^item> \<open>Prelude\<close>, \<open>Go_Strings\<close>, \<open>Disk\<close>: types and generic lemmas; the parts of \<^verbatim>\<open>strings\<close>, \<^verbatim>\<open>strconv\<close> and \<^verbatim>\<open>filepath\<close> in use;
    a file system with inodes, faults and partial writes.
  \<^item> \<open>Errors\<close> (\<^verbatim>\<open>errors.go\<close>, the RPC codes of \<^verbatim>\<open>rpc.go\<close>, exit conversion of \<^verbatim>\<open>process.go\<close>): sentinels, wrapping, \<^verbatim>\<open>errors.Is\<close>
    and \<^verbatim>\<open>As\<close>; an error keeps its identity over the wire.
  \<^item> \<open>Cursor\<close>, \<open>Validation\<close>: cursors with their order, text form and distance; checks of names, environments, sizes, signals.

  \<^bold>\<open>Output.\<close>
  \<^item> \<open>Output_Log\<close> is \<^verbatim>\<open>outputLog\<close>: create, open, append, rotate, prune, resize marks, close, discard, failure. \<open>Log_Invariants\<close>
    has its invariant over memory and disk; \<open>Log_History\<close> has the locale \<open>segment_store\<close>, the contract readers
    rely on over histories of the log, and interprets it on the log and its disk. \<open>Log_Cursors\<close> shows that a cursor
    names the same position for ever, \<open>Size_Marks\<close> that the reported terminal size is the one in force at each byte, and
    \<open>Log_Reopen\<close> that the next server recovers the log it takes over.
  \<^item> \<open>Output_Reader\<close> is \<^verbatim>\<open>localOutputSource\<close>. \<open>Reader_Stream\<close>: a reader delivers the bytes of the log exactly, whatever happens
    between and inside of its reads. \<open>Reader_Progress\<close>: a read ends after a bounded number of turns, no wake-up is lost; and a
    pinned reader that a prune overtakes skips bytes without an error.
  \<^item> \<open>Query_Responder\<close> (\<^verbatim>\<open>query.go\<close>), \<open>Semantic\<close> (\<^verbatim>\<open>semantic.go\<close>), \<open>Pwd\<close> (\<^verbatim>\<open>pwd.go\<close>): scanners over the output. The replies to
    queries do not depend on how the output is cut into chunks, as long as no OSC terminator is split.

  \<^bold>\<open>Sessions.\<close>
  \<^item> \<open>Terminal\<close>, \<open>Terminal_Facts\<close> (\<^verbatim>\<open>terminal.go\<close>): feeding, command lines of prompt cycles, resize repairs, the envelope of an encoded
    state. Every byte reaches the emulator once and in order; a state that is handed over restores the encoded terminal or fails.
  \<^item> \<open>Process_Env\<close>: command and environment of the child. \<open>Foreground\<close>, \<open>Foreground_Darwin\<close>: the foreground process from \<^verbatim>\<open>/proc\<close> and from
    the process table.
  \<^item> \<open>Session\<close>, \<open>Session_Facts\<close>, \<open>Session_Sizes\<close>: starting, recording, resizing, terminating, every operation of a handle; a
    checkpoint is exactly the output up to its cursor, and sizes always fit the 16-bit fields of the terminal.
  \<^item> \<open>Hub\<close>, \<open>Hub_Facts\<close>: concurrent starts, deletes and freezes; a reserved name is exclusive, a frozen inventory does not change.
  \<^item> \<open>Migration\<close>, \<open>Migration_Facts\<close>: the ticket between the admin handler and the copy loop. Bytes are recorded exactly once, by
    one of the two servers; a commit that passed its preflight completes; a ticket is noticed; and an abort after a timeout may hang.
    \<open>Polling\<close>: the polls by which the copy loop waits for output and for a migration, and the wait for the child.

  \<^bold>\<open>Server and client.\<close>
  \<^item> \<open>Rpc\<close>, \<open>Streams\<close>, \<open>Remote_Output\<close>: framing, blob streams and the output stream on both sides of the socket. A blob
    arrives byte for byte or not at all; a remote reader refines the local one.
  \<^item> \<open>Dispatch\<close> (server), \<open>Remote_Session\<close> (client), \<open>Remote_Session_Facts\<close> (both together): every operation of a session
    works through the socket as in the process, once, up to the translation of errors; \<^verbatim>\<open>Wait\<close> is the exception.
  \<^item> \<open>Serving\<close>, \<open>Serving_Facts\<close>: the sockets, the accept loop with its slots and the ways to stop, for any number of servers. Sockets are
    released, a serving server stays reachable unless its predecessor on the path has not returned yet.
  \<^item> \<open>Managed\<close>, \<open>Managed_Facts\<close>: the client that starts a server. No process is left running, provided that a
    running server answers.
  \<^item> \<open>Command_Line\<close> (\<^verbatim>\<open>cmd/ghostline\<close>): the flags, the adoption before serving, the exit status; the command that a managed
    client starts serves the socket of the client.

  \<^bold>\<open>Rolling upgrade.\<close>
  \<^item> \<open>Admin\<close>, \<open>Admin_Facts\<close>: the handler of the old server. Tickets and freezes are balanced however a connection ends; a commit moves
    all the sessions it names or none.
  \<^item> \<open>Admin_Transport\<close>, \<open>Adoption\<close>, \<open>Adoption_Facts\<close>: the transport with descriptors, and the new server. An adoption is atomic and leaks no
    descriptor, in a locale of transports that the admin socket interprets; messages survive every cut the kernel makes.
  \<^item> \<open>Upgrade\<close>: both servers together. A session has exactly one owner in the end, unless the answer to the commit is lost; then
    it may have none.

  \<^bold>\<open>Minimux\<close> (\<open>Minimux\<close>, \<open>Minimux_Facts\<close>; \<^verbatim>\<open>examples/minimux\<close>): a multiplexer on top of the library, over an interface of sessions
  that is interpreted with the hub of this development. It always shows one of its windows, and the effect of its input does not depend
  on how it arrives.

  \<^bold>\<open>Not modelled.\<close> The binding of libghostty-vt itself, which is C code behind cgo; builds without it
  (\<^verbatim>\<open>terminal_nocgo.go\<close>), in which every constructor fails; \<^verbatim>\<open>metadata_other.go\<close> and \<^verbatim>\<open>metadata_dup_unix.go\<close>, which are empty or a
  single system call. Deadlines and timers are no clocks but the errors and wake-ups they cause. Left out as well are \<^verbatim>\<open>adminLoop\<close>
  and \<^verbatim>\<open>monitorConnection\<close>, which only start a handler and cancel a context, the writer that serializes the log of a managed server,
  the raw mode of the terminal in minimux, the two \<^verbatim>\<open>Check\<close> probes, and descriptors that the kernel drops from a message.
\<close>

end
